(* ===== verification/Prelude.thy ===== *)
theory Prelude
  imports Main "HOL-Library.Char_ord" "HOL-Library.List_Lexorder"
begin

text \<open>
  Shared by every theory of the development: the error values of the Go packages, the part
  of package \<open>strings\<close> that the code calls (on byte strings: a Go string is a sequence of
  bytes and so is a HOL \<open>string\<close>), decimal printing for the \<open>%d\<close> verbs, and generic
  lemmas on lists.  The lemma collection \<open>gostr\<close> holds the rewrite rules that turn the
  string predicates into equations between lists.
\<close>

named_theorems gostr \<open>characterisations of the string functions\<close>

section \<open>Errors\<close>

text \<open>
  A Go error is a chain of wrapped errors; callers test it with \<open>errors.Is\<close> against a
  sentinel.  The model keeps the sentinel that the chain wraps with \<open>%w\<close> (or \<open>Plain\<close>
  when it wraps none of the module's; \<open>Panic\<close> is a run-time panic) and the literal part of the message as detail.
\<close>

datatype sentinel =
    ErrNoIdentity | ErrNoTenant | ErrInvalidToken | ErrNoKey
  | ErrMalformed | ErrAlgorithm | ErrSignature | ErrKeyMismatch
  | ErrNoCurrent | ErrConflict | ErrNotExist | CtxCanceled | Panic | Plain

datatype error = Error (err_sentinel: sentinel) (err_detail: string)

definition errors_Is :: "error \<Rightarrow> sentinel \<Rightarrow> bool" where
  "errors_Is e s \<longleftrightarrow> err_sentinel e = s"

lemma errors_Is_Error [simp]: "errors_Is (Error s d) t \<longleftrightarrow> s = t"
  by (simp add: errors_Is_def)

type_synonym 'a result = "error + 'a"

text \<open>A byte string: the type of Go's \<open>[]byte\<close> and of its strings.\<close>

type_synonym bytes = string

abbreviation fails :: "'a result \<Rightarrow> sentinel \<Rightarrow> bool" where
  "fails r s \<equiv> (\<exists>d. r = Inl (Error s d))"

section \<open>Package strings\<close>

definition HasPrefix :: "string \<Rightarrow> string \<Rightarrow> bool" where
  "HasPrefix s p \<longleftrightarrow> take (length p) s = p"

definition HasSuffix :: "string \<Rightarrow> string \<Rightarrow> bool" where
  "HasSuffix s q \<longleftrightarrow> length q \<le> length s \<and> drop (length s - length q) s = q"

lemma HasPrefix_iff [gostr]: "HasPrefix s p \<longleftrightarrow> (\<exists>r. s = p @ r)"
  unfolding HasPrefix_def by (metis append_eq_conv_conj append_take_drop_id)

lemma HasSuffix_iff [gostr]: "HasSuffix s q \<longleftrightarrow> (\<exists>r. s = r @ q)"
  unfolding HasSuffix_def
  by (auto, metis append_take_drop_id)

text \<open>\<open>CutPrefix\<close> is used for both results: \<open>None\<close> is "not found".\<close>

definition CutPrefix :: "string \<Rightarrow> string \<Rightarrow> string option" where
  "CutPrefix s p = (if HasPrefix s p then Some (drop (length p) s) else None)"

lemma CutPrefix_Some [gostr]: "CutPrefix s p = Some r \<longleftrightarrow> s = p @ r"
  by (auto simp: CutPrefix_def HasPrefix_iff)

lemma CutPrefix_None [gostr]: "CutPrefix s p = None \<longleftrightarrow> \<not> HasPrefix s p"
  by (auto simp: CutPrefix_def)

definition TrimPrefix :: "string \<Rightarrow> string \<Rightarrow> string" where
  "TrimPrefix s p = (if HasPrefix s p then drop (length p) s else s)"

definition TrimSuffix :: "string \<Rightarrow> string \<Rightarrow> string" where
  "TrimSuffix s q = (if HasSuffix s q then take (length s - length q) s else s)"

lemma TrimSuffix_append [simp]: "TrimSuffix (s @ q) q = s"
  by (simp add: TrimSuffix_def HasSuffix_def)

lemma TrimSuffix_id: "\<not> HasSuffix s q \<Longrightarrow> TrimSuffix s q = s"
  by (simp add: TrimSuffix_def)

lemma TrimPrefix_append [simp]: "TrimPrefix (p @ s) p = s"
  by (simp add: TrimPrefix_def HasPrefix_def)

text \<open>\<open>strings.Contains\<close> and \<open>strings.Count\<close> are only called with one-byte needles.\<close>

definition ContainsByte :: "string \<Rightarrow> char \<Rightarrow> bool" where
  "ContainsByte s c \<longleftrightarrow> c \<in> set s"

definition CountByte :: "string \<Rightarrow> char \<Rightarrow> nat" where
  "CountByte s c = length (filter (\<lambda>x. x = c) s)"

text \<open>\<open>strings.Cut\<close> with a one-byte separator: \<open>None\<close> is "not found".\<close>

fun Cut :: "string \<Rightarrow> char \<Rightarrow> (string \<times> string) option" where
  "Cut [] c = None"
| "Cut (x # xs) c =
     (if x = c then Some ([], xs)
      else map_option (\<lambda>(a, b). (x # a, b)) (Cut xs c))"

lemma Cut_None_iff: "Cut s c = None \<longleftrightarrow> c \<notin> set s"
  by (induction s) auto

lemma Cut_SomeD: "Cut s c = Some (a, b) \<Longrightarrow> s = a @ c # b \<and> c \<notin> set a"
  by (induction s arbitrary: a) (auto split: if_splits)

lemma Cut_append [simp]: "c \<notin> set a \<Longrightarrow> Cut (a @ c # b) c = Some (a, b)"
  by (induction a) auto

text \<open>\<open>strings.Split\<close> with a one-byte separator, and \<open>strings.Join\<close> with any.\<close>

fun Split :: "string \<Rightarrow> char \<Rightarrow> string list" where
  "Split [] c = [[]]"
| "Split (x # xs) c =
     (if x = c then [] # Split xs c
      else (case Split xs c of [] \<Rightarrow> [[x]] | p # ps \<Rightarrow> (x # p) # ps))"

lemma Split_nonempty [simp]: "Split s c \<noteq> []"
  by (induction s) (auto split: list.splits)

lemma Split_no_sep: "c \<notin> set s \<Longrightarrow> Split s c = [s]"
  by (induction s) auto

lemma Split_append_sep: "c \<notin> set a \<Longrightarrow> Split (a @ c # b) c = a # Split b c"
  by (induction a) auto

lemma Split_elem_no_sep: "p \<in> set (Split s c) \<Longrightarrow> c \<notin> set p"
  by (induction s arbitrary: p) (fastforce split: if_splits list.splits)+

fun Join :: "string list \<Rightarrow> string \<Rightarrow> string" where
  "Join [] sep = []"
| "Join [s] sep = s"
| "Join (s # t # ss) sep = s @ sep @ Join (t # ss) sep"

lemma Join_Split: "Join (Split s c) [c] = s"
proof (induction s)
  case Nil
  then show ?case by simp
next
  case (Cons x xs)
  obtain p ps where s: "Split xs c = p # ps"
    by (cases "Split xs c") auto
  show ?case
    using Cons s by (cases ps) auto
qed

lemma Split_three:
  assumes "Split t c = [a, b, d]"
  shows "t = a @ c # b @ c # d" "c \<notin> set a" "c \<notin> set b" "c \<notin> set d"
proof -
  show "t = a @ c # b @ c # d"
    using Join_Split [of t c] assms by simp
  show "c \<notin> set a" "c \<notin> set b" "c \<notin> set d"
    using Split_elem_no_sep [of _ t c] assms by auto
qed

text \<open>\<open>strings.IndexByte\<close> followed by slicing up to the hit: the part before the byte.\<close>

definition before_byte :: "string \<Rightarrow> char \<Rightarrow> string" where
  "before_byte s c = takeWhile (\<lambda>x. x \<noteq> c) s"

section \<open>TrimSpace\<close>

text \<open>
  \<open>strings.TrimSpace\<close> removes leading and trailing white space as \<open>unicode.IsSpace\<close>
  defines it; the list holds the UTF-8 encodings of those code points.  UTF-8 is
  self-synchronising, so decoding the first (last) rune as a space is the same as the
  string starting (ending) with one of these sequences.
\<close>

definition space_seqs :: "string list" where
  "space_seqs =
     [[CHR 0x09], [CHR 0x0A], [CHR 0x0B], [CHR 0x0C], [CHR 0x0D], [CHR 0x20],
      [CHR 0xC2, CHR 0x85], [CHR 0xC2, CHR 0xA0], [CHR 0xE1, CHR 0x9A, CHR 0x80],
      [CHR 0xE2, CHR 0x80, CHR 0x80], [CHR 0xE2, CHR 0x80, CHR 0x81],
      [CHR 0xE2, CHR 0x80, CHR 0x82], [CHR 0xE2, CHR 0x80, CHR 0x83],
      [CHR 0xE2, CHR 0x80, CHR 0x84], [CHR 0xE2, CHR 0x80, CHR 0x85],
      [CHR 0xE2, CHR 0x80, CHR 0x86], [CHR 0xE2, CHR 0x80, CHR 0x87],
      [CHR 0xE2, CHR 0x80, CHR 0x88], [CHR 0xE2, CHR 0x80, CHR 0x89],
      [CHR 0xE2, CHR 0x80, CHR 0x8A], [CHR 0xE2, CHR 0x80, CHR 0xA8],
      [CHR 0xE2, CHR 0x80, CHR 0xA9], [CHR 0xE2, CHR 0x80, CHR 0xAF],
      [CHR 0xE2, CHR 0x81, CHR 0x9F], [CHR 0xE3, CHR 0x80, CHR 0x80]]"

text \<open>Each round drops at least one byte, so \<open>length s\<close> rounds are enough.\<close>

fun trim_seqs :: "nat \<Rightarrow> string list \<Rightarrow> string \<Rightarrow> string" where
  "trim_seqs 0 qs s = s"
| "trim_seqs (Suc n) qs s =
     (case find (\<lambda>q. HasPrefix s q) qs of
        None \<Rightarrow> s
      | Some q \<Rightarrow> trim_seqs n qs (drop (length q) s))"

definition TrimLeftSpace :: "string \<Rightarrow> string" where
  "TrimLeftSpace s = trim_seqs (length s) space_seqs s"

definition TrimRightSpace :: "string \<Rightarrow> string" where
  "TrimRightSpace s = rev (trim_seqs (length s) (map rev space_seqs) (rev s))"

definition TrimSpace :: "string \<Rightarrow> string" where
  "TrimSpace s = TrimRightSpace (TrimLeftSpace s)"

definition blank :: "string \<Rightarrow> bool" where
  "blank s \<longleftrightarrow> TrimSpace s = []"

lemma blank_Nil [simp]: "blank []"
  by (simp add: blank_def TrimSpace_def TrimLeftSpace_def TrimRightSpace_def)

lemma not_blank_nonempty: "\<not> blank s \<Longrightarrow> s \<noteq> []"
  by auto

text \<open>The fuel is enough: no space sequence starts the result.\<close>

lemma trim_seqs_done:
  assumes "\<forall>q \<in> set qs. q \<noteq> []" "length s \<le> n"
  shows "find (HasPrefix (trim_seqs n qs s)) qs = None"
  using assms
proof (induction n arbitrary: s)
  case 0
  then show ?case
    by (auto simp: find_None_iff HasPrefix_def)
next
  case (Suc n)
  show ?case
  proof (cases "find (HasPrefix s) qs")
    case None
    then show ?thesis by simp
  next
    case (Some q)
    then have "q \<in> set qs" "HasPrefix s q"
      by (auto simp: find_Some_iff)
    then have "0 < length q" "length q \<le> length s"
      using Suc.prems(1) by (auto simp: HasPrefix_iff)
    then have "length (drop (length q) s) \<le> n"
      using Suc.prems(2) unfolding length_drop by linarith
    then have "find (HasPrefix (trim_seqs n qs (drop (length q) s))) qs = None"
      using Suc.IH Suc.prems(1) by blast
    with Some show ?thesis by simp
  qed
qed

section \<open>Case mapping\<close>

definition ascii_lower :: "char \<Rightarrow> char" where
  "ascii_lower c =
     (if 65 \<le> (of_char c :: nat) \<and> (of_char c :: nat) \<le> 90 then char_of ((of_char c :: nat) + 32) else c)"

definition is_ascii :: "string \<Rightarrow> bool" where
  "is_ascii s \<longleftrightarrow> list_all (\<lambda>c. (of_char c :: nat) < 128) s"

text \<open>
  \<open>strings.ToLower\<close>: the ASCII table for an ASCII string, the Unicode tables otherwise.  The
  Unicode tables are data of the standard library; they are the parameter \<open>ul\<close>, and no
  result depends on them.
\<close>

definition ToLower :: "(string \<Rightarrow> string) \<Rightarrow> string \<Rightarrow> string" where
  "ToLower ul s = (if is_ascii s then map ascii_lower s else ul s)"

text \<open>
  \<open>strings.EqualFold\<close> against an ASCII string whose letters fold to ASCII letters only
  (the code folds against \<open>JWT\<close>).
\<close>

definition EqualFoldAscii :: "string \<Rightarrow> string \<Rightarrow> bool" where
  "EqualFoldAscii s t \<longleftrightarrow> map ascii_lower s = map ascii_lower t"

section \<open>Decimal printing\<close>

fun dec_digits :: "nat \<Rightarrow> string" where
  "dec_digits n =
     (if n < 10 then [char_of (48 + n)]
      else dec_digits (n div 10) @ [char_of (48 + n mod 10)])"

declare dec_digits.simps [simp del]

definition Itoa :: "int \<Rightarrow> string" where
  "Itoa i = (if i < 0 then CHR ''-'' # dec_digits (nat (- i)) else dec_digits (nat i))"

text \<open>Reading a decimal back, to show that printing loses nothing.\<close>

definition dec_val :: "string \<Rightarrow> nat" where
  "dec_val s = foldl (\<lambda>v c. 10 * v + (of_char c - 48)) 0 s"

lemma dec_val_snoc: "dec_val (s @ [c]) = 10 * dec_val s + (of_char c - 48)"
  by (simp add: dec_val_def)

lemma dec_val_digits [simp]: "dec_val (dec_digits n) = n"
proof (induction n rule: dec_digits.induct)
  case (1 n)
  have small: "of_char (char_of (48 + m) :: char) = 48 + m" if "m < 10" for m :: nat
    using that by (simp add: take_bit_nat_def)
  show ?case
  proof (cases "n < 10")
    case True
    then show ?thesis
      by (subst dec_digits.simps) (simp add: dec_val_def small)
  next
    case False
    with 1 have "dec_val (dec_digits (n div 10)) = n div 10" by simp
    with False show ?thesis
      by (subst dec_digits.simps) (simp add: dec_val_snoc small)
  qed
qed

lemma dec_digits_inj: "dec_digits m = dec_digits n \<longleftrightarrow> m = n"
  by (metis dec_val_digits)

lemma dec_digits_chars: "c \<in> set (dec_digits n) \<Longrightarrow> 48 \<le> (of_char c :: nat) \<and> (of_char c :: nat) < 58"
proof (induction n rule: dec_digits.induct)
  case (1 n)
  have small: "of_char (char_of (48 + m) :: char) = 48 + m" if "m < 10" for m :: nat
    using that by (simp add: take_bit_nat_def)
  show ?case
  proof (cases "n < 10")
    case True
    with "1.prems" show ?thesis
      by (subst (asm) dec_digits.simps) (auto simp: small)
  next
    case False
    with "1.prems" have "c \<in> set (dec_digits (n div 10)) \<or> c = char_of (48 + n mod 10)"
      by (subst (asm) dec_digits.simps) auto
    with False "1.IH" show ?thesis by (auto simp: small)
  qed
qed

section \<open>Lists\<close>

text \<open>
  Go keeps the first occurrence when it filters duplicates through a \<open>seen\<close> set; this is
  that loop, with the set as an accumulator.
\<close>

fun dedup_onto :: "'a list \<Rightarrow> 'a list \<Rightarrow> 'a list" where
  "dedup_onto seen [] = []"
| "dedup_onto seen (x # xs) =
     (if x \<in> set seen then dedup_onto seen xs else x # dedup_onto (x # seen) xs)"

lemma set_dedup_onto: "set (dedup_onto seen xs) = set xs - set seen"
  by (induction seen xs rule: dedup_onto.induct) auto

lemma distinct_dedup_onto: "distinct (dedup_onto seen xs)"
  by (induction seen xs rule: dedup_onto.induct) (auto simp: set_dedup_onto)

lemma dedup_onto_id: "distinct xs \<Longrightarrow> set xs \<inter> set seen = {} \<Longrightarrow> dedup_onto seen xs = xs"
  by (induction seen xs rule: dedup_onto.induct) auto

abbreviation dedup :: "'a list \<Rightarrow> 'a list" where
  "dedup xs \<equiv> dedup_onto [] xs"

lemma find_first_Some:
  "find P xs = Some x \<Longrightarrow> P x \<and> x \<in> set xs"
  by (auto simp: find_Some_iff)

lemma sort_Nil_iff [simp]: "sort_key f xs = [] \<longleftrightarrow> xs = []"
  by (metis length_0_conv length_sort)

lemmas result_splits = sum.splits option.splits prod.splits if_splits

section \<open>What TrimSpace keeps\<close>

lemma trim_seqs_keeps: "c \<in> set s \<Longrightarrow> c \<notin> set (concat qs) \<Longrightarrow> c \<in> set (trim_seqs n qs s)"
proof (induction n arbitrary: s)
  case (Suc n)
  show ?case
  proof (cases "find (HasPrefix s) qs")
    case None
    with Suc.prems show ?thesis by simp
  next
    case (Some q)
    then obtain t where t: "s = q @ t" "q \<in> set qs"
      by (auto simp: HasPrefix_iff dest!: find_first_Some)
    with Suc.prems have "c \<in> set t"
      by auto
    with Suc.IH [of t] Suc.prems(2) Some t show ?thesis
      by simp
  qed
qed simp

lemma not_blank_char: "c \<in> set s \<Longrightarrow> c \<notin> set (concat space_seqs) \<Longrightarrow> \<not> blank s"
proof
  assume c: "c \<in> set s" "c \<notin> set (concat space_seqs)" and "blank s"
  have "c \<in> set (TrimLeftSpace s)"
    unfolding TrimLeftSpace_def by (rule trim_seqs_keeps [OF c])
  then have "c \<in> set (rev (TrimLeftSpace s))" "c \<notin> set (concat (map rev space_seqs))"
    using c(2) by auto
  from trim_seqs_keeps [OF this] have "c \<in> set (TrimSpace s)"
    by (simp add: TrimSpace_def TrimRightSpace_def)
  with \<open>blank s\<close> show False
    by (simp add: blank_def)
qed

lemma trim_seqs_none: "find (HasPrefix s) qs = None \<Longrightarrow> trim_seqs n qs s = s"
  by (cases n) simp_all

lemma trim_seqs_suffix: "\<exists>d. s = d @ trim_seqs n qs s"
proof (induction n arbitrary: s)
  case (Suc n)
  show ?case
  proof (cases "find (HasPrefix s) qs")
    case (Some q)
    then obtain t where "s = q @ t"
      by (auto simp: HasPrefix_iff dest!: find_first_Some)
    with Suc.IH [of t] Some show ?thesis
      by auto (metis append_assoc)
  qed simp
qed simp

lemma space_seqs_nonempty: "\<forall>q \<in> set space_seqs. q \<noteq> []" "\<forall>q \<in> set (map rev space_seqs). q \<noteq> []"
  by (simp_all add: space_seqs_def)

lemma TrimSpace_idem: "TrimSpace (TrimSpace s) = TrimSpace s"
proof -
  let ?l = "TrimLeftSpace s" and ?t = "TrimSpace s"
  obtain d where "rev ?l = d @ rev ?t"
    using trim_seqs_suffix [of "rev ?l" "length ?l" "map rev space_seqs"]
    by (auto simp: TrimSpace_def TrimRightSpace_def)
  then have l: "?l = ?t @ rev d"
    by (metis rev_append rev_rev_ident)
  have "find (HasPrefix ?l) space_seqs = None"
    unfolding TrimLeftSpace_def by (rule trim_seqs_done) (use space_seqs_nonempty in simp_all)
  then have "find (HasPrefix ?t) space_seqs = None"
    by (auto simp: find_None_iff HasPrefix_iff l)
  then have 1: "TrimLeftSpace ?t = ?t"
    unfolding TrimLeftSpace_def by (rule trim_seqs_none)
  have "find (HasPrefix (trim_seqs (length ?l) (map rev space_seqs) (rev ?l))) (map rev space_seqs) = None"
    by (rule trim_seqs_done) (use space_seqs_nonempty in simp_all)
  then have "find (HasPrefix (rev ?t)) (map rev space_seqs) = None"
    by (simp add: TrimSpace_def TrimRightSpace_def)
  then have "TrimRightSpace ?t = ?t"
    unfolding TrimRightSpace_def by (simp add: trim_seqs_none)
  with 1 show ?thesis
    by (simp add: TrimSpace_def [of ?t])
qed

end
