(* ===== verification/Utf8.thy ===== *)
theory Utf8
  imports Prelude
begin

text \<open>
  UTF-8 as packages \<open>unicode/utf8\<close> and \<open>encoding/json\<close> decode it: \<open>decode_rune\<close> is
  \<open>utf8.DecodeRune\<close> (\<open>None\<close> stands for \<open>RuneError\<close> with width 1: an invalid or truncated
  sequence, an overlong form, a surrogate or a code point above 10FFFF).
\<close>

definition bv :: "char \<Rightarrow> nat" where
  "bv c = of_char c"

lemma bv_less [simp]: "bv c < 256"
  by (simp add: bv_def)

lemma char_of_bv [simp]: "char_of (bv c) = c"
  by (simp add: bv_def)

lemma bv_char_of: "n < 256 \<Longrightarrow> bv (char_of n) = n"
  by (simp add: bv_def take_bit_nat_def)

lemma bv_inject: "bv c = bv d \<longleftrightarrow> c = d"
  by (metis char_of_bv)

definition is_cont :: "char \<Rightarrow> bool" where
  "is_cont c \<longleftrightarrow> 128 \<le> bv c \<and> bv c < 192"

fun decode_rune :: "string \<Rightarrow> (nat \<times> nat) option" where
  "decode_rune [] = None"
| "decode_rune (a # s) =
     (if bv a < 128 then Some (bv a, 1)
      else if 194 \<le> bv a \<and> bv a < 224 then
        (case s of
           b # _ \<Rightarrow> if is_cont b then Some ((bv a - 192) * 64 + (bv b - 128), 2) else None
         | _ \<Rightarrow> None)
      else if 224 \<le> bv a \<and> bv a < 240 then
        (case s of
           b # c # _ \<Rightarrow>
             if is_cont b \<and> is_cont c \<and> (bv a = 224 \<longrightarrow> 160 \<le> bv b) \<and> (bv a = 237 \<longrightarrow> bv b < 160)
             then Some ((bv a - 224) * 4096 + (bv b - 128) * 64 + (bv c - 128), 3) else None
         | _ \<Rightarrow> None)
      else if 240 \<le> bv a \<and> bv a < 245 then
        (case s of
           b # c # d # _ \<Rightarrow>
             if is_cont b \<and> is_cont c \<and> is_cont d \<and> (bv a = 240 \<longrightarrow> 144 \<le> bv b) \<and> (bv a = 244 \<longrightarrow> bv b < 144)
             then Some ((bv a - 240) * 262144 + (bv b - 128) * 4096 + (bv c - 128) * 64 + (bv d - 128), 4)
             else None
         | _ \<Rightarrow> None)
      else None)"

definition encode_rune :: "nat \<Rightarrow> string" where
  "encode_rune r =
     (if r < 128 then [char_of r]
      else if r < 2048 then [char_of (192 + r div 64), char_of (128 + r mod 64)]
      else if r < 65536 then
        [char_of (224 + r div 4096), char_of (128 + r div 64 mod 64), char_of (128 + r mod 64)]
      else
        [char_of (240 + r div 262144), char_of (128 + r div 4096 mod 64),
         char_of (128 + r div 64 mod 64), char_of (128 + r mod 64)])"

lemma decode_rune_size: "decode_rune s = Some (r, n) \<Longrightarrow> 0 < n \<and> n \<le> length s \<and> n \<le> 4"
  by (cases s) (auto split: if_splits list.splits)

lemma decode_rune_append:
  "decode_rune s = Some (r, n) \<Longrightarrow> decode_rune (take n s @ t) = Some (r, n)"
  by (cases s) (auto split: if_splits list.splits)

lemma decode_rune_ascii: "bv a < 128 \<Longrightarrow> decode_rune (a # s) = Some (bv a, 1)"
  by simp

lemma split64: "z < 64 \<Longrightarrow> (64 * k + z) div 64 = k \<and> (64 * k + z) mod 64 = z" for z :: nat
  by simp

lemma split64_3:
  assumes "y < 64" "z < 64"
  shows "(x * 4096 + y * 64 + z) div 4096 = x" "(x * 4096 + y * 64 + z) div 64 mod 64 = y"
    "(x * 4096 + y * 64 + z) mod 64 = (z::nat)"
proof -
  have n: "x * 4096 + y * 64 + z = 64 * (64 * x + y) + z" by simp
  show "(x * 4096 + y * 64 + z) div 64 mod 64 = y"
    unfolding n split64 [OF assms(2), THEN conjunct1] by (rule split64 [OF assms(1), THEN conjunct2])
  show "(x * 4096 + y * 64 + z) mod 64 = z"
    unfolding n by (rule split64 [OF assms(2), THEN conjunct2])
  have "(64 * (64 * x + y) + z) div (64 * 64) = x"
    unfolding div_mult2_eq split64 [OF assms(2), THEN conjunct1]
    by (rule split64 [OF assms(1), THEN conjunct1])
  then show "(x * 4096 + y * 64 + z) div 4096 = x"
    unfolding n by simp
qed

lemma split64_4:
  assumes "y < 64" "z < 64" "w < 64"
  shows "(x * 262144 + y * 4096 + z * 64 + w) div 262144 = x"
    "(x * 262144 + y * 4096 + z * 64 + w) div 4096 mod 64 = y"
    "(x * 262144 + y * 4096 + z * 64 + w) div 64 mod 64 = z"
    "(x * 262144 + y * 4096 + z * 64 + w) mod 64 = (w::nat)"
proof -
  have n: "x * 262144 + y * 4096 + z * 64 + w = (64 * x + y) * 4096 + z * 64 + w" by simp
  show "(x * 262144 + y * 4096 + z * 64 + w) div 4096 mod 64 = y"
    "(x * 262144 + y * 4096 + z * 64 + w) div 64 mod 64 = z"
    "(x * 262144 + y * 4096 + z * 64 + w) mod 64 = w"
    unfolding n split64_3 [OF assms(2,3)] using assms(1) by auto
  have "((64 * x + y) * 4096 + z * 64 + w) div (4096 * 64) = x"
    unfolding div_mult2_eq split64_3 [OF assms(2,3)] using assms(1) by simp
  then show "(x * 262144 + y * 4096 + z * 64 + w) div 262144 = x"
    unfolding n by simp
qed

lemma encode_decode_rune: "decode_rune s = Some (r, n) \<Longrightarrow> encode_rune r = take n s"
proof -
  have two: "encode_rune ((bv a - 192) * 64 + (bv b - 128)) = [a, b]"
    if "194 \<le> bv a" "bv a < 224" "is_cont b" for a b
  proof -
    define x y where "x = bv a - 192" and "y = bv b - 128"
    then have x: "2 \<le> x" "x < 32" "bv a = 192 + x" and y: "y < 64" "bv b = 128 + y"
      using that by (auto simp: is_cont_def)
    have "char_of (192 + x) = a" "char_of (128 + y) = b"
      using x(3) y(2) by (metis char_of_bv)+
    then show ?thesis
      using x y by (simp add: encode_rune_def flip: x_def y_def)
  qed
  have three: "encode_rune ((bv a - 224) * 4096 + (bv b - 128) * 64 + (bv c - 128)) = [a, b, c]"
    if "224 \<le> bv a" "bv a < 240" "is_cont b" "is_cont c" "bv a = 224 \<longrightarrow> 160 \<le> bv b" for a b c
  proof -
    define x y z where "x = bv a - 224" and "y = bv b - 128" and "z = bv c - 128"
    then have x: "x < 16" "bv a = 224 + x" and y: "y < 64" "bv b = 128 + y"
      and z: "z < 64" "bv c = 128 + z" and lo: "2048 \<le> x * 4096 + y * 64"
      using that by (auto simp: is_cont_def)
    have r: "(x * 4096 + y * 64 + z) div 4096 = x" "(x * 4096 + y * 64 + z) div 64 mod 64 = y"
      "(x * 4096 + y * 64 + z) mod 64 = z" "x * 4096 + y * 64 + z < 65536"
      using x y z split64_3 by auto
    have "char_of (224 + x) = a" "char_of (128 + y) = b" "char_of (128 + z) = c"
      using x(2) y(2) z(2) by (metis char_of_bv)+
    then show ?thesis
      using lo r by (simp add: encode_rune_def flip: x_def y_def z_def)
  qed
  have four: "encode_rune ((bv a - 240) * 262144 + (bv b - 128) * 4096 + (bv c - 128) * 64 + (bv d - 128))
      = [a, b, c, d]"
    if "240 \<le> bv a" "bv a < 245" "is_cont b" "is_cont c" "is_cont d" "bv a = 240 \<longrightarrow> 144 \<le> bv b" for a b c d
  proof -
    define x y z w where "x = bv a - 240" and "y = bv b - 128" and "z = bv c - 128" and "w = bv d - 128"
    then have x: "x < 5" "bv a = 240 + x" and y: "y < 64" "bv b = 128 + y"
      and z: "z < 64" "bv c = 128 + z" and w: "w < 64" "bv d = 128 + w"
      and lo: "65536 \<le> x * 262144 + y * 4096"
      using that by (auto simp: is_cont_def)
    have r: "(x * 262144 + y * 4096 + z * 64 + w) div 262144 = x"
      "(x * 262144 + y * 4096 + z * 64 + w) div 4096 mod 64 = y"
      "(x * 262144 + y * 4096 + z * 64 + w) div 64 mod 64 = z"
      "(x * 262144 + y * 4096 + z * 64 + w) mod 64 = w"
      using y z w split64_4 by auto
    have "char_of (240 + x) = a" "char_of (128 + y) = b" "char_of (128 + z) = c" "char_of (128 + w) = d"
      using x(2) y(2) z(2) w(2) by (metis char_of_bv)+
    then show ?thesis
      using lo r by (simp add: encode_rune_def flip: x_def y_def z_def w_def)
  qed
  have one: "encode_rune (bv a) = [a]" if "bv a < 128" for a
    using that by (simp add: encode_rune_def)
  assume "decode_rune s = Some (r, n)"
  then show ?thesis
    by (cases s) (auto simp: one two three four split: if_splits list.splits)
qed

declare decode_rune.simps(2) [simp del]
declare decode_rune_ascii [simp]

text \<open>Strings that are valid UTF-8: every rune decodes.\<close>

function valid_utf8 :: "string \<Rightarrow> bool" where
  "valid_utf8 s =
     (s = [] \<or> (case decode_rune s of None \<Rightarrow> False | Some (r, n) \<Rightarrow> valid_utf8 (drop n s)))"
  by pat_completeness auto
termination
  by (relation "measure length") (auto dest: decode_rune_size)

declare valid_utf8.simps [simp del]

lemma valid_utf8_Nil [simp]: "valid_utf8 []"
  by (simp add: valid_utf8.simps)

lemma valid_utf8_ascii: "bv a < 128 \<Longrightarrow> valid_utf8 (a # s) \<longleftrightarrow> valid_utf8 s"
  by (subst valid_utf8.simps) simp

lemma ascii_valid_utf8: "\<forall>c \<in> set s. bv c < 128 \<Longrightarrow> valid_utf8 s"
  by (induction s) (auto simp: valid_utf8_ascii)

lemma valid_utf8_append: "valid_utf8 s \<Longrightarrow> valid_utf8 t \<Longrightarrow> valid_utf8 (s @ t)"
proof (induction s rule: valid_utf8.induct)
  case (1 s)
  show ?case
  proof (cases "s = []")
    case False
    with "1.prems" obtain r n where rn: "decode_rune s = Some (r, n)" "valid_utf8 (drop n s)"
      by (subst (asm) valid_utf8.simps) (auto split: option.splits)
    then have "decode_rune (s @ t) = Some (r, n)"
      using decode_rune_append [OF rn(1), of "drop n s @ t"] by (simp flip: append_assoc)
    moreover have "valid_utf8 (drop n (s @ t))"
      using "1.IH" [OF rn(1) refl] rn(2) "1.prems"(2) decode_rune_size [OF rn(1)] by simp
    ultimately show ?thesis
      by (subst valid_utf8.simps) simp
  qed (use 1 in simp)
qed

end
