(* ===== verification/Base64.thy ===== *)
theory Base64
  imports Utf8
begin

text \<open>
  \<open>base64.RawURLEncoding\<close> as \<open>jwt.go\<close> and \<open>keys.go\<close> use it: unpadded, URL-safe.  The decoder is
  Go's, which is not strict: it skips carriage returns and newlines wherever they stand and
  ignores the unused bits of the last character.  Also the big-endian byte strings of
  \<open>math/big\<close> (\<open>Bytes\<close>, \<open>SetBytes\<close>, \<open>FillBytes\<close>).
\<close>

definition enc6 :: "nat \<Rightarrow> char" where
  "enc6 n = (if n < 26 then char_of (65 + n) else if n < 52 then char_of (71 + n)
     else if n < 62 then char_of (n - 4) else if n = 62 then CHR ''-'' else CHR ''_'')"

definition dec6 :: "char \<Rightarrow> nat option" where
  "dec6 c =
     (let n = bv c in
      if 65 \<le> n \<and> n \<le> 90 then Some (n - 65)
      else if 97 \<le> n \<and> n \<le> 122 then Some (n - 71)
      else if 48 \<le> n \<and> n \<le> 57 then Some (n + 4)
      else if c = CHR ''-'' then Some 62
      else if c = CHR ''_'' then Some 63 else None)"

fun sextets :: "nat list \<Rightarrow> nat list" where
  "sextets [] = []"
| "sextets [a] = [a div 4, a mod 4 * 16]"
| "sextets [a, b] = [a div 4, a mod 4 * 16 + b div 16, b mod 16 * 4]"
| "sextets (a # b # c # r) =
     a div 4 # (a mod 4 * 16 + b div 16) # (b mod 16 * 4 + c div 64) # c mod 64 # sextets r"

fun unsextets :: "nat list \<Rightarrow> nat list option" where
  "unsextets [] = Some []"
| "unsextets [a] = None"
| "unsextets [a, b] = Some [a * 4 + b div 16]"
| "unsextets [a, b, c] = Some [a * 4 + b div 16, b mod 16 * 16 + c div 4]"
| "unsextets (a # b # c # d # r) =
     map_option (\<lambda>xs. (a * 4 + b div 16) # (b mod 16 * 16 + c div 4) # (c mod 4 * 64 + d) # xs) (unsextets r)"

definition b64 :: "bytes \<Rightarrow> string" where
  "b64 b = map enc6 (sextets (map bv b))"

definition unb64 :: "string \<Rightarrow> bytes option" where
  "unb64 s =
     (case those (map dec6 (filter (\<lambda>c. c \<noteq> CHR 0x0D \<and> c \<noteq> CHR 0x0A) s)) of
        None \<Rightarrow> None
      | Some ns \<Rightarrow> map_option (map char_of) (unsextets ns))"

section \<open>Round trip\<close>

lemma dec6_enc6: "n < 64 \<Longrightarrow> dec6 (enc6 n) = Some n"
  by (cases "n = 62"; cases "n = 63") (auto simp: enc6_def dec6_def Let_def bv_char_of bv_def)

lemma byte_divs:
  fixes b :: nat
  assumes "b < 256"
  shows "b div 4 < 64" "b div 16 < 16" "b div 64 < 4"
  using assms by (simp_all add: less_mult_imp_div_less)

lemma sextet_sums:
  fixes a b c :: nat
  shows "a mod 4 * 16 < 64" "b < 256 \<Longrightarrow> a mod 4 * 16 + b div 16 < 64"
    "b mod 16 * 4 < 64" "c < 256 \<Longrightarrow> b mod 16 * 4 + c div 64 < 64"
  using byte_divs [of b] byte_divs [of c] mod_less_divisor [of 4 a] mod_less_divisor [of 16 b]
  by linarith+

lemma sextets_bound: "\<forall>x \<in> set xs. x < 256 \<Longrightarrow> \<forall>y \<in> set (sextets xs). y < 64"
proof (induction xs rule: sextets.induct)
  case (4 a b c r)
  then have "\<forall>y \<in> set (sextets r). y < 64"
    by simp
  with 4 show ?case
    by (simp add: byte_divs sextet_sums)
qed (simp_all add: byte_divs sextet_sums)

lemma unsextets_sextets: "\<forall>x \<in> set xs. x < 256 \<Longrightarrow> unsextets (sextets xs) = Some xs"
proof (induction xs rule: sextets.induct)
  case (4 a b c r)
  then have "unsextets (sextets r) = Some r"
    by simp
  with 4 show ?case
    by (simp add: byte_divs)
qed (simp_all add: byte_divs)

lemma b64_chars: "c \<in> set (b64 b) \<Longrightarrow> dec6 c \<noteq> None"
  using sextets_bound [of "map bv b"] by (auto simp: b64_def dec6_enc6)

lemma b64_no_special: "c \<in> set (b64 b) \<Longrightarrow> c \<noteq> CHR ''.'' \<and> c \<noteq> CHR 0x0D \<and> c \<noteq> CHR 0x0A \<and> bv c < 128"
  by (drule b64_chars) (auto simp: dec6_def Let_def bv_def split: if_splits)

lemma unb64_b64 [simp]: "unb64 (b64 b) = Some b"
proof -
  have k: "filter (\<lambda>c. c \<noteq> CHR 0x0D \<and> c \<noteq> CHR 0x0A) (b64 b) = b64 b"
    using b64_no_special by (auto simp: filter_id_conv)
  have "those (map dec6 (map enc6 xs)) = Some xs" if "\<forall>x \<in> set xs. x < 64" for xs
    using that by (induction xs) (auto simp: dec6_enc6)
  then have "those (map dec6 (b64 b)) = Some (sextets (map bv b))"
    unfolding b64_def using sextets_bound [of "map bv b"] by simp
  then show ?thesis
    by (simp add: unb64_def k unsextets_sextets comp_def)
qed

lemma b64_inj: "b64 a = b64 b \<longleftrightarrow> a = b"
  by (metis option.inject unb64_b64)

lemma b64_Nil_iff [simp]: "b64 b = [] \<longleftrightarrow> b = []"
proof -
  have "b64 [] = []"
    by (simp add: b64_def)
  with b64_inj [of b "[]"] show ?thesis
    by simp
qed

lemma b64_no_dot [simp]: "CHR ''.'' \<notin> set (b64 b)"
  using b64_no_special by blast

lemma b64_valid_utf8 [simp]: "valid_utf8 (b64 b)"
  using b64_no_special by (intro ascii_valid_utf8) auto

lemma unb64_newline: "unb64 (s @ [CHR 0x0A]) = unb64 s"
  by (simp add: unb64_def)

section \<open>Big-endian integers\<close>

definition SetBytes :: "bytes \<Rightarrow> nat" where
  "SetBytes b = foldl (\<lambda>n c. 256 * n + bv c) 0 b"

fun big_Bytes :: "nat \<Rightarrow> bytes" where
  "big_Bytes n = (if n = 0 then [] else big_Bytes (n div 256) @ [char_of (n mod 256)])"

declare big_Bytes.simps [simp del]

definition pad_to :: "nat \<Rightarrow> bytes \<Rightarrow> bytes" where
  "pad_to k b = replicate (k - length b) CHR 0x00 @ b"

lemma SetBytes_snoc: "SetBytes (b @ [c]) = 256 * SetBytes b + bv c"
  by (simp add: SetBytes_def)

lemma SetBytes_Nil [simp]: "SetBytes [] = 0"
  by (simp add: SetBytes_def)

lemma SetBytes_big_Bytes [simp]: "SetBytes (big_Bytes n) = n"
proof (induction n rule: big_Bytes.induct)
  case (1 n)
  then show ?case
    by (subst big_Bytes.simps) (simp add: SetBytes_snoc bv_def)
qed

lemma SetBytes_zeros: "SetBytes (replicate k CHR 0x00 @ b) = SetBytes b"
proof (induction b rule: rev_induct)
  case Nil
  then show ?case
    by (induction k) (simp_all add: SetBytes_def bv_def)
next
  case (snoc c b)
  then show ?case
    by (simp add: SetBytes_snoc flip: append_assoc)
qed

lemma SetBytes_pad_to [simp]: "SetBytes (pad_to k b) = SetBytes b"
  by (simp add: pad_to_def SetBytes_zeros)

lemma length_pad_to: "length b \<le> k \<Longrightarrow> length (pad_to k b) = k"
  by (simp add: pad_to_def)

lemma length_big_Bytes: "n < 256 ^ k \<Longrightarrow> length (big_Bytes n) \<le> k"
proof (induction n arbitrary: k rule: big_Bytes.induct)
  case (1 n)
  show ?case
  proof (cases "n = 0")
    case False
    with "1.prems" obtain k' where k: "k = Suc k'"
      by (cases k) auto
    have "n div 256 < 256 ^ k'"
      using "1.prems" by (simp add: k less_mult_imp_div_less mult.commute)
    with "1.IH" [OF False] show ?thesis
      by (subst big_Bytes.simps) (simp add: k False)
  qed (simp add: big_Bytes.simps)
qed

lemma SetBytes_bound: "SetBytes b < 256 ^ length b"
proof (induction b rule: rev_induct)
  case (snoc c b)
  then have "256 * SetBytes b + 256 \<le> 256 ^ length (b @ [c])"
    by simp
  then show ?case
    using bv_less [of c] by (simp only: SetBytes_snoc)
qed simp

end
