(* ===== verification/Json.thy ===== *)
theory Json
  imports Utf8
begin

text \<open>
  The part of package \<open>encoding/json\<close> that the code uses: JSON documents as a datatype, the
  text that \<open>json.Marshal\<close> and \<open>json.MarshalIndent\<close> write (with the HTML-safe escapes and
  the replacement of invalid UTF-8), the parser behind \<open>json.Unmarshal\<close> (with its depth
  limit), and how a document is decoded into Go values: member names are matched to struct
  fields case-insensitively, \<open>null\<close> leaves a value unchanged, a mismatch is an error.
  The main result is that parsing what was printed gives the document back.
\<close>

section \<open>Documents\<close>

text \<open>
  A number is an integer literal or any other literal (a fraction, an exponent, \<open>-0\<close>),
  kept as its text.
\<close>

datatype jnum = NInt int | NReal string

datatype json =
    JNull
  | JBool bool
  | JNum jnum
  | JStr string
  | JArr "json list"
  | JObj "(string \<times> json) list"

section \<open>Printing\<close>

definition hexdig :: "nat \<Rightarrow> char" where
  "hexdig n = (if n < 10 then char_of (48 + n) else char_of (87 + n))"

text \<open>The four-digit escape of a code point below 65536.\<close>

definition u_escape :: "nat \<Rightarrow> string" where
  "u_escape r = [CHR 0x5C, CHR ''u'', hexdig (r div 4096 mod 16), hexdig (r div 256 mod 16),
                 hexdig (r div 16 mod 16), hexdig (r mod 16)]"

definition escape_ascii :: "char \<Rightarrow> string" where
  "escape_ascii c =
     (if c = CHR 0x22 \<or> c = CHR 0x5C then [CHR 0x5C, c]
      else if c = CHR 0x08 then [CHR 0x5C, CHR ''b'']
      else if c = CHR 0x0C then [CHR 0x5C, CHR ''f'']
      else if c = CHR 0x0A then [CHR 0x5C, CHR ''n'']
      else if c = CHR 0x0D then [CHR 0x5C, CHR ''r'']
      else if c = CHR 0x09 then [CHR 0x5C, CHR ''t'']
      else if bv c < 32 \<or> c = CHR ''<'' \<or> c = CHR ''>'' \<or> c = CHR ''&'' then u_escape (bv c)
      else [c])"

function quote_body :: "string \<Rightarrow> string" where
  "quote_body [] = []"
| "quote_body (c # cs) =
     (if bv c < 128 then escape_ascii c @ quote_body cs
      else (case decode_rune (c # cs) of
              None \<Rightarrow> u_escape 65533 @ quote_body cs
            | Some (r, n) \<Rightarrow>
                (if r = 8232 \<or> r = 8233 then u_escape r else take n (c # cs))
                @ quote_body (drop n (c # cs))))"
  by pat_completeness auto
termination
  by (relation "measure length") (auto dest: decode_rune_size)

definition quote :: "string \<Rightarrow> string" where
  "quote s = CHR 0x22 # quote_body s @ [CHR 0x22]"

primrec print_num :: "jnum \<Rightarrow> string" where
  "print_num (NInt i) = Itoa i"
| "print_num (NReal s) = s"

text \<open>
  One printer for both layouts: \<open>ws d\<close> is the white space written before an element at
  depth \<open>d\<close> and \<open>sp\<close> the space after a colon.
\<close>

fun print_with :: "(nat \<Rightarrow> string) \<Rightarrow> string \<Rightarrow> nat \<Rightarrow> json \<Rightarrow> string" where
  "print_with ws sp d JNull = ''null''"
| "print_with ws sp d (JBool b) = (if b then ''true'' else ''false'')"
| "print_with ws sp d (JNum n) = print_num n"
| "print_with ws sp d (JStr s) = quote s"
| "print_with ws sp d (JArr xs) =
     (if xs = [] then ''[]''
      else CHR ''['' # ws (Suc d) @ Join (map (print_with ws sp (Suc d)) xs) (CHR '','' # ws (Suc d))
           @ ws d @ '']'')"
| "print_with ws sp d (JObj kvs) =
     (if kvs = [] then ''{}''
      else CHR ''{'' # ws (Suc d)
           @ Join (map (\<lambda>kv. quote (fst kv) @ CHR '':'' # sp @ print_with ws sp (Suc d) (snd kv)) kvs)
               (CHR '','' # ws (Suc d))
           @ ws d @ ''}'')"

text \<open>\<open>json.Marshal\<close>, and \<open>json.MarshalIndent(_, "", "  ")\<close>.\<close>

definition json_Marshal :: "json \<Rightarrow> string" where
  "json_Marshal j = print_with (\<lambda>_. []) [] 0 j"

definition indent2 :: "nat \<Rightarrow> string" where
  "indent2 d = CHR 0x0A # replicate (2 * d) CHR 0x20"

definition json_MarshalIndent :: "json \<Rightarrow> string" where
  "json_MarshalIndent j = print_with indent2 [CHR 0x20] 0 j"

section \<open>Parsing\<close>

definition is_ws :: "char \<Rightarrow> bool" where
  "is_ws c \<longleftrightarrow> c = CHR 0x20 \<or> c = CHR 0x09 \<or> c = CHR 0x0A \<or> c = CHR 0x0D"

definition skip_ws :: "string \<Rightarrow> string" where
  "skip_ws s = dropWhile is_ws s"

definition is_digit :: "char \<Rightarrow> bool" where
  "is_digit c \<longleftrightarrow> 48 \<le> bv c \<and> bv c < 58"

definition hexval :: "char \<Rightarrow> nat option" where
  "hexval c =
     (if is_digit c then Some (bv c - 48)
      else if 97 \<le> bv c \<and> bv c \<le> 102 then Some (bv c - 87)
      else if 65 \<le> bv c \<and> bv c \<le> 70 then Some (bv c - 55)
      else None)"

text \<open>\<open>getu4\<close>: the value of four hexadecimal digits, and the rest.\<close>

fun getu4 :: "string \<Rightarrow> (nat \<times> string) option" where
  "getu4 (a # b # c # d # s) =
     (case (hexval a, hexval b, hexval c, hexval d) of
        (Some x, Some y, Some z, Some w) \<Rightarrow> Some (x * 4096 + y * 256 + z * 16 + w, s)
      | _ \<Rightarrow> None)"
| "getu4 _ = None"

definition is_surrogate :: "nat \<Rightarrow> bool" where
  "is_surrogate r \<longleftrightarrow> 55296 \<le> r \<and> r < 57344"

text \<open>A second escape that completes a surrogate pair, if there is one.\<close>

definition low_half :: "nat \<Rightarrow> string \<Rightarrow> (nat \<times> string) option" where
  "low_half r s =
     (if 2 \<le> length s \<and> s ! 0 = CHR 0x5C \<and> s ! 1 = CHR ''u'' then
        (case getu4 (drop 2 s) of
           Some (r2, s') \<Rightarrow>
             if 55296 \<le> r \<and> r < 56320 \<and> 56320 \<le> r2 \<and> r2 < 57344
             then Some ((r - 55296) * 1024 + (r2 - 56320) + 65536, s') else None
         | None \<Rightarrow> None)
      else None)"

definition unescape_simple :: "char \<Rightarrow> char option" where
  "unescape_simple e =
     (if e = CHR 0x22 \<or> e = CHR 0x5C \<or> e = CHR ''/'' then Some e
      else if e = CHR ''b'' then Some CHR 0x08
      else if e = CHR ''f'' then Some CHR 0x0C
      else if e = CHR ''n'' then Some CHR 0x0A
      else if e = CHR ''r'' then Some CHR 0x0D
      else if e = CHR ''t'' then Some CHR 0x09
      else None)"

lemma getu4_length: "getu4 s = Some (r, t) \<Longrightarrow> length s = length t + 4"
  by (induction s rule: getu4.induct) (auto split: option.splits)

lemma low_half_length: "low_half r s = Some (r2, t) \<Longrightarrow> length t < length s"
  by (auto simp: low_half_def dest!: getu4_length split: option.splits if_splits)

text \<open>The body of a string up to its closing quote: contents and rest.\<close>

function unquote :: "string \<Rightarrow> (string \<times> string) option" where
  "unquote [] = None"
| "unquote (c # cs) =
     (if c = CHR 0x22 then Some ([], cs)
      else if c = CHR 0x5C then
        (case cs of
           [] \<Rightarrow> None
         | e # es \<Rightarrow>
             if e = CHR ''u'' then
               (case getu4 es of
                  None \<Rightarrow> None
                | Some (r, s') \<Rightarrow>
                    if is_surrogate r then
                      (case low_half r s' of
                         Some (r2, s'') \<Rightarrow> map_option (\<lambda>(x, t). (encode_rune r2 @ x, t)) (unquote s'')
                       | None \<Rightarrow> map_option (\<lambda>(x, t). (encode_rune 65533 @ x, t)) (unquote s'))
                    else map_option (\<lambda>(x, t). (encode_rune r @ x, t)) (unquote s'))
             else
               (case unescape_simple e of
                  None \<Rightarrow> None
                | Some x0 \<Rightarrow> map_option (\<lambda>(x, t). (x0 # x, t)) (unquote es)))
      else if bv c < 32 then None
      else if bv c < 128 then map_option (\<lambda>(x, t). (c # x, t)) (unquote cs)
      else (case decode_rune (c # cs) of
              None \<Rightarrow> map_option (\<lambda>(x, t). (encode_rune 65533 @ x, t)) (unquote cs)
            | Some (r, n) \<Rightarrow>
                map_option (\<lambda>(x, t). (take n (c # cs) @ x, t)) (unquote (drop n (c # cs)))))"
  by pat_completeness auto
termination
  by (relation "measure length") (auto dest: decode_rune_size dest!: getu4_length low_half_length)

declare quote_body.simps(2) [simp del] unquote.simps(2) [simp del]

text \<open>The equations of \<open>unquote\<close>, one per kind of first byte.\<close>

lemma unquote_quote [simp]: "unquote (CHR 0x22 # cs) = Some ([], cs)"
  by (simp add: unquote.simps)

lemma unquote_simple [simp]:
  "e \<noteq> CHR ''u'' \<Longrightarrow> unquote (CHR 0x5C # e # es) =
     (case unescape_simple e of None \<Rightarrow> None
      | Some x0 \<Rightarrow> map_option (\<lambda>(x, t). (x0 # x, t)) (unquote es))"
  by (simp add: unquote.simps)

lemma unquote_u:
  "unquote (CHR 0x5C # CHR ''u'' # es) =
     (case getu4 es of
        None \<Rightarrow> None
      | Some (r, s') \<Rightarrow>
          if is_surrogate r then
            (case low_half r s' of
               Some (r2, s'') \<Rightarrow> map_option (\<lambda>(x, t). (encode_rune r2 @ x, t)) (unquote s'')
             | None \<Rightarrow> map_option (\<lambda>(x, t). (encode_rune 65533 @ x, t)) (unquote s'))
          else map_option (\<lambda>(x, t). (encode_rune r @ x, t)) (unquote s'))"
  by (simp add: unquote.simps(2) split: option.splits)

lemma unquote_ascii:
  "32 \<le> bv c \<Longrightarrow> bv c < 128 \<Longrightarrow> c \<noteq> CHR 0x22 \<Longrightarrow> c \<noteq> CHR 0x5C \<Longrightarrow>
   unquote (c # cs) = map_option (\<lambda>(x, t). (c # x, t)) (unquote cs)"
  by (simp add: unquote.simps(2))

lemma unquote_rune:
  assumes "128 \<le> bv c" "decode_rune (c # cs) = Some (r, n)"
  shows "unquote (c # cs) =
    map_option (\<lambda>(x, t). (take n (c # cs) @ x, t)) (unquote (drop n (c # cs)))"
proof -
  have "c \<noteq> CHR 0x22" "c \<noteq> CHR 0x5C"
    using assms(1) by (auto simp: bv_def)
  with assms show ?thesis by (simp add: unquote.simps(2))
qed

lemma unquote_length: "unquote s = Some (x, t) \<Longrightarrow> length t < length s"
proof (induction "length s" arbitrary: s x t rule: less_induct)
  case less
  have IH: "length t' < length s" if "unquote s' = Some (x', t')" "length s' < length s" for s' x' t'
    using less.hyps [OF that(2,1)] that(2) by simp
  show ?case
  proof (cases s)
    case Nil
    with less.prems show ?thesis by simp
  next
    case (Cons c cs)
    note u = less.prems [unfolded Cons unquote.simps(2)]
    note sz = decode_rune_size [of "c # cs"]
    show ?thesis
      using u Cons IH sz
      by (auto split: if_splits list.splits option.splits
          dest: IH dest!: getu4_length low_half_length)
  qed
qed

section \<open>Strings round trip\<close>

lemma hexval_hexdig [simp]: "n < 16 \<Longrightarrow> hexval (hexdig n) = Some n"
  by (auto simp: hexval_def hexdig_def is_digit_def bv_char_of)

lemma horner16: "a * 16 + p = r \<Longrightarrow> b * 16 + q = a \<Longrightarrow> c * 16 + s = b \<Longrightarrow>
  c * 4096 + s * 256 + q * 16 + p = (r::nat)"
  by simp

lemma four_hex_digits:
  "r div 4096 * 4096 + r div 256 mod 16 * 256 + r div 16 mod 16 * 16 + r mod 16 = (r::nat)"
proof -
  have "r div 256 = r div 16 div 16" "r div 4096 = r div 16 div 16 div 16"
    by (simp_all flip: div_mult2_eq)
  then show ?thesis
    by (metis horner16 div_mult_mod_eq)
qed

lemma getu4_u_escape:
  "r < 65536 \<Longrightarrow> getu4 (drop 2 (u_escape r) @ t) = Some (r, t)"
  by (simp add: u_escape_def four_hex_digits)

lemma unquote_u_escape:
  assumes "r < 65536" "\<not> is_surrogate r"
  shows "unquote (u_escape r @ t) = map_option (\<lambda>(x, u). (encode_rune r @ x, u)) (unquote t)"
proof -
  have "unquote (CHR 0x5C # CHR ''u'' # (drop 2 (u_escape r) @ t)) =
      map_option (\<lambda>(x, u). (encode_rune r @ x, u)) (unquote t)"
    unfolding unquote_u getu4_u_escape [OF assms(1)] using assms(2) by simp
  moreover have "u_escape r @ t = CHR 0x5C # CHR ''u'' # (drop 2 (u_escape r) @ t)"
    by (simp add: u_escape_def)
  ultimately show ?thesis by metis
qed

lemma unquote_escape_ascii:
  assumes "bv c < 128"
  shows "unquote (escape_ascii c @ t) = map_option (\<lambda>(x, u). (c # x, u)) (unquote t)"
proof -
  have u: "unquote (u_escape (bv c) @ t) = map_option (\<lambda>(x, u). (c # x, u)) (unquote t)"
    using unquote_u_escape [of "bv c" t] assms
    by (simp add: is_surrogate_def encode_rune_def)
  show ?thesis
  proof (cases "c \<in> {CHR 0x22, CHR 0x5C, CHR 0x08, CHR 0x0C, CHR 0x0A, CHR 0x0D, CHR 0x09}")
    case True
    then show ?thesis
      by (auto simp: escape_ascii_def unescape_simple_def)
  next
    case simple: False
    show ?thesis
    proof (cases "escape_ascii c = u_escape (bv c)")
      case True
      with u show ?thesis by simp
    next
      case False
      with simple have "escape_ascii c = [c]" "32 \<le> bv c"
        by (auto simp: escape_ascii_def split: if_splits)
      with simple assms show ?thesis by (simp add: unquote_ascii)
    qed
  qed
qed

theorem unquote_quote_body: "valid_utf8 s \<Longrightarrow> unquote (quote_body s @ CHR 0x22 # t) = Some (s, t)"
proof (induction s rule: quote_body.induct)
  case 1
  then show ?case by simp
next
  case (2 c cs)
  show ?case
  proof (cases "bv c < 128")
    case True
    with 2 have "unquote (quote_body cs @ CHR 0x22 # t) = Some (cs, t)"
      by (simp add: valid_utf8_ascii)
    with True show ?thesis
      by (simp add: quote_body.simps(2) unquote_escape_ascii)
  next
    case False
    with "2.prems" obtain r n where rn: "decode_rune (c # cs) = Some (r, n)"
      and v: "valid_utf8 (drop n (c # cs))"
      by (subst (asm) valid_utf8.simps) (auto split: option.splits)
    from "2.IH"(3) [OF False rn] v
    have IH: "unquote (quote_body (drop n (c # cs)) @ CHR 0x22 # t) = Some (drop n (c # cs), t)"
      by simp
    show ?thesis
    proof (cases "r = 8232 \<or> r = 8233")
      case True
      then have "unquote (u_escape r @ quote_body (drop n (c # cs)) @ CHR 0x22 # t)
          = Some (take n (c # cs) @ drop n (c # cs), t)"
        using IH encode_decode_rune [OF rn]
        by (subst unquote_u_escape) (auto simp: is_surrogate_def)
      with False rn True show ?thesis
        by (simp add: quote_body.simps(2) del: drop_Suc_Cons take_Suc_Cons)
    next
      case plain: False
      define m where "m = n - 1"
      have n: "n = Suc m" using decode_rune_size [OF rn] by (simp add: m_def)
      have "decode_rune (c # (take m cs @ quote_body (drop n (c # cs)) @ CHR 0x22 # t)) = Some (r, n)"
        using decode_rune_append [OF rn, of "quote_body (drop n (c # cs)) @ CHR 0x22 # t"] n by simp
      then have "unquote (c # (take m cs @ quote_body (drop n (c # cs)) @ CHR 0x22 # t))
          = Some (take n (c # cs) @ drop n (c # cs), t)"
        using False IH decode_rune_size [OF rn] n by (subst unquote_rune) (auto simp: min_def)
      with False rn plain n show ?thesis
        by (simp add: quote_body.simps(2))
    qed
  qed
qed

section \<open>Numbers\<close>

text \<open>\<open>digits1\<close> reads one or more digits.\<close>

definition digits1 :: "string \<Rightarrow> (string \<times> string) option" where
  "digits1 s = (let ds = takeWhile is_digit s
                in if ds = [] then None else Some (ds, dropWhile is_digit s))"

text \<open>The fraction and the exponent: text read and rest, \<open>None\<close> for a syntax error.\<close>

definition scan_frac :: "string \<Rightarrow> (string \<times> string) option" where
  "scan_frac s =
     (case s of
        c # cs \<Rightarrow> if c = CHR ''.'' then map_option (\<lambda>(ds, r). (c # ds, r)) (digits1 cs) else Some ([], s)
      | [] \<Rightarrow> Some ([], s))"

definition scan_exp :: "string \<Rightarrow> (string \<times> string) option" where
  "scan_exp s =
     (case s of
        c # cs \<Rightarrow>
          if c = CHR ''e'' \<or> c = CHR ''E'' then
            (case cs of
               g # gs \<Rightarrow> if g = CHR ''+'' \<or> g = CHR ''-''
                           then map_option (\<lambda>(ds, r). (c # g # ds, r)) (digits1 gs)
                           else map_option (\<lambda>(ds, r). (c # ds, r)) (digits1 cs)
             | [] \<Rightarrow> None)
          else Some ([], s)
      | [] \<Rightarrow> Some ([], s))"

definition scan_uint :: "string \<Rightarrow> (string \<times> string) option" where
  "scan_uint s =
     (case digits1 s of
        None \<Rightarrow> None
      | Some (ds, r) \<Rightarrow> if hd ds = CHR ''0'' \<and> tl ds \<noteq> [] then None else Some (ds, r))"

definition parse_num :: "string \<Rightarrow> (jnum \<times> string) option" where
  "parse_num s =
     (let neg = (s \<noteq> [] \<and> hd s = CHR ''-''); s1 = (if neg then tl s else s)
      in case scan_uint s1 of None \<Rightarrow> None
         | Some (ds, r1) \<Rightarrow>
           (case scan_frac r1 of None \<Rightarrow> None
            | Some (fr, r2) \<Rightarrow>
              (case scan_exp r2 of None \<Rightarrow> None
               | Some (ex, r3) \<Rightarrow>
                   if fr = [] \<and> ex = [] \<and> \<not> (neg \<and> ds = ''0'')
                   then Some (NInt (if neg then - int (dec_val ds) else int (dec_val ds)), r3)
                   else Some (NReal ((if neg then ''-'' else []) @ ds @ fr @ ex), r3))))"

definition num_stop :: "string \<Rightarrow> bool" where
  "num_stop s \<longleftrightarrow> s = [] \<or> (\<not> is_digit (hd s) \<and> hd s \<notin> {CHR ''.'', CHR ''e'', CHR ''E''})"

lemma dec_digits_is_digit: "c \<in> set (dec_digits n) \<Longrightarrow> is_digit c"
  using dec_digits_chars [of c n] by (simp add: is_digit_def bv_def)

lemma dec_digits_nonempty [simp]: "dec_digits n \<noteq> []"
  by (subst dec_digits.simps) simp

lemma dec_digits_hd_zero: "hd (dec_digits n) = CHR ''0'' \<Longrightarrow> n = 0"
proof (induction n rule: dec_digits.induct)
  case (1 n)
  have z: "m = 0" if "char_of (48 + m) = CHR ''0''" "m < 10" for m :: nat
    using that bv_char_of [of "48 + m"] by (simp add: bv_def)
  show ?case
  proof (cases "n < 10")
    case True
    with "1.prems" show ?thesis
      by (subst (asm) dec_digits.simps) (auto dest: z)
  next
    case False
    with "1.prems" have "hd (dec_digits (n div 10)) = CHR ''0''"
      by (subst (asm) dec_digits.simps) simp
    with False "1.IH" show ?thesis by simp
  qed
qed

lemma dec_digits_0: "dec_digits 0 = ''0''"
  by code_simp

lemma digits1_dec: "num_stop t \<Longrightarrow> digits1 (dec_digits n @ t) = Some (dec_digits n, t)"
proof -
  assume t: "num_stop t"
  have "takeWhile is_digit (dec_digits n @ t) = dec_digits n"
    "dropWhile is_digit (dec_digits n @ t) = t"
    using t dec_digits_is_digit by (cases t; simp add: num_stop_def takeWhile_append2 dropWhile_append2)+
  then show ?thesis by (simp add: digits1_def)
qed

lemma scan_uint_dec:
  assumes "num_stop t"
  shows "scan_uint (dec_digits n @ t) = Some (dec_digits n, t)"
proof -
  have "tl (dec_digits n) = []" if "hd (dec_digits n) = CHR ''0''"
    using dec_digits_hd_zero [OF that] by (simp add: dec_digits_0)
  then show ?thesis
    using assms by (simp add: scan_uint_def digits1_dec)
qed

lemma scan_frac_stop: "num_stop t \<Longrightarrow> scan_frac t = Some ([], t)"
  by (cases t) (auto simp: scan_frac_def num_stop_def)

lemma scan_exp_stop: "num_stop t \<Longrightarrow> scan_exp t = Some ([], t)"
  by (cases t) (auto simp: scan_exp_def num_stop_def)

lemma dec_digits_hd_not_minus: "hd (dec_digits n @ t) \<noteq> CHR ''-''"
proof -
  have "is_digit (hd (dec_digits n))"
    by (rule dec_digits_is_digit [OF hd_in_set]) simp
  then have "hd (dec_digits n) \<noteq> CHR ''-''"
    by (auto simp: is_digit_def bv_def)
  then show ?thesis by simp
qed

lemma parse_num_Itoa:
  assumes "num_stop t"
  shows "parse_num (Itoa i @ t) = Some (NInt i, t)"
proof (cases "i < 0")
  case True
  then have "dec_digits (nat (- i)) \<noteq> ''0''"
    by (metis dec_digits_0 dec_digits_inj nat_eq_iff2 neg_less_0_iff_less nat_0_iff
        not_less neg_le_0_iff_le)
  with True assms show ?thesis
    by (simp add: parse_num_def Itoa_def scan_uint_dec scan_frac_stop scan_exp_stop Let_def)
next
  case False
  with assms show ?thesis
    using dec_digits_hd_not_minus [of "nat i" t]
    by (simp add: parse_num_def Itoa_def scan_uint_dec scan_frac_stop scan_exp_stop Let_def)
qed

lemma Itoa_hd: "\<exists>c cs. Itoa i = c # cs \<and> (c = CHR ''-'' \<or> is_digit c)"
proof (cases "i < 0")
  case True
  then show ?thesis by (simp add: Itoa_def)
next
  case False
  moreover have "is_digit (hd (dec_digits (nat i)))"
    by (rule dec_digits_is_digit [OF hd_in_set]) simp
  ultimately show ?thesis
    by (cases "dec_digits (nat i)") (auto simp: Itoa_def)
qed

section \<open>Values\<close>

text \<open>
  The recursive descent.  The first argument is fuel (every call uses one unit and fewer
  than two calls are made per byte, see \<open>parse_fuel\<close>), the second the nesting that is
  still allowed; the decoder gives up beyond 10000 levels.
\<close>

fun parse_value :: "nat \<Rightarrow> nat \<Rightarrow> string \<Rightarrow> (json \<times> string) option"
  and parse_elems :: "nat \<Rightarrow> nat \<Rightarrow> string \<Rightarrow> (json list \<times> string) option"
  and parse_members :: "nat \<Rightarrow> nat \<Rightarrow> string \<Rightarrow> ((string \<times> json) list \<times> string) option"
where
  "parse_value 0 d s = None"
| "parse_value (Suc n) d s =
     (case skip_ws s of
        [] \<Rightarrow> None
      | c # cs \<Rightarrow>
          if c = CHR 0x22 then map_option (\<lambda>(x, r). (JStr x, r)) (unquote cs)
          else if c = CHR ''['' then
            (if d = 0 then None
             else if HasPrefix (skip_ws cs) '']'' then Some (JArr [], tl (skip_ws cs))
             else map_option (\<lambda>(xs, r). (JArr xs, r)) (parse_elems n (d - 1) cs))
          else if c = CHR ''{'' then
            (if d = 0 then None
             else if HasPrefix (skip_ws cs) ''}'' then Some (JObj [], tl (skip_ws cs))
             else map_option (\<lambda>(kvs, r). (JObj kvs, r)) (parse_members n (d - 1) cs))
          else if c = CHR ''t'' then map_option (\<lambda>r. (JBool True, r)) (CutPrefix cs ''rue'')
          else if c = CHR ''f'' then map_option (\<lambda>r. (JBool False, r)) (CutPrefix cs ''alse'')
          else if c = CHR ''n'' then map_option (\<lambda>r. (JNull, r)) (CutPrefix cs ''ull'')
          else map_option (\<lambda>(x, r). (JNum x, r)) (parse_num (c # cs)))"
| "parse_elems 0 d s = None"
| "parse_elems (Suc n) d s =
     (case parse_value n d s of
        None \<Rightarrow> None
      | Some (v, r) \<Rightarrow>
          (case skip_ws r of
             [] \<Rightarrow> None
           | c # cs \<Rightarrow>
               if c = CHR '','' then map_option (\<lambda>(vs, t). (v # vs, t)) (parse_elems n d cs)
               else if c = CHR '']'' then Some ([v], cs)
               else None))"
| "parse_members 0 d s = None"
| "parse_members (Suc n) d s =
     (case skip_ws s of
        [] \<Rightarrow> None
      | q # cs \<Rightarrow>
          if q \<noteq> CHR 0x22 then None
          else (case unquote cs of
             None \<Rightarrow> None
           | Some (k, r) \<Rightarrow>
               (case skip_ws r of
                  [] \<Rightarrow> None
                | e # es \<Rightarrow>
                    if e \<noteq> CHR '':'' then None
                    else (case parse_value n d es of
                       None \<Rightarrow> None
                     | Some (v, r2) \<Rightarrow>
                         (case skip_ws r2 of
                            [] \<Rightarrow> None
                          | c # cs2 \<Rightarrow>
                              if c = CHR '','' then
                                map_option (\<lambda>(kvs, t). ((k, v) # kvs, t)) (parse_members n d cs2)
                              else if c = CHR ''}'' then Some ([(k, v)], cs2)
                              else None)))))"

declare parse_value.simps [simp del] parse_elems.simps [simp del] parse_members.simps [simp del]

definition max_depth :: nat where
  "max_depth = 10000"

text \<open>\<open>json.Unmarshal\<close>'s document: one value, then only white space.\<close>

definition json_Parse :: "string \<Rightarrow> json option" where
  "json_Parse s =
     (case parse_value (2 * length s + 2) max_depth s of
        None \<Rightarrow> None
      | Some (j, r) \<Rightarrow> if skip_ws r = [] then Some j else None)"

text \<open>\<open>json.Decoder.Decode\<close> reads the first value and leaves the rest of the input alone.\<close>

definition json_Decode :: "string \<Rightarrow> json option" where
  "json_Decode s = map_option fst (parse_value (2 * length s + 2) max_depth s)"

section \<open>Enough fuel\<close>

lemma skip_ws_length [simp]: "length (skip_ws s) \<le> length s"
  by (simp add: skip_ws_def length_dropWhile_le)

lemma skip_ws_Cons_length: "skip_ws s = c # cs \<Longrightarrow> length cs < length s"
  using skip_ws_length [of s] by simp

lemma CutPrefix_length: "CutPrefix s p = Some r \<Longrightarrow> length r \<le> length s"
  by (auto simp: CutPrefix_Some)

lemma digits1_length: "digits1 s = Some (a, r) \<Longrightarrow> length r < length s"
  by (auto simp: digits1_def Let_def split: if_splits)
    (metis length_append length_greater_0_conv less_add_same_cancel2 takeWhile_dropWhile_id)

lemma scan_frac_length: "scan_frac s = Some (a, r) \<Longrightarrow> length r \<le> length s"
  by (auto simp: scan_frac_def split: list.splits if_splits dest: digits1_length)

lemma scan_exp_length: "scan_exp s = Some (a, r) \<Longrightarrow> length r \<le> length s"
  by (auto simp: scan_exp_def split: list.splits if_splits dest!: digits1_length)

lemma parse_num_length: "parse_num s = Some (x, r) \<Longrightarrow> length r < length s"
  by (cases s)
    (fastforce simp: parse_num_def scan_uint_def Let_def split: option.splits if_splits
      dest!: digits1_length scan_frac_length scan_exp_length)+

lemma parse_length:
  "parse_value n d s = Some (j, r) \<Longrightarrow> length r < length s"
  "parse_elems n d s = Some (js, r) \<Longrightarrow> length r < length s"
  "parse_members n d s = Some (kvs, r) \<Longrightarrow> length r < length s"
proof (induction n d s and n d s and n d s arbitrary: j r and js r and kvs r
    rule: parse_value_parse_elems_parse_members.induct)
  case (2 n d s)
  obtain c cs where c: "skip_ws s = c # cs"
    using "2.prems" by (cases "skip_ws s") (auto simp: parse_value.simps)
  have tl: "length (tl (skip_ws cs)) \<le> length cs"
    using skip_ws_length [of cs] by (simp only: length_tl)
  show ?case
    using "2.prems" "2.IH" [OF c] skip_ws_Cons_length [OF c] skip_ws_length [of s] c tl
    by (fastforce simp: parse_value.simps split: if_splits
        dest!: unquote_length parse_num_length CutPrefix_length)
next
  case (4 n d s)
  then show ?case
    by (fastforce simp: parse_elems.simps split: option.splits list.splits if_splits prod.splits
        dest: skip_ws_Cons_length)
next
  case (6 n d s)
  then show ?case
    by (fastforce simp: parse_members.simps split: option.splits list.splits if_splits prod.splits
        dest: skip_ws_Cons_length unquote_length)
qed (simp_all add: parse_value.simps parse_elems.simps parse_members.simps)

lemma parse_fuel_step:
  "(\<forall>n m d. 2 * length s < n \<longrightarrow> 2 * length s < m \<longrightarrow> parse_value n d s = parse_value m d s) \<and>
   (\<forall>n m d. 2 * length s + 1 < n \<longrightarrow> 2 * length s + 1 < m \<longrightarrow> parse_elems n d s = parse_elems m d s) \<and>
   (\<forall>n m d. 2 * length s + 1 < n \<longrightarrow> 2 * length s + 1 < m \<longrightarrow> parse_members n d s = parse_members m d s)"
proof (induction "length s" arbitrary: s rule: less_induct)
  case less
  have V: "parse_value n d t = parse_value m d t"
    if "length t < length s" "2 * length t < n" "2 * length t < m" for n m d t
    using less [OF that(1)] that(2,3) by blast
  have E: "parse_elems n d t = parse_elems m d t"
    if "length t < length s" "2 * length t + 1 < n" "2 * length t + 1 < m" for n m d t
    using less [OF that(1)] that(2,3) by blast
  have M: "parse_members n d t = parse_members m d t"
    if "length t < length s" "2 * length t + 1 < n" "2 * length t + 1 < m" for n m d t
    using less [OF that(1)] that(2,3) by blast
  have V0: "parse_value (Suc n) d s = parse_value (Suc m) d s"
    if "2 * length s \<le> n" "2 * length s \<le> m" for n m d
  proof (cases "skip_ws s")
    case (Cons c cs)
    then have "length cs < length s" by (rule skip_ws_Cons_length)
    with that have "parse_elems n (d - 1) cs = parse_elems m (d - 1) cs"
      "parse_members n (d - 1) cs = parse_members m (d - 1) cs"
      by (auto intro!: E M)
    with Cons show ?thesis by (simp add: parse_value.simps)
  qed (simp add: parse_value.simps)
  have E0: "parse_elems (Suc n) d s = parse_elems (Suc m) d s"
    if nm: "2 * length s < n" "2 * length s < m" for n m d
  proof -
    from nm obtain n' m' where n': "n = Suc n'" "m = Suc m'" "2 * length s \<le> n'" "2 * length s \<le> m'"
      by (cases n; cases m) auto
    have v: "parse_value n d s = parse_value m d s"
      unfolding n'(1,2) by (rule V0 [OF n'(3,4)])
    have "parse_elems n d cs = parse_elems m d cs"
      if "parse_value m d s = Some (x, r)" "skip_ws r = c # cs" for x r c cs
      using parse_length(1) [OF that(1)] skip_ws_Cons_length [OF that(2)] nm by (intro E) auto
    with v show ?thesis
      by (auto simp: parse_elems.simps split: option.splits list.splits)
  qed
  have M0: "parse_members (Suc n) d s = parse_members (Suc m) d s"
    if nm: "2 * length s < n" "2 * length s < m" for n m d
  proof -
    have v: "parse_value n d es = parse_value m d es" and
      t: "parse_value m d es = Some (v, r2) \<Longrightarrow> skip_ws r2 = c # cs2 \<Longrightarrow>
          parse_members n d cs2 = parse_members m d cs2"
      if "skip_ws s = q # cs" "unquote cs = Some (k, r)" "skip_ws r = e # es" for q cs k r e es v r2 c cs2
    proof -
      have l: "length es < length s"
        using skip_ws_Cons_length [OF that(1)] unquote_length [OF that(2)] skip_ws_Cons_length [OF that(3)]
        by simp
      with nm show "parse_value n d es = parse_value m d es" by (intro V) auto
      assume "parse_value m d es = Some (v, r2)" "skip_ws r2 = c # cs2"
      then have "length cs2 < length s"
        using l parse_length(1) skip_ws_Cons_length by (metis less_trans)
      with nm show "parse_members n d cs2 = parse_members m d cs2" by (intro M) auto
    qed
    show ?thesis
      by (auto simp: parse_members.simps v t split: option.splits list.splits)
  qed
  have "parse_value n d s = parse_value m d s" if "2 * length s < n" "2 * length s < m" for n m d
    using V0 [of "n - 1" "m - 1" d] that by (cases n; cases m) auto
  moreover have "parse_elems n d s = parse_elems m d s"
    if "2 * length s + 1 < n" "2 * length s + 1 < m" for n m d
    using E0 [of "n - 1" "m - 1" d] that by (cases n; cases m) auto
  moreover have "parse_members n d s = parse_members m d s"
    if "2 * length s + 1 < n" "2 * length s + 1 < m" for n m d
    using M0 [of "n - 1" "m - 1" d] that by (cases n; cases m) auto
  ultimately show ?case by blast
qed

lemma parse_fuel:
  "2 * length s < n \<Longrightarrow> 2 * length s < m \<Longrightarrow> parse_value n d s = parse_value m d s"
  using parse_fuel_step by blast

section \<open>Documents round trip\<close>

text \<open>
  What printing can represent: integer literals, valid UTF-8 strings, nesting up to \<open>d\<close>.
\<close>

fun wf_json :: "nat \<Rightarrow> json \<Rightarrow> bool" where
  "wf_json d JNull = True"
| "wf_json d (JBool b) = True"
| "wf_json d (JNum n) = (case n of NInt i \<Rightarrow> True | NReal s \<Rightarrow> False)"
| "wf_json d (JStr s) = valid_utf8 s"
| "wf_json d (JArr xs) = (0 < d \<and> list_all (wf_json (d - 1)) xs)"
| "wf_json d (JObj kvs) =
     (0 < d \<and> list_all (\<lambda>kv. valid_utf8 (fst kv) \<and> wf_json (d - 1) (snd kv)) kvs)"

definition all_ws :: "string \<Rightarrow> bool" where
  "all_ws s \<longleftrightarrow> (\<forall>c \<in> set s. is_ws c)"

lemma all_ws_Nil [simp]: "all_ws []"
  by (simp add: all_ws_def)

lemma skip_ws_append: "all_ws w \<Longrightarrow> skip_ws (w @ s) = skip_ws s"
  by (simp add: skip_ws_def all_ws_def dropWhile_append2)

lemma skip_ws_Cons: "\<not> is_ws c \<Longrightarrow> skip_ws (c # s) = c # s"
  by (simp add: skip_ws_def)

lemma is_ws_no_num: "is_ws c \<Longrightarrow> \<not> is_digit c \<and> c \<notin> {CHR ''.'', CHR ''e'', CHR ''E''}"
  unfolding is_ws_def by (elim disjE) (simp_all add: is_digit_def bv_def)

lemma num_stop_ws: "all_ws w \<Longrightarrow> \<not> is_digit c \<Longrightarrow> c \<notin> {CHR ''.'', CHR ''e'', CHR ''E''} \<Longrightarrow> num_stop (w @ c # t)"
  using is_ws_no_num by (cases w) (auto simp: num_stop_def all_ws_def)

text \<open>A parse that succeeds with all large enough fuel.\<close>

definition reads :: "(nat \<Rightarrow> ('a \<times> string) option) \<Rightarrow> 'a \<Rightarrow> string \<Rightarrow> bool" where
  "reads p x r \<longleftrightarrow> (\<exists>n0. \<forall>n \<ge> n0. p n = Some (x, r))"

lemma readsI: "(\<And>n. p (Suc n) = Some (x, r)) \<Longrightarrow> reads p x r"
  unfolding reads_def by (metis Suc_le_D)

lemma reads_Suc:
  assumes "reads q y t" "\<And>n. q n = Some (y, t) \<Longrightarrow> p (Suc n) = Some (x, r)"
  shows "reads p x r"
proof -
  from assms(1) obtain n0 where n0: "\<forall>n \<ge> n0. q n = Some (y, t)"
    by (auto simp: reads_def)
  then have "p n = Some (x, r)" if "Suc n0 \<le> n" for n
    using that assms(2) by (cases n) auto
  then show ?thesis by (auto simp: reads_def)
qed

lemma reads_Suc2:
  assumes "reads q y t" "reads q' y' t'"
    "\<And>n. q n = Some (y, t) \<Longrightarrow> q' n = Some (y', t') \<Longrightarrow> p (Suc n) = Some (x, r)"
  shows "reads p x r"
proof -
  from assms(1,2) obtain n0 n1 where n: "\<forall>n \<ge> n0. q n = Some (y, t)" "\<forall>n \<ge> n1. q' n = Some (y', t')"
    by (auto simp: reads_def)
  then have "p n = Some (x, r)" if "Suc (max n0 n1) \<le> n" for n
    using that assms(3) by (cases n) auto
  then show ?thesis by (auto simp: reads_def)
qed

lemma reads_json_Parse:
  assumes "reads (\<lambda>n. parse_value n max_depth s) j r" "skip_ws r = []"
  shows "json_Parse s = Some j" "json_Decode s = Some j"
proof -
  from assms(1) obtain n0 where "\<forall>n \<ge> n0. parse_value n max_depth s = Some (j, r)"
    by (auto simp: reads_def)
  then have "parse_value (max n0 (2 * length s + 2)) max_depth s = Some (j, r)"
    by simp
  then have "parse_value (2 * length s + 2) max_depth s = Some (j, r)"
    by (subst parse_fuel [where m = "max n0 (2 * length s + 2)"]) auto
  with assms(2) show "json_Parse s = Some j" "json_Decode s = Some j"
    by (simp_all add: json_Parse_def json_Decode_def)
qed

lemma is_ws_punct [simp]:
  "\<not> is_ws CHR 0x22" "\<not> is_ws CHR ''['' " "\<not> is_ws CHR '']''" "\<not> is_ws CHR ''{''" "\<not> is_ws CHR ''}''"
  "\<not> is_ws CHR '',''" "\<not> is_ws CHR '':''" "\<not> is_ws CHR ''t''" "\<not> is_ws CHR ''f''" "\<not> is_ws CHR ''n''"
  "\<not> is_ws CHR ''-''"
  by (simp_all add: is_ws_def)

lemma is_digit_not [simp]:
  "\<not> is_digit CHR '',''" "\<not> is_digit CHR '']''" "\<not> is_digit CHR ''}''"
  by (simp_all add: is_digit_def bv_def)

lemma print_num_hd: "\<exists>c cs. print_num (NInt i) = c # cs \<and> \<not> is_ws c \<and> c \<notin> set ''[]{}tfn'' \<and> c \<noteq> CHR 0x22"
proof -
  obtain c cs where c: "Itoa i = c # cs" "c = CHR ''-'' \<or> is_digit c"
    using Itoa_hd by blast
  have "\<not> is_ws c \<and> c \<notin> set ''[]{}tfn'' \<and> c \<noteq> CHR 0x22"
    using c(2) is_ws_no_num [of c] by (auto simp: is_digit_def bv_def)
  with c(1) show ?thesis by simp
qed

lemma print_with_hd:
  "wf_json d j \<Longrightarrow> \<exists>c cs. print_with ws sp e j = c # cs \<and> \<not> is_ws c \<and> c \<noteq> CHR '']''"
  using print_num_hd by (cases j) (fastforce simp: quote_def split: jnum.splits)+

lemma reads_elems:
  assumes IH: "\<And>x w t. x \<in> set xs \<Longrightarrow> all_ws w \<Longrightarrow> num_stop t \<Longrightarrow>
      reads (\<lambda>n. parse_value n d (w @ P x @ t)) x t"
    and "xs \<noteq> []" "all_ws w" "all_ws w2" "all_ws w3"
  shows "reads (\<lambda>n. parse_elems n d (w @ Join (map P xs) (CHR '','' # w2) @ w3 @ CHR '']'' # t)) xs t"
  using assms(2,1,3)
proof (induction xs arbitrary: w rule: list_nonempty_induct)
  case (single x)
  have "reads (\<lambda>n. parse_value n d (w @ P x @ w3 @ CHR '']'' # t)) x (w3 @ CHR '']'' # t)"
    using single assms(5) by (intro single.prems(1)) (auto intro: num_stop_ws)
  then show ?case
    by (rule reads_Suc) (simp add: parse_elems.simps skip_ws_append [OF assms(5)] skip_ws_Cons)
next
  case (cons x xs)
  let ?r = "w2 @ Join (map P xs) (CHR '','' # w2) @ w3 @ CHR '']'' # t"
  have j: "Join (map P (x # xs)) (CHR '','' # w2) = P x @ CHR '','' # w2 @ Join (map P xs) (CHR '','' # w2)"
    using cons(1) by (cases xs) auto
  have "reads (\<lambda>n. parse_value n d (w @ P x @ CHR '','' # ?r)) x (CHR '','' # ?r)"
    using cons.prems by (intro cons.prems(1)) (auto simp: num_stop_def)
  moreover have "reads (\<lambda>n. parse_elems n d ?r) xs t"
    using cons.prems(1) assms(4) by (intro cons.IH) auto
  ultimately show ?case
    unfolding j by (rule reads_Suc2) (simp add: parse_elems.simps skip_ws_Cons)
qed

lemma reads_members:
  assumes IH: "\<And>kv w t. kv \<in> set kvs \<Longrightarrow> all_ws w \<Longrightarrow> num_stop t \<Longrightarrow>
      valid_utf8 (fst kv) \<and> reads (\<lambda>n. parse_value n d (w @ P (snd kv) @ t)) (snd kv) t"
    and "kvs \<noteq> []" "all_ws w" "all_ws w2" "all_ws w3" "all_ws sp"
  shows "reads (\<lambda>n. parse_members n d
      (w @ Join (map (\<lambda>kv. quote (fst kv) @ CHR '':'' # sp @ P (snd kv)) kvs) (CHR '','' # w2)
         @ w3 @ CHR ''}'' # t)) kvs t"
  using assms(2,1,3)
proof (induction kvs arbitrary: w rule: list_nonempty_induct)
  case (single kv)
  have "valid_utf8 (fst kv) \<and>
      reads (\<lambda>n. parse_value n d (sp @ P (snd kv) @ w3 @ CHR ''}'' # t)) (snd kv) (w3 @ CHR ''}'' # t)"
    using single assms(5,6) by (intro single.prems(1)) (auto intro: num_stop_ws)
  then show ?case
    by (elim conjE, elim reads_Suc)
      (simp add: parse_members.simps skip_ws_append [OF assms(5)] skip_ws_append [OF single.prems(2)]
        skip_ws_Cons quote_def unquote_quote_body)
next
  case (cons kv kvs)
  let ?J = "Join (map (\<lambda>kv. quote (fst kv) @ CHR '':'' # sp @ P (snd kv)) kvs) (CHR '','' # w2)"
  let ?r = "w2 @ ?J @ w3 @ CHR ''}'' # t"
  have j: "Join (map (\<lambda>kv. quote (fst kv) @ CHR '':'' # sp @ P (snd kv)) (kv # kvs)) (CHR '','' # w2)
      = quote (fst kv) @ CHR '':'' # sp @ P (snd kv) @ CHR '','' # w2 @ ?J"
    using cons(1) by (cases kvs) auto
  have "valid_utf8 (fst kv) \<and>
      reads (\<lambda>n. parse_value n d (sp @ P (snd kv) @ CHR '','' # ?r)) (snd kv) (CHR '','' # ?r)"
    using cons.prems assms(6) by (intro cons.prems(1)) (auto simp: num_stop_def)
  then have v: "valid_utf8 (fst kv)"
    and rv: "reads (\<lambda>n. parse_value n d (sp @ P (snd kv) @ CHR '','' # ?r)) (snd kv) (CHR '','' # ?r)"
    by blast+
  have rm: "reads (\<lambda>n. parse_members n d ?r) kvs t"
    using cons.prems(1) assms(4) by (intro cons.IH) auto
  show ?case
    unfolding j
    by (rule reads_Suc2 [OF rv rm])
      (simp add: parse_members.simps skip_ws_append [OF cons.prems(2)] skip_ws_Cons quote_def
        unquote_quote_body v)
qed

theorem reads_value:
  assumes "\<And>d. all_ws (ws d)" "all_ws sp"
  shows "wf_json d j \<Longrightarrow> all_ws w \<Longrightarrow> num_stop t \<Longrightarrow>
    reads (\<lambda>n. parse_value n d (w @ print_with ws sp e j @ t)) j t"
proof (induction j arbitrary: d e w t)
  case (JNum x)
  then obtain i where x: "x = NInt i"
    by (cases x) auto
  obtain c cs where c: "Itoa i = c # cs" "\<not> is_ws c" "c \<notin> set ''[]{}tfn''" "c \<noteq> CHR 0x22"
    using print_num_hd [of i] by auto
  have "parse_num (c # cs @ t) = Some (NInt i, t)"
    using parse_num_Itoa [OF JNum.prems(3), of i] c(1) by simp
  with c x show ?case
    by (intro readsI) (auto simp: parse_value.simps skip_ws_append [OF JNum.prems(2)] skip_ws_Cons)
next
  case (JStr s)
  then show ?case
    by (intro readsI) (simp add: parse_value.simps skip_ws_append skip_ws_Cons quote_def unquote_quote_body)
next
  case (JArr xs)
  show ?case
  proof (cases "xs = []")
    case True
    with JArr.prems show ?thesis
      by (intro readsI) (simp add: parse_value.simps skip_ws_append skip_ws_Cons HasPrefix_def)
  next
    case False
    let ?P = "print_with ws sp (Suc e)"
    have IH: "reads (\<lambda>n. parse_value n (d - 1) (w @ ?P x @ t)) x t"
      if "x \<in> set xs" "all_ws w" "num_stop t" for x w t
      using that JArr.prems(1) by (intro JArr.IH) (auto simp: list_all_iff)
    have r: "reads (\<lambda>n. parse_elems n (d - 1)
        (ws (Suc e) @ Join (map ?P xs) (CHR '','' # ws (Suc e)) @ ws e @ CHR '']'' # t)) xs t"
      using IH False assms by (intro reads_elems) auto
    obtain c cs where c: "print_with ws sp (Suc e) (hd xs) = c # cs" "\<not> is_ws c" "c \<noteq> CHR '']''"
      using print_with_hd [of "d - 1" "hd xs" ws sp "Suc e"] JArr.prems(1) False
      by (auto simp: list_all_iff)
    obtain cs' where "Join (map ?P xs) (CHR '','' # ws (Suc e)) = c # cs'"
      using c False by (cases xs; cases "tl xs") auto
    with r c False JArr.prems assms(1) show ?thesis
      by (elim reads_Suc) (simp add: parse_value.simps skip_ws_append skip_ws_Cons HasPrefix_def)
  qed
next
  case (JObj kvs)
  show ?case
  proof (cases "kvs = []")
    case True
    with JObj.prems show ?thesis
      by (intro readsI) (simp add: parse_value.simps skip_ws_append skip_ws_Cons HasPrefix_def)
  next
    case False
    let ?P = "print_with ws sp (Suc e)"
    let ?J = "Join (map (\<lambda>kv. quote (fst kv) @ CHR '':'' # sp @ ?P (snd kv)) kvs) (CHR '','' # ws (Suc e))"
    have IH: "valid_utf8 (fst kv) \<and> reads (\<lambda>n. parse_value n (d - 1) (w @ ?P (snd kv) @ t)) (snd kv) t"
      if "kv \<in> set kvs" "all_ws w" "num_stop t" for kv w t
    proof -
      have "snd kv \<in> Basic_BNFs.snds kv"
        by (cases kv) (simp add: snds.intros)
      from JObj.IH [OF that(1) this] show ?thesis
        using that JObj.prems(1) by (auto simp: list_all_iff)
    qed
    have r: "reads (\<lambda>n. parse_members n (d - 1) (ws (Suc e) @ ?J @ ws e @ CHR ''}'' # t)) kvs t"
      using IH False assms by (intro reads_members) auto
    obtain cs where "?J = CHR 0x22 # cs"
      using False by (cases kvs; cases "tl kvs") (auto simp: quote_def)
    with r False JObj.prems assms(1) show ?thesis
      by (elim reads_Suc) (simp add: parse_value.simps skip_ws_append skip_ws_Cons HasPrefix_def)
  qed
qed (intro readsI; simp add: parse_value.simps skip_ws_append skip_ws_Cons CutPrefix_def HasPrefix_def)+

lemma all_ws_indent2 [simp]: "all_ws (indent2 d)"
  by (simp add: all_ws_def indent2_def is_ws_def)

theorem json_Parse_Marshal: "wf_json max_depth j \<Longrightarrow> json_Parse (json_Marshal j) = Some j"
  using reads_json_Parse(1) [OF reads_value [of "\<lambda>_. []" "[]" max_depth j "[]" "[]"]]
  by (simp add: json_Marshal_def num_stop_def skip_ws_def)

theorem json_Parse_MarshalIndent:
  assumes "wf_json max_depth j" "all_ws t" "num_stop t"
  shows "json_Parse (json_MarshalIndent j @ t) = Some j"
proof -
  have "skip_ws t = []"
    using skip_ws_append [OF assms(2), of "[]"] by (simp add: skip_ws_def)
  then show ?thesis
    using reads_json_Parse(1) [OF reads_value [of indent2 "[CHR 0x20]" max_depth j "[]" t 0]] assms
    by (simp add: json_MarshalIndent_def all_ws_def [of "[CHR 0x20]"] is_ws_def)
qed

section \<open>What is printed is valid UTF-8\<close>

lemma decode_rune_take_valid: "decode_rune s = Some (r, n) \<Longrightarrow> valid_utf8 (take n s)"
  using decode_rune_append [of s r n "[]"] decode_rune_size [of s r n]
  by (subst valid_utf8.simps) simp

lemma hexdig_ascii [simp]: "n < 16 \<Longrightarrow> bv (hexdig n) < 128"
  by (auto simp: hexdig_def bv_char_of)

lemma u_escape_valid: "valid_utf8 (u_escape r)"
proof -
  have "bv CHR 0x5C < 128" "bv CHR ''u'' < 128"
    by (simp_all add: bv_def)
  then show ?thesis
    by (intro ascii_valid_utf8) (auto simp: u_escape_def)
qed

lemma escape_ascii_valid: "bv c < 128 \<Longrightarrow> valid_utf8 (escape_ascii c)"
  using u_escape_valid by (auto simp: escape_ascii_def valid_utf8_ascii bv_def)

lemma quote_body_valid: "valid_utf8 (quote_body s)"
proof (induction s rule: quote_body.induct)
  case (2 c cs)
  show ?case
  proof (cases "bv c < 128")
    case True
    with "2.IH"(1) show ?thesis
      by (simp add: quote_body.simps(2) valid_utf8_append escape_ascii_valid)
  next
    case False
    show ?thesis
    proof (cases "decode_rune (c # cs)")
      case None
      with False "2.IH"(2) show ?thesis
        by (simp add: quote_body.simps(2) valid_utf8_append u_escape_valid)
    next
      case (Some rn)
      then obtain r n where rn: "decode_rune (c # cs) = Some (r, n)"
        by (cases rn) auto
      have "valid_utf8 (quote_body (drop n (c # cs)))"
        using "2.IH"(3) [OF False rn] by simp
      with False rn decode_rune_take_valid [OF rn] show ?thesis
        by (auto simp: quote_body.simps(2) valid_utf8_append u_escape_valid
            simp del: drop_Suc_Cons take_Suc_Cons)
    qed
  qed
qed simp

lemma quote_valid: "valid_utf8 (quote s)"
  unfolding quote_def using valid_utf8_append [OF quote_body_valid, of "[CHR 0x22]"]
  by (simp add: valid_utf8_ascii bv_def)

lemma Join_valid: "\<forall>x \<in> set xs. valid_utf8 x \<Longrightarrow> valid_utf8 sep \<Longrightarrow> valid_utf8 (Join xs sep)"
  by (induction xs sep rule: Join.induct) (auto intro!: valid_utf8_append)

fun ints_only :: "json \<Rightarrow> bool" where
  "ints_only (JNum (NReal s)) = False"
| "ints_only (JArr xs) = list_all ints_only xs"
| "ints_only (JObj kvs) = list_all (\<lambda>kv. ints_only (snd kv)) kvs"
| "ints_only _ = True"

lemma Itoa_valid: "valid_utf8 (Itoa i)"
proof (rule ascii_valid_utf8, rule ballI)
  fix c assume "c \<in> set (Itoa i)"
  then show "bv c < 128"
    using dec_digits_chars [of c] by (fastforce simp: Itoa_def bv_def split: if_splits)
qed

lemma print_valid:
  assumes "\<And>d. valid_utf8 (ws d)" "valid_utf8 sp"
  shows "ints_only j \<Longrightarrow> valid_utf8 (print_with ws sp d j)"
proof (induction j arbitrary: d)
  case (JNum x)
  then show ?case
    by (cases x) (simp_all add: Itoa_valid)
next
  case (JArr xs)
  then have "valid_utf8 (Join (map (print_with ws sp (Suc d)) xs) (CHR '','' # ws (Suc d)))"
    using assms by (intro Join_valid) (auto simp: list_all_iff valid_utf8_ascii bv_def)
  with assms show ?case
    by (auto simp: valid_utf8_ascii bv_def intro!: valid_utf8_append)
next
  case (JObj kvs)
  have IH: "valid_utf8 (print_with ws sp e (snd kv))" if "kv \<in> set kvs" for kv e
  proof -
    have "snd kv \<in> Basic_BNFs.snds kv"
      by (cases kv) (simp add: snds.intros)
    from JObj.IH [OF that this] show ?thesis
      using that JObj.prems by (simp add: list_all_iff)
  qed
  have "valid_utf8 (Join (map (\<lambda>kv. quote (fst kv) @ CHR '':'' # sp @ print_with ws sp (Suc d) (snd kv)) kvs)
      (CHR '','' # ws (Suc d)))"
    using assms IH by (intro Join_valid) (auto simp: valid_utf8_ascii bv_def quote_valid intro!: valid_utf8_append)
  with assms show ?case
    by (auto simp: valid_utf8_ascii bv_def intro!: valid_utf8_append)
qed (simp_all add: quote_valid valid_utf8_ascii bv_def)

lemma json_Marshal_valid: "ints_only j \<Longrightarrow> valid_utf8 (json_Marshal j)"
  by (simp add: json_Marshal_def print_valid)

end
