(* ===== verification/GoTime.thy ===== *)
theory GoTime
  imports Prelude
begin

text \<open>
  The part of package \<open>time\<close> the code relies on, at the width Go computes it: a
  \<open>Duration\<close> is a 64-bit count of nanoseconds, a \<open>Time\<close> is a 64-bit count of seconds
  since year 1 and a nanosecond.  \<open>time.Unix\<close> wraps, \<open>Add\<close> saturates the seconds and
  \<open>Sub\<close> saturates the duration, as the library does.  A reading of the clock is one such
  value (the monotonic reading Go keeps beside it is not modelled: clocks that step are
  outside the model).  The lemmas relate every operation to exact integer nanoseconds, which
  is the form in which the components reason about time.
\<close>

named_theorems gotime \<open>times as integer nanoseconds\<close>

section \<open>64-bit integers\<close>

definition s64 :: "int \<Rightarrow> int" where
  "s64 x = (x + 2 ^ 63) mod 2 ^ 64 - 2 ^ 63"

definition in_s64 :: "int \<Rightarrow> bool" where
  "in_s64 x \<longleftrightarrow> - (2 ^ 63) \<le> x \<and> x < 2 ^ 63"

lemma s64_id: "in_s64 x \<Longrightarrow> s64 x = x"
  by (simp add: s64_def in_s64_def)

lemma in_s64_s64 [simp]: "in_s64 (s64 x)"
  by (simp add: s64_def in_s64_def)

lemma divmodI: "a = b * q + r \<Longrightarrow> 0 \<le> r \<Longrightarrow> r < b \<Longrightarrow> a div b = q \<and> a mod b = r" for a :: int
  using int_div_pos_eq int_mod_pos_eq by blast

lemma s64_eqI: "x = y + 2 ^ 64 * k \<Longrightarrow> in_s64 y \<Longrightarrow> s64 x = y"
proof -
  assume x: "x = y + 2 ^ 64 * k" and y: "in_s64 y"
  have "x + 2 ^ 63 = 2 ^ 64 * k + (y + 2 ^ 63)"
    using x by linarith
  moreover have "0 \<le> y + 2 ^ 63" "y + 2 ^ 63 < 2 ^ 64"
    using y unfolding in_s64_def by auto
  ultimately have "(x + 2 ^ 63) mod 2 ^ 64 = y + 2 ^ 63"
    by (rule divmodI [THEN conjunct2])
  then show ?thesis unfolding s64_def by linarith
qed

lemma s64_over: "2 ^ 63 \<le> x \<Longrightarrow> x < 3 * 2 ^ 63 \<Longrightarrow> s64 x = x - 2 ^ 64"
  by (rule s64_eqI [where k = 1]) (simp_all add: in_s64_def)

lemma s64_under: "- 3 * 2 ^ 63 \<le> x \<Longrightarrow> x < - (2 ^ 63) \<Longrightarrow> s64 x = x + 2 ^ 64"
  by (rule s64_eqI [where k = "-1"]) (simp_all add: in_s64_def)

text \<open>Go's integer division truncates towards zero.\<close>

definition quo :: "int \<Rightarrow> int \<Rightarrow> int" where
  "quo a b = sgn a * sgn b * (\<bar>a\<bar> div \<bar>b\<bar>)"

definition rem :: "int \<Rightarrow> int \<Rightarrow> int" where
  "rem a b = a - b * quo a b"

lemma quo_rem_pos:
  assumes "0 < b"
  shows "a = b * quo a b + rem a b" "\<bar>rem a b\<bar> < b" "0 \<le> a \<Longrightarrow> 0 \<le> rem a b" "a \<le> 0 \<Longrightarrow> rem a b \<le> 0"
proof -
  show "a = b * quo a b + rem a b" by (simp add: rem_def)
  have nonneg: "rem a b = a mod b" if "0 \<le> a"
    using that assms by (cases "a = 0") (auto simp: rem_def quo_def minus_div_mult_eq_mod [symmetric])
  have neg: "rem a b = - ((- a) mod b)" if "a \<le> 0"
    using that assms
    by (cases "a = 0") (auto simp: rem_def quo_def minus_div_mult_eq_mod [symmetric])
  show "\<bar>rem a b\<bar> < b"
    using nonneg neg assms by (cases "0 \<le> a") auto
  show "0 \<le> a \<Longrightarrow> 0 \<le> rem a b"
    using nonneg assms by simp
  show "a \<le> 0 \<Longrightarrow> rem a b \<le> 0"
    using neg assms by simp
qed

section \<open>Durations\<close>

type_synonym duration = int

abbreviation Millisecond :: duration where "Millisecond \<equiv> 1000000"
abbreviation Second :: duration where "Second \<equiv> 1000000000"
abbreviation Minute :: duration where "Minute \<equiv> 60000000000"
abbreviation Hour :: duration where "Hour \<equiv> 3600000000000"

definition minDuration :: duration where "minDuration = - (2 ^ 63)"
definition maxDuration :: duration where "maxDuration = 2 ^ 63 - 1"

section \<open>Instants\<close>

datatype gotime = GoTime (tsec: int) (tnsec: int)

definition zero_time :: gotime where
  "zero_time = GoTime 0 0"

definition IsZero :: "gotime \<Rightarrow> bool" where
  "IsZero t \<longleftrightarrow> tsec t = 0 \<and> tnsec t = 0"

definition unixToInternal :: int where
  "unixToInternal = 62135596800"

text \<open>\<open>time.Unix(sec, 0)\<close> and the method \<open>Unix\<close>.\<close>

definition time_Unix :: "int \<Rightarrow> gotime" where
  "time_Unix sec = GoTime (s64 (sec + unixToInternal)) 0"

definition Unix_of :: "gotime \<Rightarrow> int" where
  "Unix_of t = s64 (tsec t - unixToInternal)"

definition addSec :: "int \<Rightarrow> int \<Rightarrow> int" where
  "addSec ext d =
     (let sum = s64 (ext + d)
      in if (sum > ext) = (d > 0) then sum
         else if d > 0 then 2 ^ 63 - 1 else - (2 ^ 63 - 1))"

definition time_Add :: "gotime \<Rightarrow> duration \<Rightarrow> gotime" where
  "time_Add t d =
     (let dsec = quo d Second; nsec = tnsec t + rem d Second
      in if nsec \<ge> Second then GoTime (addSec (tsec t) (dsec + 1)) (nsec - Second)
         else if nsec < 0 then GoTime (addSec (tsec t) (dsec - 1)) (nsec + Second)
         else GoTime (addSec (tsec t) dsec) nsec)"

definition time_After :: "gotime \<Rightarrow> gotime \<Rightarrow> bool" where
  "time_After t u \<longleftrightarrow> tsec t > tsec u \<or> (tsec t = tsec u \<and> tnsec t > tnsec u)"

definition time_Before :: "gotime \<Rightarrow> gotime \<Rightarrow> bool" where
  "time_Before t u \<longleftrightarrow> tsec t < tsec u \<or> (tsec t = tsec u \<and> tnsec t < tnsec u)"

definition time_Equal :: "gotime \<Rightarrow> gotime \<Rightarrow> bool" where
  "time_Equal t u \<longleftrightarrow> tsec t = tsec u \<and> tnsec t = tnsec u"

definition time_Sub :: "gotime \<Rightarrow> gotime \<Rightarrow> duration" where
  "time_Sub t u =
     (let d = s64 (s64 (s64 (tsec t - tsec u) * Second) + (tnsec t - tnsec u))
      in if time_Equal (time_Add u d) t then d
         else if time_Before t u then minDuration
         else maxDuration)"

section \<open>Instants as exact nanoseconds\<close>

definition valid_time :: "gotime \<Rightarrow> bool" where
  "valid_time t \<longleftrightarrow> in_s64 (tsec t) \<and> 0 \<le> tnsec t \<and> tnsec t < Second"

definition tns :: "gotime \<Rightarrow> int" where
  "tns t = tsec t * Second + tnsec t"

text \<open>
  A plausible clock reading: within 2\<open>^\<close>61 seconds (73 billion years) of year 1.  Adding any
  duration to it is exact.
\<close>

definition sane_time :: "gotime \<Rightarrow> bool" where
  "sane_time t \<longleftrightarrow> \<bar>tsec t\<bar> \<le> 2 ^ 61 \<and> 0 \<le> tnsec t \<and> tnsec t < Second"

lemma sane_valid [simp]: "sane_time t \<Longrightarrow> valid_time t"
  by (auto simp: sane_time_def valid_time_def in_s64_def)

lemma time_After_ns [gotime]:
  "valid_time t \<Longrightarrow> valid_time u \<Longrightarrow> time_After t u \<longleftrightarrow> tns t > tns u"
  by (auto simp: time_After_def tns_def valid_time_def)

lemma time_Before_ns [gotime]:
  "valid_time t \<Longrightarrow> valid_time u \<Longrightarrow> time_Before t u \<longleftrightarrow> tns t < tns u"
  by (auto simp: time_Before_def tns_def valid_time_def)

lemma time_Equal_ns [gotime]:
  "valid_time t \<Longrightarrow> valid_time u \<Longrightarrow> time_Equal t u \<longleftrightarrow> tns t = tns u"
  by (cases "tsec t" "tsec u" rule: linorder_cases)
    (auto simp: time_Equal_def tns_def valid_time_def)

lemma time_Before_After: "time_Before t u \<longleftrightarrow> time_After u t"
  by (auto simp: time_Before_def time_After_def)

text \<open>
  \<open>Before\<close> is a linear order of instants, so the library's facts on orders apply to them.
\<close>

instantiation gotime :: linorder
begin

definition less_gotime :: "gotime \<Rightarrow> gotime \<Rightarrow> bool" where
  "less_gotime t u \<longleftrightarrow> time_Before t u"

definition less_eq_gotime :: "gotime \<Rightarrow> gotime \<Rightarrow> bool" where
  "less_eq_gotime t u \<longleftrightarrow> \<not> time_Before u t"

instance
  by standard (auto simp: less_gotime_def less_eq_gotime_def time_Before_def gotime.expand)

end

lemma time_Before_less: "time_Before t u \<longleftrightarrow> t < u"
  by (simp add: less_gotime_def)

lemma time_After_less: "time_After t u \<longleftrightarrow> u < t"
  by (simp add: less_gotime_def time_Before_After)

definition clampsec :: "int \<Rightarrow> int" where
  "clampsec x = (if x \<ge> 2 ^ 63 then 2 ^ 63 - 1 else if x < - (2 ^ 63) then - (2 ^ 63 - 1) else x)"

lemma addSec_clamp:
  assumes "in_s64 ext" "\<bar>d\<bar> \<le> 2 ^ 62"
  shows "addSec ext d = clampsec (ext + d)"
proof -
  consider (ok) "in_s64 (ext + d)" | (hi) "2 ^ 63 \<le> ext + d" | (lo) "ext + d < - (2 ^ 63)"
    unfolding in_s64_def by linarith
  then show ?thesis
  proof cases
    case ok
    then show ?thesis
      by (auto simp: addSec_def s64_id clampsec_def in_s64_def Let_def)
  next
    case hi
    with assms have "s64 (ext + d) = ext + d - 2 ^ 64"
      by (intro s64_over) (auto simp: in_s64_def)
    with hi assms show ?thesis
      by (auto simp: addSec_def clampsec_def in_s64_def Let_def)
  next
    case lo
    with assms have "s64 (ext + d) = ext + d + 2 ^ 64"
      by (intro s64_under) (auto simp: in_s64_def)
    with lo assms show ?thesis
      by (auto simp: addSec_def clampsec_def in_s64_def Let_def)
  qed
qed

lemma in_s64_quo: "in_s64 d \<Longrightarrow> \<bar>quo d Second\<bar> < 2 ^ 62 - 1"
  using quo_rem_pos(1,2) [of Second d] by (auto simp: in_s64_def)

lemma time_Add_eq:
  assumes "valid_time t" "in_s64 d"
  shows "time_Add t d =
    GoTime (clampsec (tsec t + (tnsec t + d) div Second)) ((tnsec t + d) mod Second)"
proof -
  define q where "q = quo d Second"
  define r where "r = rem d Second"
  have d: "d = Second * q + r" and r: "\<bar>r\<bar> < Second"
    using quo_rem_pos [of Second d] by (auto simp: q_def r_def)
  have n: "0 \<le> tnsec t" "tnsec t < Second" "in_s64 (tsec t)"
    using assms by (auto simp: valid_time_def)
  have q: "\<bar>q\<bar> < 2 ^ 62 - 1"
    using in_s64_quo assms(2) q_def by simp
  have add: "time_Add t d =
     (if tnsec t + r \<ge> Second then GoTime (addSec (tsec t) (q + 1)) (tnsec t + r - Second)
      else if tnsec t + r < 0 then GoTime (addSec (tsec t) (q - 1)) (tnsec t + r + Second)
      else GoTime (addSec (tsec t) q) (tnsec t + r))"
    by (simp add: time_Add_def Let_def q_def r_def)
  consider (hi) "tnsec t + r \<ge> Second" | (lo) "tnsec t + r < 0"
    | (mid) "0 \<le> tnsec t + r" "tnsec t + r < Second"
    by linarith
  then show ?thesis
  proof cases
    case hi
    have "tnsec t + d = Second * (q + 1) + (tnsec t + r - Second)"
      using d by simp
    then have "(tnsec t + d) div Second = q + 1" "(tnsec t + d) mod Second = tnsec t + r - Second"
      using divmodI [of "tnsec t + d" Second "q + 1" "tnsec t + r - Second"] hi r n by auto
    with hi q n show ?thesis
      unfolding add by (simp add: addSec_clamp)
  next
    case lo
    have "tnsec t + d = Second * (q - 1) + (tnsec t + r + Second)"
      using d by simp
    then have "(tnsec t + d) div Second = q - 1" "(tnsec t + d) mod Second = tnsec t + r + Second"
      using divmodI [of "tnsec t + d" Second "q - 1" "tnsec t + r + Second"] lo r n by auto
    with lo q n show ?thesis
      unfolding add by (simp add: addSec_clamp)
  next
    case mid
    have "tnsec t + d = Second * q + (tnsec t + r)"
      using d by simp
    then have "(tnsec t + d) div Second = q" "(tnsec t + d) mod Second = tnsec t + r"
      using divmodI [of "tnsec t + d" Second q "tnsec t + r"] mid by auto
    with mid q n show ?thesis
      unfolding add by (simp add: addSec_clamp)
  qed
qed

lemma time_Add_valid [simp]:
  "valid_time t \<Longrightarrow> in_s64 d \<Longrightarrow> valid_time (time_Add t d)"
  by (simp add: time_Add_eq valid_time_def clampsec_def in_s64_def)

text \<open>Adding is exact when the sum is in range, and always for a plausible clock reading.\<close>

lemma time_Add_exact:
  assumes "valid_time t" "in_s64 d" "in_s64 ((tns t + d) div Second)"
  shows "tns (time_Add t d) = tns t + d"
proof -
  have s: "tns t + d = tsec t * Second + (tnsec t + d)"
    by (simp add: tns_def)
  then have "(tns t + d) div Second = tsec t + (tnsec t + d) div Second"
    by simp
  with assms(3) have "clampsec (tsec t + (tnsec t + d) div Second) = tsec t + (tnsec t + d) div Second"
    by (auto simp: clampsec_def in_s64_def)
  with assms(1,2) have "tns (time_Add t d) =
      (tsec t + (tnsec t + d) div Second) * Second + (tnsec t + d) mod Second"
    by (simp add: time_Add_eq tns_def)
  also have "\<dots> = tsec t * Second + (tnsec t + d)"
    by (simp add: algebra_simps flip: mult_div_mod_eq)
  finally show ?thesis using s by simp
qed

lemma time_Add_sane [gotime]:
  assumes "sane_time t" "in_s64 d"
  shows "tns (time_Add t d) = tns t + d"
proof -
  have "\<bar>tns t + d\<bar> \<le> 2 ^ 62 * Second"
    using assms by (auto simp: sane_time_def tns_def in_s64_def abs_le_iff)
  then have "in_s64 ((tns t + d) div Second)"
    unfolding in_s64_def by auto
  then show ?thesis
    using assms by (intro time_Add_exact) auto
qed

text \<open>Saturation never moves a sum past the exact one.\<close>

lemma clampsec_le: "- (2 ^ 63) \<le> x \<Longrightarrow> clampsec x \<le> x"
  by (simp add: clampsec_def)

lemma clampsec_ge: "x < 2 ^ 63 \<Longrightarrow> x \<le> clampsec x"
  by (simp add: clampsec_def)

lemma time_Add_nonneg_le:
  assumes "valid_time t" "in_s64 d" "0 \<le> d"
  shows "tns (time_Add t d) \<le> tns t + d"
proof -
  have n: "0 \<le> (tnsec t + d) div Second"
    using assms by (auto simp: valid_time_def)
  have "clampsec (tsec t + (tnsec t + d) div Second) \<le> tsec t + (tnsec t + d) div Second"
    using assms n by (intro clampsec_le) (auto simp: valid_time_def in_s64_def)
  moreover have "tns (time_Add t d) =
      clampsec (tsec t + (tnsec t + d) div Second) * Second + (tnsec t + d) mod Second"
    using assms(1,2) by (simp add: time_Add_eq tns_def)
  moreover have "(tnsec t + d) div Second * Second + (tnsec t + d) mod Second = tnsec t + d"
    by (rule div_mult_mod_eq)
  ultimately show ?thesis
    unfolding tns_def by linarith
qed

text \<open>
  The difference of two instants is exact when it fits a \<open>Duration\<close> and saturates
  otherwise: it never wraps around.
\<close>

definition clampdur :: "int \<Rightarrow> int" where
  "clampdur x = (if x \<ge> 2 ^ 63 then maxDuration else if x < - (2 ^ 63) then minDuration else x)"

lemma s64_decomp: "\<exists>k. s64 x = x + 2 ^ 64 * k"
proof -
  have "s64 x = x - 2 ^ 64 * ((x + 2 ^ 63) div 2 ^ 64)"
    using mult_div_mod_eq [of "2 ^ 64" "x + 2 ^ 63"] by (simp add: s64_def algebra_simps)
  then show ?thesis by (intro exI [of _ "- ((x + 2 ^ 63) div 2 ^ 64)"]) simp
qed

lemma s64_cong: "x = y + 2 ^ 64 * k \<Longrightarrow> s64 x = s64 y"
proof -
  assume x: "x = y + 2 ^ 64 * k"
  obtain j where j: "s64 y = y + 2 ^ 64 * j"
    using s64_decomp by blast
  have "x = s64 y + 2 ^ 64 * (k - j)"
    unfolding j x by (simp add: right_diff_distrib)
  then show ?thesis by (rule s64_eqI) simp
qed

lemma s64_add_left: "s64 (s64 a + b) = s64 (a + b)"
proof -
  obtain j where j: "s64 a = a + 2 ^ 64 * j"
    using s64_decomp by blast
  show ?thesis
    by (rule s64_cong [where k = j]) (unfold j, linarith)
qed

lemma s64_mult_left: "s64 (s64 a * b) = s64 (a * b)"
proof -
  obtain j where j: "s64 a = a + 2 ^ 64 * j"
    using s64_decomp by blast
  show ?thesis
    by (rule s64_cong [where k = "j * b"]) (unfold j, simp only: distrib_right mult.assoc)
qed

lemma time_Sub_wraps:
  "s64 (s64 (s64 (tsec t - tsec u) * Second) + (tnsec t - tnsec u)) = s64 (tns t - tns u)"
  unfolding s64_add_left [of "s64 (tsec t - tsec u) * Second"]
proof -
  have "s64 (s64 (s64 (tsec t - tsec u) * Second) + (tnsec t - tnsec u))
      = s64 (s64 ((tsec t - tsec u) * Second) + (tnsec t - tnsec u))"
    by (simp only: s64_mult_left)
  also have "\<dots> = s64 ((tsec t - tsec u) * Second + (tnsec t - tnsec u))"
    by (rule s64_add_left)
  also have "(tsec t - tsec u) * Second + (tnsec t - tnsec u) = tns t - tns u"
    by (simp add: tns_def algebra_simps)
  finally show "s64 (s64 (tsec t - tsec u) * Second + (tnsec t - tnsec u)) = s64 (tns t - tns u)"
    by (simp only: s64_add_left)
qed

lemma time_Add_undershoots:
  assumes v: "valid_time t" "valid_time u" and d: "in_s64 d" and ne: "tns t \<noteq> tns u + d"
    and eq: "tns (time_Add u d) = tns t"
  shows "in_s64 (tns t - tns u)"
proof -
  define q where "q = (tnsec u + d) div Second"
  define m where "m = (tnsec u + d) mod Second"
  have qm: "tnsec u + d = q * Second + m"
    unfolding q_def m_def by (rule div_mult_mod_eq [symmetric])
  have m: "0 \<le> m" "m < Second"
    unfolding m_def by auto
  have T: "tns t = clampsec (tsec u + q) * Second + m"
    using eq v(2) d by (simp add: time_Add_eq q_def m_def tns_def)
  have U: "tns u + d = (tsec u + q) * Second + m"
    unfolding tns_def using qm by (simp add: distrib_right)
  have clamped: "clampsec (tsec u + q) \<noteq> tsec u + q"
    using ne T U by auto
  have u: "in_s64 (tsec u)" "0 \<le> tnsec u" "tnsec u < Second"
    using v(2) by (auto simp: valid_time_def)
  have D: "tns t - tns u = (clampsec (tsec u + q) - tsec u) * Second + m - tnsec u"
    unfolding T unfolding tns_def by (simp add: algebra_simps)
  consider (hi) "tsec u + q \<ge> 2 ^ 63" | (lo) "tsec u + q < - (2 ^ 63)"
    using clamped by (auto simp: clampsec_def split: if_splits)
  then show ?thesis
  proof cases
    case hi
    then have c: "clampsec (tsec u + q) = 2 ^ 63 - 1" by (simp add: clampsec_def)
    have "tns t - tns u < d"
      using hi T U c by simp
    moreover have "- (2 * Second) < tns t - tns u"
      using D c m u by (auto simp: in_s64_def)
    ultimately show ?thesis using d by (auto simp: in_s64_def)
  next
    case lo
    then have c: "clampsec (tsec u + q) = - (2 ^ 63 - 1)" by (simp add: clampsec_def)
    have "d < tns t - tns u"
      using lo T U c by simp
    moreover have "tns t - tns u < 3 * Second"
      using D c m u by (auto simp: in_s64_def)
    ultimately show ?thesis using d by (auto simp: in_s64_def)
  qed
qed

lemma time_Sub_eq [gotime]:
  assumes "valid_time t" "valid_time u"
  shows "time_Sub t u = clampdur (tns t - tns u)"
proof (cases "in_s64 (tns t - tns u)")
  case True
  have "tns t div Second = tsec t"
    using assms(1) by (simp add: tns_def valid_time_def)
  then have "tns (time_Add u (tns t - tns u)) = tns t"
    using time_Add_exact [OF assms(2) True] assms(1) by (simp add: valid_time_def)
  then have "time_Equal (time_Add u (tns t - tns u)) t"
    using assms True by (simp add: time_Equal_ns)
  with True show ?thesis
    by (auto simp: time_Sub_def time_Sub_wraps s64_id clampdur_def in_s64_def Let_def)
next
  case False
  have "\<not> time_Equal (time_Add u (s64 (tns t - tns u))) t"
  proof
    assume "time_Equal (time_Add u (s64 (tns t - tns u))) t"
    then have "tns (time_Add u (s64 (tns t - tns u))) = tns t"
      using assms by (simp add: time_Equal_ns)
    moreover have "tns t \<noteq> tns u + s64 (tns t - tns u)"
      using False by (metis add_diff_cancel_left' in_s64_s64)
    ultimately show False
      using time_Add_undershoots assms False by (metis in_s64_s64)
  qed
  with False show ?thesis
    using assms
    by (auto simp: time_Sub_def time_Sub_wraps clampdur_def in_s64_def Let_def time_Before_ns)
qed

lemma time_Unix_valid [simp]: "valid_time (time_Unix x)"
  by (simp add: time_Unix_def valid_time_def)

lemma time_Unix_ns:
  "in_s64 x \<Longrightarrow> x + unixToInternal < 2 ^ 63 \<Longrightarrow> tns (time_Unix x) = (x + unixToInternal) * Second"
  by (simp add: time_Unix_def tns_def s64_id in_s64_def unixToInternal_def)

text \<open>A \<open>time.Unix\<close> argument beyond the range wraps to the distant past.\<close>

lemma time_Unix_wrapped:
  assumes "in_s64 x" "2 ^ 63 \<le> x + unixToInternal"
  shows "tns (time_Unix x) = (x + unixToInternal - 2 ^ 64) * Second"
  using assms s64_over [of "x + unixToInternal"]
  by (simp add: time_Unix_def tns_def in_s64_def unixToInternal_def)

lemma Unix_of_ns:
  "sane_time t \<Longrightarrow> Unix_of t = tns t div Second - unixToInternal"
  by (simp add: Unix_of_def tns_def sane_time_def s64_id in_s64_def unixToInternal_def abs_le_iff)

lemma Unix_of_Add:
  assumes "sane_time t" "in_s64 d"
  shows "Unix_of (time_Add t d) = (tns t + d) div Second - unixToInternal"
proof -
  let ?u = "time_Add t d"
  have v: "valid_time ?u"
    using assms by simp
  then have "tns ?u div Second = tsec ?u"
    by (simp add: tns_def valid_time_def)
  then have sec: "tsec ?u = (tns t + d) div Second"
    using time_Add_sane [OF assms] by simp
  have "\<bar>tns t + d\<bar> \<le> 2 ^ 62 * Second"
    using assms by (auto simp: sane_time_def tns_def in_s64_def abs_le_iff)
  then have "in_s64 ((tns t + d) div Second - unixToInternal)"
    unfolding in_s64_def unixToInternal_def by auto
  then show ?thesis
    by (simp add: Unix_of_def sec s64_id)
qed

end
