(* ===== verification/Decode.thy ===== *)
theory Decode
  imports Json GoTime "HOL-Library.AList"
begin

text \<open>
  How \<open>json.Unmarshal\<close> stores a parsed document into a Go value.  A decoder takes the
  document and the value already there and gives the new value, or \<open>None\<close> for an error.
  A member is stored in the field of its exact name, else in the field whose name matches it
  with the letter case ignored; \<open>null\<close> leaves strings, booleans, numbers and structs as they
  are and makes a slice or map nil.  A document stored in an \<open>any\<close> has its numbers rounded
  to \<open>float64\<close> and each object key once, the last occurrence winning.
\<close>

type_synonym 'v decoder = "json \<Rightarrow> 'v \<Rightarrow> 'v option"

fun dec_string :: "string decoder" where
  "dec_string JNull v = Some v"
| "dec_string (JStr s) v = Some s"
| "dec_string _ v = None"

fun dec_bool :: "bool decoder" where
  "dec_bool JNull v = Some v"
| "dec_bool (JBool b) v = Some b"
| "dec_bool _ v = None"

text \<open>A \<open>time.Time\<close> from the text \<open>pt\<close> reads, its \<open>UnmarshalJSON\<close>.\<close>

fun dec_time :: "(string \<Rightarrow> gotime option) \<Rightarrow> gotime decoder" where
  "dec_time pt JNull v = Some v"
| "dec_time pt (JStr s) v = pt s"
| "dec_time pt _ v = None"

text \<open>\<open>strconv.ParseInt(_, 10, 64)\<close> on a JSON number: integers in range, and \<open>-0\<close>.\<close>

fun dec_int64 :: "int decoder" where
  "dec_int64 JNull v = Some v"
| "dec_int64 (JNum (NInt i)) v = (if in_s64 i then Some i else None)"
| "dec_int64 (JNum (NReal s)) v = (if s = ''-0'' then Some 0 else None)"
| "dec_int64 _ v = None"

text \<open>
  Slice elements are decoded over the elements already there (those of an earlier member of
  the same name), and over the zero value past them.
\<close>

fun dec_list :: "'v decoder \<Rightarrow> 'v \<Rightarrow> json list \<Rightarrow> 'v list \<Rightarrow> 'v list option" where
  "dec_list d z [] old = Some []"
| "dec_list d z (j # js) old =
     (case d j (case old of [] \<Rightarrow> z | x # _ \<Rightarrow> x) of
        None \<Rightarrow> None
      | Some y \<Rightarrow> map_option (Cons y) (dec_list d z js (tl old)))"

fun dec_slice :: "'v decoder \<Rightarrow> 'v \<Rightarrow> 'v list decoder" where
  "dec_slice d z JNull v = Some []"
| "dec_slice d z (JArr js) v = dec_list d z js v"
| "dec_slice d z _ v = None"

fun dec_entries :: "'v decoder \<Rightarrow> 'v \<Rightarrow> (string \<times> json) list \<Rightarrow> (string \<rightharpoonup> 'v) \<Rightarrow> (string \<rightharpoonup> 'v) option" where
  "dec_entries d z [] m = Some m"
| "dec_entries d z (kv # kvs) m =
     (case d (snd kv) z of None \<Rightarrow> None | Some y \<Rightarrow> dec_entries d z kvs (m(fst kv \<mapsto> y)))"

fun dec_map :: "'v decoder \<Rightarrow> 'v \<Rightarrow> (string \<rightharpoonup> 'v) decoder" where
  "dec_map d z JNull m = Some Map.empty"
| "dec_map d z (JObj kvs) m = dec_entries d z kvs m"
| "dec_map d z _ m = None"

section \<open>Structs\<close>

text \<open>
  Case folding of a member name, exact where it matters: on names that may fold to ASCII
  letters (U+017F folds with \<open>s\<close>, U+212A with \<open>k\<close>).
\<close>

fun fold_key :: "string \<Rightarrow> string" where
  "fold_key (a # b # c # cs) =
     (if a = CHR 0xE2 \<and> b = CHR 0x84 \<and> c = CHR 0xAA then CHR ''k'' # fold_key cs
      else if a = CHR 0xC5 \<and> b = CHR 0xBF then CHR ''s'' # fold_key (c # cs)
      else ascii_lower a # fold_key (b # c # cs))"
| "fold_key [a, b] = (if a = CHR 0xC5 \<and> b = CHR 0xBF then ''s'' else [ascii_lower a, ascii_lower b])"
| "fold_key [a] = [ascii_lower a]"
| "fold_key [] = []"

type_synonym 's fields = "(string \<times> (json \<Rightarrow> 's \<Rightarrow> 's option)) list"

definition field_of :: "'s fields \<Rightarrow> string \<Rightarrow> (json \<Rightarrow> 's \<Rightarrow> 's option) option" where
  "field_of fs k =
     (case map_of fs k of
        Some d \<Rightarrow> Some d
      | None \<Rightarrow> map_option snd (find (\<lambda>f. fold_key (fst f) = fold_key k) fs))"

text \<open>\<open>strict\<close> is \<open>Decoder.DisallowUnknownFields\<close>.\<close>

fun dec_members :: "bool \<Rightarrow> 's fields \<Rightarrow> (string \<times> json) list \<Rightarrow> 's \<Rightarrow> 's option" where
  "dec_members strict fs [] v = Some v"
| "dec_members strict fs (kv # kvs) v =
     (case field_of fs (fst kv) of
        None \<Rightarrow> if strict then None else dec_members strict fs kvs v
      | Some d \<Rightarrow> (case d (snd kv) v of None \<Rightarrow> None | Some v' \<Rightarrow> dec_members strict fs kvs v'))"

fun dec_struct :: "bool \<Rightarrow> 's fields \<Rightarrow> 's decoder" where
  "dec_struct strict fs JNull v = Some v"
| "dec_struct strict fs (JObj kvs) v = dec_members strict fs kvs v"
| "dec_struct strict fs _ v = None"

text \<open>A field of a struct, by its decoder, its value and its update.\<close>

definition fld :: "string \<Rightarrow> 'v decoder \<Rightarrow> ('s \<Rightarrow> 'v) \<Rightarrow> ('v \<Rightarrow> 's \<Rightarrow> 's) \<Rightarrow> string \<times> (json \<Rightarrow> 's \<Rightarrow> 's option)"
  where "fld k d get put = (k, \<lambda>j s. map_option (\<lambda>y. put y s) (d j (get s)))"

section \<open>Values of type any\<close>

text \<open>
  Rounding a number to \<open>float64\<close> and printing it again: the identity on the integers that a
  \<open>float64\<close> holds exactly; \<open>fp\<close> stands for the conversion of any other literal.
\<close>

definition float_num :: "(jnum \<Rightarrow> jnum option) \<Rightarrow> jnum \<Rightarrow> jnum option" where
  "float_num fp n =
     (case n of NInt i \<Rightarrow> if \<bar>i\<bar> \<le> 2 ^ 53 then Some n else fp n | NReal _ \<Rightarrow> fp n)"

fun dec_any :: "(jnum \<Rightarrow> jnum option) \<Rightarrow> json \<Rightarrow> json option" where
  "dec_any fp (JNum n) = map_option JNum (float_num fp n)"
| "dec_any fp (JArr js) = map_option JArr (those (map (dec_any fp) js))"
| "dec_any fp (JObj kvs) =
     map_option (\<lambda>vs. JObj (fold (\<lambda>(k, v). AList.update k v) (zip (map fst kvs) vs) []))
       (those (map (\<lambda>kv. dec_any fp (snd kv)) kvs))"
| "dec_any fp j = Some j"

text \<open>Maps are printed in the order of their keys.\<close>

fun sort_keys :: "json \<Rightarrow> json" where
  "sort_keys (JArr js) = JArr (map sort_keys js)"
| "sort_keys (JObj kvs) = JObj (sort_key fst (map (\<lambda>kv. (fst kv, sort_keys (snd kv))) kvs))"
| "sort_keys j = j"

section \<open>Lemmas\<close>

lemma dec_members_append:
  "dec_members st fs (xs @ ys) v = Option.bind (dec_members st fs xs v) (dec_members st fs ys)"
  by (induction xs arbitrary: v) (auto split: option.splits)

lemma dec_members_unknown:
  "\<forall>kv \<in> set kvs. field_of fs (fst kv) = None \<Longrightarrow> dec_members False fs kvs v = Some v"
  by (induction kvs) auto

lemma dec_members_strict:
  "dec_members True fs kvs v = Some v' \<Longrightarrow> \<forall>kv \<in> set kvs. field_of fs (fst kv) \<noteq> None"
  by (induction kvs arbitrary: v) (auto split: option.splits)

lemma field_of_None:
  "field_of fs k = None \<longleftrightarrow> fold_key k \<notin> (\<lambda>f. fold_key (fst f)) ` set fs"
proof (cases "map_of fs k")
  case None
  then show ?thesis
    by (auto simp: field_of_def find_None_iff) (metis fst_conv image_eqI)
next
  case (Some d)
  then have "(k, d) \<in> set fs"
    by (rule map_of_SomeD)
  then have "fold_key k \<in> (\<lambda>f. fold_key (fst f)) ` set fs"
    by force
  with Some show ?thesis
    by (simp add: field_of_def)
qed

lemma field_of_fld [simp]:
  "field_of (fld k d g p # fs) k = Some (\<lambda>j s. map_option (\<lambda>y. p y s) (d j (g s)))"
  by (simp add: field_of_def fld_def)

lemma dec_list_strings [simp]: "dec_list dec_string z (map JStr xs) old = Some xs"
  by (induction xs arbitrary: old) auto

lemma dec_slice_strings [simp]: "dec_slice dec_string z (JArr (map JStr xs)) old = Some xs"
  by simp

lemma field_of_Some: "field_of fs k = Some d \<Longrightarrow> d \<in> snd ` set fs"
proof (cases "map_of fs k")
  case None
  moreover assume "field_of fs k = Some d"
  ultimately obtain f where "find (\<lambda>f. fold_key (fst f) = fold_key k) fs = Some f" "d = snd f"
    by (auto simp: field_of_def)
  then show ?thesis
    by (auto dest: find_first_Some)
next
  case (Some d')
  moreover assume "field_of fs k = Some d"
  ultimately have "(k, d) \<in> set fs"
    by (simp add: field_of_def map_of_SomeD)
  then show ?thesis
    by force
qed

text \<open>An invariant of every field's decoder is one of the struct's.\<close>

lemma dec_members_inv:
  assumes inv: "\<And>d j v v'. d \<in> snd ` set fs \<Longrightarrow> d j v = Some v' \<Longrightarrow> P v \<Longrightarrow> P v'"
    and "dec_members st fs kvs v = Some v'" "P v"
  shows "P v'"
  using assms(2,3)
proof (induction kvs arbitrary: v)
  case (Cons kv kvs)
  show ?case
  proof (cases "field_of fs (fst kv)")
    case None
    with Cons show ?thesis
      by (auto split: if_splits)
  next
    case (Some d)
    with Cons.prems obtain v1 where v1: "d (snd kv) v = Some v1" "dec_members st fs kvs v1 = Some v'"
      by (auto split: option.splits)
    from Cons.IH [OF v1(2) inv [OF field_of_Some [OF Some] v1(1) Cons.prems(2)]] show ?thesis .
  qed
qed simp

lemma dec_struct_inv:
  assumes "\<And>d j v v'. d \<in> snd ` set fs \<Longrightarrow> d j v = Some v' \<Longrightarrow> P v \<Longrightarrow> P v'"
    and "dec_struct st fs j v = Some v'" "P v"
  shows "P v'"
  using assms(2,3) dec_members_inv [of fs P] assms(1) by (cases j) auto

lemma dec_int64_range: "dec_int64 j v = Some i \<Longrightarrow> in_s64 v \<Longrightarrow> in_s64 i"
  by (induction j v rule: dec_int64.induct) (auto simp: in_s64_def split: if_splits)

end
