(* ===== verification/Jwt.thy ===== *)
theory Jwt
  imports Base64 Decode Prelude
begin

text \<open>
  Package \<open>jwt\<close>: ES256 signing, parsing and verification of compact tokens.  Keys are records
  over a curve and its coordinates as natural numbers (\<open>math/big\<close>); a \<open>nil\<close> key is \<open>None\<close>.
  The cryptographic primitives of \<open>crypto/ecdsa\<close> and \<open>crypto/sha256\<close> are the fields of a record
  passed to the code that calls them, and \<open>crypto_ok\<close> states what their documentation
  promises: a digest has 32 bytes, and a P-256 signature is a pair of 256-bit numbers that
  verifies under the key's public half.
\<close>

section \<open>Keys and primitives\<close>

datatype curve = P224 | P256 | P384 | P521

record pubkey =
  pk_Curve :: curve
  pk_X :: nat
  pk_Y :: nat

record privkey =
  sk_Public :: pubkey
  sk_D :: nat

record crypto =
  sha256 :: "bytes \<Rightarrow> bytes"
  ecdsa_Sign :: "nat \<Rightarrow> privkey \<Rightarrow> bytes \<Rightarrow> (nat \<times> nat) option"
  ecdsa_Verify :: "pubkey \<Rightarrow> bytes \<Rightarrow> nat \<Rightarrow> nat \<Rightarrow> bool"

text \<open>The first argument of \<open>ecdsa_Sign\<close> is the randomness it draws.\<close>

definition crypto_ok :: "crypto \<Rightarrow> bool" where
  "crypto_ok cr \<longleftrightarrow>
     (\<forall>b. length (sha256 cr b) = 32)
     \<and> (\<forall>rnd k h r s. pk_Curve (sk_Public k) = P256 \<longrightarrow> ecdsa_Sign cr rnd k h = Some (r, s) \<longrightarrow>
          r < 2 ^ 256 \<and> s < 2 ^ 256 \<and> ecdsa_Verify cr (sk_Public k) h r s)"

text \<open>P-256: the field, the curve equation and the check of \<open>ParseUncompressedPublicKey\<close>.\<close>

definition p256_p :: int where
  "p256_p = 2 ^ 256 - 2 ^ 224 + 2 ^ 192 + 2 ^ 96 - 1"

definition p256_b :: int where
  "p256_b = 0x5AC635D8AA3A93E7B3EBBD55769886BC651D06B0CC53B0F63BCE3C3E27D2604B"

definition on_p256 :: "nat \<Rightarrow> nat \<Rightarrow> bool" where
  "on_p256 x y \<longleftrightarrow> int x < p256_p \<and> int y < p256_p
     \<and> (int y * int y) mod p256_p = (int x * int x * int x - 3 * int x + p256_b) mod p256_p"

definition valid_pub :: "pubkey \<Rightarrow> bool" where
  "valid_pub pub \<longleftrightarrow> pk_Curve pub = P256 \<and> on_p256 (pk_X pub) (pk_Y pub)"

definition ParseUncompressedPublicKey :: "bytes \<Rightarrow> pubkey option" where
  "ParseUncompressedPublicKey data =
     (if length data = 65 \<and> hd data = CHR 0x04 then
        (let x = SetBytes (take 32 (tl data)); y = SetBytes (drop 32 (tl data))
         in if on_p256 x y then Some \<lparr>pk_Curve = P256, pk_X = x, pk_Y = y\<rparr> else None)
      else None)"

section \<open>jwt.go\<close>

definition Alg :: string where "Alg = ''ES256''"
definition Typ :: string where "Typ = ''JWT''"
definition coordLen :: nat where "coordLen = 32"

definition elliptic256 :: curve where "elliptic256 = P256"

record header =
  h_Alg :: string
  h_Typ :: string
  h_Kid :: string

definition header_doc :: "header \<Rightarrow> json" where
  "header_doc h =
     JObj ([(''alg'', JStr (h_Alg h)), (''typ'', JStr (h_Typ h))]
           @ (if h_Kid h = [] then [] else [(''kid'', JStr (h_Kid h))]))"

definition header_fields :: "header fields" where
  "header_fields =
     [fld ''alg'' dec_string h_Alg (\<lambda>x. h_Alg_update (\<lambda>_. x)),
      fld ''typ'' dec_string h_Typ (\<lambda>x. h_Typ_update (\<lambda>_. x)),
      fld ''kid'' dec_string h_Kid (\<lambda>x. h_Kid_update (\<lambda>_. x))]"

text \<open>\<open>big.Int.FillBytes\<close> panics when the number does not fit.\<close>

definition FillBytes :: "nat \<Rightarrow> nat \<Rightarrow> bytes option" where
  "FillBytes k n = (if length (big_Bytes n) > k then None else Some (pad_to k (big_Bytes n)))"

text \<open>\<open>payload\<close> is the outcome of \<open>json.Marshal\<close> on the claim set.\<close>

definition jwt_Sign :: "crypto \<Rightarrow> nat \<Rightarrow> privkey option \<Rightarrow> string \<Rightarrow> string result \<Rightarrow> string result" where
  "jwt_Sign cr rnd key kid payload =
     (case key of
        None \<Rightarrow> Inl (Error ErrKeyMismatch [])
      | Some k \<Rightarrow>
          if pk_Curve (sk_Public k) \<noteq> elliptic256 then Inl (Error ErrKeyMismatch [])
          else
            (let hdr = json_Marshal (header_doc \<lparr>h_Alg = Alg, h_Typ = Typ, h_Kid = kid\<rparr>)
             in case payload of
                  Inl e \<Rightarrow> Inl (Error (err_sentinel e) ''marshal payload'')
                | Inr body \<Rightarrow>
                    (let signing = b64 hdr @ ''.'' @ b64 body
                     in case ecdsa_Sign cr rnd k (sha256 cr signing) of
                          None \<Rightarrow> Inl (Error Plain ''sign'')
                        | Some (r, s) \<Rightarrow>
                            (case (FillBytes coordLen r, FillBytes coordLen s) of
                               (Some rb, Some sb) \<Rightarrow> Inr (signing @ ''.'' @ b64 (rb @ sb))
                             | _ \<Rightarrow> Inl (Error Panic ''buffer too small'')))))"

definition jwt_Parse :: "string \<Rightarrow> (header \<times> bytes) result" where
  "jwt_Parse token =
     (case Split token CHR ''.'' of
        [p0, p1, p2] \<Rightarrow>
          (case unb64 p0 of
             None \<Rightarrow> Inl (Error ErrMalformed ''header is not base64url'')
           | Some rawHdr \<Rightarrow>
               (case Option.bind (json_Parse rawHdr)
                       (\<lambda>j. dec_struct False header_fields j \<lparr>h_Alg = [], h_Typ = [], h_Kid = []\<rparr>) of
                  None \<Rightarrow> Inl (Error ErrMalformed ''header is not JSON'')
                | Some h \<Rightarrow>
                    if h_Alg h \<noteq> Alg then Inl (Error ErrAlgorithm ''want ES256'')
                    else if h_Typ h \<noteq> [] \<and> \<not> EqualFoldAscii (h_Typ h) Typ
                    then Inl (Error ErrMalformed ''typ'')
                    else (case unb64 p1 of
                            None \<Rightarrow> Inl (Error ErrMalformed ''payload is not base64url'')
                          | Some body \<Rightarrow> Inr (h, body))))
      | _ \<Rightarrow> Inl (Error ErrMalformed ''want 3 segments''))"

definition jwt_Verify :: "crypto \<Rightarrow> pubkey option \<Rightarrow> string \<Rightarrow> bytes result" where
  "jwt_Verify cr pub token =
     (case pub of
        None \<Rightarrow> Inl (Error ErrKeyMismatch [])
      | Some pk \<Rightarrow>
          if pk_Curve pk \<noteq> elliptic256 then Inl (Error ErrKeyMismatch [])
          else (case Split token CHR ''.'' of
                  [p0, p1, p2] \<Rightarrow>
                    (case jwt_Parse token of
                       Inl e \<Rightarrow> Inl e
                     | Inr _ \<Rightarrow>
                         (case unb64 p2 of
                            None \<Rightarrow> Inl (Error ErrMalformed ''signature is not base64url'')
                          | Some sig \<Rightarrow>
                              if length sig \<noteq> 2 * coordLen
                              then Inl (Error ErrMalformed ''signature length'')
                              else if \<not> ecdsa_Verify cr pk (sha256 cr (p0 @ ''.'' @ p1))
                                        (SetBytes (take coordLen sig)) (SetBytes (drop coordLen sig))
                              then Inl (Error ErrSignature [])
                              else (case unb64 p1 of
                                      None \<Rightarrow> Inl (Error ErrMalformed ''payload is not base64url'')
                                    | Some body \<Rightarrow> Inr body)))
                | _ \<Rightarrow> Inl (Error ErrMalformed ''want 3 segments'')))"

section \<open>Lemmas\<close>

lemma header_roundtrip:
  assumes "valid_utf8 kid"
  shows "Option.bind (json_Parse (json_Marshal (header_doc \<lparr>h_Alg = Alg, h_Typ = Typ, h_Kid = kid\<rparr>)))
      (\<lambda>j. dec_struct False header_fields j \<lparr>h_Alg = [], h_Typ = [], h_Kid = []\<rparr>)
    = Some \<lparr>h_Alg = Alg, h_Typ = Typ, h_Kid = kid\<rparr>"
proof -
  have "wf_json max_depth (header_doc \<lparr>h_Alg = Alg, h_Typ = Typ, h_Kid = kid\<rparr>)"
    using assms by (auto simp: header_doc_def Alg_def Typ_def max_depth_def intro!: ascii_valid_utf8)
      (auto simp: bv_def)
  then show ?thesis
    by (auto simp: json_Parse_Marshal) (auto simp: header_doc_def header_fields_def field_of_def fld_def)
qed

lemma Split_token:
  assumes "CHR ''.'' \<notin> set a" "CHR ''.'' \<notin> set b" "CHR ''.'' \<notin> set c"
  shows "Split (a @ CHR ''.'' # b @ CHR ''.'' # c) CHR ''.'' = [a, b, c]"
  using assms by (simp add: Split_append_sep Split_no_sep)

lemma FillBytes_Some:
  "n < 2 ^ 256 \<Longrightarrow> \<exists>b. FillBytes coordLen n = Some b \<and> length b = coordLen \<and> SetBytes b = n"
  using length_big_Bytes [of n 32] by (simp add: FillBytes_def coordLen_def length_pad_to power_mult [of 2 8 32, simplified])

lemma jwt_Parse_sentinel:
  "jwt_Parse t = Inl e \<Longrightarrow> errors_Is e ErrMalformed \<or> errors_Is e ErrAlgorithm"
  by (auto simp: jwt_Parse_def split: list.splits option.splits if_splits)

lemma jwt_Parse_Inr:
  assumes "jwt_Parse t = Inr (h, body)"
  obtains p0 p1 p2 where "Split t CHR ''.'' = [p0, p1, p2]" "t = p0 @ CHR ''.'' # p1 @ CHR ''.'' # p2"
    "unb64 p1 = Some body" "h_Alg h = Alg"
  using assms Split_three [of t "CHR ''.''"]
  by (auto simp: jwt_Parse_def split: list.splits option.splits if_splits)

text \<open>What a verified token is.\<close>

lemma jwt_Verify_Inr:
  assumes "jwt_Verify cr pub t = Inr body"
  obtains pk p0 p1 p2 h sig where "pub = Some pk" "pk_Curve pk = P256"
    "t = p0 @ CHR ''.'' # p1 @ CHR ''.'' # p2" "Split t CHR ''.'' = [p0, p1, p2]"
    "jwt_Parse t = Inr (h, body)" "h_Alg h = Alg" "unb64 p1 = Some body"
    "unb64 p2 = Some sig" "length sig = 64"
    "ecdsa_Verify cr pk (sha256 cr (p0 @ ''.'' @ p1)) (SetBytes (take 32 sig)) (SetBytes (drop 32 sig))"
proof -
  obtain pk p0 p1 p2 h b sig where a: "pub = Some pk" "pk_Curve pk = P256" "Split t CHR ''.'' = [p0, p1, p2]"
      "jwt_Parse t = Inr (h, b)" "unb64 p1 = Some body" "unb64 p2 = Some sig" "length sig = 64"
      "ecdsa_Verify cr pk (sha256 cr (p0 @ ''.'' @ p1)) (SetBytes (take 32 sig)) (SetBytes (drop 32 sig))"
    using assms
    by (auto simp: jwt_Verify_def coordLen_def elliptic256_def
        split: list.splits option.splits if_splits sum.splits prod.splits)
  from a(4) have "unb64 p1 = Some b \<and> h_Alg h = Alg \<and> t = p0 @ CHR ''.'' # p1 @ CHR ''.'' # p2"
    by (rule jwt_Parse_Inr) (use a(3) in auto)
  with a that show thesis
    by simp
qed

lemma jwt_Verify_sentinel:
  "jwt_Verify cr pub t = Inl e \<Longrightarrow>
     errors_Is e ErrMalformed \<or> errors_Is e ErrAlgorithm \<or> errors_Is e ErrSignature \<or> errors_Is e ErrKeyMismatch"
  by (auto simp: jwt_Verify_def split: list.splits option.splits if_splits sum.splits
      dest: jwt_Parse_sentinel)

text \<open>What signing produces.\<close>

lemma jwt_Sign_Inr:
  assumes "crypto_ok cr" "jwt_Sign cr rnd key kid payload = Inr t" "valid_utf8 kid"
  obtains k body where "key = Some k" "pk_Curve (sk_Public k) = P256" "payload = Inr body"
    "jwt_Parse t = Inr (\<lparr>h_Alg = Alg, h_Typ = Typ, h_Kid = kid\<rparr>, body)"
    "jwt_Verify cr (Some (sk_Public k)) t = Inr body"
proof -
  let ?hdr = "json_Marshal (header_doc \<lparr>h_Alg = Alg, h_Typ = Typ, h_Kid = kid\<rparr>)"
  from assms(2) obtain k body r s rb sb where k: "key = Some k" "pk_Curve (sk_Public k) = P256"
      "payload = Inr body" "ecdsa_Sign cr rnd k (sha256 cr (b64 ?hdr @ ''.'' @ b64 body)) = Some (r, s)"
      "FillBytes coordLen r = Some rb" "FillBytes coordLen s = Some sb"
      and t: "t = b64 ?hdr @ CHR ''.'' # b64 body @ CHR ''.'' # b64 (rb @ sb)"
    by (auto simp: jwt_Sign_def Let_def elliptic256_def split: option.splits if_splits sum.splits prod.splits)
  from k assms(1) have rs: "r < 2 ^ 256" "s < 2 ^ 256"
      and v: "ecdsa_Verify cr (sk_Public k) (sha256 cr (b64 ?hdr @ ''.'' @ b64 body)) r s"
    unfolding crypto_ok_def by blast+
  have b: "length rb = 32" "length sb = 32" "SetBytes rb = r" "SetBytes sb = s"
    using FillBytes_Some [OF rs(1)] FillBytes_Some [OF rs(2)] k by (simp_all add: coordLen_def)
  have sp: "Split t CHR ''.'' = [b64 ?hdr, b64 body, b64 (rb @ sb)]"
    unfolding t by (rule Split_token) simp_all
  have p: "jwt_Parse t = Inr (\<lparr>h_Alg = Alg, h_Typ = Typ, h_Kid = kid\<rparr>, body)"
    using header_roundtrip [OF assms(3)] by (simp add: jwt_Parse_def sp EqualFoldAscii_def)
  have "jwt_Verify cr (Some (sk_Public k)) t = Inr body"
    using b v k(2) by (simp add: jwt_Verify_def sp p coordLen_def elliptic256_def)
  with k p that show thesis by simp
qed

section \<open>Properties\<close>

text \<open>
  C22 (sign and verify).  A token that \<open>Sign\<close> produces with a P-256 key verifies under that key's
  public half and gives back the payload; \<open>Parse\<close> reads from it the header that was written,
  with the key id.
\<close>

theorem jwt_sign_then_verify:
  assumes "crypto_ok cr" "jwt_Sign cr rnd key kid payload = Inr t" "valid_utf8 kid"
  shows "\<exists>k body. key = Some k \<and> payload = Inr body
    \<and> jwt_Verify cr (Some (sk_Public k)) t = Inr body
    \<and> jwt_Parse t = Inr (\<lparr>h_Alg = Alg, h_Typ = Typ, h_Kid = kid\<rparr>, body)"
  using jwt_Sign_Inr [OF assms] by metis

text \<open>
  A crypto for the witnesses, where every digest is zero and a signature is the pair of 5 and
  7, and a key whose public half is a point of P-256.
\<close>

definition toy_crypto :: crypto where
  "toy_crypto = \<lparr>sha256 = (\<lambda>b. replicate 32 CHR 0x00), ecdsa_Sign = (\<lambda>rnd k h. Some (5, 7)),
     ecdsa_Verify = (\<lambda>pk h r s. r = 5 \<and> s = 7)\<rparr>"

definition toy_key :: privkey where
  "toy_key = \<lparr>sk_Public = \<lparr>pk_Curve = P256,
       pk_X = 0,
       pk_Y = 0x66485C780E2F83D72433BD5D84A06BB6541C2AF31DAE871728BF856A174F93F4\<rparr>, sk_D = 1\<rparr>"

definition toy_token :: string where
  "toy_token = (case jwt_Sign toy_crypto 0 (Some toy_key) ''k1'' (Inr ''{}'') of Inr t \<Rightarrow> t | Inl _ \<Rightarrow> [])"

lemma toy_crypto_ok: "crypto_ok toy_crypto"
  by (simp add: crypto_ok_def toy_crypto_def)

lemma toy_signs:
  "pk_Curve (sk_Public k) = P256 \<Longrightarrow> \<exists>t. jwt_Sign toy_crypto rnd (Some k) kid (Inr body) = Inr t"
  using FillBytes_Some [of 5] FillBytes_Some [of 7]
  by (auto simp: jwt_Sign_def toy_crypto_def elliptic256_def Let_def)

lemma toy_token_signed: "jwt_Sign toy_crypto 0 (Some toy_key) ''k1'' (Inr ''{}'') = Inr toy_token"
  using toy_signs [of toy_key 0 "''k1''" "''{}''"] by (auto simp: toy_token_def toy_key_def)

theorem jwt_sign_then_verify_witness:
  "jwt_Verify toy_crypto (Some (sk_Public toy_key)) toy_token = Inr ''{}''"
proof -
  have "valid_utf8 ''k1''" by code_simp
  with jwt_sign_then_verify [OF toy_crypto_ok toy_token_signed] show ?thesis
    by auto
qed

text \<open>
  What a verified token is.  \<open>Verify\<close> accepts a token only under a P-256 key, when it has
  three segments whose header says ES256 and whose third is the base64url of 64 bytes that the
  primitive accepts as a signature over the digest of the first two; it returns the decoded
  second segment.  Every refusal, of \<open>Verify\<close> and of \<open>Parse\<close>, is one of the package's errors.
\<close>

theorem jwt_verify_sound:
  "case jwt_Verify cr pub t of
     Inr body \<Rightarrow>
       (\<exists>pk p0 p1 p2 h sig. pub = Some pk \<and> pk_Curve pk = P256
          \<and> t = p0 @ CHR ''.'' # p1 @ CHR ''.'' # p2 \<and> CHR ''.'' \<notin> set (p0 @ p1 @ p2)
          \<and> jwt_Parse t = Inr (h, body) \<and> h_Alg h = ''ES256'' \<and> unb64 p1 = Some body
          \<and> unb64 p2 = Some sig \<and> length sig = 64
          \<and> ecdsa_Verify cr pk (sha256 cr (p0 @ ''.'' @ p1)) (SetBytes (take 32 sig)) (SetBytes (drop 32 sig)))
   | Inl e \<Rightarrow> err_sentinel e \<in> {ErrMalformed, ErrAlgorithm, ErrSignature, ErrKeyMismatch}"
proof (cases "jwt_Verify cr pub t")
  case (Inl e)
  then show ?thesis
    by (auto dest: jwt_Verify_sentinel simp: errors_Is_def)
next
  case (Inr body)
  from jwt_Verify_Inr [OF Inr] obtain pk p0 p1 p2 h sig
    where v: "pub = Some pk" "pk_Curve pk = P256" "t = p0 @ CHR ''.'' # p1 @ CHR ''.'' # p2"
      "Split t CHR ''.'' = [p0, p1, p2]" "jwt_Parse t = Inr (h, body)" "h_Alg h = Alg"
      "unb64 p1 = Some body" "unb64 p2 = Some sig" "length sig = 64"
      "ecdsa_Verify cr pk (sha256 cr (p0 @ ''.'' @ p1)) (SetBytes (take 32 sig)) (SetBytes (drop 32 sig))"
    by metis
  moreover have "CHR ''.'' \<notin> set (p0 @ p1 @ p2)"
    using Split_three(2-4) [OF v(4)] by simp
  ultimately show ?thesis
    using Inr by (auto simp: Alg_def)
qed

text \<open>
  The text of a token is malleable although its signature is of fixed width: the base64 decoder
  skips line breaks, so the token followed by a newline verifies as well.
\<close>

lemma jwt_trailing_newline:
  assumes "jwt_Verify cr pub t = Inr body"
  shows "jwt_Verify cr pub (t @ [CHR 0x0A]) = Inr body"
proof -
  from jwt_Verify_Inr [OF assms] obtain pk p0 p1 p2 h sig
    where v: "pub = Some pk" "pk_Curve pk = P256" "t = p0 @ CHR ''.'' # p1 @ CHR ''.'' # p2"
      "Split t CHR ''.'' = [p0, p1, p2]" "jwt_Parse t = Inr (h, body)"
      "unb64 p1 = Some body" "unb64 p2 = Some sig" "length sig = 64"
      "ecdsa_Verify cr pk (sha256 cr (p0 @ ''.'' @ p1)) (SetBytes (take 32 sig)) (SetBytes (drop 32 sig))"
    by metis
  have sp: "Split (t @ [CHR 0x0A]) CHR ''.'' = [p0, p1, p2 @ [CHR 0x0A]]"
    using Split_three(2-4) [OF v(4)] Split_token [of p0 p1 "p2 @ [CHR 0x0A]"] by (simp add: v(3))
  have "jwt_Parse (t @ [CHR 0x0A]) = jwt_Parse t"
    by (simp add: jwt_Parse_def sp v(4))
  with v(1,2,5-9) show ?thesis
    by (simp add: jwt_Verify_def sp elliptic256_def coordLen_def unb64_newline)
qed

end
