(* ===== verification/Keys.thy ===== *)
theory Keys
  imports Jwt
begin

text \<open>
  \<open>keys/keys.go\<close>: the rotating set of signing keys, its publication as a JWKS, and the RFC 7638
  thumbprint that serves as key id.  The clock and the key generator are arguments: \<open>now\<close> is
  what the set's clock returns and \<open>gen\<close> the outcome of \<open>ecdsa.GenerateKey\<close> (\<open>None\<close> is its
  error).  The mutex makes each operation one step on the state \<open>keyset\<close>.
\<close>

section \<open>JWKs\<close>

record jwk =
  j_Kty :: string
  j_Crv :: string
  j_Kid :: string
  j_Use :: string
  j_Alg :: string
  j_X :: string
  j_Y :: string

text \<open>The slice expression of \<open>coord\<close> panics on a coordinate longer than 32 bytes.\<close>

definition coord :: "bytes \<Rightarrow> string result" where
  "coord b = (if length b > 32 then Inl (Error Panic ''slice bounds out of range'')
              else Inr (b64 (pad_to 32 b)))"

definition jwkOf :: "pubkey \<Rightarrow> string \<Rightarrow> jwk result" where
  "jwkOf pub kid =
     (case coord (big_Bytes (pk_X pub)) of
        Inl e \<Rightarrow> Inl e
      | Inr x \<Rightarrow>
          (case coord (big_Bytes (pk_Y pub)) of
             Inl e \<Rightarrow> Inl e
           | Inr y \<Rightarrow> Inr \<lparr>j_Kty = ''EC'', j_Crv = ''P-256'', j_Kid = kid, j_Use = ''sig'', j_Alg = ''ES256'',
                            j_X = x, j_Y = y\<rparr>))"

definition thumbprint :: "crypto \<Rightarrow> pubkey \<Rightarrow> string result" where
  "thumbprint cr pub =
     (case coord (big_Bytes (pk_X pub)) of
        Inl e \<Rightarrow> Inl e
      | Inr x \<Rightarrow>
          (case coord (big_Bytes (pk_Y pub)) of
             Inl e \<Rightarrow> Inl e
           | Inr y \<Rightarrow>
               (let b = json_Marshal (JObj [(''crv'', JStr ''P-256''), (''kty'', JStr ''EC''), (''x'', JStr x), (''y'', JStr y)])
                in Inr (b64 (sha256 cr b)))))"

definition coordBytes :: "bytes \<Rightarrow> bytes option" where
  "coordBytes b = (if length b > 32 then None else Some (pad_to 32 b))"

definition PublicFromXY :: "string \<Rightarrow> string \<Rightarrow> pubkey result" where
  "PublicFromXY x y =
     (case unb64 x of
        None \<Rightarrow> Inl (Error Plain ''x is not base64url'')
      | Some xb \<Rightarrow>
     (case unb64 y of
        None \<Rightarrow> Inl (Error Plain ''y is not base64url'')
      | Some yb \<Rightarrow>
     (case coordBytes xb of
        None \<Rightarrow> Inl (Error Plain ''x is not a P-256 coordinate'')
      | Some xb' \<Rightarrow>
     (case coordBytes yb of
        None \<Rightarrow> Inl (Error Plain ''y is not a P-256 coordinate'')
      | Some yb' \<Rightarrow>
     (case ParseUncompressedPublicKey (CHR 0x04 # xb' @ yb') of
        None \<Rightarrow> Inl (Error Plain ''invalid P-256 public key'')
      | Some pub \<Rightarrow> Inr pub)))))"

section \<open>The key set\<close>

record skey =
  k_kid :: string
  k_priv :: privkey
  k_retires :: gotime

record keyset =
  ks_overlap :: duration
  ks_current :: "skey option"
  ks_retired :: "skey list"

definition pruneLocked :: "gotime \<Rightarrow> keyset \<Rightarrow> keyset" where
  "pruneLocked now s = s\<lparr>ks_retired := filter (\<lambda>k. time_After (k_retires k) now) (ks_retired s)\<rparr>"

definition Rotate :: "crypto \<Rightarrow> privkey option \<Rightarrow> gotime \<Rightarrow> keyset \<Rightarrow> keyset result" where
  "Rotate cr gen now s =
     (case gen of
        None \<Rightarrow> Inl (Error Plain ''generate'')
      | Some priv \<Rightarrow>
          (case thumbprint cr (sk_Public priv) of
             Inl e \<Rightarrow> Inl e
           | Inr kid \<Rightarrow>
               (let s1 = (case ks_current s of
                            None \<Rightarrow> s
                          | Some c \<Rightarrow>
                              s\<lparr>ks_retired := ks_retired s @ [c\<lparr>k_retires := time_Add now (ks_overlap s)\<rparr>]\<rparr>);
                    s2 = s1\<lparr>ks_current := Some \<lparr>k_kid = kid, k_priv = priv, k_retires = zero_time\<rparr>\<rparr>
                in Inr (pruneLocked now s2))))"

text \<open>\<open>NewSet\<close>, with the overlap its options leave (one hour by default).\<close>

definition NewSet :: "crypto \<Rightarrow> duration \<Rightarrow> privkey option \<Rightarrow> gotime \<Rightarrow> keyset result" where
  "NewSet cr overlap gen now =
     Rotate cr gen now \<lparr>ks_overlap = overlap, ks_current = None, ks_retired = []\<rparr>"

definition set_Current :: "keyset \<Rightarrow> (privkey \<times> string) result" where
  "set_Current s =
     (case ks_current s of
        None \<Rightarrow> Inl (Error ErrNoCurrent [])
      | Some k \<Rightarrow> Inr (k_priv k, k_kid k))"

definition set_PublicKey :: "gotime \<Rightarrow> keyset \<Rightarrow> string \<Rightarrow> pubkey option" where
  "set_PublicKey now s kid =
     (if \<exists>c. ks_current s = Some c \<and> k_kid c = kid
      then map_option (\<lambda>c. sk_Public (k_priv c)) (ks_current s)
      else map_option (\<lambda>k. sk_Public (k_priv k))
             (find (\<lambda>k. k_kid k = kid \<and> time_After (k_retires k) now) (ks_retired s)))"

fun map_result :: "('a \<Rightarrow> 'b result) \<Rightarrow> 'a list \<Rightarrow> 'b list result" where
  "map_result f [] = Inr []"
| "map_result f (x # xs) =
     (case f x of
        Inl e \<Rightarrow> Inl e
      | Inr y \<Rightarrow> (case map_result f xs of Inl e \<Rightarrow> Inl e | Inr ys \<Rightarrow> Inr (y # ys)))"

text \<open>The keys the set still vouches for, in the order \<open>JWKS\<close> lists them.\<close>

definition live_keys :: "gotime \<Rightarrow> keyset \<Rightarrow> skey list" where
  "live_keys now s =
     (case ks_current s of None \<Rightarrow> [] | Some c \<Rightarrow> [c])
     @ filter (\<lambda>k. time_After (k_retires k) now) (ks_retired s)"

definition set_JWKS :: "gotime \<Rightarrow> keyset \<Rightarrow> jwk list result" where
  "set_JWKS now s = map_result (\<lambda>k. jwkOf (sk_Public (k_priv k)) (k_kid k)) (live_keys now s)"

section \<open>Coordinates\<close>

lemma p256_p_bound: "p256_p < 2 ^ 256"
  by (simp add: p256_p_def)

lemma on_p256_bound: "on_p256 x y \<Longrightarrow> x < 2 ^ 256 \<and> y < 2 ^ 256"
proof -
  assume "on_p256 x y"
  then have "int x < 2 ^ 256" "int y < 2 ^ 256"
    using p256_p_bound by (auto simp: on_p256_def)
  then show ?thesis
    by simp
qed

lemma length_coord: "n < 2 ^ 256 \<Longrightarrow> length (big_Bytes n) \<le> 32"
  using length_big_Bytes [of n 32] by simp

lemma coord_Inr: "n < 2 ^ 256 \<Longrightarrow> coord (big_Bytes n) = Inr (b64 (pad_to 32 (big_Bytes n)))"
  using length_coord [of n] by (simp add: coord_def)

lemma valid_pub_bound: "valid_pub pub \<Longrightarrow> pk_X pub < 2 ^ 256 \<and> pk_Y pub < 2 ^ 256"
  by (auto simp: valid_pub_def dest: on_p256_bound)

lemma jwkOf_Inr:
  "valid_pub pub \<Longrightarrow> jwkOf pub kid =
     Inr \<lparr>j_Kty = ''EC'', j_Crv = ''P-256'', j_Kid = kid, j_Use = ''sig'', j_Alg = ''ES256'',
          j_X = b64 (pad_to 32 (big_Bytes (pk_X pub))), j_Y = b64 (pad_to 32 (big_Bytes (pk_Y pub)))\<rparr>"
  by (drule valid_pub_bound) (simp add: jwkOf_def coord_Inr)

lemma thumbprint_Inr: "valid_pub pub \<Longrightarrow> \<exists>h. thumbprint cr pub = Inr (b64 h)"
  by (drule valid_pub_bound) (auto simp: thumbprint_def coord_Inr Let_def)

lemma thumbprint_nonempty:
  assumes "crypto_ok cr" "valid_pub pub" "thumbprint cr pub = Inr kid"
  shows "valid_utf8 kid \<and> kid \<noteq> []"
proof -
  obtain b where "kid = b64 (sha256 cr b)"
    using assms(3) valid_pub_bound [OF assms(2)] by (auto simp: thumbprint_def coord_Inr Let_def)
  moreover have "sha256 cr b \<noteq> []"
    using assms(1) by (metis crypto_ok_def list.size(3) zero_neq_numeral)
  ultimately show ?thesis
    by simp
qed

lemma pad_to_pad_to [simp]: "length b \<le> k \<Longrightarrow> pad_to k (pad_to k b) = pad_to k b"
  by (simp add: pad_to_def)

lemma PublicFromXY_jwk:
  assumes "valid_pub pub"
  shows "PublicFromXY (b64 (pad_to 32 (big_Bytes (pk_X pub)))) (b64 (pad_to 32 (big_Bytes (pk_Y pub)))) = Inr pub"
  using assms valid_pub_bound [OF assms] length_coord [of "pk_X pub"] length_coord [of "pk_Y pub"]
  by (simp add: PublicFromXY_def coordBytes_def length_pad_to ParseUncompressedPublicKey_def valid_pub_def)

lemma PublicFromXY_valid: "PublicFromXY x y = Inr pub \<Longrightarrow> valid_pub pub"
  by (auto simp: PublicFromXY_def ParseUncompressedPublicKey_def valid_pub_def Let_def
      split: option.splits if_splits)

section \<open>The invariant: key ids are thumbprints of valid keys\<close>

definition skey_ok :: "crypto \<Rightarrow> skey \<Rightarrow> bool" where
  "skey_ok cr k \<longleftrightarrow> valid_pub (sk_Public (k_priv k)) \<and> thumbprint cr (sk_Public (k_priv k)) = Inr (k_kid k)"

definition keyset_ok :: "crypto \<Rightarrow> keyset \<Rightarrow> bool" where
  "keyset_ok cr s \<longleftrightarrow> (\<forall>k \<in> set_option (ks_current s) \<union> set (ks_retired s). skey_ok cr k)"

text \<open>What \<open>GenerateKey\<close> is documented to return: a key on the curve.\<close>

definition gen_ok :: "privkey option \<Rightarrow> bool" where
  "gen_ok gen \<longleftrightarrow> (\<forall>k. gen = Some k \<longrightarrow> valid_pub (sk_Public k))"

lemma Rotate_Inr:
  assumes "Rotate cr gen now s = Inr s'"
  obtains priv kid where "gen = Some priv" "thumbprint cr (sk_Public priv) = Inr kid"
    "ks_current s' = Some \<lparr>k_kid = kid, k_priv = priv, k_retires = zero_time\<rparr>"
    "ks_overlap s' = ks_overlap s"
    "ks_retired s' = filter (\<lambda>k. time_After (k_retires k) now)
       (ks_retired s @ (case ks_current s of None \<Rightarrow> []
          | Some c \<Rightarrow> [c\<lparr>k_retires := time_Add now (ks_overlap s)\<rparr>]))"
  using assms by (auto simp: Rotate_def pruneLocked_def Let_def split: option.splits sum.splits)

lemma Rotate_keyset_ok:
  assumes "Rotate cr gen now s = Inr s'" "keyset_ok cr s" "gen_ok gen"
  shows "keyset_ok cr s'"
  by (rule Rotate_Inr [OF assms(1)])
    (use assms(2,3) in \<open>auto simp: keyset_ok_def gen_ok_def skey_ok_def split: option.splits\<close>)

lemma NewSet_keyset_ok:
  "NewSet cr ov gen now = Inr s \<Longrightarrow> gen_ok gen \<Longrightarrow> keyset_ok cr s"
  by (unfold NewSet_def, erule Rotate_keyset_ok) (simp_all add: keyset_ok_def)

lemma Rotate_total: "gen = Some priv \<Longrightarrow> valid_pub (sk_Public priv) \<Longrightarrow> \<exists>s'. Rotate cr gen now s = Inr s'"
  using thumbprint_Inr [of "sk_Public priv" cr] by (auto simp: Rotate_def Let_def)

lemma live_keys_ok: "keyset_ok cr s \<Longrightarrow> k \<in> set (live_keys now s) \<Longrightarrow> skey_ok cr k"
  by (auto simp: live_keys_def keyset_ok_def split: option.splits)

text \<open>Time only takes keys away, and pruning early takes none that pruning late would keep.\<close>

lemma live_keys_antimono: "now \<le> later \<Longrightarrow> set (live_keys later s) \<subseteq> set (live_keys now s)"
  by (auto simp: live_keys_def time_After_less)

lemma pruneLocked_pruneLocked: "now \<le> later \<Longrightarrow> pruneLocked later (pruneLocked now s) = pruneLocked later s"
  by (auto simp: pruneLocked_def time_After_less intro!: arg_cong [where f = "\<lambda>l. s\<lparr>ks_retired := l\<rparr>"] filter_cong)

lemma set_PublicKey_live:
  "set_PublicKey now s kid = map_option (\<lambda>k. sk_Public (k_priv k)) (find (\<lambda>k. k_kid k = kid) (live_keys now s))"
proof -
  have f: "find P (filter Q xs) = find (\<lambda>x. P x \<and> Q x) xs" for P Q and xs :: "skey list"
    by (induction xs) auto
  show ?thesis
    by (auto simp: set_PublicKey_def live_keys_def f split: option.splits)
qed

lemma map_result_Inr: "\<forall>x \<in> set xs. f x = Inr (g x) \<Longrightarrow> map_result f xs = Inr (map g xs)"
  by (induction xs) auto

lemma map_result_keys:
  "map_result f xs = Inr ys \<Longrightarrow> length ys = length xs \<and> (\<forall>i < length xs. f (xs ! i) = Inr (ys ! i))"
  by (induction xs arbitrary: ys) (auto simp: nth_Cons split: sum.splits nat.splits)

text \<open>A sequence of rotations, each with the generator's outcome and the time.\<close>

fun rotations :: "crypto \<Rightarrow> (privkey option \<times> gotime) list \<Rightarrow> keyset \<Rightarrow> keyset result" where
  "rotations cr [] s = Inr s"
| "rotations cr ((gen, now) # ev) s =
     (case Rotate cr gen now s of Inl e \<Rightarrow> Inl e | Inr s' \<Rightarrow> rotations cr ev s')"

lemma rotations_keyset_ok:
  "rotations cr ev s = Inr s' \<Longrightarrow> keyset_ok cr s \<Longrightarrow> \<forall>e \<in> set ev. gen_ok (fst e) \<Longrightarrow> keyset_ok cr s'"
  by (induction cr ev s rule: rotations.induct) (auto split: sum.splits dest: Rotate_keyset_ok)

lemma rotations_keep_retired:
  "rotations cr ev s = Inr s' \<Longrightarrow> k \<in> set (ks_retired s) \<Longrightarrow>
     \<forall>e \<in> set ev. time_After (k_retires k) (snd e) \<Longrightarrow> k \<in> set (ks_retired s')"
proof (induction cr ev s rule: rotations.induct)
  case (2 cr gen now ev s)
  then obtain s1 where s1: "Rotate cr gen now s = Inr s1" "rotations cr ev s1 = Inr s'"
    by (auto split: sum.splits)
  have "k \<in> set (ks_retired s1)"
    by (rule Rotate_Inr [OF s1(1)]) (use 2 in auto)
  with 2 s1 show ?case
    by auto
qed auto

section \<open>Properties\<close>

text \<open>
  JWK round trip.  A key on the curve is rendered as a JWK from which \<open>PublicFromXY\<close>
  rebuilds it, and whatever \<open>PublicFromXY\<close> accepts is a point on the curve.
\<close>

theorem jwk_roundtrip:
  assumes "valid_pub pub"
  shows "(\<exists>j. jwkOf pub kid = Inr j \<and> j_Kid j = kid \<and> PublicFromXY (j_X j) (j_Y j) = Inr pub)
    \<and> (case PublicFromXY x y of Inr q \<Rightarrow> valid_pub q | Inl e \<Rightarrow> errors_Is e Plain)"
  using PublicFromXY_jwk [OF assms] jwkOf_Inr [OF assms, of kid] PublicFromXY_valid [of x y]
  by (auto simp: PublicFromXY_def split: sum.splits option.splits)

lemma toy_point:
  "(0x66485C780E2F83D72433BD5D84A06BB6541C2AF31DAE871728BF856A174F93F4
    * 0x66485C780E2F83D72433BD5D84A06BB6541C2AF31DAE871728BF856A174F93F4 :: int)
   = p256_b + 0x28DDBE23F91A186CDE31693E44D9577376BA56E1C52CB3F335F4C8DBA9B83FBB * p256_p"
  unfolding p256_b_def p256_p_def by simp

lemma toy_key_valid: "valid_pub (sk_Public toy_key)"
proof -
  have "int 0 < p256_p" "int (0x66485C780E2F83D72433BD5D84A06BB6541C2AF31DAE871728BF856A174F93F4) < p256_p"
    by (simp_all add: p256_p_def)
  moreover have "(0x66485C780E2F83D72433BD5D84A06BB6541C2AF31DAE871728BF856A174F93F4
      * 0x66485C780E2F83D72433BD5D84A06BB6541C2AF31DAE871728BF856A174F93F4) mod p256_p = p256_b mod p256_p"
    unfolding toy_point by simp
  ultimately show ?thesis
    by (simp add: valid_pub_def on_p256_def toy_key_def)
qed

theorem jwk_roundtrip_witness:
  "(\<exists>j. jwkOf (sk_Public toy_key) ''k'' = Inr j \<and> j_Kid j = ''k''
      \<and> PublicFromXY (j_X j) (j_Y j) = Inr (sk_Public toy_key))
   \<and> (case PublicFromXY ''AQ'' ''AQ'' of Inr q \<Rightarrow> valid_pub q | Inl e \<Rightarrow> errors_Is e Plain)"
  by (rule jwk_roundtrip [OF toy_key_valid])

lemma set_JWKS_spec:
  assumes "keyset_ok cr s"
  shows "\<exists>js. set_JWKS now s = Inr js
    \<and> set (map j_Kid js) = {kid. set_PublicKey now s kid \<noteq> None}
    \<and> (\<forall>kid pk. set_PublicKey now s kid = Some pk \<longrightarrow>
          (\<exists>j \<in> set js. j_Kid j = kid \<and> PublicFromXY (j_X j) (j_Y j) = Inr pk))
    \<and> (\<forall>j \<in> set js. j_Alg j = ''ES256'' \<and> j_Kty j = ''EC'' \<and> j_Crv j = ''P-256''
          \<and> (\<exists>pk. PublicFromXY (j_X j) (j_Y j) = Inr pk \<and> thumbprint cr pk = Inr (j_Kid j)))"
proof -
  let ?L = "live_keys now s"
  let ?g = "\<lambda>k. case jwkOf (sk_Public (k_priv k)) (k_kid k) of Inr j \<Rightarrow> j"
  have ok: "skey_ok cr k" if "k \<in> set ?L" for k
    using live_keys_ok [OF assms that] .
  have j: "jwkOf (sk_Public (k_priv k)) (k_kid k) = Inr (?g k) \<and> j_Kid (?g k) = k_kid k
      \<and> j_Alg (?g k) = ''ES256'' \<and> j_Kty (?g k) = ''EC'' \<and> j_Crv (?g k) = ''P-256''
      \<and> PublicFromXY (j_X (?g k)) (j_Y (?g k)) = Inr (sk_Public (k_priv k))
      \<and> thumbprint cr (sk_Public (k_priv k)) = Inr (k_kid k)" if "k \<in> set ?L" for k
    using ok [OF that] by (simp add: skey_ok_def jwkOf_Inr PublicFromXY_jwk)
  have js: "set_JWKS now s = Inr (map ?g ?L)"
    unfolding set_JWKS_def using j by (intro map_result_Inr) blast
  have found: "set_PublicKey now s kid \<noteq> None \<longleftrightarrow> kid \<in> k_kid ` set ?L" for kid
    by (auto simp: set_PublicKey_live find_None_iff)
  have kids: "j_Kid ` ?g ` set ?L = k_kid ` set ?L"
    using j by (simp add: image_image cong: image_cong)
  have hit: "\<exists>j \<in> set (map ?g ?L). j_Kid j = kid \<and> PublicFromXY (j_X j) (j_Y j) = Inr pk"
    if "set_PublicKey now s kid = Some pk" for kid pk
  proof -
    from that obtain k where k: "find (\<lambda>k. k_kid k = kid) ?L = Some k" "pk = sk_Public (k_priv k)"
      by (auto simp: set_PublicKey_live)
    then have "k \<in> set ?L" "k_kid k = kid"
      by (auto dest: find_first_Some)
    with j k(2) show ?thesis
      by auto
  qed
  have "set (map j_Kid (map ?g ?L)) = {kid. set_PublicKey now s kid \<noteq> None}"
    unfolding found set_map kids by simp
  moreover have "\<forall>j \<in> set (map ?g ?L). j_Alg j = ''ES256'' \<and> j_Kty j = ''EC'' \<and> j_Crv j = ''P-256''
      \<and> (\<exists>pk. PublicFromXY (j_X j) (j_Y j) = Inr pk \<and> thumbprint cr pk = Inr (j_Kid j))"
    using j by auto
  ultimately show ?thesis
    using js hit by blast
qed

text \<open>
  The JWKS is what verifies.  For a set whose keys came from the generator, the published
  document never fails to render; it lists a key id exactly when \<open>PublicKey\<close> finds it, it
  carries the key that \<open>PublicKey\<close> returns, and every key id in it is the thumbprint of the
  key next to it.
\<close>

theorem jwks_matches_PublicKey:
  assumes "keyset_ok cr s"
  shows "\<exists>js. set_JWKS now s = Inr js
    \<and> set (map j_Kid js) = {kid. set_PublicKey now s kid \<noteq> None}
    \<and> (\<forall>kid pk. set_PublicKey now s kid = Some pk \<longrightarrow>
          (\<exists>j \<in> set js. j_Kid j = kid \<and> PublicFromXY (j_X j) (j_Y j) = Inr pk))
    \<and> (\<forall>j \<in> set js. j_Alg j = ''ES256'' \<and> j_Kty j = ''EC'' \<and> j_Crv j = ''P-256''
          \<and> (\<exists>pk. PublicFromXY (j_X j) (j_Y j) = Inr pk \<and> thumbprint cr pk = Inr (j_Kid j)))"
  using set_JWKS_spec [OF assms] .

definition toy_kid :: string where
  "toy_kid = (case thumbprint toy_crypto (sk_Public toy_key) of Inr t \<Rightarrow> t | Inl _ \<Rightarrow> [])"

lemma toy_kid: "thumbprint toy_crypto (sk_Public toy_key) = Inr toy_kid"
  using thumbprint_Inr [OF toy_key_valid, of toy_crypto] by (auto simp: toy_kid_def)

definition toy_set :: keyset where
  "toy_set = \<lparr>ks_overlap = Hour,
     ks_current = Some \<lparr>k_kid = toy_kid,
                       k_priv = toy_key, k_retires = zero_time\<rparr>,
     ks_retired = []\<rparr>"

lemma toy_set_ok: "keyset_ok toy_crypto toy_set"
  using toy_key_valid toy_kid by (auto simp: keyset_ok_def skey_ok_def toy_set_def)

theorem jwks_matches_PublicKey_witness:
  "\<exists>js. set_JWKS (time_Unix 0) toy_set = Inr js \<and> js \<noteq> []"
proof -
  have "set_PublicKey (time_Unix 0) toy_set toy_kid \<noteq> None"
    by (simp add: set_PublicKey_def toy_set_def)
  with jwks_matches_PublicKey [OF toy_set_ok, of "time_Unix 0"] show ?thesis
    by auto
qed

lemma retired_key_found:
  assumes "keyset_ok cr s" "ks_current s = Some k"
    and "Rotate cr gen t0 s = Inr s1" "gen_ok gen"
    and "rotations cr ev s1 = Inr s2" "\<forall>e \<in> set ev. gen_ok (fst e)"
    and "time_After (time_Add t0 (ks_overlap s)) t0"
    and "\<forall>e \<in> set ev. time_After (time_Add t0 (ks_overlap s)) (snd e)"
    and "time_After (time_Add t0 (ks_overlap s)) now"
  shows "\<exists>pk. set_PublicKey now s2 (k_kid k) = Some pk
    \<and> valid_pub pk \<and> thumbprint cr pk = thumbprint cr (sk_Public (k_priv k))"
proof -
  let ?k = "k\<lparr>k_retires := time_Add t0 (ks_overlap s)\<rparr>"
  have "?k \<in> set (ks_retired s1)"
    by (rule Rotate_Inr [OF assms(3)]) (use assms(2,7) in simp)
  then have "?k \<in> set (ks_retired s2)"
    using rotations_keep_retired [OF assms(5)] assms(8) by simp
  then have live: "?k \<in> set (live_keys now s2)"
    using assms(9) by (simp add: live_keys_def)
  then obtain k' where k': "find (\<lambda>x. k_kid x = k_kid k) (live_keys now s2) = Some k'"
    by (cases "find (\<lambda>x. k_kid x = k_kid k) (live_keys now s2)") (force simp: find_None_iff)+
  then have "k' \<in> set (live_keys now s2)" "k_kid k' = k_kid k"
    by (auto dest: find_first_Some)
  moreover have "keyset_ok cr s2"
    using rotations_keyset_ok [OF assms(5) Rotate_keyset_ok [OF assms(3,1,4)] assms(6)] .
  moreover have "skey_ok cr k"
    using assms(1,2) by (simp add: keyset_ok_def)
  ultimately show ?thesis
    using live_keys_ok [of cr s2 k' now] k' by (auto simp: set_PublicKey_live skey_ok_def)
qed

text \<open>
  Rotation overlap.  The key that was current when a rotation happened at \<open>t0\<close> keeps
  verifying until \<open>t0\<close> plus the overlap, through that rotation and every later one before
  that instant: its id is found then, with a key of that thumbprint.
\<close>

theorem rotation_overlap:
  assumes "keyset_ok cr s" "ks_current s = Some k"
    and "Rotate cr gen t0 s = Inr s1" "gen_ok gen"
    and "rotations cr ev s1 = Inr s2" "\<forall>e \<in> set ev. gen_ok (fst e)"
    and "time_After (time_Add t0 (ks_overlap s)) t0"
    and "\<forall>e \<in> set ev. time_After (time_Add t0 (ks_overlap s)) (snd e)"
    and "time_After (time_Add t0 (ks_overlap s)) now"
  shows "\<exists>pk. set_PublicKey now s2 (k_kid k) = Some pk
    \<and> valid_pub pk \<and> thumbprint cr pk = thumbprint cr (sk_Public (k_priv k))"
  using retired_key_found [OF assms] .

theorem rotation_overlap_witness:
  "\<exists>pk s2. Rotate toy_crypto (Some toy_key) (time_Unix 1000) toy_set = Inr s2
    \<and> set_PublicKey (time_Unix 4599) s2 toy_kid = Some pk
    \<and> valid_pub pk"
proof -
  have g: "gen_ok (Some toy_key)"
    by (simp add: gen_ok_def toy_key_valid)
  obtain s1 where s1: "Rotate toy_crypto (Some toy_key) (time_Unix 1000) toy_set = Inr s1"
    using Rotate_total [OF refl toy_key_valid] by blast
  have t: "time_After (time_Add (time_Unix 1000) Hour) (time_Unix 1000)"
      "time_After (time_Add (time_Unix 1000) Hour) (time_Unix 4599)"
    by code_simp+
  obtain k where k: "ks_current toy_set = Some k" "k_kid k = toy_kid"
    by (simp add: toy_set_def)
  have "rotations toy_crypto [] s1 = Inr s1"
    by simp
  from rotation_overlap [OF toy_set_ok k(1) s1 g this] t show ?thesis
    using s1 k(2) by (auto simp: toy_set_def)
qed

end
