(* ===== verification/Published.thy ===== *)
theory Published
  imports Keys
begin

text \<open>
  \<open>keys/shared.go\<close>: one replica's signing keys joined to the set every replica publishes.  The
  store is an interface with optimistic concurrency; its contract is the locale
  \<open>entry_store\<close>, over a state \<open>'s\<close> that other replicas change as well.  One \<open>publishOnce\<close>
  loads, lets the others act (\<open>env\<close>), and saves; \<open>Publish\<close> retries on a conflict.
\<close>

record entry =
  e_Kid :: string
  e_X :: string
  e_Y :: string
  e_Replica :: string
  e_Lease :: gotime

record published =
  p_local :: keyset
  p_replica :: string
  p_lease :: duration
  p_grace :: duration
  p_merged :: "entry list"

text \<open>
  \<open>NewPublished\<close>: a missing local set or store is \<open>None\<close>/\<open>False\<close>; the options leave a lease and
  a grace (by default two and thirty minutes).
\<close>

definition NewPublished :: "keyset option \<Rightarrow> bool \<Rightarrow> string \<Rightarrow> duration \<Rightarrow> duration \<Rightarrow> published result" where
  "NewPublished loc has_store replica lease grace =
     (case loc of
        None \<Rightarrow> Inl (Error Plain ''local set, store and replica name are all required'')
      | Some l \<Rightarrow>
          if \<not> has_store \<or> replica = []
          then Inl (Error Plain ''local set, store and replica name are all required'')
          else Inr \<lparr>p_local = l, p_replica = replica, p_lease = lease, p_grace = grace, p_merged = []\<rparr>)"

definition mineNow :: "published \<Rightarrow> gotime \<Rightarrow> entry list result" where
  "mineNow p now =
     (case set_JWKS now (p_local p) of
        Inl e \<Rightarrow> Inl e
      | Inr js \<Rightarrow> Inr (map (\<lambda>k. \<lparr>e_Kid = j_Kid k, e_X = j_X k, e_Y = j_Y k, e_Replica = p_replica p,
                                e_Lease = time_Add now (p_lease p)\<rparr>) js))"

definition lapsed :: "published \<Rightarrow> gotime \<Rightarrow> entry \<Rightarrow> bool" where
  "lapsed p now e \<longleftrightarrow> time_Before (time_Add (e_Lease e) (p_grace p)) now"

text \<open>The loop of \<open>publishOnce\<close> over the stored entries.\<close>

fun keep_entries :: "published \<Rightarrow> gotime \<Rightarrow> entry list \<Rightarrow> entry list" where
  "keep_entries p now [] = []"
| "keep_entries p now (e # es) =
     (if e_Replica e = p_replica p then keep_entries p now es
      else if lapsed p now e then keep_entries p now es
      else e # keep_entries p now es)"

definition next_entries :: "published \<Rightarrow> gotime \<Rightarrow> entry list \<Rightarrow> entry list result" where
  "next_entries p now stored =
     (case mineNow p now of
        Inl e \<Rightarrow> Inl e
      | Inr mine \<Rightarrow> Inr (sort_key e_Kid (keep_entries p now stored @ mine)))"

text \<open>
  \<open>publishOnce\<close> on a store in state \<open>st\<close>: \<open>load\<close> reads it, \<open>env\<close> is what the other replicas
  do before the write, \<open>save\<close> writes at the version that was read.  The result is the store,
  the replica's new state and the error.
\<close>

definition publishOnce ::
  "('s \<Rightarrow> (entry list \<times> string) result) \<Rightarrow> ('s \<Rightarrow> entry list \<Rightarrow> string \<Rightarrow> 's \<times> error option)
   \<Rightarrow> ('s \<Rightarrow> 's) \<Rightarrow> gotime \<Rightarrow> 's \<Rightarrow> published \<Rightarrow> 's \<times> published \<times> error option" where
  "publishOnce load save env now st p =
     (case load st of
        Inl e \<Rightarrow> (st, p, Some e)
      | Inr (stored, version) \<Rightarrow>
          (case next_entries p now stored of
             Inl e \<Rightarrow> (st, p, Some e)
           | Inr nxt \<Rightarrow>
               (case save (env st) nxt version of
                  (st', Some e) \<Rightarrow> (st', p, Some e)
                | (st', None) \<Rightarrow> (st', p\<lparr>p_merged := nxt\<rparr>, None))))"

text \<open>
  \<open>Publish\<close>: attempt \<open>i\<close> of 5; \<open>now i\<close> and \<open>env i\<close> are the clock and the other replicas during
  that attempt, \<open>wait i\<close> what they do during the back-off and \<open>stopped i\<close> whether the context
  ends it.  The fuel counts the attempts left.
\<close>

fun publish_loop ::
  "('s \<Rightarrow> (entry list \<times> string) result) \<Rightarrow> ('s \<Rightarrow> entry list \<Rightarrow> string \<Rightarrow> 's \<times> error option)
   \<Rightarrow> (nat \<Rightarrow> 's \<Rightarrow> 's) \<Rightarrow> (nat \<Rightarrow> 's \<Rightarrow> 's) \<Rightarrow> (nat \<Rightarrow> gotime) \<Rightarrow> (nat \<Rightarrow> bool)
   \<Rightarrow> nat \<Rightarrow> nat \<Rightarrow> 's \<Rightarrow> published \<Rightarrow> 's \<times> published \<times> error option" where
  "publish_loop load save env wait now stopped i 0 st p =
     (st, p, Some (Error ErrConflict ''publish gave up after 5 conflicts''))"
| "publish_loop load save env wait now stopped i (Suc n) st p =
     (case publishOnce load save (env i) (now i) st p of
        (st', p', None) \<Rightarrow> (st', p', None)
      | (st', p', Some e) \<Rightarrow>
          if \<not> errors_Is e ErrConflict then (st', p', Some e)
          else if stopped i then (st', p', Some (Error CtxCanceled []))
          else publish_loop load save env wait now stopped (Suc i) n (wait i st') p')"

definition Publish where
  "Publish load save env wait now stopped st p = publish_loop load save env wait now stopped 0 5 st p"

definition pub_Refresh :: "('s \<Rightarrow> (entry list \<times> string) result) \<Rightarrow> 's \<Rightarrow> published \<Rightarrow> published \<times> error option" where
  "pub_Refresh load st p =
     (case load st of Inl e \<Rightarrow> (p, Some e) | Inr (stored, _) \<Rightarrow> (p\<lparr>p_merged := stored\<rparr>, None))"

text \<open>The loop of \<open>JWKS\<close> over the merged entries, with the map \<open>seen\<close> as its list of keys.\<close>

fun merged_jwks :: "crypto \<Rightarrow> published \<Rightarrow> gotime \<Rightarrow> string list \<Rightarrow> entry list \<Rightarrow> jwk list" where
  "merged_jwks cr p now seen [] = []"
| "merged_jwks cr p now seen (e # es) =
     (if e_Kid e \<in> set seen then merged_jwks cr p now seen es
      else if lapsed p now e then merged_jwks cr p now seen es
      else
        (case PublicFromXY (e_X e) (e_Y e) of
           Inl _ \<Rightarrow> merged_jwks cr p now seen es
         | Inr pub \<Rightarrow>
             if thumbprint cr pub \<noteq> Inr (e_Kid e) then merged_jwks cr p now seen es
             else \<lparr>j_Kty = ''EC'', j_Crv = ''P-256'', j_Kid = e_Kid e, j_Use = ''sig'', j_Alg = ''ES256'',
                   j_X = e_X e, j_Y = e_Y e\<rparr>
                  # merged_jwks cr p now (e_Kid e # seen) es))"

definition pub_JWKS :: "crypto \<Rightarrow> published \<Rightarrow> gotime \<Rightarrow> jwk list result" where
  "pub_JWKS cr p now =
     (case set_JWKS now (p_local p) of
        Inl e \<Rightarrow> Inl e
      | Inr ls \<Rightarrow> Inr (sort_key j_Kid (ls @ merged_jwks cr p now (rev (map j_Kid ls)) (p_merged p))))"

definition pub_Current :: "published \<Rightarrow> (privkey \<times> string) result" where
  "pub_Current p = set_Current (p_local p)"

text \<open>\<open>Run\<close>'s ticker interval.\<close>

definition run_interval :: "published \<Rightarrow> duration" where
  "run_interval p = (let i = quo (p_lease p) 3 in if i \<le> 0 then 30 * Second else i)"

text \<open>
  \<open>Run\<close>: one publication at the start and one at each tick, until its context ends.  \<open>publish x\<close> is
  the \<open>Publish\<close> of that moment; the errors are what \<open>onError\<close> is given, in order.
\<close>

definition run_report :: "('x \<Rightarrow> 's \<Rightarrow> published \<Rightarrow> 's \<times> published \<times> error option) \<Rightarrow> 'x \<Rightarrow> 's \<times> published \<times> error list
    \<Rightarrow> 's \<times> published \<times> error list" where
  "run_report publish x s =
     (case s of (st, p, errs) \<Rightarrow>
        (case publish x st p of (st', p', err) \<Rightarrow> (st', p', errs @ (case err of None \<Rightarrow> [] | Some e \<Rightarrow> [e]))))"

definition pub_Run :: "('x \<Rightarrow> 's \<Rightarrow> published \<Rightarrow> 's \<times> published \<times> error option) \<Rightarrow> 'x \<Rightarrow> 'x list \<Rightarrow> 's \<Rightarrow> published
    \<Rightarrow> 's \<times> published \<times> error list" where
  "pub_Run publish first ticks st p = fold (run_report publish) (first # ticks) (st, p, [])"

section \<open>The wire format\<close>

text \<open>
  \<open>time.Time\<close> travels as RFC 3339 text; \<open>ft\<close> formats it (\<open>None\<close> for a year past 9999) and \<open>pt\<close>
  parses it.
\<close>

definition entry_doc :: "(gotime \<Rightarrow> string option) \<Rightarrow> entry \<Rightarrow> json option" where
  "entry_doc ft e =
     map_option (\<lambda>t. JObj [(''kid'', JStr (e_Kid e)), (''x'', JStr (e_X e)), (''y'', JStr (e_Y e)),
                          (''replica'', JStr (e_Replica e)), (''lease'', JStr t)]) (ft (e_Lease e))"

text \<open>A nil slice is written as \<open>null\<close>, which a publishing replica never has.\<close>

definition MarshalEntries :: "(gotime \<Rightarrow> string option) \<Rightarrow> entry list \<Rightarrow> bytes result" where
  "MarshalEntries ft es =
     (case those (map (entry_doc ft) es) of
        None \<Rightarrow> Inl (Error Plain ''marshal'')
      | Some ds \<Rightarrow> Inr (json_Marshal (JObj [(''entries'', JArr ds)])))"

definition zero_entry :: entry where
  "zero_entry = \<lparr>e_Kid = [], e_X = [], e_Y = [], e_Replica = [], e_Lease = zero_time\<rparr>"

definition entry_fields :: "(string \<Rightarrow> gotime option) \<Rightarrow> entry fields" where
  "entry_fields pt =
     [fld ''kid'' dec_string e_Kid (\<lambda>x. e_Kid_update (\<lambda>_. x)),
      fld ''x'' dec_string e_X (\<lambda>x. e_X_update (\<lambda>_. x)),
      fld ''y'' dec_string e_Y (\<lambda>x. e_Y_update (\<lambda>_. x)),
      fld ''replica'' dec_string e_Replica (\<lambda>x. e_Replica_update (\<lambda>_. x)),
      fld ''lease'' (dec_time pt) e_Lease (\<lambda>x. e_Lease_update (\<lambda>_. x))]"

definition UnmarshalEntries :: "(string \<Rightarrow> gotime option) \<Rightarrow> bytes \<Rightarrow> entry list result" where
  "UnmarshalEntries pt b =
     (if b = [] then Inr []
      else (case Option.bind (json_Parse b)
                  (\<lambda>j. dec_struct False [fld ''entries'' (dec_slice (dec_struct False (entry_fields pt)) zero_entry)
                                         id (\<lambda>x _. x)] j []) of
              None \<Rightarrow> Inl (Error Plain ''parse entries'')
            | Some es \<Rightarrow> Inr es))"

section \<open>The store's contract\<close>

text \<open>
  \<open>contents\<close> is what the store holds.  A load that succeeds reads it; a save that succeeds found
  the store with the entries of the load it names by its version, wherever the store has gone
  since (\<open>reach\<close>), and leaves the new entries.  The laws hold under \<open>contract\<close>, what an
  implementation relies on of the service behind it, for entries it can represent (\<open>storable\<close>).
\<close>

locale entry_store =
  fixes load :: "'s \<Rightarrow> (entry list \<times> string) result"
    and save :: "'s \<Rightarrow> entry list \<Rightarrow> string \<Rightarrow> 's \<times> error option"
    and contents :: "'s \<Rightarrow> entry list option"
    and reach :: "'s \<Rightarrow> 's \<Rightarrow> bool"
    and storable :: "entry list \<Rightarrow> bool"
    and contract :: bool
  assumes load_contents: "contract \<Longrightarrow> load s = Inr (es, v) \<Longrightarrow> contents s = Some es"
    and save_current: "contract \<Longrightarrow> load s0 = Inr (es0, v) \<Longrightarrow> reach s0 s \<Longrightarrow>
      save s es v = (s', None) \<Longrightarrow> contents s = Some es0"
    and save_writes: "contract \<Longrightarrow> load s0 = Inr (es0, v) \<Longrightarrow> storable es \<Longrightarrow> save s es v = (s', None) \<Longrightarrow>
      contents s' = Some es"
begin

text \<open>
  A publish that succeeds wrote over exactly the entries it had read, whatever the others did in
  between.
\<close>

lemma publishOnce_saved:
  assumes contract "publishOnce load save env now st p = (st', p', None)" "reach st (env st)"
  obtains stored nxt where "contents st = Some stored" "contents (env st) = Some stored"
    "next_entries p now stored = Inr nxt" "p' = p\<lparr>p_merged := nxt\<rparr>"
    "storable nxt \<Longrightarrow> contents st' = Some nxt"
proof -
  obtain stored v nxt where l: "load st = Inr (stored, v)" "next_entries p now stored = Inr nxt"
      "save (env st) nxt v = (st', None)" "p' = p\<lparr>p_merged := nxt\<rparr>"
    using assms(2) by (auto simp: publishOnce_def split: sum.splits prod.splits option.splits)
  show thesis
    by (rule that [OF load_contents [OF assms(1) l(1)] save_current [OF assms(1) l(1) assms(3) l(3)] l(2,4)])
      (rule save_writes [OF assms(1) l(1) _ l(3)])
qed

end

section \<open>Lemmas\<close>

lemma keep_entries_filter:
  "keep_entries p now es = filter (\<lambda>e. e_Replica e \<noteq> p_replica p \<and> \<not> lapsed p now e) es"
  by (induction es) auto

lemma next_entries_set:
  assumes "next_entries p now stored = Inr nxt"
  obtains mine where "mineNow p now = Inr mine"
    "set nxt = {e \<in> set stored. e_Replica e \<noteq> p_replica p \<and> \<not> lapsed p now e} \<union> set mine"
    "sorted (map e_Kid nxt)"
  using assms by (auto simp: next_entries_def keep_entries_filter split: sum.splits)

lemma merged_jwks_sound:
  "j \<in> set (merged_jwks cr p now seen es) \<Longrightarrow>
     j_Kid j \<notin> set seen \<and> j_Alg j = ''ES256'' \<and>
     (\<exists>e \<in> set es. e_Kid e = j_Kid j \<and> \<not> lapsed p now e \<and> j_X j = e_X e \<and> j_Y j = e_Y e
        \<and> (\<exists>pub. PublicFromXY (j_X j) (j_Y j) = Inr pub \<and> thumbprint cr pub = Inr (j_Kid j)))"
  by (induction cr p now seen es rule: merged_jwks.induct)
    (auto split: if_splits sum.splits)

lemma merged_jwks_complete:
  "e \<in> set es \<Longrightarrow> \<not> lapsed p now e \<Longrightarrow> PublicFromXY (e_X e) (e_Y e) = Inr pub \<Longrightarrow>
     thumbprint cr pub = Inr (e_Kid e) \<Longrightarrow>
     e_Kid e \<in> set seen \<union> j_Kid ` set (merged_jwks cr p now seen es)"
  by (induction cr p now seen es rule: merged_jwks.induct) (auto split: sum.splits)

lemma merged_jwks_distinct: "distinct (map j_Kid (merged_jwks cr p now seen es))"
  by (induction cr p now seen es rule: merged_jwks.induct)
    (auto split: sum.splits dest: merged_jwks_sound)

lemma publishOnce_error_keeps: "publishOnce load save env now st p = (st', p', Some e) \<Longrightarrow> p' = p"
  by (auto simp: publishOnce_def split: sum.splits prod.splits option.splits)

lemma publish_loop_error_keeps:
  "publish_loop load save env wait now stopped i n st p = (st', p', Some e) \<Longrightarrow> p' = p"
proof (induction n arbitrary: i st)
  case (Suc n)
  obtain st1 p1 r where o: "publishOnce load save (env i) (now i) st p = (st1, p1, r)"
    by (cases "publishOnce load save (env i) (now i) st p") auto
  with Suc publishOnce_error_keeps [of load save "env i" "now i" st p st1 p1] show ?case
    by (cases r) (auto split: if_splits)
qed simp

lemma publish_loop_conflict:
  "publish_loop load save env wait now stopped i n st p = (st', p', Some e) \<Longrightarrow> errors_Is e ErrConflict \<Longrightarrow>
     \<forall>k < n. \<not> stopped (i + k)"
proof (induction n arbitrary: i st)
  case (Suc n)
  obtain st1 p1 r where o: "publishOnce load save (env i) (now i) st p = (st1, p1, r)"
    by (cases "publishOnce load save (env i) (now i) st p") auto
  with Suc.prems obtain e1 where r: "r = Some e1" "p1 = p" "errors_Is e1 ErrConflict" "\<not> stopped i"
    and rest: "publish_loop load save env wait now stopped (Suc i) n (wait i st1) p = (st', p', Some e)"
    using publishOnce_error_keeps [of load save "env i" "now i" st p st1 p1]
    by (cases r) (auto split: if_splits)
  from Suc.IH [OF rest Suc.prems(2)] r(4) show ?case
    by (auto simp: less_Suc_eq_0_disj)
qed simp

lemma pub_JWKS_spec:
  assumes "keyset_ok cr (p_local p)"
  shows "\<exists>js. pub_JWKS cr p now = Inr js \<and> sorted (map j_Kid js)
    \<and> (\<forall>kid pk. set_PublicKey now (p_local p) kid = Some pk \<longrightarrow>
          (\<exists>j \<in> set js. j_Kid j = kid \<and> PublicFromXY (j_X j) (j_Y j) = Inr pk))
    \<and> (\<forall>e \<in> set (p_merged p). \<forall>pub. \<not> lapsed p now e \<longrightarrow> PublicFromXY (e_X e) (e_Y e) = Inr pub \<longrightarrow>
          thumbprint cr pub = Inr (e_Kid e) \<longrightarrow> (\<exists>j \<in> set js. j_Kid j = e_Kid e))
    \<and> (\<forall>j \<in> set js. j_Alg j = ''ES256''
          \<and> (\<exists>pub. PublicFromXY (j_X j) (j_Y j) = Inr pub \<and> valid_pub pub \<and> thumbprint cr pub = Inr (j_Kid j))
          \<and> (set_PublicKey now (p_local p) (j_Kid j) \<noteq> None \<or> (\<exists>e \<in> set (p_merged p). e_Kid e = j_Kid j \<and> \<not> lapsed p now e)))"
proof -
  obtain ls where ls: "set_JWKS now (p_local p) = Inr ls"
      "set (map j_Kid ls) = {kid. set_PublicKey now (p_local p) kid \<noteq> None}"
      "\<forall>kid pk. set_PublicKey now (p_local p) kid = Some pk \<longrightarrow>
          (\<exists>j \<in> set ls. j_Kid j = kid \<and> PublicFromXY (j_X j) (j_Y j) = Inr pk)"
      "\<forall>j \<in> set ls. j_Alg j = ''ES256'' \<and> j_Kty j = ''EC'' \<and> j_Crv j = ''P-256''
          \<and> (\<exists>pk. PublicFromXY (j_X j) (j_Y j) = Inr pk \<and> thumbprint cr pk = Inr (j_Kid j))"
    using set_JWKS_spec [OF assms, of now] by (elim exE conjE)
  let ?m = "merged_jwks cr p now (rev (map j_Kid ls)) (p_merged p)"
  have js: "pub_JWKS cr p now = Inr (sort_key j_Kid (ls @ ?m))"
    by (simp add: pub_JWKS_def ls(1))
  have stored: "\<exists>j \<in> set (ls @ ?m). j_Kid j = e_Kid e"
    if "e \<in> set (p_merged p)" "\<not> lapsed p now e" "PublicFromXY (e_X e) (e_Y e) = Inr pub"
      "thumbprint cr pub = Inr (e_Kid e)" for e pub
    using merged_jwks_complete [OF that, of "rev (map j_Kid ls)"] by force
  have sound: "j_Alg j = ''ES256''
      \<and> (\<exists>pub. PublicFromXY (j_X j) (j_Y j) = Inr pub \<and> valid_pub pub \<and> thumbprint cr pub = Inr (j_Kid j))
      \<and> (set_PublicKey now (p_local p) (j_Kid j) \<noteq> None \<or> (\<exists>e \<in> set (p_merged p). e_Kid e = j_Kid j \<and> \<not> lapsed p now e))"
    if "j \<in> set (ls @ ?m)" for j
  proof (cases "j \<in> set ls")
    case True
    then have "set_PublicKey now (p_local p) (j_Kid j) \<noteq> None"
      using ls(2) by auto
    with True ls(4) show ?thesis
      using PublicFromXY_valid by blast
  next
    case False
    with that have "j \<in> set ?m"
      by simp
    from merged_jwks_sound [OF this] show ?thesis
      using PublicFromXY_valid by blast
  qed
  have own: "\<exists>j \<in> set (ls @ ?m). j_Kid j = kid \<and> PublicFromXY (j_X j) (j_Y j) = Inr pk"
    if "set_PublicKey now (p_local p) kid = Some pk" for kid pk
    using that ls(3) by fastforce
  have "sorted (map j_Kid (sort_key j_Kid (ls @ ?m)))"
    by (rule sorted_sort_key)
  with js stored sound own show ?thesis
    by (intro exI [of _ "sort_key j_Kid (ls @ ?m)"] conjI) (simp_all only: set_sort, blast+)
qed

section \<open>Properties\<close>

text \<open>
  C18 (the published union).  The document a replica publishes has its own live keys, so what it
  signs verifies; it has every stored key that has not lapsed and is named by its thumbprint;
  and nothing else: whatever is written to the store, each key of the document is a P-256 key
  under its own thumbprint, so no entry can pass for a key of another name.
\<close>

theorem published_union:
  assumes "keyset_ok cr (p_local p)"
  shows "\<exists>js. pub_JWKS cr p now = Inr js \<and> sorted (map j_Kid js)
    \<and> (\<forall>kid pk. set_PublicKey now (p_local p) kid = Some pk \<longrightarrow>
          (\<exists>j \<in> set js. j_Kid j = kid \<and> PublicFromXY (j_X j) (j_Y j) = Inr pk))
    \<and> (\<forall>e \<in> set (p_merged p). \<forall>pub. \<not> lapsed p now e \<longrightarrow> PublicFromXY (e_X e) (e_Y e) = Inr pub \<longrightarrow>
          thumbprint cr pub = Inr (e_Kid e) \<longrightarrow> (\<exists>j \<in> set js. j_Kid j = e_Kid e))
    \<and> (\<forall>j \<in> set js. j_Alg j = ''ES256''
          \<and> (\<exists>pub. PublicFromXY (j_X j) (j_Y j) = Inr pub \<and> valid_pub pub \<and> thumbprint cr pub = Inr (j_Kid j))
          \<and> (set_PublicKey now (p_local p) (j_Kid j) \<noteq> None \<or> (\<exists>e \<in> set (p_merged p). e_Kid e = j_Kid j \<and> \<not> lapsed p now e)))"
  using pub_JWKS_spec [OF assms] .

definition toy_published :: published where
  "toy_published = \<lparr>p_local = toy_set, p_replica = ''r1'', p_lease = 2 * Minute, p_grace = 30 * Minute, p_merged = []\<rparr>"

theorem published_union_witness:
  "\<exists>js. pub_JWKS toy_crypto toy_published (time_Unix 0) = Inr js \<and> js \<noteq> []"
proof -
  have "keyset_ok toy_crypto (p_local toy_published)"
    by (simp add: toy_published_def toy_set_ok)
  moreover have "set_PublicKey (time_Unix 0) (p_local toy_published) toy_kid \<noteq> None"
    by (simp add: set_PublicKey_def toy_set_def toy_published_def)
  ultimately show ?thesis
    using published_union [of toy_crypto toy_published "time_Unix 0"] by fastforce
qed

text \<open>The saves of a loop of \<open>n\<close> attempts, counted by what they leave in the store.\<close>

lemma publishOnce_saves:
  fixes cnt :: "'s \<Rightarrow> nat"
  assumes "\<And>st es v. cnt (fst (save st es v)) \<le> cnt st + 1" "\<And>st. cnt (env st) \<le> cnt st"
    and "publishOnce load save env now st p = (st', p', err)"
  shows "cnt st' \<le> cnt st + 1"
proof -
  have "cnt (fst (save (env st) es v)) \<le> cnt st + 1" for es v
    using assms(1) [of "env st" es v] assms(2) [of st] by simp
  then show ?thesis
    using assms(3) by (auto simp: publishOnce_def split: sum.splits prod.splits option.splits) (metis fst_conv)+
qed

lemma publish_loop_saves:
  fixes cnt :: "'s \<Rightarrow> nat"
  assumes "\<And>st es v. cnt (fst (save st es v)) \<le> cnt st + 1" "\<And>i st. cnt (env i st) \<le> cnt st" "\<And>i st. cnt (wait i st) \<le> cnt st"
  shows "publish_loop load save env wait now stopped i n st p = (st', p', err) \<Longrightarrow> cnt st' \<le> cnt st + n"
proof (induction n arbitrary: i st p)
  case (Suc n)
  obtain st1 p1 e1 where o: "publishOnce load save (env i) (now i) st p = (st1, p1, e1)"
    by (cases "publishOnce load save (env i) (now i) st p")
  have 1: "cnt st1 \<le> cnt st + 1"
    by (rule publishOnce_saves [OF assms(1) assms(2) o])
  show ?case
  proof (cases "\<exists>e. e1 = Some e \<and> errors_Is e ErrConflict \<and> \<not> stopped i")
    case True
    then have "publish_loop load save env wait now stopped (Suc i) n (wait i st1) p1 = (st', p', err)"
      using Suc.prems o by auto
    from Suc.IH [OF this] 1 assms(3) [of i st1] show ?thesis
      by simp
  next
    case False
    then have "st' = st1"
      using Suc.prems o by (auto split: option.splits if_splits)
    with 1 show ?thesis
      by simp
  qed
qed simp

text \<open>
  C25 (publishing stops).  \<open>Publish\<close> returns after at most five saves, whatever the store, the
  other replicas and the clock do; it reports a conflict only when no attempt was ended by the
  context, and a publish that fails leaves the union the replica serves as it was.
\<close>

theorem publish_gives_up:
  fixes cnt :: "'s \<Rightarrow> nat"
  assumes "Publish load save env wait now stopped st p = (st', p', err)"
    and "\<And>st es v. cnt (fst (save st es v)) \<le> cnt st + 1"
    and "\<And>i st. cnt (env i st) \<le> cnt st" "\<And>i st. cnt (wait i st) \<le> cnt st"
  shows "cnt st' \<le> cnt st + 5
    \<and> (case err of
         None \<Rightarrow> True
       | Some e \<Rightarrow> p' = p \<and> (errors_Is e ErrConflict \<longrightarrow> (\<forall>k < 5. \<not> stopped k)))"
  using publish_loop_saves [of cnt save env wait, OF assms(2-4)] assms(1) publish_loop_error_keeps [of load save env wait now stopped 0 5 st p st' p']
    publish_loop_conflict [of load save env wait now stopped 0 5 st p st' p']
  unfolding Publish_def by (auto split: option.split)

theorem publish_gives_up_witness:
  "\<exists>e. Publish (\<lambda>st :: nat. Inr ([], [])) (\<lambda>st es v. (Suc st, Some (Error ErrConflict []))) (\<lambda>_. id) (\<lambda>_. id)
      (\<lambda>_. time_Unix 0) (\<lambda>_. False) 0 toy_published = (5, toy_published, Some e)
    \<and> errors_Is e ErrConflict"
proof -
  obtain nxt where "next_entries toy_published (time_Unix 0) [] = Inr nxt"
    using set_JWKS_spec [OF toy_set_ok, of "time_Unix 0"] by (auto simp: next_entries_def mineNow_def toy_published_def)
  then have o: "publishOnce (\<lambda>st :: nat. Inr ([], [])) (\<lambda>st es v. (Suc st, Some (Error ErrConflict []))) id (time_Unix 0) st toy_published
      = (Suc st, toy_published, Some (Error ErrConflict []))" for st
    by (simp add: publishOnce_def)
  then have run: "Publish (\<lambda>st :: nat. Inr ([], [])) (\<lambda>st es v. (Suc st, Some (Error ErrConflict []))) (\<lambda>_. id) (\<lambda>_. id)
      (\<lambda>_. time_Unix 0) (\<lambda>_. False) 0 toy_published
      = (5, toy_published, Some (Error ErrConflict ''publish gave up after 5 conflicts''))"
    by (simp add: Publish_def eval_nat_numeral)
  from publish_gives_up [OF run, of id] run show ?thesis
    by auto
qed

text \<open>
  A replica that cannot publish reports every attempt and goes on serving the union it last
  agreed on with the store.
\<close>

lemma run_report_failing:
  assumes "\<And>x st p st' p' err. x \<in> set xs \<Longrightarrow> publish x st p = (st', p', err) \<Longrightarrow> err \<noteq> None \<and> p' = p"
    and "fold (run_report publish) xs (st, p, errs) = (st', p', errs')"
  shows "p' = p \<and> length errs' = length errs + length xs"
  using assms
proof (induction xs arbitrary: st p errs)
  case (Cons x xs)
  obtain st1 p1 e where o: "publish x st p = (st1, p1, e)"
    by (cases "publish x st p")
  with Cons.prems(1) [of x st p st1 p1 e] obtain e' where e: "e = Some e'" "p1 = p"
    by auto
  have "run_report publish x (st, p, errs) = (st1, p, errs @ [e'])"
    by (simp add: run_report_def o e)
  with Cons.prems(2) have f: "fold (run_report publish) xs (st1, p, errs @ [e']) = (st', p', errs')"
    by simp
  have "err \<noteq> None \<and> b' = b" if "y \<in> set xs" "publish y a b = (a', b', err)" for y a b a' b' err
    using Cons.prems(1) [of y a b a' b' err] that by simp
  from Cons.IH [OF this f] show ?case
    by simp
qed simp

lemma failing_run_keeps_union:
  assumes "\<And>x st p. x \<in> set (first # ticks) \<Longrightarrow>
      snd (snd (Publish (load x) (save x) (env x) (wait x) (now x) (stopped x) st p)) \<noteq> None"
    and "pub_Run (\<lambda>x. Publish (load x) (save x) (env x) (wait x) (now x) (stopped x)) first ticks st p = (st', p', errs)"
  shows "p' = p \<and> length errs = Suc (length ticks)"
proof -
  have "err \<noteq> None \<and> b' = b"
    if "x \<in> set (first # ticks)" "Publish (load x) (save x) (env x) (wait x) (now x) (stopped x) a b = (a', b', err)"
    for x a b a' b' err
    using assms(1) [OF that(1), of a b] that(2)
    by (auto simp: Publish_def dest: publish_loop_error_keeps)
  from run_report_failing [OF this assms(2) [unfolded pub_Run_def]] show ?thesis
    by simp
qed

end
