(* ===== verification/K8sStore.thy ===== *)
theory K8sStore
  imports Published
begin

text \<open>
  \<open>k8sstore/k8sstore.go\<close>: the store kept in a Kubernetes ConfigMap.  The API server is the
  parameter \<open>srv\<close>: a request takes the state of the cluster to a new state and an outcome, a
  status code with a body or an error of the client.  \<open>api_contract\<close> states the documented
  behaviour the store relies on: a versioned cell with create and compare-and-swap.  Files read
  in the pod are the argument \<open>file\<close>.
\<close>

definition dataKey :: string where "dataKey = ''keys.json''"
definition tokenPath :: string where
  "tokenPath = ''/var/run/secrets/kubernetes.io/serviceaccount/token''"
definition caPath :: string where
  "caPath = ''/var/run/secrets/kubernetes.io/serviceaccount/ca.crt''"
definition nsPath :: string where
  "nsPath = ''/var/run/secrets/kubernetes.io/serviceaccount/namespace''"

record k8s_store =
  kc_Name :: string
  kc_Namespace :: string
  kc_Host :: string
  kc_Token :: string
  kc_TokenPath :: string

record request =
  rq_Method :: string
  rq_URL :: string
  rq_Body :: "bytes option"
  rq_Header :: "(string \<times> string) list"

type_synonym 's server = "'s \<Rightarrow> request \<Rightarrow> 's \<times> (int \<times> bytes) result"

definition bearer :: "(string \<Rightarrow> bytes option) \<Rightarrow> k8s_store \<Rightarrow> string result" where
  "bearer file s =
     (if kc_Token s \<noteq> [] then Inr (kc_Token s)
      else (case file (if kc_TokenPath s = [] then tokenPath else kc_TokenPath s) of
              None \<Rightarrow> Inl (Error ErrNotExist ''read service account token'')
            | Some b \<Rightarrow> Inr (TrimSpace b)))"

text \<open>\<open>env\<close> is \<open>os.Getenv\<close>; \<open>pem\<close> is \<open>AppendCertsFromPEM\<close>.\<close>

definition k8s_New :: "(string \<Rightarrow> bytes option) \<Rightarrow> (string \<Rightarrow> string) \<Rightarrow> (bytes \<Rightarrow> bool) \<Rightarrow> string \<Rightarrow> k8s_store result" where
  "k8s_New file env pem name =
     (if name = [] then Inl (Error Plain ''ConfigMap name is required'')
      else
        (case file nsPath of
           None \<Rightarrow> Inl (Error ErrNotExist ''read namespace'')
         | Some ns \<Rightarrow>
        (case file tokenPath of
           None \<Rightarrow> Inl (Error ErrNotExist ''read service account token'')
         | Some _ \<Rightarrow>
        (case file caPath of
           None \<Rightarrow> Inl (Error ErrNotExist ''read cluster CA'')
         | Some ca \<Rightarrow>
             if \<not> pem ca then Inl (Error Plain ''cluster CA is not valid PEM'')
             else
               (let h = env ''KUBERNETES_SERVICE_HOST'';
                    port = (if env ''KUBERNETES_SERVICE_PORT'' = [] then ''443'' else env ''KUBERNETES_SERVICE_PORT'');
                    host = (if h \<noteq> [] then ''https://'' @ h @ '':'' @ port else ''https://kubernetes.default.svc'')
                in Inr \<lparr>kc_Name = name, kc_Namespace = TrimSpace ns, kc_Host = host, kc_Token = [], kc_TokenPath = []\<rparr>)))))"

definition k8s_url :: "k8s_store \<Rightarrow> string" where
  "k8s_url s = kc_Host s @ ''/api/v1/namespaces/'' @ kc_Namespace s @ ''/configmaps/'' @ kc_Name s"

definition body_limit :: nat where "body_limit = 4194304"

definition k8s_do :: "(string \<Rightarrow> bytes option) \<Rightarrow> 's server \<Rightarrow> k8s_store \<Rightarrow> string \<Rightarrow> string \<Rightarrow> bytes option \<Rightarrow> string
   \<Rightarrow> 's \<Rightarrow> 's \<times> (int \<times> bytes) result" where
  "k8s_do file srv s method url body contentType st =
     (case bearer file s of
        Inl e \<Rightarrow> (st, Inl e)
      | Inr tok \<Rightarrow>
          (case srv st \<lparr>rq_Method = method, rq_URL = url, rq_Body = body,
                        rq_Header = [(''Authorization'', ''Bearer '' @ tok), (''Accept'', ''application/json'')]
                          @ (if contentType = [] then [] else [(''Content-Type'', contentType)])\<rparr> of
             (st', Inl e) \<Rightarrow> (st', Inl e)
           | (st', Inr (code, b)) \<Rightarrow> (st', Inr (code, take body_limit b))))"

record metadata =
  md_Name :: string
  md_Namespace :: string
  md_ResourceVersion :: string

record config_map =
  cm_Metadata :: metadata
  cm_Data :: "string \<rightharpoonup> string"

definition metadata_fields :: "metadata fields" where
  "metadata_fields =
     [fld ''name'' dec_string md_Name (\<lambda>x. md_Name_update (\<lambda>_. x)),
      fld ''namespace'' dec_string md_Namespace (\<lambda>x. md_Namespace_update (\<lambda>_. x)),
      fld ''resourceVersion'' dec_string md_ResourceVersion (\<lambda>x. md_ResourceVersion_update (\<lambda>_. x))]"

definition config_map_fields :: "config_map fields" where
  "config_map_fields =
     [fld ''metadata'' (dec_struct False metadata_fields) cm_Metadata (\<lambda>x. cm_Metadata_update (\<lambda>_. x)),
      fld ''data'' (dec_map dec_string []) cm_Data (\<lambda>x. cm_Data_update (\<lambda>_. x))]"

definition zero_config_map :: config_map where
  "zero_config_map = \<lparr>cm_Metadata = \<lparr>md_Name = [], md_Namespace = [], md_ResourceVersion = []\<rparr>, cm_Data = Map.empty\<rparr>"

definition parse_cm :: "bytes \<Rightarrow> config_map option" where
  "parse_cm b = Option.bind (json_Parse b) (\<lambda>j. dec_struct False config_map_fields j zero_config_map)"

definition opt_member :: "string \<Rightarrow> string \<Rightarrow> (string \<times> json) list" where
  "opt_member k v = (if v = [] then [] else [(k, JStr v)])"

text \<open>The ConfigMap \<open>Save\<close> sends: its data has the one key.\<close>

definition cm_doc :: "k8s_store \<Rightarrow> string \<Rightarrow> bytes \<Rightarrow> json" where
  "cm_doc s version payload =
     JObj [(''metadata'', JObj ((''name'', JStr (kc_Name s)) # opt_member ''namespace'' (kc_Namespace s)
                                @ opt_member ''resourceVersion'' version)),
           (''data'', JObj [(dataKey, JStr payload)])]"

definition summarize :: "bytes \<Rightarrow> string" where
  "summarize b =
     (let msg = (case Option.bind (json_Parse b) (\<lambda>j. dec_struct False [fld ''message'' dec_string id (\<lambda>x _. x)] j []) of
                   Some m \<Rightarrow> m | None \<Rightarrow> [])
      in if msg \<noteq> [] then msg else if length b > 200 then take 200 b @ ''...'' else b)"

text \<open>\<open>m dataKey\<close> of a Go map gives the empty string when the key is absent.\<close>

definition data_of :: "config_map \<Rightarrow> string" where
  "data_of cm = (case cm_Data cm dataKey of None \<Rightarrow> [] | Some d \<Rightarrow> d)"

definition k8s_Load :: "(string \<Rightarrow> bytes option) \<Rightarrow> (string \<Rightarrow> gotime option) \<Rightarrow> 's server \<Rightarrow> k8s_store \<Rightarrow> 's
   \<Rightarrow> (entry list \<times> string) result" where
  "k8s_Load file pt srv s st =
     (case snd (k8s_do file srv s ''GET'' (k8s_url s) None [] st) of
        Inl e \<Rightarrow> Inl (Error (err_sentinel e) ''load'')
      | Inr (code, body) \<Rightarrow>
          if code = 404 then Inr ([], [])
          else if code \<noteq> 200 then Inl (Error Plain (''load returned '' @ summarize body))
          else (case parse_cm body of
                  None \<Rightarrow> Inl (Error Plain ''parse ConfigMap'')
                | Some cm \<Rightarrow>
                    (case UnmarshalEntries pt (data_of cm) of
                       Inl e \<Rightarrow> Inl e
                     | Inr entries \<Rightarrow> Inr (entries, md_ResourceVersion (cm_Metadata cm)))))"

definition k8s_Save :: "(string \<Rightarrow> bytes option) \<Rightarrow> (gotime \<Rightarrow> string option) \<Rightarrow> 's server \<Rightarrow> k8s_store \<Rightarrow> 's
   \<Rightarrow> entry list \<Rightarrow> string \<Rightarrow> 's \<times> error option" where
  "k8s_Save file ft srv s st entries version =
     (case MarshalEntries ft entries of
        Inl e \<Rightarrow> (st, Some e)
      | Inr payload \<Rightarrow>
          (let body = json_Marshal (cm_doc s version payload);
               method = (if version = [] then ''POST'' else ''PUT'');
               url = (if version = [] then kc_Host s @ ''/api/v1/namespaces/'' @ kc_Namespace s @ ''/configmaps''
                      else k8s_url s)
           in case k8s_do file srv s method url (Some body) ''application/json'' st of
                (st', Inl e) \<Rightarrow> (st', Some (Error (err_sentinel e) ''save''))
              | (st', Inr (code, respBody)) \<Rightarrow>
                  if code = 200 \<or> code = 201 then (st', None)
                  else if code = 409 then (st', Some (Error ErrConflict []))
                  else (st', Some (Error Plain (''save returned '' @ summarize respBody)))))"

section \<open>Round trips\<close>

definition storable :: "(gotime \<Rightarrow> string option) \<Rightarrow> (string \<Rightarrow> gotime option) \<Rightarrow> entry list \<Rightarrow> bool" where
  "storable ft pt es \<longleftrightarrow>
     list_all (\<lambda>e. list_all valid_utf8 [e_Kid e, e_X e, e_Y e, e_Replica e]
       \<and> (case ft (e_Lease e) of None \<Rightarrow> False | Some t \<Rightarrow> valid_utf8 t \<and> pt t = Some (e_Lease e))) es"

lemma MarshalEntries_doc:
  assumes "MarshalEntries ft es = Inr b"
  obtains ds where "b = json_Marshal (JObj [(''entries'', JArr ds)])" "those (map (entry_doc ft) es) = Some ds"
    "ints_only (JArr ds)"
proof -
  obtain ds where d: "b = json_Marshal (JObj [(''entries'', JArr ds)])" "those (map (entry_doc ft) es) = Some ds"
    using assms by (auto simp: MarshalEntries_def split: option.splits)
  have "those (map (entry_doc ft) es) = Some ds \<Longrightarrow> list_all ints_only ds"
    by (induction es arbitrary: ds) (auto simp: entry_doc_def split: option.splits)
  with d that show thesis by simp
qed

lemma payload_valid: "MarshalEntries ft es = Inr b \<Longrightarrow> valid_utf8 b"
  by (erule MarshalEntries_doc) (simp add: json_Marshal_valid)

lemma entry_dec:
  "ft (e_Lease e) = Some t \<Longrightarrow> pt t = Some (e_Lease e) \<Longrightarrow>
     Option.bind (entry_doc ft e) (\<lambda>d. dec_struct False (entry_fields pt) d zero_entry) = Some e"
  by (simp add: entry_doc_def entry_fields_def field_of_def fld_def zero_entry_def)

lemma ascii_keys [simp]:
  "valid_utf8 ''kid''" "valid_utf8 ''x''" "valid_utf8 ''y''" "valid_utf8 ''replica''" "valid_utf8 ''lease''"
  "valid_utf8 ''entries''" "valid_utf8 ''metadata''" "valid_utf8 ''data''" "valid_utf8 ''name''"
  "valid_utf8 ''namespace''" "valid_utf8 ''resourceVersion''" "valid_utf8 dataKey"
  by (simp_all add: dataKey_def valid_utf8_ascii bv_def)

lemma entries_dec:
  assumes "storable ft pt es" "those (map (entry_doc ft) es) = Some ds"
  shows "list_all (wf_json (max_depth - 2)) ds
    \<and> dec_list (dec_struct False (entry_fields pt)) zero_entry ds [] = Some es"
  using assms
proof (induction es arbitrary: ds)
  case (Cons e es)
  from Cons.prems obtain t where t: "ft (e_Lease e) = Some t" "pt t = Some (e_Lease e)" "valid_utf8 t"
      and v: "list_all valid_utf8 [e_Kid e, e_X e, e_Y e, e_Replica e]" and es: "storable ft pt es"
    by (auto simp: storable_def split: option.splits)
  from Cons.prems(2) obtain d ds' where d: "entry_doc ft e = Some d" "ds = d # ds'"
      "those (map (entry_doc ft) es) = Some ds'"
    by (auto split: option.splits)
  have "wf_json (max_depth - 2) d"
    using d(1) t v by (auto simp: entry_doc_def max_depth_def)
  moreover have "dec_struct False (entry_fields pt) d zero_entry = Some e"
    using entry_dec [of ft e t pt, OF t(1,2)] d(1) by simp
  ultimately show ?case
    using Cons.IH [OF es d(3)] by (simp add: d(2))
qed simp

lemma entries_roundtrip:
  assumes "storable ft pt es" "MarshalEntries ft es = Inr b"
  shows "UnmarshalEntries pt b = Inr es"
proof -
  obtain ds where d: "b = json_Marshal (JObj [(''entries'', JArr ds)])" "those (map (entry_doc ft) es) = Some ds"
    using MarshalEntries_doc [OF assms(2)] by metis
  note e = entries_dec [OF assms(1) d(2)]
  have "wf_json max_depth (JObj [(''entries'', JArr ds)])"
    using e by (simp add: max_depth_def)
  then have p: "json_Parse b = Some (JObj [(''entries'', JArr ds)])"
    unfolding d(1) by (rule json_Parse_Marshal)
  have "b \<noteq> []"
    by (simp add: d(1) json_Marshal_def)
  with e p show ?thesis
    by (simp add: UnmarshalEntries_def field_of_def fld_def)
qed

definition store_ok :: "k8s_store \<Rightarrow> bool" where
  "store_ok s \<longleftrightarrow> valid_utf8 (kc_Name s) \<and> valid_utf8 (kc_Namespace s)"

lemma cm_roundtrip:
  assumes "store_ok s" "valid_utf8 version" "valid_utf8 payload"
  shows "parse_cm (json_Marshal (cm_doc s version payload)) =
    Some \<lparr>cm_Metadata = \<lparr>md_Name = kc_Name s, md_Namespace = kc_Namespace s, md_ResourceVersion = version\<rparr>,
          cm_Data = [dataKey \<mapsto> payload]\<rparr>"
proof -
  have "wf_json max_depth (cm_doc s version payload)"
    using assms by (auto simp: cm_doc_def opt_member_def store_ok_def max_depth_def)
  then show ?thesis
    by (auto simp: parse_cm_def json_Parse_Marshal cm_doc_def config_map_fields_def metadata_fields_def
        field_of_def fld_def zero_config_map_def opt_member_def)
qed

section \<open>The API server\<close>

text \<open>
  The behaviour the store relies on.  \<open>view\<close> is the ConfigMap as the server has it: the value
  under the data key and its resource version; \<open>reach s0 s\<close> says the server can be in state
  \<open>s\<close> after \<open>s0\<close>.  A read leaves the server alone and reports the view; a create succeeds
  only when there is no ConfigMap, an update only at the version it names; a version is never
  used for two contents.
\<close>

definition api_get :: "'s server \<Rightarrow> k8s_store \<Rightarrow> ('s \<Rightarrow> (string \<times> string) option) \<Rightarrow> bool" where
  "api_get srv s view \<longleftrightarrow>
     (\<forall>st h. case snd (srv st \<lparr>rq_Method = ''GET'', rq_URL = k8s_url s, rq_Body = None, rq_Header = h\<rparr>) of
        Inl _ \<Rightarrow> True
      | Inr (code, b) \<Rightarrow>
          (code = 404 \<longrightarrow> view st = None)
          \<and> (code = 200 \<longrightarrow> length b \<le> body_limit \<and>
               (case parse_cm b of
                  None \<Rightarrow> False
                | Some cm \<Rightarrow> md_ResourceVersion (cm_Metadata cm) \<noteq> [] \<and> valid_utf8 (md_ResourceVersion (cm_Metadata cm))
                    \<and> view st = Some (data_of cm, md_ResourceVersion (cm_Metadata cm)))))"

definition api_post :: "'s server \<Rightarrow> k8s_store \<Rightarrow> ('s \<Rightarrow> (string \<times> string) option) \<Rightarrow> bool" where
  "api_post srv s view \<longleftrightarrow>
     (\<forall>st h st' code b cm body.
        srv st \<lparr>rq_Method = ''POST'', rq_URL = kc_Host s @ ''/api/v1/namespaces/'' @ kc_Namespace s @ ''/configmaps'',
               rq_Body = Some body, rq_Header = h\<rparr> = (st', Inr (code, b)) \<longrightarrow>
        parse_cm body = Some cm \<longrightarrow> code = 200 \<or> code = 201 \<longrightarrow>
        view st = None \<and> map_option fst (view st') = Some (data_of cm))"

definition api_put :: "'s server \<Rightarrow> k8s_store \<Rightarrow> ('s \<Rightarrow> (string \<times> string) option) \<Rightarrow> bool" where
  "api_put srv s view \<longleftrightarrow>
     (\<forall>st h st' code b cm body.
        srv st \<lparr>rq_Method = ''PUT'', rq_URL = k8s_url s, rq_Body = Some body, rq_Header = h\<rparr> = (st', Inr (code, b)) \<longrightarrow>
        parse_cm body = Some cm \<longrightarrow> code = 200 \<or> code = 201 \<longrightarrow>
        map_option snd (view st) = Some (md_ResourceVersion (cm_Metadata cm))
        \<and> map_option fst (view st') = Some (data_of cm))"

definition api_contract :: "'s server \<Rightarrow> k8s_store \<Rightarrow> ('s \<Rightarrow> (string \<times> string) option) \<Rightarrow> ('s \<Rightarrow> 's \<Rightarrow> bool) \<Rightarrow> bool" where
  "api_contract srv s view reach \<longleftrightarrow> store_ok s \<and> api_get srv s view \<and> api_post srv s view \<and> api_put srv s view
     \<and> (\<forall>s0 s d d' v. reach s0 s \<longrightarrow> view s0 = Some (d, v) \<longrightarrow> view s = Some (d', v) \<longrightarrow> d' = d)"

definition k8s_contents :: "(string \<Rightarrow> gotime option) \<Rightarrow> ('s \<Rightarrow> (string \<times> string) option) \<Rightarrow> 's \<Rightarrow> entry list option" where
  "k8s_contents pt view st =
     (case view st of
        None \<Rightarrow> Some []
      | Some (d, _) \<Rightarrow> (case UnmarshalEntries pt d of Inl _ \<Rightarrow> None | Inr es \<Rightarrow> Some es))"

lemma k8s_Load_Inr:
  assumes "api_get srv s view" "k8s_Load file pt srv s st = Inr (es, v)"
  shows "(v = [] \<and> es = [] \<and> view st = None)
    \<or> (v \<noteq> [] \<and> valid_utf8 v \<and> (\<exists>d. view st = Some (d, v) \<and> UnmarshalEntries pt d = Inr es))"
proof -
  from assms(2) obtain tok st' code b
    where do: "srv st \<lparr>rq_Method = ''GET'', rq_URL = k8s_url s, rq_Body = None,
        rq_Header = [(''Authorization'', ''Bearer '' @ tok), (''Accept'', ''application/json'')]\<rparr> = (st', Inr (code, b))"
    and r: "(code = 404 \<and> es = [] \<and> v = []) \<or> (code = 200 \<and> (\<exists>cm. parse_cm (take body_limit b) = Some cm
        \<and> UnmarshalEntries pt (data_of cm) = Inr es \<and> v = md_ResourceVersion (cm_Metadata cm)))"
    by (auto simp: k8s_Load_def k8s_do_def split: sum.splits prod.splits if_splits option.splits)
  note assms(1) [unfolded api_get_def, rule_format, of st
      "[(''Authorization'', ''Bearer '' @ tok), (''Accept'', ''application/json'')]", unfolded do snd_conv sum.case prod.case]
  with r show ?thesis
    by (auto split: option.splits)
qed

lemma k8s_Save_None:
  assumes "api_contract srv s view reach" "k8s_Save file ft srv s st es v = (st', None)" "valid_utf8 v"
  obtains b where "MarshalEntries ft es = Inr b" "map_option fst (view st') = Some b"
    "if v = [] then view st = None else map_option snd (view st) = Some v"
proof -
  from assms(2) obtain b tok code rb where m: "MarshalEntries ft es = Inr b" and code: "code = 200 \<or> code = 201"
    and do: "srv st \<lparr>rq_Method = (if v = [] then ''POST'' else ''PUT''),
        rq_URL = (if v = [] then kc_Host s @ ''/api/v1/namespaces/'' @ kc_Namespace s @ ''/configmaps'' else k8s_url s),
        rq_Body = Some (json_Marshal (cm_doc s v b)),
        rq_Header = [(''Authorization'', ''Bearer '' @ tok), (''Accept'', ''application/json''),
           (''Content-Type'', ''application/json'')]\<rparr> = (st', Inr (code, rb))"
    by (auto simp: k8s_Save_def k8s_do_def Let_def split: sum.splits prod.splits if_splits)
  let ?cm = "\<lparr>cm_Metadata = \<lparr>md_Name = kc_Name s, md_Namespace = kc_Namespace s, md_ResourceVersion = v\<rparr>,
          cm_Data = [dataKey \<mapsto> b]\<rparr>"
  have p: "parse_cm (json_Marshal (cm_doc s v b)) = Some ?cm"
    using assms(1,3) payload_valid [OF m] by (intro cm_roundtrip) (auto simp: api_contract_def)
  have d: "data_of ?cm = b" "md_ResourceVersion (cm_Metadata ?cm) = v"
    by (simp_all add: data_of_def)
  show thesis
  proof (cases "v = []")
    case True
    have "api_post srv s view"
      using assms(1) by (simp add: api_contract_def)
    note post = this [unfolded api_post_def, rule_format, OF _ p code]
    from do True have "view st = None \<and> map_option fst (view st') = Some (data_of ?cm)"
      by (intro post) simp
    with True m that d(1) show thesis
      by simp
  next
    case False
    have "api_put srv s view"
      using assms(1) by (simp add: api_contract_def)
    note put = this [unfolded api_put_def, rule_format, OF _ p code]
    from do False have "map_option snd (view st) = Some (md_ResourceVersion (cm_Metadata ?cm))
        \<and> map_option fst (view st') = Some (data_of ?cm)"
      by (intro put) simp
    with False m that d show thesis
      by simp
  qed
qed

interpretation k8s: entry_store "k8s_Load files pt srv s" "k8s_Save files ft srv s" "k8s_contents pt view" reach
  "storable ft pt" "api_contract srv s view reach"
  for files ft pt srv s view reach
proof
  fix st es v
  assume c: "api_contract srv s view reach" and l: "k8s_Load files pt srv s st = Inr (es, v)"
  then have "api_get srv s view"
    by (simp add: api_contract_def)
  from k8s_Load_Inr [OF this l] show "k8s_contents pt view st = Some es"
    by (auto simp: k8s_contents_def)
next
  fix s0 es0 v st es st'
  assume c: "api_contract srv s view reach" and l: "k8s_Load files pt srv s s0 = Inr (es0, v)"
    and r: "reach s0 st" and sv: "k8s_Save files ft srv s st es v = (st', None)"
  then have "api_get srv s view"
    by (simp add: api_contract_def)
  note ld = k8s_Load_Inr [OF this l]
  then have "valid_utf8 v"
    by auto
  then obtain w: "if v = [] then view st = None else map_option snd (view st) = Some v"
    using k8s_Save_None [OF c sv] by metis
  show "k8s_contents pt view st = Some es0"
  proof (cases "v = []")
    case True
    with w ld show ?thesis
      by (simp add: k8s_contents_def)
  next
    case False
    with ld obtain d where d: "view s0 = Some (d, v)" "UnmarshalEntries pt d = Inr es0"
      by blast
    from False w obtain d' where d': "view st = Some (d', v)"
      by auto
    have "\<forall>s0 s d d' v. reach s0 s \<longrightarrow> view s0 = Some (d, v) \<longrightarrow> view s = Some (d', v) \<longrightarrow> d' = d"
      using c unfolding api_contract_def by (elim conjE) assumption
    from this [rule_format, OF r d(1) d'] d d' show ?thesis
      by (simp add: k8s_contents_def)
  qed
next
  fix s0 es0 v es st st'
  assume c: "api_contract srv s view reach" and l: "k8s_Load files pt srv s s0 = Inr (es0, v)"
    and st: "storable ft pt es" and sv: "k8s_Save files ft srv s st es v = (st', None)"
  from c have "api_get srv s view"
    by (simp add: api_contract_def)
  from k8s_Load_Inr [OF this l] have "valid_utf8 v"
    by auto
  obtain b where b: "MarshalEntries ft es = Inr b" "map_option fst (view st') = Some b"
    by (rule k8s_Save_None [OF c sv \<open>valid_utf8 v\<close>])
  then obtain rv where "view st' = Some (b, rv)"
    by auto
  with entries_roundtrip [OF st b(1)] show "k8s_contents pt view st' = Some es"
    by (simp add: k8s_contents_def)
qed

section \<open>Properties\<close>

text \<open>
  C19 (publishing loses no update).  When a replica's publish to the ConfigMap succeeds, the
  entries it leaves are its own current ones together with every entry of another replica that
  was in the store at the moment of the write and has not lapsed, whatever the other replicas
  wrote since it read; nothing else is added and none of its own old entries stays.
\<close>

theorem publish_loses_no_update:
  assumes "api_contract srv s view reach"
    and "publishOnce (k8s_Load files pt srv s) (k8s_Save files ft srv s) env now st p = (st', p', None)"
    and "reach st (env st)"
    and "\<forall>stored nxt. k8s_contents pt view st = Some stored \<longrightarrow> next_entries p now stored = Inr nxt \<longrightarrow> storable ft pt nxt"
  shows "\<exists>before after mine. k8s_contents pt view (env st) = Some before
    \<and> k8s_contents pt view st' = Some after \<and> p_merged p' = after \<and> mineNow p now = Inr mine
    \<and> set after = {e \<in> set before. e_Replica e \<noteq> p_replica p \<and> \<not> lapsed p now e} \<union> set mine
    \<and> {e \<in> set after. e_Replica e = p_replica p} = set mine"
proof -
  obtain stored nxt where n: "k8s_contents pt view st = Some stored" "k8s_contents pt view (env st) = Some stored"
      "next_entries p now stored = Inr nxt" "p' = p\<lparr>p_merged := nxt\<rparr>"
      "storable ft pt nxt \<Longrightarrow> k8s_contents pt view st' = Some nxt"
    using k8s.publishOnce_saved [OF assms(1-3)] by blast
  obtain mine where m: "mineNow p now = Inr mine"
      "set nxt = {e \<in> set stored. e_Replica e \<noteq> p_replica p \<and> \<not> lapsed p now e} \<union> set mine"
    using next_entries_set [OF n(3)] by metis
  moreover have "\<forall>e \<in> set mine. e_Replica e = p_replica p"
    using m(1) by (auto simp: mineNow_def split: sum.splits)
  ultimately have "{e \<in> set nxt. e_Replica e = p_replica p} = set mine"
    by auto
  moreover have "k8s_contents pt view st' = Some nxt"
    using assms(4) n by blast
  ultimately show ?thesis
    using n(2,4) m by (intro exI [of _ stored] exI [of _ nxt] exI [of _ mine]) simp
qed

text \<open>A server for the witness: a cell with a version counter.\<close>

type_synonym toy_cell = "(string \<times> nat) option"

definition toy_k8s :: k8s_store where
  "toy_k8s = \<lparr>kc_Name = ''k'', kc_Namespace = ''n'', kc_Host = ''h'', kc_Token = ''t'', kc_TokenPath = []\<rparr>"

definition toy_server :: "toy_cell server" where
  "toy_server st rq =
     (if rq_Method rq = ''GET'' then
        (case st of
           None \<Rightarrow> (st, Inr (404, []))
         | Some (d, n) \<Rightarrow>
             (let b = json_Marshal (cm_doc toy_k8s (dec_digits n) d)
              in if valid_utf8 d \<and> length b \<le> body_limit then (st, Inr (200, b)) else (st, Inr (500, []))))
      else
        (case Option.bind (rq_Body rq) parse_cm of
           None \<Rightarrow> (st, Inr (400, []))
         | Some cm \<Rightarrow>
             if rq_Method rq = ''POST'' then
               (case st of None \<Rightarrow> (Some (data_of cm, 1), Inr (201, [])) | Some _ \<Rightarrow> (st, Inr (409, [])))
             else
               (case st of
                  None \<Rightarrow> (st, Inr (404, []))
                | Some (d, n) \<Rightarrow>
                    if md_ResourceVersion (cm_Metadata cm) = dec_digits n
                    then (Some (data_of cm, Suc n), Inr (200, [])) else (st, Inr (409, [])))))"

definition toy_view :: "toy_cell \<Rightarrow> (string \<times> string) option" where
  "toy_view = map_option (\<lambda>(d, n). (d, dec_digits n))"

definition toy_reach :: "toy_cell \<Rightarrow> toy_cell \<Rightarrow> bool" where
  "toy_reach s0 s \<longleftrightarrow> (map_option snd s = map_option snd s0 \<longrightarrow> s = s0)"

lemma dec_digits_valid: "valid_utf8 (dec_digits n)"
  using Itoa_valid [of "int n"] by (simp add: Itoa_def)

lemma toy_api: "api_contract toy_server toy_k8s toy_view toy_reach"
proof -
  have ok: "store_ok toy_k8s"
    by (simp add: store_ok_def toy_k8s_def valid_utf8_ascii bv_def)
  have "api_get toy_server toy_k8s toy_view"
    using cm_roundtrip [OF ok dec_digits_valid]
    by (auto simp: api_get_def toy_server_def toy_view_def data_of_def Let_def dec_digits_valid
        split: option.splits)
  moreover have "api_post toy_server toy_k8s toy_view" "api_put toy_server toy_k8s toy_view"
    by (auto simp: api_post_def api_put_def toy_server_def toy_view_def split: option.splits if_splits)
  ultimately show ?thesis
    using ok by (auto simp: api_contract_def toy_reach_def toy_view_def dec_digits_inj)
qed

lemma toy_mine: "\<exists>j :: jwk. mineNow toy_published now = Inr [\<lparr>e_Kid = toy_kid, e_X = j_X j, e_Y = j_Y j,
    e_Replica = ''r1'', e_Lease = time_Add now (2 * Minute)\<rparr>] \<and> valid_utf8 (j_X j) \<and> valid_utf8 (j_Y j)"
proof -
  obtain j where "jwkOf (sk_Public toy_key) toy_kid = Inr j" "j_Kid j = toy_kid"
      "valid_utf8 (j_X j)" "valid_utf8 (j_Y j)"
    using jwkOf_Inr [OF toy_key_valid, of toy_kid] by simp
  then show ?thesis
    by (intro exI [of _ j]) (simp add: mineNow_def toy_published_def set_JWKS_def live_keys_def toy_set_def)
qed

theorem publish_loses_no_update_witness:
  "\<exists>st' p'. publishOnce (k8s_Load (\<lambda>_. None) (\<lambda>_. Some (time_Unix 120)) toy_server toy_k8s)
        (k8s_Save (\<lambda>_. None) (\<lambda>_. Some ''t'') toy_server toy_k8s) id (time_Unix 0) None toy_published = (st', p', None)
     \<and> k8s_contents (\<lambda>_. Some (time_Unix 120)) toy_view st' = Some (p_merged p')"
proof -
  let ?pt = "\<lambda>_ :: string. Some (time_Unix 120)" and ?ft = "\<lambda>_ :: gotime. Some ''t''"
  obtain j :: jwk where mine: "mineNow toy_published (time_Unix 0) = Inr [\<lparr>e_Kid = toy_kid, e_X = j_X j, e_Y = j_Y j,
      e_Replica = ''r1'', e_Lease = time_Add (time_Unix 0) (2 * Minute)\<rparr>]" (is "_ = Inr [?e]")
    and v: "valid_utf8 (j_X j)" "valid_utf8 (j_Y j)"
    using toy_mine by blast
  have nxt: "next_entries toy_published (time_Unix 0) [] = Inr [?e]"
    by (simp add: next_entries_def mine)
  have "valid_utf8 toy_kid"
    using thumbprint_Inr [OF toy_key_valid, of toy_crypto] toy_kid by (metis b64_valid_utf8 sum.inject(2))
  moreover have "time_Add (time_Unix 0) (2 * Minute) = time_Unix 120"
    by code_simp
  ultimately have store: "storable ?ft ?pt [?e]"
    using v by (simp add: storable_def valid_utf8_ascii bv_def)
  obtain b where b: "MarshalEntries ?ft [?e] = Inr b"
    by (simp add: MarshalEntries_def entry_doc_def)
  have load: "k8s_Load (\<lambda>_. None) ?pt toy_server toy_k8s None = Inr ([], [])"
    by (simp add: k8s_Load_def k8s_do_def bearer_def toy_k8s_def toy_server_def)
  have "store_ok toy_k8s"
    using toy_api by (simp add: api_contract_def)
  from cm_roundtrip [OF this _ payload_valid [OF b], of "[]"]
  have p: "k8s_do (\<lambda>_. None) toy_server toy_k8s ''POST''
      (kc_Host toy_k8s @ ''/api/v1/namespaces/'' @ kc_Namespace toy_k8s @ ''/configmaps'')
      (Some (json_Marshal (cm_doc toy_k8s [] b))) ''application/json'' None = (Some (b, 1), Inr (201, []))"
    by (simp add: k8s_do_def bearer_def toy_server_def data_of_def) (simp add: toy_k8s_def)
  then have save: "k8s_Save (\<lambda>_. None) ?ft toy_server toy_k8s None [?e] [] = (Some (b, 1), None)"
    unfolding k8s_Save_def b by (simp add: Let_def)
  have run: "publishOnce (k8s_Load (\<lambda>_. None) ?pt toy_server toy_k8s) (k8s_Save (\<lambda>_. None) ?ft toy_server toy_k8s)
      id (time_Unix 0) None toy_published = (Some (b, 1), toy_published\<lparr>p_merged := [?e]\<rparr>, None)"
    unfolding publishOnce_def load using nxt save by simp
  have "\<forall>stored nxt'. k8s_contents ?pt toy_view None = Some stored \<longrightarrow>
      next_entries toy_published (time_Unix 0) stored = Inr nxt' \<longrightarrow> storable ?ft ?pt nxt'"
    using nxt store by (simp add: k8s_contents_def toy_view_def)
  from publish_loses_no_update [OF toy_api run _ this] run show ?thesis
    by (auto simp: toy_reach_def)
qed

end
