(* ===== verification/Tenancy.thy ===== *)
theory Tenancy
  imports Prelude
begin

text \<open>
  \<open>identity.go\<close> and \<open>tenant.go\<close>: the verified identity, tenants, the grant (the whole
  authorization decision for one identity), and the resolvers that turn one into the other.
  The interface \<open>TenantResolver\<close> is the locale \<open>tenant_resolver\<close>: a resolver never grants a
  role its own rules do not entitle the identity to ("a resolver must fail closed").
\<close>

section \<open>identity.go\<close>

record identity =
  id_Subject :: string
  id_Login :: string
  id_DisplayName :: string
  id_Groups :: "string list"
  id_Node :: string
  id_Attributes :: "string \<rightharpoonup> string list"

text \<open>A Go \<open>error\<close> result: \<open>None\<close> is \<open>nil\<close>.\<close>

definition identity_Valid :: "identity \<Rightarrow> error option" where
  "identity_Valid i =
     (if blank (id_Subject i) then Some (Error ErrNoIdentity ''subject is empty'') else None)"

fun has_member :: "string list \<Rightarrow> string \<Rightarrow> bool" where
  "has_member [] name = False"
| "has_member (g # gs) name = (if g = name then True else has_member gs name)"

lemma has_member_iff [simp]: "has_member xs x \<longleftrightarrow> x \<in> set xs"
  by (induction xs) auto

definition HasGroup :: "identity \<Rightarrow> string \<Rightarrow> bool" where
  "HasGroup i name = has_member (id_Groups i) name"

section \<open>tenant.go\<close>

record tenant =
  t_ID :: string
  t_Name :: string
  t_Roles :: "string list"

record grant =
  g_Tenants :: "tenant list"
  g_Default :: string

definition empty_grant :: grant where
  "empty_grant = \<lparr>g_Tenants = [], g_Default = []\<rparr>"

definition lower_alnum :: "char \<Rightarrow> bool" where
  "lower_alnum c \<longleftrightarrow>
     (let n = (of_char c :: nat) in (97 \<le> n \<and> n \<le> 122) \<or> (48 \<le> n \<and> n \<le> 57))"

definition id_inner :: "char \<Rightarrow> bool" where
  "id_inner c \<longleftrightarrow> lower_alnum c \<or> c = CHR ''.'' \<or> c = CHR ''_'' \<or> c = CHR ''-''"

text \<open>\<^verbatim>\<open>^[a-z0-9][a-z0-9._-]{0,62}[a-z0-9]$|^[a-z0-9]$\<close>\<close>

definition tenantIDPattern :: "string \<Rightarrow> bool" where
  "tenantIDPattern s \<longleftrightarrow>
     (case s of [] \<Rightarrow> False
      | [c] \<Rightarrow> lower_alnum c
      | c # d # cs \<Rightarrow> length s \<le> 64 \<and> lower_alnum c \<and> lower_alnum (last (d # cs))
                     \<and> list_all id_inner (butlast (d # cs)))"

definition tenant_Valid :: "tenant \<Rightarrow> error option" where
  "tenant_Valid t =
     (if \<not> tenantIDPattern (t_ID t) then Some (Error ErrNoTenant ''tenant id is not a valid id'')
      else if list_ex blank (t_Roles t) then Some (Error ErrNoTenant ''tenant has an empty role'')
      else None)"

definition tenant_HasRole :: "tenant \<Rightarrow> string \<Rightarrow> bool" where
  "tenant_HasRole t name = has_member (t_Roles t) name"

definition grant_Tenant :: "grant \<Rightarrow> string \<Rightarrow> tenant option" where
  "grant_Tenant g tid = find (\<lambda>t. t_ID t = tid) (g_Tenants g)"

definition grant_IDs :: "grant \<Rightarrow> string list" where
  "grant_IDs g = sort (map t_ID (g_Tenants g))"

text \<open>The loop of \<open>Grant.Valid\<close>, with the \<open>seen\<close> map's keys as accumulator.\<close>

fun grant_Valid_loop :: "string list \<Rightarrow> tenant list \<Rightarrow> error option" where
  "grant_Valid_loop seen [] = None"
| "grant_Valid_loop seen (t # ts) =
     (case tenant_Valid t of
        Some e \<Rightarrow> Some e
      | None \<Rightarrow>
          if t_ID t \<in> set seen then Some (Error ErrNoTenant ''tenant appears twice'')
          else grant_Valid_loop (t_ID t # seen) ts)"

definition grant_Valid :: "grant \<Rightarrow> error option" where
  "grant_Valid g =
     (case grant_Valid_loop [] (g_Tenants g) of
        Some e \<Rightarrow> Some e
      | None \<Rightarrow>
          if g_Default g \<noteq> [] \<and> g_Default g \<notin> set (map t_ID (g_Tenants g))
          then Some (Error ErrNoTenant ''default tenant is not in the grant'')
          else None)"

definition StaticGrant :: "grant \<Rightarrow> identity \<Rightarrow> grant result" where
  "StaticGrant g i = Inr g"

text \<open>
  The role loop that \<open>GroupTenantResolver.Resolve\<close> and the policy resolver share: every
  group is looked up, each role is kept once, in the order of the groups.
\<close>

fun collect_roles :: "(string \<rightharpoonup> string) \<Rightarrow> string list \<Rightarrow> string list \<Rightarrow> string list" where
  "collect_roles m seen [] = []"
| "collect_roles m seen (g # gs) =
     (case m g of
        None \<Rightarrow> collect_roles m seen gs
      | Some role \<Rightarrow>
          if role \<in> set seen then collect_roles m seen gs
          else role # collect_roles m (role # seen) gs)"

record group_resolver =
  gr_Tenant :: tenant
  gr_Roles :: "string \<rightharpoonup> string"
  gr_DefaultRole :: string

definition group_Resolve :: "group_resolver \<Rightarrow> identity \<Rightarrow> grant result" where
  "group_Resolve r i =
     (case tenant_Valid (gr_Tenant r) of
        Some e \<Rightarrow> Inl e
      | None \<Rightarrow>
          let roles = collect_roles (gr_Roles r) [] (id_Groups i)
          in if roles = [] \<and> gr_DefaultRole r = [] then Inr empty_grant
             else let roles' = (if roles = [] then [gr_DefaultRole r] else roles);
                      t = (gr_Tenant r)\<lparr>t_Roles := sort roles'\<rparr>
                  in Inr \<lparr>g_Tenants = [t], g_Default = t_ID t\<rparr>)"

section \<open>Lemmas\<close>

lemma collect_roles_eq:
  "collect_roles m seen gs = dedup_onto seen (List.map_filter m gs)"
  by (induction m seen gs rule: collect_roles.induct)
    (auto simp: List.map_filter_simps split: option.splits)

lemma set_collect_roles: "set (collect_roles m [] gs) = {r. \<exists>g \<in> set gs. m g = Some r}"
  by (auto simp: collect_roles_eq set_dedup_onto List.map_filter_def) force

lemma collect_roles_Nil: "collect_roles m [] gs = [] \<longleftrightarrow> (\<forall>g \<in> set gs. m g = None)"
proof -
  have "collect_roles m [] gs = [] \<longleftrightarrow> set (collect_roles m [] gs) = {}" by simp
  then show ?thesis by (auto simp: set_collect_roles) (metis option.exhaust)
qed

lemma distinct_collect_roles: "distinct (collect_roles m [] gs)"
  by (simp add: collect_roles_eq distinct_dedup_onto)

lemma tenant_Valid_None:
  "tenant_Valid t = None \<longleftrightarrow> tenantIDPattern (t_ID t) \<and> (\<forall>r \<in> set (t_Roles t). \<not> blank r)"
  by (auto simp: tenant_Valid_def list_ex_iff)

lemma tenantIDPattern_nonempty: "tenantIDPattern s \<Longrightarrow> s \<noteq> []"
  by (auto simp: tenantIDPattern_def)

lemma grant_Valid_loop_None:
  "grant_Valid_loop seen ts = None \<longleftrightarrow>
     (\<forall>t \<in> set ts. tenant_Valid t = None) \<and> distinct (map t_ID ts)
     \<and> set (map t_ID ts) \<inter> set seen = {}"
  by (induction seen ts rule: grant_Valid_loop.induct) (auto split: option.splits)

lemma grant_Valid_loop_sentinel:
  "grant_Valid_loop seen ts = Some e \<Longrightarrow> errors_Is e ErrNoTenant"
  by (induction seen ts rule: grant_Valid_loop.induct)
    (auto simp: tenant_Valid_def split: option.splits if_splits)

lemma grant_Valid_None:
  "grant_Valid g = None \<longleftrightarrow>
     (\<forall>t \<in> set (g_Tenants g). tenant_Valid t = None) \<and> distinct (map t_ID (g_Tenants g))
     \<and> (g_Default g = [] \<or> g_Default g \<in> t_ID ` set (g_Tenants g))"
  using grant_Valid_loop_None [of "[]" "g_Tenants g"]
  by (cases "grant_Valid_loop [] (g_Tenants g)") (auto simp: grant_Valid_def)

lemma grant_Valid_sentinel: "grant_Valid g = Some e \<Longrightarrow> errors_Is e ErrNoTenant"
  by (auto simp: grant_Valid_def grant_Valid_loop_sentinel split: option.splits if_splits)

lemma grant_Tenant_Some:
  "grant_Tenant g tid = Some t \<Longrightarrow> t \<in> set (g_Tenants g) \<and> t_ID t = tid"
  by (auto simp: grant_Tenant_def dest: find_first_Some)

lemma grant_Tenant_None: "grant_Tenant g tid = None \<longleftrightarrow> tid \<notin> t_ID ` set (g_Tenants g)"
  by (auto simp: grant_Tenant_def find_None_iff)

lemma set_grant_IDs [simp]: "set (grant_IDs g) = t_ID ` set (g_Tenants g)"
  by (simp add: grant_IDs_def)

section \<open>The interface TenantResolver\<close>

text \<open>
  \<open>entitled i tid r\<close> is the resolver's own rule: identity \<open>i\<close> may hold role \<open>r\<close> in the tenant
  with id \<open>tid\<close>.  The law is the comment of the interface: on any doubt an error or an
  empty grant, never a broader one.
\<close>

locale tenant_resolver =
  fixes resolve :: "identity \<Rightarrow> grant result"
    and entitled :: "identity \<Rightarrow> string \<Rightarrow> string \<Rightarrow> bool"
  assumes resolve_entitled:
    "resolve i = Inr g \<Longrightarrow> t \<in> set (g_Tenants g) \<Longrightarrow> r \<in> set (t_Roles t) \<Longrightarrow> entitled i (t_ID t) r"
begin

lemma lookup_entitled:
  assumes "resolve i = Inr g" "grant_Tenant g tid = Some t" "r \<in> set (t_Roles t)"
  shows "entitled i tid r"
proof -
  from assms(2) have "t \<in> set (g_Tenants g)" "t_ID t = tid"
    by (auto dest: grant_Tenant_Some)
  with assms show ?thesis
    using resolve_entitled by blast
qed

end

definition group_entitles :: "group_resolver \<Rightarrow> identity \<Rightarrow> string \<Rightarrow> string \<Rightarrow> bool" where
  "group_entitles r i tid role \<longleftrightarrow> tid = t_ID (gr_Tenant r) \<and>
     ((\<exists>g \<in> set (id_Groups i). gr_Roles r g = Some role)
      \<or> (role = gr_DefaultRole r \<and> role \<noteq> [] \<and> (\<forall>g \<in> set (id_Groups i). gr_Roles r g = None)))"

lemma group_Resolve_cases:
  "group_Resolve r i = Inr g \<Longrightarrow> g = empty_grant \<or>
     (\<exists>t. g = \<lparr>g_Tenants = [t], g_Default = t_ID (gr_Tenant r)\<rparr> \<and> t_ID t = t_ID (gr_Tenant r)
        \<and> t_Name t = t_Name (gr_Tenant r) \<and> t_Roles t \<noteq> [] \<and> sorted (t_Roles t) \<and> distinct (t_Roles t)
        \<and> set (t_Roles t) = {role. group_entitles r i (t_ID t) role})"
  by (auto simp: group_Resolve_def Let_def collect_roles_Nil set_collect_roles
        distinct_collect_roles group_entitles_def split: option.splits if_splits)

interpretation group_res: tenant_resolver "group_Resolve r" "group_entitles r" for r
  by unfold_locales (auto dest!: group_Resolve_cases simp: empty_grant_def)

interpretation static_res: tenant_resolver "StaticGrant g"
  "\<lambda>i tid r. \<exists>t \<in> set (g_Tenants g). t_ID t = tid \<and> r \<in> set (t_Roles t)" for g
  by unfold_locales (auto simp: StaticGrant_def)

section \<open>Properties\<close>

text \<open>
  Grant validity.  \<open>Grant.Valid\<close> accepts a grant exactly when every tenant has a
  well-formed id and no blank role, no id appears twice and the default, if any, is one of the
  tenants; every refusal matches \<open>ErrNoTenant\<close>, and in a valid grant \<open>Grant.Tenant\<close> finds
  each tenant by its id.
\<close>

theorem grant_Valid_exactly:
  "(grant_Valid g = None \<longleftrightarrow>
      (list_all (\<lambda>t. tenantIDPattern (t_ID t) \<and> list_all (\<lambda>r. \<not> blank r) (t_Roles t)) (g_Tenants g)
       \<and> distinct (map t_ID (g_Tenants g))
       \<and> (g_Default g = [] \<or> g_Default g \<in> set (grant_IDs g))))
   \<and> (case grant_Valid g of
        Some e \<Rightarrow> errors_Is e ErrNoTenant
      | None \<Rightarrow> list_all (\<lambda>t. grant_Tenant g (t_ID t) = Some t) (g_Tenants g))"
proof -
  have "grant_Tenant g (t_ID t) = Some t"
    if d: "distinct (map t_ID (g_Tenants g))" and t: "t \<in> set (g_Tenants g)" for t
  proof -
    obtain u where u: "grant_Tenant g (t_ID t) = Some u"
      using t grant_Tenant_None [of g "t_ID t"] by (cases "grant_Tenant g (t_ID t)") auto
    with grant_Tenant_Some [OF u] d t show ?thesis
      by (auto simp: distinct_map dest: inj_onD)
  qed
  then show ?thesis
    by (auto simp: grant_Valid_None tenant_Valid_None list_all_iff grant_Valid_sentinel split: option.splits)
qed

text \<open>
  Group resolver.  With a valid tenant the resolver always answers, and its grant is
  empty exactly when no group matches and there is no default role; otherwise it is that one
  tenant, default, with a non-empty, sorted, duplicate-free list of exactly the roles the
  groups map to, or of the default role when none does.
\<close>

theorem group_Resolve_exactly:
  assumes "tenant_Valid (gr_Tenant r) = None"
  shows "\<exists>g. group_Resolve r i = Inr g
    \<and> (g = empty_grant \<longleftrightarrow> gr_DefaultRole r = [] \<and> (\<forall>gr \<in> set (id_Groups i). gr_Roles r gr = None))
    \<and> (g \<noteq> empty_grant \<longrightarrow> grant_IDs g = [t_ID (gr_Tenant r)] \<and> g_Default g = t_ID (gr_Tenant r)
        \<and> (\<forall>t \<in> set (g_Tenants g). sorted (t_Roles t) \<and> distinct (t_Roles t)
             \<and> set (t_Roles t) =
                 (let rs = {role. \<exists>gr \<in> set (id_Groups i). gr_Roles r gr = Some role}
                  in if rs = {} then {gr_DefaultRole r} else rs)))"
  using assms
  by (auto simp: group_Resolve_def Let_def collect_roles_Nil set_collect_roles empty_grant_def
      distinct_collect_roles grant_IDs_def)

theorem group_Resolve_exactly_witness:
  "\<exists>g. group_Resolve \<lparr>gr_Tenant = \<lparr>t_ID = ''acme'', t_Name = [], t_Roles = []\<rparr>, gr_Roles = [''eng'' \<mapsto> ''dev''],
          gr_DefaultRole = []\<rparr>
        \<lparr>id_Subject = ''u'', id_Login = [], id_DisplayName = [], id_Groups = [''hr''], id_Node = [],
         id_Attributes = Map.empty\<rparr> = Inr g \<and> g = empty_grant"
  using group_Resolve_exactly [of "\<lparr>gr_Tenant = \<lparr>t_ID = ''acme'', t_Name = [], t_Roles = []\<rparr>,
      gr_Roles = [''eng'' \<mapsto> ''dev''], gr_DefaultRole = []\<rparr>"
    "\<lparr>id_Subject = ''u'', id_Login = [], id_DisplayName = [], id_Groups = [''hr''], id_Node = [],
      id_Attributes = Map.empty\<rparr>"]
  by (simp add: tenant_Valid_def tenantIDPattern_def lower_alnum_def id_inner_def)

end
