(* ===== verification/Http.thy ===== *)
theory Http
  imports Prelude
begin

text \<open>
  The part of \<open>net/http\<close> the handlers use: header maps with canonical keys, and responses.  A
  header map is a function from keys to lists of values; \<open>Get\<close>, \<open>Set\<close>, \<open>Add\<close> and \<open>Del\<close>
  canonicalise the key they are given.
\<close>

definition is_upper :: "char \<Rightarrow> bool" where
  "is_upper c \<longleftrightarrow> 65 \<le> (of_char c :: nat) \<and> (of_char c :: nat) \<le> 90"

definition is_lower :: "char \<Rightarrow> bool" where
  "is_lower c \<longleftrightarrow> 97 \<le> (of_char c :: nat) \<and> (of_char c :: nat) \<le> 122"

definition is_decimal :: "char \<Rightarrow> bool" where
  "is_decimal c \<longleftrightarrow> 48 \<le> (of_char c :: nat) \<and> (of_char c :: nat) \<le> 57"

definition ascii_upper :: "char \<Rightarrow> char" where
  "ascii_upper c = (if is_lower c then char_of ((of_char c :: nat) - 32) else c)"

definition field_byte :: "char \<Rightarrow> bool" where
  "field_byte c \<longleftrightarrow> is_upper c \<or> is_lower c \<or> is_decimal c \<or> c \<in> set ''!#$%&*+-.^_`|~'' \<or> c = CHR 0x27"

fun canon_bytes :: "bool \<Rightarrow> string \<Rightarrow> string" where
  "canon_bytes up [] = []"
| "canon_bytes up (c # cs) = (if up then ascii_upper c else ascii_lower c) # canon_bytes (c = CHR ''-'') cs"

text \<open>\<open>textproto.CanonicalMIMEHeaderKey\<close>: a key with a byte no field name has is left alone.\<close>

definition canonical_key :: "string \<Rightarrow> string" where
  "canonical_key k = (if list_all field_byte k then canon_bytes True k else k)"

type_synonym headers = "string \<Rightarrow> string list"

definition hdr_Del :: "headers \<Rightarrow> string \<Rightarrow> headers" where
  "hdr_Del h k = h(canonical_key k := [])"

definition hdr_Set :: "headers \<Rightarrow> string \<Rightarrow> string \<Rightarrow> headers" where
  "hdr_Set h k v = h(canonical_key k := [v])"

definition hdr_Add :: "headers \<Rightarrow> string \<Rightarrow> string \<Rightarrow> headers" where
  "hdr_Add h k v = h(canonical_key k := h (canonical_key k) @ [v])"

definition hdr_Values :: "headers \<Rightarrow> string \<Rightarrow> string list" where
  "hdr_Values h k = h (canonical_key k)"

definition hdr_Get :: "headers \<Rightarrow> string \<Rightarrow> string" where
  "hdr_Get h k = (case hdr_Values h k of [] \<Rightarrow> [] | v # _ \<Rightarrow> v)"

text \<open>A response: its status, the headers set on it and its body.\<close>

record response =
  rs_Status :: int
  rs_Header :: "(string \<times> string) list"
  rs_Body :: string

definition http_Error :: "string \<Rightarrow> int \<Rightarrow> response" where
  "http_Error msg code =
     \<lparr>rs_Status = code,
      rs_Header = [(''Content-Type'', ''text/plain; charset=utf-8''), (''X-Content-Type-Options'', ''nosniff'')],
      rs_Body = msg @ [CHR 0x0A]\<rparr>"

section \<open>Lemmas\<close>

lemma hdr_Del_Values [simp]: "hdr_Values (hdr_Del h k) k' = (if canonical_key k = canonical_key k' then [] else hdr_Values h k')"
  by (simp add: hdr_Del_def hdr_Values_def)

lemma hdr_Set_Values [simp]: "hdr_Values (hdr_Set h k v) k' = (if canonical_key k = canonical_key k' then [v] else hdr_Values h k')"
  by (simp add: hdr_Set_def hdr_Values_def)

lemma hdr_Add_Values [simp]:
  "hdr_Values (hdr_Add h k v) k' = (if canonical_key k = canonical_key k' then hdr_Values h k' @ [v] else hdr_Values h k')"
  by (simp add: hdr_Add_def hdr_Values_def)

lemma char_cases_upper: "of_char (ascii_upper c) = (if is_lower c then of_char c - 32 else (of_char c :: nat))"
  by (auto simp: ascii_upper_def is_lower_def)

lemma char_cases_lower: "of_char (ascii_lower c) = (if is_upper c then of_char c + 32 else (of_char c :: nat))"
  by (auto simp: ascii_lower_def is_upper_def)

text \<open>Keys that differ only in the case of letters are the same header.\<close>

lemma of_char_eq: "(of_char c :: nat) = of_char d \<longleftrightarrow> c = d"
  by (rule of_char_eq_iff)

lemma ascii_upper_lower: "ascii_upper (ascii_lower c) = ascii_upper c" "ascii_lower (ascii_upper c) = ascii_lower c"
  "ascii_lower (ascii_lower c) = ascii_lower c" "ascii_upper (ascii_upper c) = ascii_upper c"
  by (simp_all add: of_char_eq [symmetric] char_cases_upper char_cases_lower)
    (auto simp: is_upper_def is_lower_def char_cases_upper char_cases_lower)

text \<open>
  An \<open>http.Server\<close>: where it listens, what it bounds (0 is no bound), and how long a shutdown
  waits for it (\<open>None\<close> when nothing shuts it down).
\<close>

record 'h http_server =
  sr_Tailnet :: bool
  sr_TLS :: bool
  sr_Addr :: string
  sr_Handler :: 'h
  sr_ReadTimeout :: int
  sr_ReadHeaderTimeout :: int
  sr_WriteTimeout :: int
  sr_IdleTimeout :: int
  sr_Grace :: "int option"

end
