(* ===== verification/Claims.thy ===== *)
theory Claims
  imports Tenancy Decode Http
begin

text \<open>
  \<open>claims.go\<close> and \<open>context.go\<close>: the token payload, its JSON encoding (\<open>MarshalJSON\<close> merges the
  deployment's extra claims and refuses to shadow a reserved one), its decoding, and the
  context value a verified request carries.  The map \<open>Extra\<close> is an association list; the
  parameter \<open>fp\<close> is the conversion of numbers that a \<open>float64\<close> does not hold exactly.
\<close>

record claims =
  c_Issuer :: string
  c_Subject :: string
  c_Audience :: string
  c_IssuedAt :: int
  c_NotBefore :: int
  c_Expiry :: int
  c_ID :: string
  c_Email :: string
  c_Name :: string
  c_Node :: string
  c_Tenant :: string
  c_Tenants :: "string list"
  c_Roles :: "string list"
  c_Groups :: "string list"
  c_Extra :: "(string \<times> json) list"

definition zero_claims :: claims where
  "zero_claims =
     \<lparr>c_Issuer = [], c_Subject = [], c_Audience = [], c_IssuedAt = 0, c_NotBefore = 0, c_Expiry = 0,
      c_ID = [], c_Email = [], c_Name = [], c_Node = [], c_Tenant = [], c_Tenants = [], c_Roles = [],
      c_Groups = [], c_Extra = []\<rparr>"

definition reserved :: "string list" where
  "reserved = [''iss'', ''sub'', ''aud'', ''iat'', ''nbf'', ''exp'', ''jti'', ''email'', ''name'',
     ''node'', ''tenant'', ''tenants'', ''roles'', ''groups'']"

text \<open>The members of the struct, each with whether it is written (\<open>omitempty\<close>).\<close>

definition claims_members :: "claims \<Rightarrow> (bool \<times> string \<times> json) list" where
  "claims_members c =
     [(True, ''iss'', JStr (c_Issuer c)),
      (True, ''sub'', JStr (c_Subject c)),
      (True, ''aud'', JStr (c_Audience c)),
      (True, ''iat'', JNum (NInt (c_IssuedAt c))),
      (True, ''nbf'', JNum (NInt (c_NotBefore c))),
      (True, ''exp'', JNum (NInt (c_Expiry c))),
      (True, ''jti'', JStr (c_ID c)),
      (c_Email c \<noteq> [], ''email'', JStr (c_Email c)),
      (c_Name c \<noteq> [], ''name'', JStr (c_Name c)),
      (c_Node c \<noteq> [], ''node'', JStr (c_Node c)),
      (c_Tenant c \<noteq> [], ''tenant'', JStr (c_Tenant c)),
      (c_Tenants c \<noteq> [], ''tenants'', JArr (map JStr (c_Tenants c))),
      (c_Roles c \<noteq> [], ''roles'', JArr (map JStr (c_Roles c))),
      (c_Groups c \<noteq> [], ''groups'', JArr (map JStr (c_Groups c)))]"

definition written :: "(bool \<times> string \<times> json) list \<Rightarrow> (string \<times> json) list" where
  "written ms = map snd (filter fst ms)"

definition claims_MarshalJSON :: "(jnum \<Rightarrow> jnum option) \<Rightarrow> claims \<Rightarrow> string result" where
  "claims_MarshalJSON fp c =
     (let base = json_Marshal (JObj (written (claims_members c)))
      in if c_Extra c = [] then Inr base
         else (case Option.bind (json_Parse base) (dec_any fp) of
                 Some (JObj merged) \<Rightarrow>
                   if list_ex (\<lambda>kv. fst kv \<in> set reserved) (c_Extra c)
                   then Inl (Error Plain ''extra claim shadows a reserved claim'')
                   else Inr (json_Marshal
                          (sort_keys (JObj (fold (\<lambda>(k, v). AList.update k v) (c_Extra c) merged))))
               | _ \<Rightarrow> Inl (Error Plain ''unmarshal'')))"

definition claims_fields :: "claims fields" where
  "claims_fields =
     [fld ''iss'' dec_string c_Issuer (\<lambda>x. c_Issuer_update (\<lambda>_. x)),
      fld ''sub'' dec_string c_Subject (\<lambda>x. c_Subject_update (\<lambda>_. x)),
      fld ''aud'' dec_string c_Audience (\<lambda>x. c_Audience_update (\<lambda>_. x)),
      fld ''iat'' dec_int64 c_IssuedAt (\<lambda>x. c_IssuedAt_update (\<lambda>_. x)),
      fld ''nbf'' dec_int64 c_NotBefore (\<lambda>x. c_NotBefore_update (\<lambda>_. x)),
      fld ''exp'' dec_int64 c_Expiry (\<lambda>x. c_Expiry_update (\<lambda>_. x)),
      fld ''jti'' dec_string c_ID (\<lambda>x. c_ID_update (\<lambda>_. x)),
      fld ''email'' dec_string c_Email (\<lambda>x. c_Email_update (\<lambda>_. x)),
      fld ''name'' dec_string c_Name (\<lambda>x. c_Name_update (\<lambda>_. x)),
      fld ''node'' dec_string c_Node (\<lambda>x. c_Node_update (\<lambda>_. x)),
      fld ''tenant'' dec_string c_Tenant (\<lambda>x. c_Tenant_update (\<lambda>_. x)),
      fld ''tenants'' (dec_slice dec_string []) c_Tenants (\<lambda>x. c_Tenants_update (\<lambda>_. x)),
      fld ''roles'' (dec_slice dec_string []) c_Roles (\<lambda>x. c_Roles_update (\<lambda>_. x)),
      fld ''groups'' (dec_slice dec_string []) c_Groups (\<lambda>x. c_Groups_update (\<lambda>_. x))]"

text \<open>The second pass of \<open>UnmarshalJSON\<close>: each member that is not reserved, its last value.\<close>

definition extra_of :: "(jnum \<Rightarrow> jnum option) \<Rightarrow> json \<Rightarrow> (string \<times> json) list option" where
  "extra_of fp j =
     (case j of
        JObj kvs \<Rightarrow>
          those (map (\<lambda>kv. map_option (Pair (fst kv)) (dec_any fp (snd kv)))
                   (filter (\<lambda>kv. fst kv \<notin> set reserved) (fold (\<lambda>(k, v). AList.update k v) kvs [])))
      | _ \<Rightarrow> Some [])"

definition claims_UnmarshalJSON :: "(jnum \<Rightarrow> jnum option) \<Rightarrow> string \<Rightarrow> claims result" where
  "claims_UnmarshalJSON fp b =
     (case json_Parse b of
        None \<Rightarrow> Inl (Error Plain ''syntax'')
      | Some j \<Rightarrow>
          (case dec_struct False claims_fields j zero_claims of
             None \<Rightarrow> Inl (Error Plain ''unmarshal'')
           | Some c \<Rightarrow>
               (case extra_of fp j of
                  None \<Rightarrow> Inl (Error Plain ''unmarshal'')
                | Some xs \<Rightarrow> Inr (c\<lparr>c_Extra := xs\<rparr>))))"

definition claims_ExpiresAt :: "claims \<Rightarrow> gotime" where
  "claims_ExpiresAt c = time_Unix (c_Expiry c)"

definition claims_HasRole :: "claims \<Rightarrow> string \<Rightarrow> bool" where
  "claims_HasRole c name = has_member (c_Roles c) name"

section \<open>context.go\<close>

text \<open>A request context, as far as the code uses it: the claims stored under the private key.\<close>

type_synonym go_ctx = "claims option"

definition WithClaims :: "go_ctx \<Rightarrow> claims \<Rightarrow> go_ctx" where
  "WithClaims ctx c = Some c"

definition ClaimsFrom :: "go_ctx \<Rightarrow> claims \<times> bool" where
  "ClaimsFrom ctx = (case ctx of Some c \<Rightarrow> (c, True) | None \<Rightarrow> (zero_claims, False))"

definition DefaultHeader :: string where
  "DefaultHeader = ''X-Tailnet-Jwt-Assertion''"

definition StripAssertion :: "headers \<Rightarrow> string \<Rightarrow> headers" where
  "StripAssertion h header = hdr_Del h (if header = [] then DefaultHeader else header)"

section \<open>Decoding what was encoded\<close>

definition dec1 :: "'s fields \<Rightarrow> bool \<times> string \<times> json \<Rightarrow> 's \<Rightarrow> 's option" where
  "dec1 fs m v = (if fst m then dec_members False fs [snd m] v else Some v)"

lemma dec_members_written:
  "dec_members False fs (written (m # ms)) v
     = Option.bind (dec1 fs m v) (dec_members False fs (written ms))"
  using dec_members_append [of False fs "[snd m]" "written ms" v]
  by (auto simp: written_def dec1_def)

lemma dec_members_written_Nil: "dec_members False fs (written []) v = Some v"
  by (simp add: written_def)

lemma dec1_claims:
  "dec1 claims_fields (True, ''iss'', JStr s) v = Some (v\<lparr>c_Issuer := s\<rparr>)"
  "dec1 claims_fields (True, ''sub'', JStr s) v = Some (v\<lparr>c_Subject := s\<rparr>)"
  "dec1 claims_fields (True, ''aud'', JStr s) v = Some (v\<lparr>c_Audience := s\<rparr>)"
  "in_s64 n \<Longrightarrow> dec1 claims_fields (True, ''iat'', JNum (NInt n)) v = Some (v\<lparr>c_IssuedAt := n\<rparr>)"
  "in_s64 n \<Longrightarrow> dec1 claims_fields (True, ''nbf'', JNum (NInt n)) v = Some (v\<lparr>c_NotBefore := n\<rparr>)"
  "in_s64 n \<Longrightarrow> dec1 claims_fields (True, ''exp'', JNum (NInt n)) v = Some (v\<lparr>c_Expiry := n\<rparr>)"
  "dec1 claims_fields (True, ''jti'', JStr s) v = Some (v\<lparr>c_ID := s\<rparr>)"
  "c_Email v = [] \<Longrightarrow> dec1 claims_fields (s \<noteq> [], ''email'', JStr s) v = Some (v\<lparr>c_Email := s\<rparr>)"
  "c_Name v = [] \<Longrightarrow> dec1 claims_fields (s \<noteq> [], ''name'', JStr s) v = Some (v\<lparr>c_Name := s\<rparr>)"
  "c_Node v = [] \<Longrightarrow> dec1 claims_fields (s \<noteq> [], ''node'', JStr s) v = Some (v\<lparr>c_Node := s\<rparr>)"
  "c_Tenant v = [] \<Longrightarrow> dec1 claims_fields (s \<noteq> [], ''tenant'', JStr s) v = Some (v\<lparr>c_Tenant := s\<rparr>)"
  "c_Tenants v = [] \<Longrightarrow> dec1 claims_fields (xs \<noteq> [], ''tenants'', JArr (map JStr xs)) v = Some (v\<lparr>c_Tenants := xs\<rparr>)"
  "c_Roles v = [] \<Longrightarrow> dec1 claims_fields (xs \<noteq> [], ''roles'', JArr (map JStr xs)) v = Some (v\<lparr>c_Roles := xs\<rparr>)"
  "c_Groups v = [] \<Longrightarrow> dec1 claims_fields (xs \<noteq> [], ''groups'', JArr (map JStr xs)) v = Some (v\<lparr>c_Groups := xs\<rparr>)"
  by (auto simp: dec1_def claims_fields_def field_of_def fld_def)

definition claims_sorted :: "claims \<Rightarrow> (bool \<times> string \<times> json) list" where
  "claims_sorted c =
     [(True, ''aud'', JStr (c_Audience c)),
      (c_Email c \<noteq> [], ''email'', JStr (c_Email c)),
      (True, ''exp'', JNum (NInt (c_Expiry c))),
      (c_Groups c \<noteq> [], ''groups'', JArr (map JStr (c_Groups c))),
      (True, ''iat'', JNum (NInt (c_IssuedAt c))),
      (True, ''iss'', JStr (c_Issuer c)),
      (True, ''jti'', JStr (c_ID c)),
      (c_Name c \<noteq> [], ''name'', JStr (c_Name c)),
      (True, ''nbf'', JNum (NInt (c_NotBefore c))),
      (c_Node c \<noteq> [], ''node'', JStr (c_Node c)),
      (c_Roles c \<noteq> [], ''roles'', JArr (map JStr (c_Roles c))),
      (True, ''sub'', JStr (c_Subject c)),
      (c_Tenant c \<noteq> [], ''tenant'', JStr (c_Tenant c)),
      (c_Tenants c \<noteq> [], ''tenants'', JArr (map JStr (c_Tenants c)))]"

lemma claims_sorted_sort: "sort_key (fst \<circ> snd) (claims_members c) = claims_sorted c"
  unfolding claims_members_def claims_sorted_def by simp

lemma insort_map_snd: "insort_key f (g x) (map g xs) = map g (insort_key (f \<circ> g) x xs)"
  by (induction xs) auto

lemma sort_written: "sort_key fst (written ms) = written (sort_key (fst \<circ> snd) ms)"
proof -
  have "sort_key fst (map snd xs) = map snd (sort_key (fst \<circ> snd) xs)"
    for xs :: "(bool \<times> string \<times> json) list"
    by (induction xs) (simp_all add: insort_map_snd comp_def)
  then show ?thesis
    by (simp add: written_def filter_sort)
qed

definition claims_ok :: "claims \<Rightarrow> bool" where
  "claims_ok c \<longleftrightarrow>
     list_all valid_utf8 [c_Issuer c, c_Subject c, c_Audience c, c_ID c, c_Email c, c_Name c, c_Node c, c_Tenant c]
     \<and> list_all valid_utf8 (c_Tenants c @ c_Roles c @ c_Groups c)
     \<and> in_s64 (c_IssuedAt c) \<and> in_s64 (c_NotBefore c) \<and> in_s64 (c_Expiry c)"

text \<open>
  An extra claim that decoding gives back: its name does not fold to a reserved one and its
  value is one an \<open>any\<close> can hold, with the keys of its objects in order.
\<close>

definition extra_ok :: "(jnum \<Rightarrow> jnum option) \<Rightarrow> (string \<times> json) list \<Rightarrow> bool" where
  "extra_ok fp xs \<longleftrightarrow> distinct (map fst xs) \<and>
     list_all (\<lambda>kv. valid_utf8 (fst kv) \<and> fold_key (fst kv) \<notin> set reserved
       \<and> wf_json (max_depth - 1) (snd kv) \<and> dec_any fp (snd kv) = Some (snd kv) \<and> sort_keys (snd kv) = snd kv) xs"

definition exact_times :: "claims \<Rightarrow> bool" where
  "exact_times c \<longleftrightarrow> \<bar>c_IssuedAt c\<bar> \<le> 2 ^ 53 \<and> \<bar>c_NotBefore c\<bar> \<le> 2 ^ 53 \<and> \<bar>c_Expiry c\<bar> \<le> 2 ^ 53"

lemma those_map_Some: "\<forall>x \<in> set xs. f x = Some (g x) \<Longrightarrow> those (map f xs) = Some (map g xs)"
  by (induction xs) auto

lemma AList_update_new: "k \<notin> set (map fst al) \<Longrightarrow> AList.update k v al = al @ [(k, v)]"
  by (induction al) auto

lemma fold_update_append:
  "distinct (map fst (al @ kvs)) \<Longrightarrow> fold (\<lambda>(k, v). AList.update k v) kvs al = al @ kvs"
proof (induction kvs arbitrary: al)
  case (Cons kv kvs)
  then show ?case
    by (cases kv) (auto simp: AList_update_new)
qed simp

lemma zip_fst_snd: "zip (map fst kvs) (map snd kvs) = kvs"
  by (induction kvs) auto

lemma dec_any_obj:
  assumes "distinct (map fst kvs)" "\<forall>kv \<in> set kvs. dec_any fp (snd kv) = Some (snd kv)"
  shows "dec_any fp (JObj kvs) = Some (JObj kvs)"
  using those_map_Some [of kvs "\<lambda>kv. dec_any fp (snd kv)" snd] assms fold_update_append [of "[]" kvs]
  by (simp add: zip_fst_snd)

lemma dec_any_strings [simp]: "dec_any fp (JArr (map JStr xs)) = Some (JArr (map JStr xs))"
  using those_map_Some [of "map JStr xs" "dec_any fp" id] by auto

lemma claims_keys: "map (fst \<circ> snd) (claims_members c) = reserved"
  by (simp add: claims_members_def reserved_def)

lemma fields_keys: "map (\<lambda>f. fold_key (fst f)) claims_fields = reserved"
  by (simp add: claims_fields_def reserved_def fld_def ascii_lower_def)

lemma written_keys:
  "set (map fst (written (claims_members c))) \<subseteq> set reserved"
  "distinct (map fst (written (claims_members c)))"
proof -
  have d: "distinct (map (fst \<circ> snd) (claims_members c))"
    unfolding claims_keys by (simp add: reserved_def)
  have e: "map fst (written ms) = map (fst \<circ> snd) (filter fst ms)" for ms
    by (simp add: written_def)
  show "distinct (map fst (written (claims_members c)))"
    unfolding e using d by (rule distinct_map_filter)
  show "set (map fst (written (claims_members c))) \<subseteq> set reserved"
    unfolding e claims_keys [of c, symmetric] by auto
qed

lemma field_known: "field_of claims_fields k = None \<longleftrightarrow> fold_key k \<notin> set reserved"
  by (simp add: field_of_None flip: fields_keys)

lemma dec_members_known:
  "dec_members False fs kvs v = dec_members False fs (filter (\<lambda>kv. field_of fs (fst kv) \<noteq> None) kvs) v"
  by (induction kvs arbitrary: v) (auto split: option.splits)

lemma dec_claims_written:
  assumes "claims_ok c"
  shows "dec_members False claims_fields (written (claims_members c)) zero_claims
      = Some (c\<lparr>c_Extra := []\<rparr>)"
    and "dec_members False claims_fields (written (claims_sorted c)) zero_claims
      = Some (c\<lparr>c_Extra := []\<rparr>)"
  using assms
  by (simp_all add: claims_members_def claims_sorted_def dec_members_written dec_members_written_Nil
      dec1_claims zero_claims_def claims_ok_def)

lemma wf_written:
  assumes "claims_ok c" "kv \<in> set (written (claims_members c))"
  shows "valid_utf8 (fst kv) \<and> wf_json (max_depth - 1) (snd kv)
    \<and> (exact_times c \<longrightarrow> dec_any fp (snd kv) = Some (snd kv)) \<and> sort_keys (snd kv) = snd kv"
proof -
  have v: "valid_utf8 k" if "k \<in> set reserved" for k
    using that by (auto simp: reserved_def valid_utf8_ascii bv_def)
  have s: "map sort_keys (map JStr xs) = map JStr xs" for xs
    by (induction xs) auto
  have w: "(b, kv) \<in> set (claims_members c) \<longrightarrow> wf_json (max_depth - 1) (snd kv)
    \<and> (exact_times c \<longrightarrow> dec_any fp (snd kv) = Some (snd kv)) \<and> sort_keys (snd kv) = snd kv" for b kv
    using assms(1) s unfolding claims_ok_def claims_members_def
    by (auto simp: list_all_iff exact_times_def float_num_def max_depth_def simp del: map_map dec_any.simps(2))
  from assms(2) obtain b where "(b, kv) \<in> set (claims_members c)"
    by (auto simp: written_def)
  moreover have "fst kv \<in> set reserved"
    using written_keys(1) assms(2) by force
  ultimately show ?thesis
    using v w by blast
qed

text \<open>What \<open>MarshalJSON\<close> writes, as a document.\<close>

definition claims_doc :: "claims \<Rightarrow> json" where
  "claims_doc c =
     (if c_Extra c = [] then JObj (written (claims_members c))
      else JObj (sort_key fst (written (claims_members c) @ c_Extra c)))"

lemma extra_not_reserved: "extra_ok fp xs \<Longrightarrow> kv \<in> set xs \<Longrightarrow> fst kv \<notin> set reserved"
proof -
  assume "extra_ok fp xs" "kv \<in> set xs"
  then have "fold_key (fst kv) \<notin> set reserved"
    by (auto simp: extra_ok_def list_all_iff)
  moreover have "fold_key k = k" if "k \<in> set reserved" for k
    using that by (auto simp: reserved_def ascii_lower_def)
  ultimately show ?thesis
    by metis
qed

lemma claims_doc_keys:
  assumes "extra_ok fp (c_Extra c)"
  shows "distinct (map fst (written (claims_members c) @ c_Extra c))"
  using written_keys [of c] extra_not_reserved [OF assms] assms
  by (force simp: extra_ok_def)

lemma claims_MarshalJSON_doc:
  assumes "claims_ok c" "extra_ok fp (c_Extra c)" "c_Extra c \<noteq> [] \<longrightarrow> exact_times c"
  shows "claims_MarshalJSON fp c = Inr (json_Marshal (claims_doc c))"
proof (cases "c_Extra c = []")
  case False
  let ?base = "written (claims_members c)"
  have "wf_json max_depth (JObj ?base)"
    using wf_written [OF assms(1)] by (auto simp: list_all_iff max_depth_def)
  then have p: "json_Parse (json_Marshal (JObj ?base)) = Some (JObj ?base)"
    by (rule json_Parse_Marshal)
  have d: "dec_any fp (JObj ?base) = Some (JObj ?base)"
    using False assms(3) wf_written [OF assms(1)] written_keys(2) by (intro dec_any_obj) auto
  have "\<not> list_ex (\<lambda>kv. fst kv \<in> set reserved) (c_Extra c)"
    using extra_not_reserved [OF assms(2)] by (auto simp: list_ex_iff)
  moreover have "map (\<lambda>kv. (fst kv, sort_keys (snd kv))) (?base @ c_Extra c) = ?base @ c_Extra c"
    using wf_written [OF assms(1)] assms(2) by (auto simp: extra_ok_def list_all_iff intro!: map_idI)
  ultimately show ?thesis
    using False fold_update_append [OF claims_doc_keys [OF assms(2)]]
    by (simp add: claims_MarshalJSON_def Let_def p d claims_doc_def del: dec_any.simps)
qed (simp add: claims_MarshalJSON_def claims_doc_def)

lemma claims_doc_wf:
  assumes "claims_ok c" "extra_ok fp (c_Extra c)"
  shows "wf_json max_depth (claims_doc c)"
  using wf_written [OF assms(1)] assms(2)
  by (auto simp: claims_doc_def list_all_iff extra_ok_def max_depth_def)

lemma claims_doc_fields:
  assumes "claims_ok c" "extra_ok fp (c_Extra c)"
  shows "dec_struct False claims_fields (claims_doc c) zero_claims = Some (c\<lparr>c_Extra := []\<rparr>)"
proof (cases "c_Extra c = []")
  case False
  have k: "filter (\<lambda>kv. field_of claims_fields (fst kv) \<noteq> None) (written (claims_members c)) = written (claims_members c)"
    using written_keys(1) [of c] by (auto simp: field_known reserved_def filter_id_conv ascii_lower_def)
  have n: "filter (\<lambda>kv. field_of claims_fields (fst kv) \<noteq> None) (c_Extra c) = []"
    using assms(2) by (auto simp: field_known extra_ok_def list_all_iff filter_empty_conv)
  show ?thesis
    using False dec_claims_written(2) [OF assms(1)]
    by (simp add: claims_doc_def dec_members_known [of _ "sort_key _ _"] filter_sort k n sort_written
        claims_sorted_sort del: not_None_eq)
qed (simp add: claims_doc_def dec_claims_written(1) [OF assms(1)])

lemma distinct_map_sort_key: "distinct (map f xs) \<Longrightarrow> distinct (map f (sort_key g xs))"
  by (simp add: distinct_map)

lemma claims_doc_extra:
  assumes "claims_ok c" "extra_ok fp (c_Extra c)"
  shows "extra_of fp (claims_doc c) = Some (sort_key fst (c_Extra c))"
proof -
  let ?nr = "\<lambda>kv. fst kv \<notin> set reserved"
  have k: "filter ?nr (written (claims_members c)) = []"
    using written_keys(1) [of c] by (auto simp: filter_empty_conv)
  have n: "filter ?nr (c_Extra c) = c_Extra c"
    using extra_not_reserved [OF assms(2)] by (auto simp: filter_id_conv)
  obtain kvs where doc: "claims_doc c = JObj kvs" and d: "distinct (map fst kvs)"
    and f: "filter ?nr kvs = sort_key fst (c_Extra c)"
  proof (cases "c_Extra c = []")
    case True
    with that k written_keys(2) show ?thesis
      by (simp add: claims_doc_def)
  next
    case False
    have "distinct (map fst (sort_key fst (written (claims_members c) @ c_Extra c)))"
      by (rule distinct_map_sort_key [OF claims_doc_keys [OF assms(2)]])
    with that False k n show ?thesis
      by (simp add: claims_doc_def filter_sort)
  qed
  have "those (map (\<lambda>kv. map_option (Pair (fst kv)) (dec_any fp (snd kv))) (sort_key fst (c_Extra c)))
      = Some (map id (sort_key fst (c_Extra c)))"
    using assms(2) by (intro those_map_Some) (auto simp: extra_ok_def list_all_iff)
  then show ?thesis
    using fold_update_append [of "[]" kvs] d by (simp add: extra_of_def doc f)
qed

lemma claims_roundtrip:
  assumes "claims_ok c" "extra_ok fp (c_Extra c)" "c_Extra c \<noteq> [] \<longrightarrow> exact_times c"
  shows "\<exists>b. claims_MarshalJSON fp c = Inr b
    \<and> claims_UnmarshalJSON fp b = Inr (c\<lparr>c_Extra := sort_key fst (c_Extra c)\<rparr>)"
  using json_Parse_Marshal [OF claims_doc_wf [OF assms(1,2)]] claims_doc_fields [OF assms(1,2)]
    claims_doc_extra [OF assms(1,2)]
  by (simp add: claims_MarshalJSON_doc [OF assms] claims_UnmarshalJSON_def)

section \<open>Properties\<close>

text \<open>
  C23 (claims round trip).  What \<open>MarshalJSON\<close> writes, \<open>UnmarshalJSON\<close> reads back: every claim,
  and the extra claims in the order of their names, for claims whose strings are valid UTF-8
  and whose extra names do not fold to a reserved one (with extra claims the times go through a
  \<open>float64\<close>, hence their bound).  An extra claim with a reserved name is refused.
\<close>

theorem claims_encode_decode:
  assumes "claims_ok c" "extra_ok fp (c_Extra c)" "c_Extra c \<noteq> [] \<longrightarrow> exact_times c"
    and "list_ex (\<lambda>kv. fst kv \<in> set reserved) bad"
  shows "(\<exists>b. claims_MarshalJSON fp c = Inr b
      \<and> claims_UnmarshalJSON fp b = Inr (c\<lparr>c_Extra := sort_key fst (c_Extra c)\<rparr>))
    \<and> fails (claims_MarshalJSON fp (c\<lparr>c_Extra := bad\<rparr>)) Plain"
proof -
  have "bad \<noteq> []"
    using assms(4) by auto
  then show ?thesis
    using claims_roundtrip [OF assms(1-3)] assms(4)
    by (auto simp: claims_MarshalJSON_def Let_def split: option.split json.split)
qed

definition example_claims :: claims where
  "example_claims = zero_claims\<lparr>c_Issuer := ''iss'', c_Subject := ''u1'', c_Audience := ''svc'',
     c_Expiry := 1700000300, c_IssuedAt := 1700000000, c_NotBefore := 1700000000, c_ID := ''j'',
     c_Tenant := ''acme'', c_Roles := [''dev''], c_Extra := [(''zone'', JStr ''eu''), (''level'', JNum (NInt 3))]\<rparr>"

theorem claims_encode_decode_witness:
  "\<exists>b. claims_MarshalJSON (\<lambda>_. None) example_claims = Inr b
     \<and> claims_UnmarshalJSON (\<lambda>_. None) b
       = Inr (example_claims\<lparr>c_Extra := [(''level'', JNum (NInt 3)), (''zone'', JStr ''eu'')]\<rparr>)"
proof -
  have ok: "claims_ok example_claims" "extra_ok (\<lambda>_. None) (c_Extra example_claims)"
      "exact_times example_claims"
    by code_simp+
  then show ?thesis
    using claims_encode_decode [of example_claims "\<lambda>_. None" "[(''sub'', JNull)]"]
    by (simp add: reserved_def) (simp add: example_claims_def)
qed

text \<open>
  The reserved names are compared byte for byte, but a decoder matches a member to a field with
  the letter case ignored.  An extra claim \<open>Roles\<close> is therefore accepted when a token is
  minted and read as the roles when it is verified.
\<close>

lemma extra_claim_becomes_roles:
  "\<exists>c b c'. c_Roles c = [] \<and> claims_MarshalJSON (\<lambda>_. None) c = Inr b
     \<and> claims_UnmarshalJSON (\<lambda>_. None) b = Inr c' \<and> c_Roles c' = [''admin'']"
proof -
  let ?c = "zero_claims\<lparr>c_Extra := [(''Roles'', JArr [JStr ''admin''])]\<rparr>"
  have "(case claims_MarshalJSON (\<lambda>_. None) ?c of Inl _ \<Rightarrow> False
     | Inr b \<Rightarrow> (case claims_UnmarshalJSON (\<lambda>_. None) b of Inl _ \<Rightarrow> False
        | Inr c' \<Rightarrow> c_Roles c' = [''admin'']))"
    by code_simp
  moreover have "c_Roles ?c = []"
    by (simp add: zero_claims_def)
  ultimately show ?thesis
    by (intro exI [of _ ?c]) (auto split: sum.splits)
qed

end
