(* ===== verification/Policy.thy ===== *)
theory Policy
  imports Tenancy Decode
begin

text \<open>
  \<open>policy.go\<close>: the tenant policy file.  \<open>LoadPolicyFile\<close> is the parse of the file's content
  (\<open>None\<close> when the file cannot be opened) followed by the validation; the resolver it returns
  is \<open>policy_resolve\<close>, whose loop over the tenants is \<open>policy_step\<close>.
\<close>

record policy_tenant =
  pt_ID :: string
  pt_Name :: string
  pt_Groups :: "string \<rightharpoonup> string"
  pt_Default :: bool

record policy_file =
  pf_Tenants :: "policy_tenant list"
  pf_DefaultRole :: string

definition zero_policy_tenant :: policy_tenant where
  "zero_policy_tenant = \<lparr>pt_ID = [], pt_Name = [], pt_Groups = Map.empty, pt_Default = False\<rparr>"

definition policy_tenant_fields :: "policy_tenant fields" where
  "policy_tenant_fields =
     [fld ''id'' dec_string pt_ID (\<lambda>x. pt_ID_update (\<lambda>_. x)),
      fld ''name'' dec_string pt_Name (\<lambda>x. pt_Name_update (\<lambda>_. x)),
      fld ''groups'' (dec_map dec_string []) pt_Groups (\<lambda>x. pt_Groups_update (\<lambda>_. x)),
      fld ''default'' dec_bool pt_Default (\<lambda>x. pt_Default_update (\<lambda>_. x))]"

definition policy_file_fields :: "policy_file fields" where
  "policy_file_fields =
     [fld ''tenants'' (dec_slice (dec_struct True policy_tenant_fields) zero_policy_tenant)
        pf_Tenants (\<lambda>x. pf_Tenants_update (\<lambda>_. x)),
      fld ''defaultRole'' dec_string pf_DefaultRole (\<lambda>x. pf_DefaultRole_update (\<lambda>_. x))]"

text \<open>The validation loop of \<open>PolicyFile.Resolver\<close>; \<open>defaultID\<close> is its variable.\<close>

fun policy_check_loop :: "string \<Rightarrow> policy_tenant list \<Rightarrow> error option" where
  "policy_check_loop defaultID [] = None"
| "policy_check_loop defaultID (t # ts) =
     (case tenant_Valid \<lparr>t_ID = pt_ID t, t_Name = [], t_Roles = []\<rparr> of
        Some e \<Rightarrow> Some e
      | None \<Rightarrow>
          if pt_Default t then
            (if defaultID \<noteq> [] then Some (Error Plain ''two tenants are both default'')
             else policy_check_loop (pt_ID t) ts)
          else policy_check_loop defaultID ts)"

definition policy_check :: "policy_file \<Rightarrow> error option" where
  "policy_check p =
     (if pf_Tenants p = [] then Some (Error Plain ''tenant policy names no tenants'')
      else policy_check_loop [] (pf_Tenants p))"

definition policy_roles :: "policy_file \<Rightarrow> identity \<Rightarrow> policy_tenant \<Rightarrow> string list" where
  "policy_roles p i t =
     (let roles = collect_roles (pt_Groups t) [] (id_Groups i)
      in if roles = [] \<and> \<not> (pf_DefaultRole p = [] \<or> length (pf_Tenants p) \<noteq> 1)
         then [pf_DefaultRole p] else roles)"

text \<open>One iteration of the resolver's loop: an empty role list is its \<open>continue\<close>.\<close>

definition policy_step :: "policy_file \<Rightarrow> identity \<Rightarrow> policy_tenant \<Rightarrow> grant \<Rightarrow> grant" where
  "policy_step p i t g =
     (let roles = policy_roles p i t
      in if roles = [] then g
         else \<lparr>g_Tenants = g_Tenants g @ [\<lparr>t_ID = pt_ID t, t_Name = pt_Name t, t_Roles = roles\<rparr>],
               g_Default = (if pt_Default t then pt_ID t else g_Default g)\<rparr>)"

definition policy_resolve :: "policy_file \<Rightarrow> identity \<Rightarrow> grant result" where
  "policy_resolve p i =
     (let g = fold (policy_step p i) (pf_Tenants p) empty_grant
      in Inr (if g_Default g = [] \<and> length (g_Tenants g) = 1
              then g\<lparr>g_Default := t_ID (g_Tenants g ! 0)\<rparr> else g))"

definition policy_Resolver :: "policy_file \<Rightarrow> (identity \<Rightarrow> grant result) result" where
  "policy_Resolver p =
     (case policy_check p of Some e \<Rightarrow> Inl e | None \<Rightarrow> Inr (policy_resolve p))"

definition parse_policy :: "string \<Rightarrow> policy_file result" where
  "parse_policy content =
     (case json_Decode content of
        None \<Rightarrow> Inl (Error Plain ''parse tenant policy'')
      | Some j \<Rightarrow>
          (case dec_struct True policy_file_fields j \<lparr>pf_Tenants = [], pf_DefaultRole = []\<rparr> of
             None \<Rightarrow> Inl (Error Plain ''parse tenant policy'')
           | Some p \<Rightarrow> Inr p))"

definition LoadPolicyFile :: "string option \<Rightarrow> (identity \<Rightarrow> grant result) result" where
  "LoadPolicyFile file =
     (case file of
        None \<Rightarrow> Inl (Error ErrNotExist ''read tenant policy'')
      | Some content \<Rightarrow>
          (case parse_policy content of Inl e \<Rightarrow> Inl e | Inr p \<Rightarrow> policy_Resolver p))"

section \<open>What the loop computes\<close>

definition policy_tenant_of :: "policy_file \<Rightarrow> identity \<Rightarrow> policy_tenant \<Rightarrow> tenant" where
  "policy_tenant_of p i t = \<lparr>t_ID = pt_ID t, t_Name = pt_Name t, t_Roles = policy_roles p i t\<rparr>"

definition reached :: "policy_file \<Rightarrow> identity \<Rightarrow> policy_tenant list" where
  "reached p i = filter (\<lambda>t. policy_roles p i t \<noteq> []) (pf_Tenants p)"

definition last_default :: "policy_tenant list \<Rightarrow> string" where
  "last_default ts = fold (\<lambda>t d. if pt_Default t then pt_ID t else d) ts []"

lemma policy_fold:
  "fold (policy_step p i) ts g =
     \<lparr>g_Tenants = g_Tenants g @ map (policy_tenant_of p i) (filter (\<lambda>t. policy_roles p i t \<noteq> []) ts),
      g_Default = fold (\<lambda>t d. if pt_Default t then pt_ID t else d)
        (filter (\<lambda>t. policy_roles p i t \<noteq> []) ts) (g_Default g)\<rparr>"
  by (induction ts arbitrary: g) (auto simp: policy_step_def policy_tenant_of_def Let_def)

lemma policy_grant_Tenants:
  "policy_resolve p i = Inr g \<Longrightarrow> g_Tenants g = map (policy_tenant_of p i) (reached p i)"
  by (auto simp: policy_resolve_def policy_fold empty_grant_def reached_def Let_def)

lemma policy_grant_Default:
  "policy_resolve p i = Inr g \<Longrightarrow>
     g_Default g = (if last_default (reached p i) = [] \<and> length (reached p i) = 1
                    then pt_ID (reached p i ! 0) else last_default (reached p i))"
  by (auto simp: policy_resolve_def policy_fold empty_grant_def reached_def last_default_def Let_def
      policy_tenant_of_def)

lemma policy_resolve_total: "\<exists>g. policy_resolve p i = Inr g"
  by (simp add: policy_resolve_def Let_def)

lemma last_default_cases: "last_default ts = [] \<or> (\<exists>t \<in> set ts. pt_Default t \<and> last_default ts = pt_ID t)"
proof (induction ts rule: rev_induct)
  case (snoc t ts)
  then show ?case
    by (auto simp: last_default_def)
qed (simp add: last_default_def)

text \<open>The rule of a policy: a group of the identity maps to the role in that tenant, or the
policy has one tenant, no group matches and the role is the default one.\<close>

definition policy_entitles :: "policy_file \<Rightarrow> identity \<Rightarrow> string \<Rightarrow> string \<Rightarrow> bool" where
  "policy_entitles p i tid role \<longleftrightarrow>
     (\<exists>t \<in> set (pf_Tenants p). pt_ID t = tid \<and>
        ((\<exists>g \<in> set (id_Groups i). pt_Groups t g = Some role)
         \<or> (pf_Tenants p = [t] \<and> role = pf_DefaultRole p \<and> role \<noteq> []
            \<and> (\<forall>g \<in> set (id_Groups i). pt_Groups t g = None))))"

lemma policy_roles_iff:
  assumes "t \<in> set (pf_Tenants p)"
  shows "role \<in> set (policy_roles p i t) \<longleftrightarrow>
     (\<exists>g \<in> set (id_Groups i). pt_Groups t g = Some role)
       \<or> (pf_Tenants p = [t] \<and> role = pf_DefaultRole p \<and> role \<noteq> []
          \<and> (\<forall>g \<in> set (id_Groups i). pt_Groups t g = None))"
proof -
  have one: "length (pf_Tenants p) = 1 \<longleftrightarrow> pf_Tenants p = [t]"
    using assms by (cases "pf_Tenants p"; cases "tl (pf_Tenants p)") auto
  show ?thesis
  proof (cases "collect_roles (pt_Groups t) [] (id_Groups i) = []")
    case True
    then have "\<forall>g \<in> set (id_Groups i). pt_Groups t g = None"
      by (simp add: collect_roles_Nil)
    with True show ?thesis
      unfolding policy_roles_def Let_def one by auto
  next
    case False
    then have "\<not> (\<forall>g \<in> set (id_Groups i). pt_Groups t g = None)"
      by (simp add: collect_roles_Nil)
    then show ?thesis
      using False unfolding policy_roles_def Let_def by (auto simp: set_collect_roles)
  qed
qed

lemma distinct_policy_roles: "distinct (policy_roles p i t)"
  by (simp add: policy_roles_def Let_def distinct_collect_roles)

interpretation policy_res: tenant_resolver "policy_resolve p" "policy_entitles p" for p
proof
  fix i g t r
  assume "policy_resolve p i = Inr g" "t \<in> set (g_Tenants g)" "r \<in> set (t_Roles t)"
  then obtain pt where "pt \<in> set (pf_Tenants p)" "t = policy_tenant_of p i pt"
      "r \<in> set (policy_roles p i pt)"
    by (auto dest!: policy_grant_Tenants simp: reached_def policy_tenant_of_def)
  moreover from this have tid: "t_ID t = pt_ID pt"
    by (simp add: policy_tenant_of_def)
  ultimately show "policy_entitles p i (t_ID t) r"
    using policy_roles_iff [of pt p r i] unfolding policy_entitles_def tid
    by (intro bexI [of _ pt] conjI refl) simp_all
qed

section \<open>Validation\<close>

lemma policy_check_loop_None:
  assumes "policy_check_loop d ts = None"
  shows "(\<forall>t \<in> set ts. tenantIDPattern (pt_ID t))
     \<and> length (filter pt_Default ts) \<le> (if d = [] then 1 else 0)"
  using assms
proof (induction ts arbitrary: d)
  case (Cons t ts)
  then have v: "tenantIDPattern (pt_ID t)"
    by (simp add: tenant_Valid_def split: if_splits)
  then have "pt_ID t \<noteq> []"
    by (rule tenantIDPattern_nonempty)
  with v Cons.prems Cons.IH [of d] Cons.IH [of "pt_ID t"] show ?case
    by (cases "pt_Default t"; cases "d = []") (simp_all add: tenant_Valid_def)
qed simp

lemma policy_check_None:
  "policy_check p = None \<Longrightarrow>
     pf_Tenants p \<noteq> [] \<and> (\<forall>t \<in> set (pf_Tenants p). tenantIDPattern (pt_ID t))
     \<and> length (filter pt_Default (pf_Tenants p)) \<le> 1"
  by (auto simp: policy_check_def dest!: policy_check_loop_None split: if_splits)

lemma policy_Resolver_Inr:
  "policy_Resolver p = Inr r \<longleftrightarrow> policy_check p = None \<and> r = policy_resolve p"
  by (auto simp: policy_Resolver_def split: option.splits)

section \<open>Properties\<close>

lemma policy_role_granted_iff:
  assumes "policy_resolve p i = Inr g"
  shows "(\<exists>t \<in> set (g_Tenants g). t_ID t = tid \<and> role \<in> set (t_Roles t)) \<longleftrightarrow>
    (\<exists>t \<in> set (pf_Tenants p). pt_ID t = tid \<and> role \<in> set (policy_roles p i t))"
  unfolding policy_grant_Tenants [OF assms] reached_def policy_tenant_of_def
  by (auto intro: length_pos_if_in_set)

lemma policy_entitles_roles:
  "policy_entitles p i tid role \<longleftrightarrow>
    (\<exists>t \<in> set (pf_Tenants p). pt_ID t = tid \<and> role \<in> set (policy_roles p i t))"
  unfolding policy_entitles_def by (rule bex_cong [OF refl]) (simp only: policy_roles_iff)

text \<open>
  C6 (policy isolation).  The grant a loaded policy gives holds a role in a tenant exactly when
  the policy's rule for that tenant says so: a group of the identity maps to the role there,
  or the policy has this one tenant, no group matches and the role is the default role.  In
  particular no identity reaches a tenant none of whose groups it has, when there are several.
\<close>

theorem policy_grants_exactly:
  assumes "policy_Resolver p = Inr r" "r i = Inr g"
  shows "((\<exists>t \<in> set (g_Tenants g). t_ID t = tid \<and> role \<in> set (t_Roles t))
           \<longleftrightarrow> policy_entitles p i tid role)
    \<and> (length (pf_Tenants p) \<noteq> 1 \<longrightarrow> (\<forall>t \<in> set (g_Tenants g). \<exists>pt \<in> set (pf_Tenants p).
           pt_ID pt = t_ID t \<and> (\<exists>gr \<in> set (id_Groups i). pt_Groups pt gr \<noteq> None)))"
proof -
  have r: "policy_resolve p i = Inr g"
    using assms by (simp add: policy_Resolver_Inr)
  have "\<exists>pt \<in> set (pf_Tenants p). pt_ID pt = t_ID t \<and> (\<exists>gr \<in> set (id_Groups i). pt_Groups pt gr \<noteq> None)"
    if m: "length (pf_Tenants p) \<noteq> 1" "t \<in> set (g_Tenants g)" for t
  proof -
    from m obtain pt where pt: "pt \<in> set (pf_Tenants p)" "policy_roles p i pt \<noteq> []" "t_ID t = pt_ID pt"
      using policy_grant_Tenants [OF r] by (auto simp: reached_def policy_tenant_of_def)
    then have "collect_roles (pt_Groups pt) [] (id_Groups i) \<noteq> []"
      using m(1) by (auto simp: policy_roles_def Let_def split: if_splits)
    with pt show ?thesis
      by (auto simp: collect_roles_Nil)
  qed
  then show ?thesis
    unfolding policy_role_granted_iff [OF r] policy_entitles_roles by blast
qed

definition example_identity :: identity where
  "example_identity =
     \<lparr>id_Subject = ''u1'', id_Login = ''a@x'', id_DisplayName = ''A'', id_Groups = [''eng'', ''ops''],
      id_Node = ''n'', id_Attributes = Map.empty\<rparr>"

definition example_policy :: policy_file where
  "example_policy =
     \<lparr>pf_Tenants = [\<lparr>pt_ID = ''acme'', pt_Name = ''Acme'', pt_Groups = [''eng'' \<mapsto> ''dev'', ''ops'' \<mapsto> ''dev''], pt_Default = True\<rparr>,
                    \<lparr>pt_ID = ''beta'', pt_Name = [], pt_Groups = [''hr'' \<mapsto> ''admin''], pt_Default = False\<rparr>],
      pf_DefaultRole = ''guest''\<rparr>"

lemma example_policy_grant:
  "policy_Resolver example_policy = Inr (policy_resolve example_policy)"
  "policy_resolve example_policy example_identity =
     Inr \<lparr>g_Tenants = [\<lparr>t_ID = ''acme'', t_Name = ''Acme'', t_Roles = [''dev'']\<rparr>], g_Default = ''acme''\<rparr>"
  by (simp_all add: policy_Resolver_def policy_check_def example_policy_def example_identity_def
      tenant_Valid_def tenantIDPattern_def lower_alnum_def id_inner_def policy_resolve_def
      policy_step_def policy_roles_def Let_def empty_grant_def)

theorem policy_grants_exactly_witness:
  "policy_entitles example_policy example_identity ''acme'' ''dev''
   \<and> \<not> policy_entitles example_policy example_identity ''beta'' ''guest''"
  using policy_grants_exactly [OF example_policy_grant, of "''acme''" "''dev''"]
    policy_grants_exactly [OF example_policy_grant, of "''beta''" "''guest''"]
  by simp

text \<open>
  Policy grants are mintable.  When the tenant ids of a loaded policy are distinct and no
  role in it is blank, every grant it gives passes \<open>Grant.Valid\<close>; its default is a tenant of
  the grant marked default in the file, or the only tenant reached.
\<close>

theorem policy_grant_valid:
  assumes "policy_Resolver p = Inr r" "r i = Inr g"
    and "distinct (map pt_ID (pf_Tenants p))"
    and "\<not> blank (pf_DefaultRole p) \<or> pf_DefaultRole p = []"
    and "\<forall>t \<in> set (pf_Tenants p). \<forall>role \<in> ran (pt_Groups t). \<not> blank role"
  shows "grant_Valid g = None
    \<and> (\<forall>t \<in> set (g_Tenants g). t_Roles t \<noteq> [] \<and> distinct (t_Roles t))
    \<and> (length (g_Tenants g) = 1 \<longrightarrow> g_Default g = t_ID (hd (g_Tenants g)))
    \<and> (g_Default g = [] \<or> length (g_Tenants g) = 1
       \<or> (\<exists>pt \<in> set (pf_Tenants p). pt_Default pt \<and> pt_ID pt = g_Default g))"
proof -
  have r: "policy_resolve p i = Inr g" and c: "policy_check p = None"
    using assms(1,2) by (auto simp: policy_Resolver_Inr)
  let ?R = "reached p i"
  note T = policy_grant_Tenants [OF r] and D = policy_grant_Default [OF r]
  have sub: "set ?R \<subseteq> set (pf_Tenants p)"
    by (auto simp: reached_def)
  have nb: "\<not> blank role" if "t \<in> set ?R" "role \<in> set (policy_roles p i t)" for t role
    using that assms(4,5) sub policy_roles_iff [of t p role i] by (auto simp: ran_def)
  have "tenant_Valid t = None" if "t \<in> set (g_Tenants g)" for t
    using that policy_check_None [OF c] nb sub
    by (auto simp: T tenant_Valid_None policy_tenant_of_def)
  moreover have "distinct (map t_ID (g_Tenants g))"
    using assms(3) by (simp add: T reached_def policy_tenant_of_def o_def distinct_map_filter)
  moreover have one: "g_Default g = t_ID (hd (g_Tenants g))" if "length (g_Tenants g) = 1"
    using that last_default_cases [of ?R] by (cases ?R) (auto simp: T D policy_tenant_of_def)
  moreover have d: "g_Default g = [] \<or> length (g_Tenants g) = 1
       \<or> (\<exists>pt \<in> set ?R. pt_Default pt \<and> pt_ID pt = g_Default g)"
    using last_default_cases [of ?R] by (auto simp: T D)
  moreover have "g_Default g = [] \<or> g_Default g \<in> t_ID ` set (g_Tenants g)"
    using d one last_default_cases [of ?R]
    by (cases ?R) (auto simp: T D policy_tenant_of_def image_iff)
  ultimately show ?thesis
    using sub by (auto simp: grant_Valid_None T reached_def policy_tenant_of_def distinct_policy_roles)
qed

theorem policy_grant_valid_witness:
  "grant_Valid \<lparr>g_Tenants = [\<lparr>t_ID = ''acme'', t_Name = ''Acme'', t_Roles = [''dev'']\<rparr>], g_Default = ''acme''\<rparr> = None"
proof -
  have "\<not> blank ''dev''" "\<not> blank ''admin''" "\<not> blank ''guest''"
    by code_simp+
  then show ?thesis
    using policy_grant_valid [OF example_policy_grant]
    by (simp add: example_policy_def ran_map_upd)
qed

text \<open>
  The validation does not look for a tenant id that appears twice: such a policy loads, and
  the grants it gives are refused later, when a token is minted.
\<close>

lemma policy_duplicate_tenant_loads:
  "\<exists>p r g. policy_Resolver p = Inr r \<and> r example_identity = Inr g \<and> grant_Valid g \<noteq> None"
proof (intro exI conjI)
  let ?p = "\<lparr>pf_Tenants = [\<lparr>pt_ID = ''acme'', pt_Name = [], pt_Groups = [''eng'' \<mapsto> ''dev''], pt_Default = False\<rparr>,
                        \<lparr>pt_ID = ''acme'', pt_Name = [], pt_Groups = [''ops'' \<mapsto> ''admin''], pt_Default = False\<rparr>],
             pf_DefaultRole = []\<rparr>"
  let ?g = "\<lparr>g_Tenants = [\<lparr>t_ID = ''acme'', t_Name = [], t_Roles = [''dev'']\<rparr>,
                      \<lparr>t_ID = ''acme'', t_Name = [], t_Roles = [''admin'']\<rparr>], g_Default = []\<rparr>"
  show "policy_Resolver ?p = Inr (policy_resolve ?p)"
    by (simp add: policy_Resolver_def policy_check_def tenant_Valid_def tenantIDPattern_def
        lower_alnum_def id_inner_def)
  show "policy_resolve ?p example_identity = Inr ?g"
    by (simp add: example_identity_def policy_resolve_def policy_step_def policy_roles_def Let_def
        empty_grant_def)
  show "grant_Valid ?g \<noteq> None"
    by (simp add: grant_Valid_None)
qed

end
