(* ===== verification/Signer.thy ===== *)
theory Signer
  imports Published Claims Policy
begin

text \<open>
  \<open>signer/signer.go\<close>: minting.  The configuration is the record \<open>signer_cfg\<close> that \<open>New\<close> leaves
  after its defaults and clamps.  One \<open>Mint\<close> takes what its interfaces answer: \<open>identify\<close> (the
  outcome of \<open>Identities.Identify\<close> for the caller's address), \<open>resolve\<close> (\<open>Tenants.Resolve\<close>),
  \<open>cur\<close> (\<open>Keys.Current\<close>), the clock, and the random bytes drawn for the token id (\<open>None\<close>
  when \<open>rand.Read\<close> fails) and for the signature.
\<close>

definition MaxTTL :: duration where "MaxTTL = 15 * Minute"
definition DefaultTTL :: duration where "DefaultTTL = 5 * Minute"

record signer_cfg =
  sg_Issuer :: string
  sg_TTL :: duration
  sg_Leeway :: duration

definition signer_New :: "string \<Rightarrow> bool \<Rightarrow> bool \<Rightarrow> bool \<Rightarrow> duration \<Rightarrow> duration \<Rightarrow> signer_cfg result" where
  "signer_New issuer has_keys has_identities has_tenants ttl leeway =
     (if blank issuer then Inl (Error Plain ''Issuer is required'')
      else if \<not> has_keys then Inl (Error Plain ''Keys is required'')
      else if \<not> has_identities then Inl (Error Plain ''Identities is required'')
      else if \<not> has_tenants then Inl (Error Plain ''Tenants is required'')
      else
        (let ttl1 = (if ttl \<le> 0 then DefaultTTL else ttl);
             ttl2 = (if ttl1 > MaxTTL then MaxTTL else ttl1);
             lee = (if leeway \<le> 0 then 30 * Second else leeway)
         in Inr \<lparr>sg_Issuer = issuer, sg_TTL = ttl2, sg_Leeway = lee\<rparr>))"

text \<open>\<open>newID\<close>: \<open>b\<close> is what \<open>rand.Read\<close> filled the 16 bytes with.\<close>

definition newID :: "bytes option \<Rightarrow> string result" where
  "newID b = (case b of None \<Rightarrow> Inl (Error Plain ''token id'') | Some bs \<Rightarrow> Inr (b64 bs))"

definition signClaims :: "crypto \<Rightarrow> (jnum \<Rightarrow> jnum option) \<Rightarrow> nat \<Rightarrow> (privkey \<times> string) result \<Rightarrow> claims \<Rightarrow> string result" where
  "signClaims cr fp rnd cur c =
     (case cur of
        Inl e \<Rightarrow> Inl e
      | Inr (priv, kid) \<Rightarrow> jwt_Sign cr rnd (Some priv) kid (claims_MarshalJSON fp c))"

definition mint_claims :: "signer_cfg \<Rightarrow> gotime \<Rightarrow> identity \<Rightarrow> grant \<Rightarrow> tenant \<Rightarrow> string \<Rightarrow> string \<Rightarrow> claims" where
  "mint_claims cfg now i g t audience jti =
     \<lparr>c_Issuer = sg_Issuer cfg, c_Subject = id_Subject i, c_Audience = audience,
      c_IssuedAt = Unix_of now,
      c_NotBefore = Unix_of (time_Add now (- sg_Leeway cfg)),
      c_Expiry = Unix_of (time_Add now (sg_TTL cfg)),
      c_ID = jti,
      c_Email = (if ContainsByte (id_Login i) CHR 0x40 then id_Login i else []),
      c_Name = id_DisplayName i, c_Node = id_Node i,
      c_Tenant = t_ID t, c_Tenants = grant_IDs g, c_Roles = t_Roles t, c_Groups = id_Groups i,
      c_Extra = []\<rparr>"

definition Mint ::
  "crypto \<Rightarrow> (jnum \<Rightarrow> jnum option) \<Rightarrow> signer_cfg \<Rightarrow> identity result \<Rightarrow> (identity \<Rightarrow> grant result)
   \<Rightarrow> (privkey \<times> string) result \<Rightarrow> gotime \<Rightarrow> bytes option \<Rightarrow> nat \<Rightarrow> string \<Rightarrow> string \<Rightarrow> (string \<times> claims) result" where
  "Mint cr fp cfg identify resolve cur now idbytes rnd audience tenant =
     (if blank audience then Inl (Error Plain ''audience is required'')
      else
     (case identify of
        Inl e \<Rightarrow> Inl e
      | Inr i \<Rightarrow>
     (case identity_Valid i of
        Some e \<Rightarrow> Inl e
      | None \<Rightarrow>
     (case resolve i of
        Inl e \<Rightarrow> Inl e
      | Inr g \<Rightarrow>
     (case grant_Valid g of
        Some e \<Rightarrow> Inl e
      | None \<Rightarrow>
          if g_Tenants g = [] then Inl (Error ErrNoTenant ''authorized for no tenant'')
          else
            (let want = (if tenant = [] then g_Default g else tenant)
             in if want = [] then Inl (Error ErrNoTenant ''no tenant requested and no default'')
                else
                  (case grant_Tenant g want of
                     None \<Rightarrow> Inl (Error ErrNoTenant ''may not act for'')
                   | Some t \<Rightarrow>
                       (case newID idbytes of
                          Inl e \<Rightarrow> Inl e
                        | Inr jti \<Rightarrow>
                            (let c = mint_claims cfg now i g t audience jti
                             in case signClaims cr fp rnd cur c of
                                  Inl e \<Rightarrow> Inl e
                                | Inr tok \<Rightarrow> Inr (tok, c))))))))))"

section \<open>Serving the key set\<close>

definition jwk_doc :: "jwk \<Rightarrow> json" where
  "jwk_doc j = JObj [(''kty'', JStr (j_Kty j)), (''crv'', JStr (j_Crv j)), (''kid'', JStr (j_Kid j)),
     (''use'', JStr (j_Use j)), (''alg'', JStr (j_Alg j)), (''x'', JStr (j_X j)), (''y'', JStr (j_Y j))]"

definition jwks_doc :: "jwk list \<Rightarrow> json" where
  "jwks_doc js = JObj [(''keys'', JArr (map jwk_doc js))]"

text \<open>\<open>JWKSHandler\<close>: \<open>js\<close> is what \<open>set.JWKS()\<close> returns when the request is served.\<close>

definition JWKSHandler :: "duration \<Rightarrow> string \<Rightarrow> jwk list \<Rightarrow> response" where
  "JWKSHandler cacheFor method js =
     (let cf = (if cacheFor \<le> 0 then 5 * Minute else cacheFor);
          secs = quo cf Second
      in if method \<noteq> ''GET'' \<and> method \<noteq> ''HEAD''
         then (http_Error ''method not allowed'' 405)
                \<lparr>rs_Header := (''Allow'', ''GET, HEAD'') # rs_Header (http_Error ''method not allowed'' 405)\<rparr>
         else \<lparr>rs_Status = 200,
               rs_Header = [(''Content-Type'', ''application/jwk-set+json''),
                            (''Cache-Control'', ''public, max-age='' @ Itoa secs)],
               rs_Body = json_Marshal (jwks_doc js) @ [CHR 0x0A]\<rparr>)"

section \<open>The interface KeySource\<close>

text \<open>
  A source of keys to sign with, over its state: what it signs with is a key on the curve, named
  by its thumbprint, and the set it publishes has that key under that name.
\<close>

locale signing_keys =
  fixes cr :: crypto
    and current :: "'k \<Rightarrow> (privkey \<times> string) result"
    and jwks :: "'k \<Rightarrow> gotime \<Rightarrow> jwk list result"
    and ok :: "'k \<Rightarrow> bool"
  assumes current_valid: "ok s \<Longrightarrow> current s = Inr (priv, kid) \<Longrightarrow> valid_pub (sk_Public priv)"
    and current_bound: "ok s \<Longrightarrow> current s = Inr (priv, kid) \<Longrightarrow> thumbprint cr (sk_Public priv) = Inr kid"
    and current_published: "ok s \<Longrightarrow> current s = Inr (priv, kid) \<Longrightarrow>
      \<exists>js. jwks s now = Inr js \<and> (\<exists>j \<in> set js. j_Kid j = kid \<and> PublicFromXY (j_X j) (j_Y j) = Inr (sk_Public priv))"
begin

text \<open>
  A token signed with the current key names it, and verifies under the key that the published
  set has of that name.
\<close>

lemma signed_token:
  assumes "crypto_ok cr" "ok s" "signClaims cr fp rnd (current s) c = Inr tok"
  obtains priv kid body js j where "current s = Inr (priv, kid)" "kid \<noteq> []"
    "claims_MarshalJSON fp c = Inr body"
    "jwt_Parse tok = Inr (\<lparr>h_Alg = Alg, h_Typ = Typ, h_Kid = kid\<rparr>, body)"
    "jwt_Verify cr (Some (sk_Public priv)) tok = Inr body"
    "jwks s now = Inr js" "j \<in> set js" "j_Kid j = kid" "PublicFromXY (j_X j) (j_Y j) = Inr (sk_Public priv)"
proof -
  obtain priv kid where k: "current s = Inr (priv, kid)"
    and sg: "jwt_Sign cr rnd (Some priv) kid (claims_MarshalJSON fp c) = Inr tok"
    using assms(3) by (auto simp: signClaims_def split: sum.splits)
  have kid: "valid_utf8 kid" "kid \<noteq> []"
    using thumbprint_nonempty [OF assms(1) current_valid current_bound] assms(2) k by blast+
  obtain js j where js: "jwks s now = Inr js" "j \<in> set js" "j_Kid j = kid"
      "PublicFromXY (j_X j) (j_Y j) = Inr (sk_Public priv)"
    using current_published [OF assms(2) k] by blast
  from jwt_Sign_Inr [OF assms(1) sg kid(1)] obtain body where
    "claims_MarshalJSON fp c = Inr body"
    "jwt_Parse tok = Inr (\<lparr>h_Alg = Alg, h_Typ = Typ, h_Kid = kid\<rparr>, body)"
    "jwt_Verify cr (Some (sk_Public priv)) tok = Inr body"
    by auto
  with k kid js that show thesis
    by blast
qed

end

lemma set_current_published:
  assumes "keyset_ok cr s" "set_Current s = Inr (priv, kid)"
  shows "valid_pub (sk_Public priv) \<and> thumbprint cr (sk_Public priv) = Inr kid
    \<and> set_PublicKey now s kid = Some (sk_Public priv)"
proof -
  from assms(2) obtain k where "ks_current s = Some k" "priv = k_priv k" "kid = k_kid k"
    by (auto simp: set_Current_def split: option.splits)
  with assms(1) show ?thesis
    by (simp add: keyset_ok_def skey_ok_def set_PublicKey_def)
qed

interpretation set_keys: signing_keys cr set_Current "\<lambda>s now. set_JWKS now s" "keyset_ok cr" for cr
proof
  fix s priv kid now
  assume a: "keyset_ok cr s" "set_Current s = Inr (priv, kid)"
  note c = set_current_published [OF a]
  show "valid_pub (sk_Public priv)" "thumbprint cr (sk_Public priv) = Inr kid"
    using c by simp_all
  show "\<exists>js. set_JWKS now s = Inr js \<and>
      (\<exists>j \<in> set js. j_Kid j = kid \<and> PublicFromXY (j_X j) (j_Y j) = Inr (sk_Public priv))"
    using set_JWKS_spec [OF a(1), of now] c by blast
qed

interpretation published_keys: signing_keys cr pub_Current "\<lambda>p now. pub_JWKS cr p now"
  "\<lambda>p. keyset_ok cr (p_local p)" for cr
proof
  fix p priv kid now
  assume a: "keyset_ok cr (p_local p)" "pub_Current p = Inr (priv, kid)"
  note c = set_current_published [OF a(1) a(2) [unfolded pub_Current_def]]
  show "valid_pub (sk_Public priv)" "thumbprint cr (sk_Public priv) = Inr kid"
    using c by simp_all
  show "\<exists>js. pub_JWKS cr p now = Inr js \<and>
      (\<exists>j \<in> set js. j_Kid j = kid \<and> PublicFromXY (j_X j) (j_Y j) = Inr (sk_Public priv))"
    using pub_JWKS_spec [OF a(1), of now] c by blast
qed

section \<open>Lemmas\<close>

lemma Mint_Inr:
  assumes "Mint cr fp cfg identify resolve cur now idbytes rnd audience tenant = Inr (tok, c)"
  obtains i g t bs where "identify = Inr i" "identity_Valid i = None" "resolve i = Inr g" "grant_Valid g = None"
    "grant_Tenant g (if tenant = [] then g_Default g else tenant) = Some t" "idbytes = Some bs"
    "c = mint_claims cfg now i g t audience (b64 bs)" "signClaims cr fp rnd cur c = Inr tok" "\<not> blank audience"
  using assms
  by (auto simp: Mint_def Let_def newID_def split: if_splits sum.splits option.splits)

lemma signer_New_Inr:
  "signer_New iss k i t ttl lee = Inr cfg \<Longrightarrow>
     \<not> blank (sg_Issuer cfg) \<and> 0 < sg_TTL cfg \<and> sg_TTL cfg \<le> MaxTTL \<and> 0 < sg_Leeway cfg
     \<and> sg_Issuer cfg = iss \<and> (0 < ttl \<and> ttl \<le> MaxTTL \<longrightarrow> sg_TTL cfg = ttl)"
  by (auto simp: signer_New_def MaxTTL_def DefaultTTL_def Let_def split: if_splits)

context tenant_resolver
begin

text \<open>A token carries only roles its resolver entitles the identity to, in its tenant.\<close>

lemma mint_entitled:
  assumes "Mint cr fp cfg (Inr i) resolve cur now idbytes rnd audience tenant = Inr (tok, c)"
    and "r \<in> set (c_Roles c)"
  shows "entitled i (c_Tenant c) r"
proof (rule Mint_Inr [OF assms(1)])
  fix i' g t bs
  assume m: "Inr i = Inr i'" "resolve i' = Inr g" "c = mint_claims cfg now i' g t audience (b64 bs)"
    "grant_Tenant g (if tenant = [] then g_Default g else tenant) = Some t"
  from m(4) have "t \<in> set (g_Tenants g)"
    by (auto dest: grant_Tenant_Some)
  with m(1-3) assms(2) show ?thesis
    by (auto simp: mint_claims_def intro: resolve_entitled)
qed

end

lemma signer_New_TTL:
  "signer_New iss k i t ttl lee = Inr cfg \<Longrightarrow> 0 < ttl \<Longrightarrow> sg_TTL cfg = min ttl MaxTTL"
  by (auto simp: signer_New_def Let_def min_def split: if_splits)

section \<open>Properties\<close>

text \<open>
  C1 (tenant isolation at minting).  A token is minted only for a valid identity and a valid
  grant, and acts for exactly one tenant of that grant: the one requested, or the default one
  when none is.  Its roles are that tenant's, its list of tenants is the grant's, its audience
  the one asked for, and it is signed with the key the source holds.
\<close>

theorem mint_isolates_tenants:
  assumes "Mint cr fp cfg identify resolve cur now idbytes rnd audience tenant = Inr (tok, c)"
  shows "\<exists>i g t. identify = Inr i \<and> \<not> blank (id_Subject i) \<and> resolve i = Inr g \<and> grant_Valid g = None
    \<and> t \<in> set (g_Tenants g) \<and> c_Tenant c = t_ID t \<and> c_Roles c = t_Roles t \<and> c_Tenants c = grant_IDs g
    \<and> c_Tenant c = (if tenant = [] then g_Default g else tenant)
    \<and> c_Subject c = id_Subject i \<and> c_Issuer c = sg_Issuer cfg \<and> c_Audience c = audience \<and> \<not> blank audience
    \<and> c_Extra c = [] \<and> signClaims cr fp rnd cur c = Inr tok"
proof (rule Mint_Inr [OF assms])
  fix i g t bs
  assume m: "identify = Inr i" "identity_Valid i = None" "resolve i = Inr g" "grant_Valid g = None"
    "grant_Tenant g (if tenant = [] then g_Default g else tenant) = Some t" "idbytes = Some bs"
    "c = mint_claims cfg now i g t audience (b64 bs)" "signClaims cr fp rnd cur c = Inr tok" "\<not> blank audience"
  have "\<not> blank (id_Subject i)"
    using m(2) by (simp add: identity_Valid_def split: if_splits)
  with m grant_Tenant_Some [OF m(5)] show ?thesis
    by (intro exI [of _ i] exI [of _ g] exI [of _ t]) (auto simp: mint_claims_def)
qed

definition example_cfg :: signer_cfg where
  "example_cfg = \<lparr>sg_Issuer = ''iss'', sg_TTL = 5 * Minute, sg_Leeway = 30 * Second\<rparr>"

definition example_mint :: "(string \<times> claims) result" where
  "example_mint = Mint toy_crypto (\<lambda>_. None) example_cfg (Inr example_identity) (policy_resolve example_policy)
     (set_Current toy_set) (time_Unix 1700000000) (Some (replicate 16 CHR 0x01)) 0 ''svc'' []"

definition example_minted :: claims where
  "example_minted = mint_claims example_cfg (time_Unix 1700000000) example_identity
     \<lparr>g_Tenants = [\<lparr>t_ID = ''acme'', t_Name = ''Acme'', t_Roles = [''dev'']\<rparr>], g_Default = ''acme''\<rparr>
     \<lparr>t_ID = ''acme'', t_Name = ''Acme'', t_Roles = [''dev'']\<rparr> ''svc'' (b64 (replicate 16 CHR 0x01))"

lemma example_mint: "\<exists>tok. example_mint = Inr (tok, example_minted)"
proof -
  let ?t = "\<lparr>t_ID = ''acme'', t_Name = ''Acme'', t_Roles = [''dev'']\<rparr>"
  let ?g = "\<lparr>g_Tenants = [?t], g_Default = ''acme''\<rparr>"
  have nb: "\<not> blank ''svc''" "\<not> blank (id_Subject example_identity)" "\<not> blank ''dev''"
    by code_simp+
  have v: "grant_Valid ?g = None"
    using nb(3) by (simp add: grant_Valid_None tenant_Valid_None tenantIDPattern_def lower_alnum_def id_inner_def)
  obtain tok where "signClaims toy_crypto (\<lambda>_. None) 0 (set_Current toy_set) example_minted = Inr tok"
    using toy_signs [of toy_key 0 toy_kid]
    by (auto simp: signClaims_def set_Current_def toy_set_def claims_MarshalJSON_def example_minted_def
        mint_claims_def toy_key_def)
  then show ?thesis
    using nb v unfolding example_mint_def Mint_def
    by (simp add: identity_Valid_def example_policy_grant newID_def grant_Tenant_def example_minted_def [symmetric])
qed

theorem mint_isolates_tenants_witness:
  "\<exists>tok c. example_mint = Inr (tok, c) \<and> c_Tenant c = ''acme'' \<and> c_Roles c = [''dev''] \<and> c_Audience c = ''svc''"
proof -
  obtain tok where m: "example_mint = Inr (tok, example_minted)"
    using example_mint by blast
  from mint_isolates_tenants [OF this [unfolded example_mint_def]] m show ?thesis
    by (auto simp: example_policy_grant)
qed

text \<open>
  Roles come from the policy.  In a token minted under a policy, every role is one the
  policy gives that identity in that tenant.
\<close>

theorem minted_roles_are_entitled:
  assumes "Mint cr fp cfg (Inr i) (policy_resolve p) cur now idbytes rnd audience tenant = Inr (tok, c)"
    and "r \<in> set (c_Roles c)"
  shows "policy_entitles p i (c_Tenant c) r"
  using policy_res.mint_entitled [OF assms] .

theorem minted_roles_are_entitled_witness:
  "policy_entitles example_policy example_identity ''acme'' ''dev''"
proof -
  obtain tok where m: "example_mint = Inr (tok, example_minted)"
    using example_mint by blast
  from minted_roles_are_entitled [OF this [unfolded example_mint_def], of "''dev''"] show ?thesis
    by (simp add: example_minted_def mint_claims_def)
qed

lemma minted_lifetime:
  assumes "signer_New iss hk hi ht ttl leeway = Inr cfg"
    and "Mint cr fp cfg identify resolve cur now idbytes rnd audience tenant = Inr (tok, c)"
    and "sane_time now" "leeway < 2 ^ 62"
  shows "c_NotBefore c \<le> c_IssuedAt c \<and> c_IssuedAt c \<le> c_Expiry c
    \<and> (c_IssuedAt c + unixToInternal) * Second \<le> tns now
    \<and> (c_Expiry c - c_IssuedAt c) * Second \<le> MaxTTL
    \<and> tns now + sg_TTL cfg - Second < (c_Expiry c + unixToInternal) * Second
    \<and> (c_Expiry c + unixToInternal) * Second \<le> tns now + sg_TTL cfg"
proof -
  have ttl: "0 < sg_TTL cfg" "sg_TTL cfg \<le> MaxTTL" and lee: "0 < sg_Leeway cfg" "sg_Leeway cfg < 2 ^ 62"
    using signer_New_Inr [OF assms(1)] assms(1,4) by (auto simp: signer_New_def Let_def split: if_splits)
  then have d: "in_s64 (sg_TTL cfg)" "in_s64 (- sg_Leeway cfg)"
    by (auto simp: in_s64_def MaxTTL_def)
  obtain i g t bs where "c = mint_claims cfg now i g t audience (b64 bs)"
    using Mint_Inr [OF assms(2)] by metis
  then have e: "c_IssuedAt c = tns now div Second - unixToInternal"
      "c_NotBefore c = (tns now + - sg_Leeway cfg) div Second - unixToInternal"
      "c_Expiry c = (tns now + sg_TTL cfg) div Second - unixToInternal"
    by (simp_all only: mint_claims_def claims.simps Unix_of_ns [OF assms(3)] Unix_of_Add [OF assms(3) d(1)]
        Unix_of_Add [OF assms(3) d(2)])
  have "(tns now + - sg_Leeway cfg) div Second \<le> tns now div Second"
      "tns now div Second \<le> (tns now + sg_TTL cfg) div Second"
      "(tns now + sg_TTL cfg) div Second \<le> (tns now + 900 * Second) div Second"
    using ttl lee by (auto simp: MaxTTL_def intro!: zdiv_mono1)
  moreover have "(tns now + 900 * Second) div Second = tns now div Second + 900"
    by simp
  moreover have "tns now div Second * Second \<le> tns now"
    using minus_mod_eq_div_mult [of "tns now" Second] pos_mod_sign [of Second "tns now"] by linarith
  moreover have "(tns now + sg_TTL cfg) div Second * Second \<le> tns now + sg_TTL cfg"
      "tns now + sg_TTL cfg - Second < (tns now + sg_TTL cfg) div Second * Second"
    using minus_mod_eq_div_mult [of "tns now + sg_TTL cfg" Second]
      pos_mod_sign [of Second "tns now + sg_TTL cfg"] pos_mod_bound [of Second "tns now + sg_TTL cfg"]
    by linarith+
  ultimately show ?thesis
    unfolding e MaxTTL_def by simp
qed

text \<open>
  C21 (token lifetime).  A signer that \<open>New\<close> accepted never mints for longer than \<open>MaxTTL\<close>,
  whatever lifetime it was configured with: with a plausible clock the token expires after it
  is issued and at most 15 minutes later, its \<open>nbf\<close> is not after its \<open>iat\<close>, and its expiry is
  within a second below the instant \<open>now + TTL\<close>.
\<close>

theorem minted_lifetime_bounded:
  assumes "signer_New iss hk hi ht ttl leeway = Inr cfg"
    and "Mint cr fp cfg identify resolve cur now idbytes rnd audience tenant = Inr (tok, c)"
    and "sane_time now" "leeway < 2 ^ 62"
  shows "c_NotBefore c \<le> c_IssuedAt c \<and> c_IssuedAt c \<le> c_Expiry c
    \<and> (c_IssuedAt c + unixToInternal) * Second \<le> tns now
    \<and> (c_Expiry c - c_IssuedAt c) * Second \<le> MaxTTL
    \<and> tns now + sg_TTL cfg - Second < (c_Expiry c + unixToInternal) * Second
    \<and> (c_Expiry c + unixToInternal) * Second \<le> tns now + sg_TTL cfg"
  using minted_lifetime [OF assms] .

theorem minted_lifetime_bounded_witness:
  "c_Expiry example_minted - c_IssuedAt example_minted \<le> 900"
proof -
  have "\<not> blank ''iss''" by code_simp
  then have n: "signer_New ''iss'' True True True 0 0 = Inr example_cfg"
    by (simp add: signer_New_def DefaultTTL_def MaxTTL_def example_cfg_def Let_def)
  obtain tok where m: "example_mint = Inr (tok, example_minted)"
    using example_mint by blast
  have "sane_time (time_Unix 1700000000)"
    by code_simp
  from minted_lifetime_bounded [OF n m [unfolded example_mint_def] this] show ?thesis
    by (simp add: MaxTTL_def)
qed

end
