(* ===== verification/Verifier.thy ===== *)
theory Verifier
  imports Signer
begin

text \<open>
  \<open>verifier/verifier.go\<close>: checking an assertion on the backend's side.  One \<open>Verify\<close> takes the
  answers of its interfaces: \<open>key\<close> (\<open>Keys.Key\<close> for a key id), the clock, and the replay guard
  as a state with its \<open>seen\<close> operation (no guard is \<open>None\<close>).  The checks on the claims, in
  their order, are \<open>check_claims\<close>.
\<close>

record verifier_cfg =
  v_Issuer :: string
  v_Audience :: string
  v_Leeway :: duration
  v_MaxLifetime :: duration

definition verifier_New :: "string \<Rightarrow> string \<Rightarrow> bool \<Rightarrow> duration \<Rightarrow> duration \<Rightarrow> verifier_cfg result" where
  "verifier_New issuer audience has_keys leeway maxLifetime =
     (if blank issuer then Inl (Error Plain ''Issuer is required'')
      else if blank audience then Inl (Error Plain ''Audience is required'')
      else if \<not> has_keys then Inl (Error Plain ''Keys is required'')
      else Inr \<lparr>v_Issuer = issuer, v_Audience = audience,
                v_Leeway = (if leeway \<le> 0 then Minute else leeway),
                v_MaxLifetime = (if maxLifetime = 0 then 15 * Minute else maxLifetime)\<rparr>)"

definition invalid :: "string \<Rightarrow> error" where
  "invalid d = Error ErrInvalidToken d"

definition check_claims :: "verifier_cfg \<Rightarrow> gotime \<Rightarrow> claims \<Rightarrow> error option" where
  "check_claims cfg now c =
     (if c_Issuer c \<noteq> v_Issuer cfg then Some (invalid ''issuer'')
      else if c_Audience c \<noteq> v_Audience cfg then Some (invalid ''audience'')
      else if c_Subject c = [] then Some (invalid ''subject is empty'')
      else if c_ID c = [] then Some (invalid ''token has no jti'')
      else if c_Expiry c = 0 \<or> time_After now (time_Add (time_Unix (c_Expiry c)) (v_Leeway cfg))
      then Some (invalid ''expired'')
      else if c_NotBefore c \<noteq> 0 \<and> time_Before (time_Add now (v_Leeway cfg)) (time_Unix (c_NotBefore c))
      then Some (invalid ''not yet valid'')
      else if v_MaxLifetime cfg > 0 then
        (if c_IssuedAt c = 0 then Some (invalid ''iat is required when a max lifetime is enforced'')
         else
           (let life = time_Sub (time_Unix (c_Expiry c)) (time_Unix (c_IssuedAt c))
            in if life \<le> 0 \<or> life > v_MaxLifetime cfg then Some (invalid ''lifetime'')
               else if time_After (time_Unix (c_Expiry c)) (time_Add (time_Add now (v_MaxLifetime cfg)) (v_Leeway cfg))
               then Some (invalid ''expiry is beyond the max lifetime from now'')
               else None))
      else None)"

text \<open>Everything before the replay guard is asked.\<close>

definition verify_token :: "crypto \<Rightarrow> (jnum \<Rightarrow> jnum option) \<Rightarrow> verifier_cfg \<Rightarrow> (string \<Rightarrow> pubkey result)
   \<Rightarrow> gotime \<Rightarrow> string \<Rightarrow> claims result" where
  "verify_token cr fp cfg key now token =
     (case jwt_Parse token of
        Inl e \<Rightarrow> Inl (invalid (err_detail e))
      | Inr (hdr, _) \<Rightarrow>
          if h_Kid hdr = [] then Inl (invalid ''header names no kid'')
          else
     (case key (h_Kid hdr) of
        Inl e \<Rightarrow> Inl (invalid (err_detail e))
      | Inr pub \<Rightarrow>
     (case jwt_Verify cr (Some pub) token of
        Inl e \<Rightarrow> Inl (invalid (err_detail e))
      | Inr payload \<Rightarrow>
     (case claims_UnmarshalJSON fp payload of
        Inl _ \<Rightarrow> Inl (invalid ''payload is not a claim set'')
      | Inr c \<Rightarrow> (case check_claims cfg now c of Some e \<Rightarrow> Inl e | None \<Rightarrow> Inr c)))))"

definition Verify :: "crypto \<Rightarrow> (jnum \<Rightarrow> jnum option) \<Rightarrow> verifier_cfg \<Rightarrow> (string \<Rightarrow> pubkey result)
   \<Rightarrow> gotime \<Rightarrow> ('g \<Rightarrow> string \<Rightarrow> gotime \<Rightarrow> bool \<times> 'g) \<Rightarrow> 'g option \<Rightarrow> string \<Rightarrow> claims result \<times> 'g option" where
  "Verify cr fp cfg key now seen guard token =
     (case verify_token cr fp cfg key now token of
        Inl e \<Rightarrow> (Inl e, guard)
      | Inr c \<Rightarrow>
          (case guard of
             None \<Rightarrow> (Inr c, None)
           | Some g \<Rightarrow>
               (case seen g (c_ID c) (time_Unix (c_Expiry c)) of
                  (True, g') \<Rightarrow> (Inl (invalid ''token id replayed''), Some g')
                | (False, g') \<Rightarrow> (Inr c, Some g'))))"

section \<open>MemoryReplayGuard\<close>

type_synonym memory_guard = "string \<rightharpoonup> gotime"

definition guard_purge :: "gotime \<Rightarrow> memory_guard \<Rightarrow> memory_guard" where
  "guard_purge now g = (\<lambda>k. case g k of None \<Rightarrow> None | Some t \<Rightarrow> if time_After now t then None else Some t)"

text \<open>\<open>now\<close> is the guard's own clock.\<close>

definition guard_Seen :: "gotime \<Rightarrow> memory_guard \<Rightarrow> string \<Rightarrow> gotime \<Rightarrow> bool \<times> memory_guard" where
  "guard_Seen now g jti exp =
     (let g1 = guard_purge now g
      in if g1 jti \<noteq> None then (True, g1) else (False, g1(jti \<mapsto> exp)))"

section \<open>LocalKeys and the middleware\<close>

definition local_Key :: "keyset \<Rightarrow> gotime \<Rightarrow> string \<Rightarrow> pubkey result" where
  "local_Key s now kid =
     (case set_PublicKey now s kid of None \<Rightarrow> Inl (Error ErrNoKey ''kid'') | Some pub \<Rightarrow> Inr pub)"

text \<open>\<open>next_h\<close> is the backend's handler, run with the claims in its context.\<close>

definition Middleware :: "string \<Rightarrow> (string \<Rightarrow> claims result \<times> 'g) \<Rightarrow> (go_ctx \<Rightarrow> 'r) \<Rightarrow> (response \<Rightarrow> 'r) \<Rightarrow> headers \<Rightarrow> 'r" where
  "Middleware header verify next_h refuse h =
     (let hd = (if header = [] then DefaultHeader else header);
          tok0 = hdr_Get h hd;
          tok = (case CutPrefix tok0 ''Bearer '' of Some rest \<Rightarrow> rest | None \<Rightarrow> tok0)
      in if tok = [] then refuse (http_Error ''unauthorized'' 401)
         else (case fst (verify tok) of
                 Inl _ \<Rightarrow> refuse (http_Error ''unauthorized'' 401)
               | Inr c \<Rightarrow> next_h (WithClaims None c)))"

section \<open>The interfaces\<close>

text \<open>
  A source of verification keys: a key it gives is on the curve, and bound to the name it was
  asked for by the thumbprint.
\<close>

locale verification_keys =
  fixes cr :: crypto
    and key :: "'k \<Rightarrow> string \<Rightarrow> pubkey result"
    and ok :: "'k \<Rightarrow> bool"
  assumes key_bound: "ok s \<Longrightarrow> key s kid = Inr pub \<Longrightarrow> valid_pub pub \<and> thumbprint cr pub = Inr kid"

text \<open>
  A replay guard with its clock: a token id it has recorded is reported as seen at any later
  call up to the recorded expiry, whatever was asked in between.
\<close>

locale replay_guard =
  fixes seen :: "gotime \<Rightarrow> 'g \<Rightarrow> string \<Rightarrow> gotime \<Rightarrow> bool \<times> 'g"
    and records :: "'g \<Rightarrow> string \<Rightarrow> gotime \<Rightarrow> bool"
  assumes seen_records: "seen now g jti exp = (False, g') \<Longrightarrow> records g' jti exp"
    and seen_keeps: "records g jti exp \<Longrightarrow> \<not> time_After now exp \<Longrightarrow> records (snd (seen now g jti' exp')) jti exp"
    and records_seen: "records g jti exp \<Longrightarrow> \<not> time_After now exp \<Longrightarrow> fst (seen now g jti exp')"
begin

text \<open>The guard after a sequence of calls, each with the time, the id and the expiry.\<close>

fun guard_run :: "'g \<Rightarrow> (gotime \<times> string \<times> gotime) list \<Rightarrow> 'g" where
  "guard_run g [] = g"
| "guard_run g ((now, jti, exp) # cs) = guard_run (snd (seen now g jti exp)) cs"

lemma guard_run_keeps:
  "records g jti exp \<Longrightarrow> \<forall>c \<in> set cs. \<not> time_After (fst c) exp \<Longrightarrow> records (guard_run g cs) jti exp"
  by (induction g cs rule: guard_run.induct) (auto intro: seen_keeps)

lemma no_second_use:
  assumes "seen now g jti exp = (False, g1)"
    and "\<forall>c \<in> set cs. \<not> time_After (fst c) exp" "\<not> time_After now' exp"
  shows "fst (seen now' (guard_run g1 cs) jti exp')"
  using guard_run_keeps [OF seen_records [OF assms(1)] assms(2)] assms(3) by (rule records_seen)

end

interpretation local_keys: verification_keys cr "\<lambda>s kid. local_Key s now kid" "keyset_ok cr" for cr now
proof
  fix s kid pub
  assume a: "keyset_ok cr s" "local_Key s now kid = Inr pub"
  then obtain k where k: "find (\<lambda>k. k_kid k = kid) (live_keys now s) = Some k" "pub = sk_Public (k_priv k)"
    by (auto simp: local_Key_def set_PublicKey_live split: option.splits)
  then have "k \<in> set (live_keys now s)" "k_kid k = kid"
    by (auto dest: find_first_Some)
  with live_keys_ok [OF a(1)] k(2) show "valid_pub pub \<and> thumbprint cr pub = Inr kid"
    by (auto simp: skey_ok_def)
qed

interpretation memory_guard: replay_guard guard_Seen "\<lambda>g jti exp. g jti = Some exp"
  by unfold_locales
    (auto simp: guard_Seen_def guard_purge_def Let_def split: if_splits option.splits)

section \<open>Lemmas\<close>

lemma verifier_New_Inr:
  "verifier_New iss aud hk lee ml = Inr cfg \<Longrightarrow>
     \<not> blank (v_Issuer cfg) \<and> \<not> blank (v_Audience cfg) \<and> 0 < v_Leeway cfg \<and> v_MaxLifetime cfg \<noteq> 0"
  by (auto simp: verifier_New_def split: if_splits)

lemma check_claims_None:
  "check_claims cfg now c = None \<longleftrightarrow>
     c_Issuer c = v_Issuer cfg \<and> c_Audience c = v_Audience cfg \<and> c_Subject c \<noteq> [] \<and> c_ID c \<noteq> []
     \<and> c_Expiry c \<noteq> 0 \<and> \<not> time_After now (time_Add (time_Unix (c_Expiry c)) (v_Leeway cfg))
     \<and> (c_NotBefore c = 0 \<or> \<not> time_Before (time_Add now (v_Leeway cfg)) (time_Unix (c_NotBefore c)))
     \<and> (v_MaxLifetime cfg > 0 \<longrightarrow> c_IssuedAt c \<noteq> 0
         \<and> 0 < time_Sub (time_Unix (c_Expiry c)) (time_Unix (c_IssuedAt c))
         \<and> time_Sub (time_Unix (c_Expiry c)) (time_Unix (c_IssuedAt c)) \<le> v_MaxLifetime cfg
         \<and> \<not> time_After (time_Unix (c_Expiry c)) (time_Add (time_Add now (v_MaxLifetime cfg)) (v_Leeway cfg)))"
  by (simp add: check_claims_def Let_def not_le)

lemma check_claims_sentinel: "check_claims cfg now c = Some e \<Longrightarrow> errors_Is e ErrInvalidToken"
  by (auto simp: check_claims_def invalid_def Let_def split: if_splits)

lemma verify_token_Inr:
  assumes "verify_token cr fp cfg key now token = Inr c"
  obtains hdr body pub where "jwt_Parse token = Inr (hdr, body)" "h_Kid hdr \<noteq> []" "key (h_Kid hdr) = Inr pub"
    "jwt_Verify cr (Some pub) token = Inr body" "claims_UnmarshalJSON fp body = Inr c" "check_claims cfg now c = None"
proof -
  obtain hdr b pub body where v: "jwt_Parse token = Inr (hdr, b)" "h_Kid hdr \<noteq> []" "key (h_Kid hdr) = Inr pub"
    "jwt_Verify cr (Some pub) token = Inr body" "claims_UnmarshalJSON fp body = Inr c" "check_claims cfg now c = None"
    using assms by (auto simp: verify_token_def split: sum.splits prod.splits if_splits option.splits)
  have "b = body"
    by (rule jwt_Verify_Inr [OF v(4)]) (use v(1) in simp)
  with v that show thesis
    by blast
qed

lemma verify_token_sentinel: "verify_token cr fp cfg key now token = Inl e \<Longrightarrow> errors_Is e ErrInvalidToken"
  by (auto simp: verify_token_def invalid_def check_claims_sentinel split: sum.splits prod.splits if_splits option.splits)

lemma claims_times_in_range:
  assumes "claims_UnmarshalJSON fp b = Inr c"
  shows "in_s64 (c_Expiry c) \<and> in_s64 (c_IssuedAt c) \<and> in_s64 (c_NotBefore c)"
proof -
  let ?P = "\<lambda>c. in_s64 (c_Expiry c) \<and> in_s64 (c_IssuedAt c) \<and> in_s64 (c_NotBefore c)"
  obtain j c0 xs where "dec_struct False claims_fields j zero_claims = Some c0" "c = c0\<lparr>c_Extra := xs\<rparr>"
    using assms by (auto simp: claims_UnmarshalJSON_def split: option.splits)
  moreover have "?P v'" if "d \<in> snd ` set claims_fields" "d j v = Some v'" "?P v" for d j v v'
    using that by (auto simp: claims_fields_def fld_def dest: dec_int64_range)
  moreover have "?P zero_claims"
    by (simp add: zero_claims_def in_s64_def)
  ultimately show ?thesis
    using dec_struct_inv [of claims_fields ?P False j zero_claims c0] by simp
qed

section \<open>The time window\<close>

lemma time_Unix_cases:
  assumes "in_s64 x"
  shows "(x + unixToInternal < 2 ^ 63 \<and> tns (time_Unix x) = (x + unixToInternal) * Second)
    \<or> (2 ^ 63 \<le> x + unixToInternal \<and> tns (time_Unix x) < - (3 * 2 ^ 61 * Second))"
proof (cases "x + unixToInternal < 2 ^ 63")
  case True
  with time_Unix_ns [OF assms] show ?thesis by simp
next
  case False
  with assms have "x + unixToInternal - 2 ^ 64 < - (3 * 2 ^ 61)"
    by (simp add: in_s64_def unixToInternal_def)
  then show ?thesis
    using False time_Unix_wrapped [OF assms] by simp
qed

lemma sane_bound: "sane_time t \<Longrightarrow> \<bar>tns t\<bar> \<le> (2 ^ 61 + 1) * Second"
  by (auto simp: sane_time_def tns_def abs_le_iff)

text \<open>The window the time checks leave, in exact nanoseconds.\<close>

lemma check_claims_window:
  assumes "check_claims cfg now c = None" "sane_time now"
    and "in_s64 (c_Expiry c)" "in_s64 (c_IssuedAt c)" "in_s64 (c_NotBefore c)"
    and "0 < v_Leeway cfg" "v_Leeway cfg < 2 ^ 61" "v_MaxLifetime cfg < maxDuration"
  shows "tns now \<le> (c_Expiry c + unixToInternal) * Second + v_Leeway cfg"
    and "c_NotBefore c = 0 \<or> 2 ^ 63 \<le> c_NotBefore c + unixToInternal
      \<or> (c_NotBefore c + unixToInternal) * Second \<le> tns now + v_Leeway cfg"
    and "0 < v_MaxLifetime cfg \<Longrightarrow> c_IssuedAt c < c_Expiry c
      \<and> (c_Expiry c - c_IssuedAt c) * Second \<le> v_MaxLifetime cfg
      \<and> (c_Expiry c + unixToInternal) * Second \<le> tns now + v_MaxLifetime cfg + v_Leeway cfg"
proof -
  note c = iffD1 [OF check_claims_None assms(1)]
  have lee: "in_s64 (v_Leeway cfg)" "0 \<le> v_Leeway cfg"
    using assms(6,7) by (auto simp: in_s64_def)
  let ?E = "time_Unix (c_Expiry c)" and ?I = "time_Unix (c_IssuedAt c)" and ?N = "time_Unix (c_NotBefore c)"
  have now: "valid_time now" "- (2 ^ 62 * Second) \<le> tns now - v_Leeway cfg" "tns now < 2 ^ 62 * Second"
    using assms(2,7) sane_bound [OF assms(2)] by (auto simp: abs_le_iff)
  have "tns now \<le> tns (time_Add ?E (v_Leeway cfg))"
    using c now(1) lee by (auto simp: time_After_ns)
  also have "\<dots> \<le> tns ?E + v_Leeway cfg"
    using time_Add_nonneg_le [of ?E "v_Leeway cfg"] lee by simp
  finally have e: "tns now \<le> tns ?E + v_Leeway cfg" .
  then have E: "tns ?E = (c_Expiry c + unixToInternal) * Second" "c_Expiry c + unixToInternal < 2 ^ 63"
    using time_Unix_cases [OF assms(3)] now(2) by auto
  show "tns now \<le> (c_Expiry c + unixToInternal) * Second + v_Leeway cfg"
    using e E by simp
  show "c_NotBefore c = 0 \<or> 2 ^ 63 \<le> c_NotBefore c + unixToInternal
      \<or> (c_NotBefore c + unixToInternal) * Second \<le> tns now + v_Leeway cfg"
  proof (cases "c_NotBefore c = 0")
    case False
    then have "\<not> time_Before (time_Add now (v_Leeway cfg)) ?N"
      using c by simp
    then have "tns ?N \<le> tns now + v_Leeway cfg"
      using now(1) lee time_Add_sane [OF assms(2) lee(1)] by (simp add: time_Before_ns)
    then show ?thesis
      using time_Unix_cases [OF assms(5)] by auto
  qed simp
  assume m: "0 < v_MaxLifetime cfg"
  have max: "in_s64 (v_MaxLifetime cfg)"
    using m assms(8) by (auto simp: in_s64_def maxDuration_def)
  from m c have sub: "0 < clampdur (tns ?E - tns ?I)" "clampdur (tns ?E - tns ?I) \<le> v_MaxLifetime cfg"
    by (auto simp: time_Sub_eq)
  then have d: "0 < tns ?E - tns ?I" "tns ?E - tns ?I \<le> v_MaxLifetime cfg" "tns ?E - tns ?I < 2 ^ 63"
    using assms(8) by (auto simp: clampdur_def maxDuration_def minDuration_def split: if_splits)
  have I: "tns ?I = (c_IssuedAt c + unixToInternal) * Second"
  proof (rule ccontr)
    assume "tns ?I \<noteq> (c_IssuedAt c + unixToInternal) * Second"
    then have "tns ?I < - (3 * 2 ^ 61 * Second)"
      using time_Unix_cases [OF assms(4)] by auto
    then have "2 ^ 63 \<le> tns ?E - tns ?I"
      using e now(2) by simp
    then show False
      using d by simp
  qed
  have "\<not> time_After ?E (time_Add (time_Add now (v_MaxLifetime cfg)) (v_Leeway cfg))"
    using c m by simp
  then have "tns ?E \<le> tns (time_Add (time_Add now (v_MaxLifetime cfg)) (v_Leeway cfg))"
    using now(1) max lee by (simp add: time_After_ns)
  also have "\<dots> \<le> tns (time_Add now (v_MaxLifetime cfg)) + v_Leeway cfg"
    using time_Add_nonneg_le [of "time_Add now (v_MaxLifetime cfg)" "v_Leeway cfg"] now(1) max lee by simp
  finally have "tns ?E \<le> tns now + v_MaxLifetime cfg + v_Leeway cfg"
    using time_Add_sane [OF assms(2) max] by simp
  then show "c_IssuedAt c < c_Expiry c \<and> (c_Expiry c - c_IssuedAt c) * Second \<le> v_MaxLifetime cfg
      \<and> (c_Expiry c + unixToInternal) * Second \<le> tns now + v_MaxLifetime cfg + v_Leeway cfg"
    using d(1,2) E(1) I by simp
qed

lemma time_Add_within:
  assumes "valid_time t" "\<bar>tns t\<bar> \<le> 2 ^ 62 * Second + 2 ^ 63" "in_s64 d"
  shows "tns (time_Add t d) = tns t + d"
proof -
  have "- (2 ^ 63 * Second) \<le> tns t + d" "tns t + d < 2 ^ 63 * Second"
    using assms(2,3) by (auto simp: in_s64_def abs_le_iff)
  then have "in_s64 ((tns t + d) div Second)"
    unfolding in_s64_def by auto
  with assms(1,3) show ?thesis
    by (intro time_Add_exact)
qed

text \<open>What a minted token gives a verifier that trusts the signer.\<close>

lemma minted_accepted:
  assumes "crypto_ok cr" "keyset_ok cr s" "signer_New iss hk hi ht ttl leeway = Inr cfg" "leeway < 2 ^ 61"
    and mint: "Mint cr fp cfg identify resolve (set_Current s) now idbytes rnd audience tenant = Inr (tok, c)"
    and "claims_ok c" "c_Subject c \<noteq> []" "idbytes \<noteq> Some []" "sane_time now" "Second \<le> sg_TTL cfg"
    and "c_IssuedAt c \<noteq> 0" "c_Expiry c \<noteq> 0"
    and "v_Issuer vcfg = iss" "v_Audience vcfg = audience" "0 < v_Leeway vcfg" "v_Leeway vcfg < 2 ^ 61"
    and "MaxTTL \<le> v_MaxLifetime vcfg" "v_MaxLifetime vcfg < 2 ^ 61"
    and key: "\<And>priv kid. set_Current s = Inr (priv, kid) \<Longrightarrow> key kid = Inr (sk_Public priv)"
    and "sane_time t" "tns now \<le> tns t" "tns t \<le> (c_Expiry c + unixToInternal) * Second + v_Leeway vcfg"
  shows "verify_token cr fp vcfg key t tok = Inr c"
proof -
  obtain i g tn bs where c: "c = mint_claims cfg now i g tn audience (b64 bs)" "idbytes = Some bs"
    and sg: "signClaims cr fp rnd (set_Current s) c = Inr tok" and iss: "sg_Issuer cfg = iss"
    using Mint_Inr [OF mint] signer_New_Inr [OF assms(3)] by metis
  have ttl: "sg_TTL cfg \<le> MaxTTL" and lee: "0 < sg_Leeway cfg" "sg_Leeway cfg < 2 ^ 62"
    using signer_New_Inr [OF assms(3)] assms(3,4) by (auto simp: signer_New_def Let_def split: if_splits)
  obtain priv kid body where k: "set_Current s = Inr (priv, kid)" "kid \<noteq> []" "claims_MarshalJSON fp c = Inr body"
      "jwt_Parse tok = Inr (\<lparr>h_Alg = Alg, h_Typ = Typ, h_Kid = kid\<rparr>, body)"
      "jwt_Verify cr (Some (sk_Public priv)) tok = Inr body"
    using set_keys.signed_token [OF assms(1,2) sg] by metis
  have ex: "c_Extra c = []"
    by (simp add: c(1) mint_claims_def)
  then have "c\<lparr>c_Extra := sort_key fst (c_Extra c)\<rparr> = c"
    by simp
  with claims_roundtrip [OF assms(6), of fp] ex k(3) have u: "claims_UnmarshalJSON fp body = Inr c"
    by (auto simp: extra_ok_def)
  have ranges: "in_s64 (c_Expiry c)" "in_s64 (c_IssuedAt c)" "in_s64 (c_NotBefore c)"
    using assms(6) by (simp_all add: claims_ok_def)
  note life = minted_lifetime [OF assms(3) mint assms(9) order.strict_trans [OF assms(4)], simplified]
  have bound: "tns now < 2 ^ 62 * Second" "- (2 ^ 62 * Second) \<le> tns now"
    using sane_bound [OF assms(9)] by (auto simp: abs_le_iff)
  have top: "c_Expiry c + unixToInternal < 2 ^ 63" "c_IssuedAt c + unixToInternal < 2 ^ 63"
      "c_NotBefore c + unixToInternal < 2 ^ 63"
    using life bound ttl by (auto simp: MaxTTL_def)
  note E = time_Unix_ns [OF ranges(1) top(1)] and I = time_Unix_ns [OF ranges(2) top(2)]
    and N = time_Unix_ns [OF ranges(3) top(3)]
  have vl: "in_s64 (v_Leeway vcfg)" and vm: "in_s64 (v_MaxLifetime vcfg)"
    using assms(15-18) by (auto simp: in_s64_def MaxTTL_def)
  have t: "valid_time t" "tns t < 2 ^ 62 * Second" "- (2 ^ 62 * Second) \<le> tns t"
    using assms(20) sane_bound [OF assms(20)] by (auto simp: abs_le_iff)
  have El: "tns now \<le> (c_Expiry c + unixToInternal) * Second" "c_IssuedAt c < c_Expiry c"
    using life assms(10) by auto
  have "tns (time_Add (time_Unix (c_Expiry c)) (v_Leeway vcfg)) = (c_Expiry c + unixToInternal) * Second + v_Leeway vcfg"
    using time_Add_within [of "time_Unix (c_Expiry c)" "v_Leeway vcfg"] E vl El(1) life bound ttl
    by (auto simp: MaxTTL_def abs_le_iff)
  then have c1: "\<not> time_After t (time_Add (time_Unix (c_Expiry c)) (v_Leeway vcfg))"
    using t(1) vl assms(22) by (simp add: time_After_ns)
  have c2: "\<not> time_Before (time_Add t (v_Leeway vcfg)) (time_Unix (c_NotBefore c))"
    using t(1) vl N time_Add_sane [OF assms(20) vl] life assms(15,21) by (simp add: time_Before_ns)
  have c3: "time_Sub (time_Unix (c_Expiry c)) (time_Unix (c_IssuedAt c)) = (c_Expiry c - c_IssuedAt c) * Second"
    using E I life ttl by (simp add: time_Sub_eq clampdur_def MaxTTL_def algebra_simps)
  have "tns (time_Add (time_Add t (v_MaxLifetime vcfg)) (v_Leeway vcfg)) = tns t + v_MaxLifetime vcfg + v_Leeway vcfg"
    using time_Add_within [of "time_Add t (v_MaxLifetime vcfg)" "v_Leeway vcfg"] time_Add_sane [OF assms(20) vm]
      t vl vm assms(17,18) by (auto simp: MaxTTL_def abs_le_iff)
  then have c4: "\<not> time_After (time_Unix (c_Expiry c)) (time_Add (time_Add t (v_MaxLifetime vcfg)) (v_Leeway vcfg))"
    using t(1) vl vm E life ttl assms(15,17,21) by (simp add: time_After_ns)
  have "check_claims vcfg t c = None"
    unfolding check_claims_None
    using c1 c2 c3 c4 El(2) life ttl assms(7,8,11-14,17) iss c by (auto simp: mint_claims_def)
  with k(2,4,5) u key [OF k(1)] show ?thesis
    by (simp add: verify_token_def)
qed

lemma Verify_Inr:
  "fst (Verify cr fp cfg key now seen guard token) = Inr c \<Longrightarrow> verify_token cr fp cfg key now token = Inr c"
  by (auto simp: Verify_def split: sum.splits option.splits prod.splits bool.splits)

section \<open>Properties\<close>

text \<open>
  C2 (what an accepted token is).  An accepted token is signed by the key the source gives for
  the key id in its header, and its claims name this issuer, this audience, a subject and an
  id.  In exact nanoseconds the clock has not passed its expiry by more than the leeway, nor is
  its \<open>nbf\<close> ahead by more; under a lifetime limit it was issued before it expires, by at most
  the limit, and expires no later than the limit plus the leeway from now, however its times
  wrap around in 64 bits (a \<open>nbf\<close> past the range of \<open>time.Time\<close> is the one that gets through).
\<close>

theorem verify_accepts_only:
  assumes "fst (Verify cr fp cfg key now seen guard token) = Inr c"
    and "sane_time now" "0 < v_Leeway cfg" "v_Leeway cfg < 2 ^ 61" "v_MaxLifetime cfg < maxDuration"
  shows "(\<exists>hdr body pub. jwt_Parse token = Inr (hdr, body) \<and> h_Kid hdr \<noteq> [] \<and> key (h_Kid hdr) = Inr pub
        \<and> jwt_Verify cr (Some pub) token = Inr body \<and> claims_UnmarshalJSON fp body = Inr c)
    \<and> c_Issuer c = v_Issuer cfg \<and> c_Audience c = v_Audience cfg \<and> c_Subject c \<noteq> [] \<and> c_ID c \<noteq> []
    \<and> tns now \<le> (c_Expiry c + unixToInternal) * Second + v_Leeway cfg
    \<and> (c_NotBefore c = 0 \<or> 2 ^ 63 \<le> c_NotBefore c + unixToInternal
       \<or> (c_NotBefore c + unixToInternal) * Second \<le> tns now + v_Leeway cfg)
    \<and> (0 < v_MaxLifetime cfg \<longrightarrow> c_IssuedAt c < c_Expiry c
        \<and> (c_Expiry c - c_IssuedAt c) * Second \<le> v_MaxLifetime cfg
        \<and> (c_Expiry c + unixToInternal) * Second \<le> tns now + v_MaxLifetime cfg + v_Leeway cfg)"
proof (rule verify_token_Inr [OF Verify_Inr [OF assms(1)]])
  fix hdr body pub
  assume v: "jwt_Parse token = Inr (hdr, body)" "h_Kid hdr \<noteq> []" "key (h_Kid hdr) = Inr pub"
    "jwt_Verify cr (Some pub) token = Inr body" "claims_UnmarshalJSON fp body = Inr c" "check_claims cfg now c = None"
  note r = claims_times_in_range [OF v(5)]
  note w = check_claims_window [OF v(6) assms(2) r [THEN conjunct1] r [THEN conjunct2, THEN conjunct1]
      r [THEN conjunct2, THEN conjunct2] assms(3-5)]
  from v w iffD1 [OF check_claims_None v(6)] show ?thesis
    by blast
qed

definition example_vcfg :: verifier_cfg where
  "example_vcfg = \<lparr>v_Issuer = ''iss'', v_Audience = ''svc'', v_Leeway = Minute, v_MaxLifetime = 15 * Minute\<rparr>"

lemma example_accepted:
  assumes "example_mint = Inr (tok, example_minted)" "sane_time t"
    and "tns (time_Unix 1700000000) \<le> tns t" "tns t \<le> tns (time_Unix 1700000360)"
  shows "verify_token toy_crypto (\<lambda>_. None) example_vcfg (local_Key toy_set t) t tok = Inr example_minted"
proof -
  have "\<not> blank ''iss''" by code_simp
  then have n: "signer_New ''iss'' True True True 0 0 = Inr example_cfg"
    by (simp add: signer_New_def DefaultTTL_def MaxTTL_def example_cfg_def Let_def)
  have x: "claims_ok example_minted" "sane_time (time_Unix 1700000000)" "c_Subject example_minted \<noteq> []"
      "c_IssuedAt example_minted \<noteq> 0" "c_Expiry example_minted = 1700000300"
    by code_simp+
  have k: "local_Key toy_set t kid = Inr (sk_Public priv)" if "set_Current toy_set = Inr (priv, kid)" for priv kid
    using set_current_published [OF toy_set_ok that] by (simp add: local_Key_def)
  have e: "tns (time_Unix 1700000360) = (1700000300 + unixToInternal) * Second + Minute"
    by (simp add: time_Unix_ns in_s64_def unixToInternal_def)
  show ?thesis
    by (rule minted_accepted [OF toy_crypto_ok toy_set_ok n _ assms(1) [unfolded example_mint_def] x(1,3) _ x(2)
          _ x(4) _ _ _ _ _ _ _ k assms(2,3)])
      (use assms(4) x(5) e in \<open>simp_all add: example_cfg_def example_vcfg_def MaxTTL_def\<close>)
qed

theorem verify_accepts_only_witness:
  "\<exists>tok. fst (Verify toy_crypto (\<lambda>_. None) example_vcfg (local_Key toy_set (time_Unix 1700000100))
      (time_Unix 1700000100) (guard_Seen (time_Unix 1700000100)) None tok) = Inr example_minted
    \<and> c_Audience example_minted = v_Audience example_vcfg"
proof -
  let ?t = "time_Unix 1700000100"
  obtain tok where m: "example_mint = Inr (tok, example_minted)"
    using example_mint by blast
  have t: "sane_time ?t" "tns (time_Unix 1700000000) \<le> tns ?t" "tns ?t \<le> tns (time_Unix 1700000360)"
    by code_simp+
  have v: "fst (Verify toy_crypto (\<lambda>_. None) example_vcfg (local_Key toy_set ?t) ?t (guard_Seen ?t) None tok)
      = Inr example_minted"
    by (simp add: Verify_def example_accepted [OF m t])
  from verify_accepts_only [OF this t(1)] v show ?thesis
    by (auto simp: example_vcfg_def maxDuration_def)
qed

text \<open>
  C11 (a minted token is accepted).  What a signer mints, a verifier of the same issuer and the
  requested audience accepts, with the same claims, from the instant of minting up to the
  expiry plus its leeway, when its key source knows the signer's current key and its lifetime
  limit is at least \<open>MaxTTL\<close>.
\<close>

theorem minted_token_verifies:
  assumes "crypto_ok cr" "keyset_ok cr s" "signer_New iss hk hi ht ttl leeway = Inr cfg" "leeway < 2 ^ 61"
    and "Mint cr fp cfg identify resolve (set_Current s) now idbytes rnd audience tenant = Inr (tok, c)"
    and "claims_ok c" "c_Subject c \<noteq> []" "idbytes \<noteq> Some []" "sane_time now" "Second \<le> sg_TTL cfg"
    and "c_IssuedAt c \<noteq> 0" "c_Expiry c \<noteq> 0"
    and "v_Issuer vcfg = iss" "v_Audience vcfg = audience" "0 < v_Leeway vcfg" "v_Leeway vcfg < 2 ^ 61"
    and "MaxTTL \<le> v_MaxLifetime vcfg" "v_MaxLifetime vcfg < 2 ^ 61"
    and "\<And>priv kid. set_Current s = Inr (priv, kid) \<Longrightarrow> key kid = Inr (sk_Public priv)"
    and "sane_time t" "tns now \<le> tns t" "tns t \<le> (c_Expiry c + unixToInternal) * Second + v_Leeway vcfg"
  shows "fst (Verify cr fp vcfg key t seen None tok) = Inr c"
  using minted_accepted [OF assms] by (simp add: Verify_def)

theorem minted_token_verifies_witness:
  "\<exists>tok. fst (Verify toy_crypto (\<lambda>_. None) example_vcfg (local_Key toy_set (time_Unix 1700000200))
      (time_Unix 1700000200) (guard_Seen (time_Unix 0)) None tok) = Inr example_minted"
proof -
  have "\<not> blank ''iss''" by code_simp
  then have n: "signer_New ''iss'' True True True 0 0 = Inr example_cfg"
    by (simp add: signer_New_def DefaultTTL_def MaxTTL_def example_cfg_def Let_def)
  have x: "claims_ok example_minted" "sane_time (time_Unix 1700000000)" "c_Subject example_minted \<noteq> []"
      "c_IssuedAt example_minted \<noteq> 0" "c_Expiry example_minted = 1700000300"
      "sane_time (time_Unix 1700000200)" "tns (time_Unix 1700000000) \<le> tns (time_Unix 1700000200)"
    by code_simp+
  obtain tok where m: "example_mint = Inr (tok, example_minted)"
    using example_mint by blast
  have k: "local_Key toy_set t kid = Inr (sk_Public priv)" if "set_Current toy_set = Inr (priv, kid)" for priv kid t
    using set_current_published [OF toy_set_ok that] by (simp add: local_Key_def)
  have "fst (Verify toy_crypto (\<lambda>_. None) example_vcfg (local_Key toy_set (time_Unix 1700000200))
      (time_Unix 1700000200) (guard_Seen (time_Unix 0)) None tok) = Inr example_minted"
    by (rule minted_token_verifies [OF toy_crypto_ok toy_set_ok n _ m [unfolded example_mint_def] x(1,3) _ x(2)
          _ x(4) _ _ _ _ _ _ _ k x(6,7)])
      (use x(5) in \<open>simp_all add: example_cfg_def example_vcfg_def MaxTTL_def time_Unix_ns in_s64_def unixToInternal_def\<close>)
  then show ?thesis
    by blast
qed

lemma guard_purge_again: "gnow \<le> gnow2 \<Longrightarrow> guard_purge gnow2 (guard_purge gnow g) = guard_purge gnow2 g"
  by (rule ext) (auto simp: guard_purge_def time_After_less split: option.splits)

lemma guard_Seen_purged: "gnow \<le> gnow2 \<Longrightarrow> guard_Seen gnow2 (guard_purge gnow g) jti exp = guard_Seen gnow2 g jti exp"
  by (simp add: guard_Seen_def guard_purge_again)

lemma Verify_refused:
  assumes "Verify cr fp cfg key now (guard_Seen gnow) guard token = (Inl e, guard')"
  shows "errors_Is e ErrInvalidToken"
    and "case verify_token cr fp cfg key now token of
        Inl e' \<Rightarrow> e' = e \<and> guard' = guard
      | Inr c \<Rightarrow> \<exists>g t. guard = Some g \<and> g (c_ID c) = Some t \<and> gnow \<le> t \<and> guard' = Some (guard_purge gnow g)"
  using assms
  by (auto simp: Verify_def invalid_def guard_Seen_def guard_purge_def Let_def time_After_less verify_token_sentinel not_less
      split: sum.splits option.splits if_splits)

lemma Verify_refused_again:
  assumes "Verify cr fp cfg key now (guard_Seen gnow) guard token = (Inl e, guard')" "gnow \<le> gnow2"
  shows "fst (Verify cr fp cfg2 key2 now2 (guard_Seen gnow2) guard' token2)
    = fst (Verify cr fp cfg2 key2 now2 (guard_Seen gnow2) guard token2)"
proof (cases "verify_token cr fp cfg key now token")
  case (Inl e')
  with Verify_refused(2) [OF assms(1)] show ?thesis
    by simp
next
  case (Inr c)
  with Verify_refused(2) [OF assms(1)] obtain g where "guard = Some g" "guard' = Some (guard_purge gnow g)"
    by auto
  then show ?thesis
    by (simp add: Verify_def guard_Seen_purged [OF assms(2)] split: sum.splits)
qed

text \<open>
  C24 (uniform refusal).  Every refusal, the one of a replayed token included, is an
  \<open>ErrInvalidToken\<close>.  A token that fails a check leaves the replay guard as it was; one that fails
  none is refused only when the memory guard holds an unexpired record of its id, and then the guard
  drops expired records and records nothing.  So a refused token uses up no id: every token
  presented later, to this verifier or to another on the same guard, is accepted or refused as if
  the refused one had never been presented.
\<close>

theorem verify_refusal:
  assumes "Verify cr fp cfg key now (guard_Seen gnow) guard token = (Inl e, guard')"
  shows "errors_Is e ErrInvalidToken
   \<and> (case verify_token cr fp cfg key now token of
        Inl e' \<Rightarrow> e' = e \<and> guard' = guard
      | Inr c \<Rightarrow> \<exists>g t. guard = Some g \<and> g (c_ID c) = Some t \<and> gnow \<le> t \<and> guard' = Some (guard_purge gnow g))
   \<and> (\<forall>cfg2 key2 now2 gnow2 token2. gnow \<le> gnow2 \<longrightarrow>
        fst (Verify cr fp cfg2 key2 now2 (guard_Seen gnow2) guard' token2)
          = fst (Verify cr fp cfg2 key2 now2 (guard_Seen gnow2) guard token2))"
  using Verify_refused [OF assms] Verify_refused_again [OF assms] by blast

text \<open>
  C20 (replay).  After the memory guard has let a token through, no token with the same id is
  accepted as long as the guard's clock has not passed the first one's expiry, whatever
  happens in between.
\<close>

theorem replay_refused:
  assumes "Verify cr fp cfg key t1 (guard_Seen g1) (Some g) tok = (Inr c, Some g')"
    and "\<forall>call \<in> set calls. \<not> time_After (fst call) (time_Unix (c_Expiry c))"
    and "\<not> time_After g2 (time_Unix (c_Expiry c))"
    and "fst (Verify cr fp cfg' key' t2 (guard_Seen g2) (Some (memory_guard.guard_run g' calls)) tok') = Inr c'"
  shows "c_ID c' \<noteq> c_ID c"
proof
  assume i: "c_ID c' = c_ID c"
  have s: "guard_Seen g1 g (c_ID c) (time_Unix (c_Expiry c)) = (False, g')"
    using assms(1) by (auto simp: Verify_def split: sum.splits prod.splits bool.splits)
  have "fst (guard_Seen g2 (memory_guard.guard_run g' calls) (c_ID c) (time_Unix (c_Expiry c')))"
    using memory_guard.no_second_use [OF s assms(2,3)] .
  with assms(4) i show False
    by (auto simp: Verify_def split: sum.splits prod.splits bool.splits)
qed

theorem replay_refused_witness:
  "\<not> (fst (Verify toy_crypto (\<lambda>_. None) example_vcfg (local_Key toy_set (time_Unix 1700000200)) (time_Unix 1700000200)
      (guard_Seen (time_Unix 1700000200)) (Some [c_ID example_minted \<mapsto> time_Unix 1700000300])
      (case example_mint of Inr (tok, _) \<Rightarrow> tok)) = Inr example_minted)"
proof
  let ?t = "time_Unix 1700000200"
  assume a: "fst (Verify toy_crypto (\<lambda>_. None) example_vcfg (local_Key toy_set ?t) ?t
      (guard_Seen ?t) (Some [c_ID example_minted \<mapsto> time_Unix 1700000300])
      (case example_mint of Inr (tok, _) \<Rightarrow> tok)) = Inr example_minted"
  obtain tok where m: "example_mint = Inr (tok, example_minted)"
    using example_mint by blast
  have t: "sane_time ?t" "tns (time_Unix 1700000000) \<le> tns ?t" "tns ?t \<le> tns (time_Unix 1700000360)"
      "c_Expiry example_minted = 1700000300" "\<not> time_After ?t (time_Unix 1700000300)"
    by code_simp+
  have f: "Verify toy_crypto (\<lambda>_. None) example_vcfg (local_Key toy_set ?t) ?t (guard_Seen ?t) (Some Map.empty) tok
      = (Inr example_minted, Some [c_ID example_minted \<mapsto> time_Unix 1700000300])"
    using t(4) by (simp add: Verify_def example_accepted [OF m t(1-3)] guard_Seen_def guard_purge_def)
  have again: "fst (Verify toy_crypto (\<lambda>_. None) example_vcfg (local_Key toy_set ?t) ?t (guard_Seen ?t)
      (Some (memory_guard.guard_run [c_ID example_minted \<mapsto> time_Unix 1700000300] [])) tok) = Inr example_minted"
    using a [unfolded m sum.case prod.case] by simp
  show False
    using replay_refused [OF f _ _ again] t(4,5) by simp
qed

text \<open>A token replayed, and then another: the guard has dropped an expired record, no more.\<close>

theorem verify_refusal_witness:
  "\<exists>tok e. Verify toy_crypto (\<lambda>_. None) example_vcfg (local_Key toy_set (time_Unix 1700000200)) (time_Unix 1700000200)
      (guard_Seen (time_Unix 1700000200)) (Some [c_ID example_minted \<mapsto> time_Unix 1700000300, ''old'' \<mapsto> time_Unix 1700000100]) tok
        = (Inl e, Some [c_ID example_minted \<mapsto> time_Unix 1700000300]) \<and> errors_Is e ErrInvalidToken"
proof -
  let ?t = "time_Unix 1700000200" and ?g = "[c_ID example_minted \<mapsto> time_Unix 1700000300, ''old'' \<mapsto> time_Unix 1700000100]"
  obtain tok where m: "example_mint = Inr (tok, example_minted)"
    using example_mint by blast
  have t: "sane_time ?t" "tns (time_Unix 1700000000) \<le> tns ?t" "tns ?t \<le> tns (time_Unix 1700000360)"
      "\<not> time_After ?t (time_Unix 1700000300)" "time_After ?t (time_Unix 1700000100)" "c_ID example_minted \<noteq> ''old''"
    by code_simp+
  have p: "guard_purge ?t ?g = [c_ID example_minted \<mapsto> time_Unix 1700000300]"
    using t(4-6) by (auto simp: guard_purge_def fun_eq_iff)
  have v: "Verify toy_crypto (\<lambda>_. None) example_vcfg (local_Key toy_set ?t) ?t (guard_Seen ?t) (Some ?g) tok
      = (Inl (invalid ''token id replayed''), Some [c_ID example_minted \<mapsto> time_Unix 1700000300])"
    by (simp add: Verify_def example_accepted [OF m t(1-3)] guard_Seen_def p)
  from verify_refusal [OF v] v show ?thesis
    by blast
qed

text \<open>
  Past the expiry the guard forgets the id, but the token is still accepted for the length of
  the leeway: in that window a captured token can be used again.
\<close>

lemma replay_within_leeway:
  assumes "verify_token cr fp cfg key t1 tok = Inr c" "verify_token cr fp cfg key t2 tok = Inr c"
    and "time_After t2 (time_Unix (c_Expiry c))"
  shows "Verify cr fp cfg key t1 (guard_Seen t1) (Some Map.empty) tok = (Inr c, Some [c_ID c \<mapsto> time_Unix (c_Expiry c)])"
    and "fst (Verify cr fp cfg key t2 (guard_Seen t2) (Some [c_ID c \<mapsto> time_Unix (c_Expiry c)]) tok) = Inr c"
  using assms by (auto simp: Verify_def guard_Seen_def guard_purge_def Let_def)

lemma replay_within_leeway_happens:
  "\<exists>tok g. fst (Verify toy_crypto (\<lambda>_. None) example_vcfg (local_Key toy_set (time_Unix 1700000200)) (time_Unix 1700000200)
        (guard_Seen (time_Unix 1700000200)) (Some Map.empty) tok) = Inr example_minted
    \<and> snd (Verify toy_crypto (\<lambda>_. None) example_vcfg (local_Key toy_set (time_Unix 1700000200)) (time_Unix 1700000200)
        (guard_Seen (time_Unix 1700000200)) (Some Map.empty) tok) = Some g
    \<and> fst (Verify toy_crypto (\<lambda>_. None) example_vcfg (local_Key toy_set (time_Unix 1700000310)) (time_Unix 1700000310)
        (guard_Seen (time_Unix 1700000310)) (Some g) tok) = Inr example_minted"
proof -
  obtain tok where m: "example_mint = Inr (tok, example_minted)"
    using example_mint by blast
  have t: "sane_time (time_Unix 1700000200)" "tns (time_Unix 1700000000) \<le> tns (time_Unix 1700000200)"
      "tns (time_Unix 1700000200) \<le> tns (time_Unix 1700000360)"
      "sane_time (time_Unix 1700000310)" "tns (time_Unix 1700000000) \<le> tns (time_Unix 1700000310)"
      "tns (time_Unix 1700000310) \<le> tns (time_Unix 1700000360)"
      "time_After (time_Unix 1700000310) (time_Unix (c_Expiry example_minted))"
    by code_simp+
  show ?thesis
    using t(7) by (intro exI [of _ tok] exI [of _ "[c_ID example_minted \<mapsto> time_Unix (c_Expiry example_minted)]"])
      (simp add: Verify_def example_accepted [OF m t(1-3)] example_accepted [OF m t(4-6)] guard_Seen_def guard_purge_def)
qed

text \<open>
  The middleware.  The handler runs only with claims that \<open>Verify\<close> returned for the token
  in the request's first assertion header, bare or after \<open>Bearer\<close>, and finds them in its
  context; every other request gets the same 401, which says nothing of the reason.
\<close>

theorem middleware_guards_handler:
  "case Middleware header verify (\<lambda>ctx. Inr (ClaimsFrom ctx)) Inl h of
     Inr (c, found) \<Rightarrow> found \<and> (\<exists>tok. tok \<noteq> [] \<and> fst (verify tok) = Inr c
         \<and> (hdr_Get h (if header = [] then DefaultHeader else header) = tok
            \<or> hdr_Get h (if header = [] then DefaultHeader else header) = ''Bearer '' @ tok))
   | Inl r \<Rightarrow> r = http_Error ''unauthorized'' 401"
  by (auto simp: Middleware_def Let_def WithClaims_def ClaimsFrom_def CutPrefix_Some
      split: sum.splits option.splits if_splits)

end
