(* ===== verification/Remote.thy ===== *)
theory Remote
  imports Verifier
begin

text \<open>
  \<open>verifier/remote.go\<close>: the key source that fetches a signer's key set over HTTP and caches it.
  Its state is the record \<open>remote\<close>; a call takes the outcome of the fetch it may make (a status
  with a body, or an error of the client) and the clock readings \<open>t0\<close> (in \<open>Key\<close>), \<open>t1\<close> (at
  the start of \<open>refresh\<close>) and \<open>t2\<close> (at its end, or for the age of the cache after a failure).
  Calls are taken one at a time.
\<close>

record remote_cfg =
  rc_TTL :: duration
  rc_MinRefetch :: duration
  rc_MaxStale :: duration

record remote =
  r_byKid :: "string \<rightharpoonup> pubkey"
  r_fetchedAt :: gotime
  r_lastTry :: gotime

definition remote_init :: remote where
  "remote_init = \<lparr>r_byKid = Map.empty, r_fetchedAt = zero_time, r_lastTry = zero_time\<rparr>"

definition jwkToPublic :: "crypto \<Rightarrow> jwk \<Rightarrow> pubkey result" where
  "jwkToPublic cr j =
     (if j_Kty j \<noteq> ''EC'' \<or> j_Crv j \<noteq> ''P-256'' then Inl (Error Plain ''unsupported key type'')
      else if j_Alg j \<noteq> [] \<and> j_Alg j \<noteq> ''ES256'' then Inl (Error Plain ''unsupported alg'')
      else if j_Use j \<noteq> [] \<and> j_Use j \<noteq> ''sig'' then Inl (Error Plain ''key is not for signatures'')
      else
        (case PublicFromXY (j_X j) (j_Y j) of
           Inl e \<Rightarrow> Inl e
         | Inr pub \<Rightarrow>
             (case thumbprint cr pub of
                Inl e \<Rightarrow> Inl e
              | Inr tp \<Rightarrow> if j_Kid j \<noteq> tp then Inl (Error Plain ''kid does not match key thumbprint'') else Inr pub)))"

definition zero_jwk :: jwk where
  "zero_jwk = \<lparr>j_Kty = [], j_Crv = [], j_Kid = [], j_Use = [], j_Alg = [], j_X = [], j_Y = []\<rparr>"

definition jwk_fields :: "jwk fields" where
  "jwk_fields =
     [fld ''kty'' dec_string j_Kty (\<lambda>x. j_Kty_update (\<lambda>_. x)),
      fld ''crv'' dec_string j_Crv (\<lambda>x. j_Crv_update (\<lambda>_. x)),
      fld ''kid'' dec_string j_Kid (\<lambda>x. j_Kid_update (\<lambda>_. x)),
      fld ''use'' dec_string j_Use (\<lambda>x. j_Use_update (\<lambda>_. x)),
      fld ''alg'' dec_string j_Alg (\<lambda>x. j_Alg_update (\<lambda>_. x)),
      fld ''x'' dec_string j_X (\<lambda>x. j_X_update (\<lambda>_. x)),
      fld ''y'' dec_string j_Y (\<lambda>x. j_Y_update (\<lambda>_. x))]"

text \<open>The capped body through \<open>json.Decoder\<close>.\<close>

definition jwks_limit :: nat where "jwks_limit = 1048576"

definition parse_jwks :: "bytes \<Rightarrow> jwk list option" where
  "parse_jwks body =
     Option.bind (json_Decode (take jwks_limit body))
       (\<lambda>j. dec_struct False [fld ''keys'' (dec_slice (dec_struct False jwk_fields) zero_jwk) id (\<lambda>x _. x)] j [])"

text \<open>The loop over the set: keys that cannot be used are skipped.\<close>

fun usable_keys :: "crypto \<Rightarrow> jwk list \<Rightarrow> (string \<rightharpoonup> pubkey) \<Rightarrow> (string \<rightharpoonup> pubkey)" where
  "usable_keys cr [] m = m"
| "usable_keys cr (j # js) m =
     (case jwkToPublic cr j of Inl _ \<Rightarrow> usable_keys cr js m | Inr pub \<Rightarrow> usable_keys cr js (m(j_Kid j \<mapsto> pub)))"

definition refresh :: "crypto \<Rightarrow> remote_cfg \<Rightarrow> bool \<Rightarrow> gotime \<Rightarrow> gotime \<Rightarrow> (int \<times> bytes) result \<Rightarrow> remote
   \<Rightarrow> remote \<times> error option" where
  "refresh cr cfg rateLimit t1 t2 fetch r =
     (let minGap = (if rc_MinRefetch cfg \<le> 0 then 30 * Second else rc_MinRefetch cfg)
      in if rateLimit \<and> \<not> IsZero (r_lastTry r) \<and> time_Sub t1 (r_lastTry r) < minGap
         then (r, Some (Error ErrNoKey ''key set refetch is rate limited''))
         else
           (let r1 = r\<lparr>r_lastTry := t1\<rparr>
            in case fetch of
                 Inl e \<Rightarrow> (r1, Some (Error ErrNoKey ''fetch key set''))
               | Inr (status, body) \<Rightarrow>
                   if status \<noteq> 200 then (r1, Some (Error ErrNoKey ''key set returned''))
                   else
                     (case parse_jwks body of
                        None \<Rightarrow> (r1, Some (Error ErrNoKey ''key set is not JSON''))
                      | Some js \<Rightarrow>
                          (let parsed = usable_keys cr js Map.empty
                           in if list_all (\<lambda>j. parsed (j_Kid j) = None) js
                              then (r1, Some (Error ErrNoKey ''key set held no usable ES256 key''))
                              else (r1\<lparr>r_byKid := parsed, r_fetchedAt := t2\<rparr>, None)))))"

definition remote_Key :: "crypto \<Rightarrow> remote_cfg \<Rightarrow> gotime \<Rightarrow> gotime \<Rightarrow> gotime \<Rightarrow> (int \<times> bytes) result \<Rightarrow> remote \<Rightarrow> string
   \<Rightarrow> remote \<times> pubkey result" where
  "remote_Key cr cfg t0 t1 t2 fetch r kid =
     (let ttl = (if rc_TTL cfg \<le> 0 then 5 * Minute else rc_TTL cfg);
          maxStale = (if rc_MaxStale cfg \<le> 0 then Hour else rc_MaxStale cfg);
          fresh = time_Sub t0 (r_fetchedAt r) < ttl
      in case r_byKid r kid of
           Some k \<Rightarrow>
             if fresh then (r, Inr k)
             else
               (case refresh cr cfg False t1 t2 fetch r of
                  (r', Some e) \<Rightarrow>
                    if time_Sub t2 (r_fetchedAt r') \<le> maxStale then (r', Inr k)
                    else (r', Inl (Error ErrNoKey ''cached key set is old and unreachable''))
                | (r', None) \<Rightarrow>
                    (case r_byKid r' kid of
                       Some k2 \<Rightarrow> (r', Inr k2)
                     | None \<Rightarrow> (r', Inl (Error ErrNoKey ''kid was withdrawn''))))
         | None \<Rightarrow>
             (case refresh cr cfg True t1 t2 fetch r of
                (r', Some e) \<Rightarrow> (r', Inl e)
              | (r', None) \<Rightarrow>
                  (case r_byKid r' kid of
                     Some k \<Rightarrow> (r', Inr k)
                   | None \<Rightarrow> (r', Inl (Error ErrNoKey ''kid is not in the published set'')))))"

section \<open>The invariant: cached keys are bound to their names\<close>

definition remote_ok :: "crypto \<Rightarrow> remote \<Rightarrow> bool" where
  "remote_ok cr r \<longleftrightarrow> (\<forall>kid pub. r_byKid r kid = Some pub \<longrightarrow> valid_pub pub \<and> thumbprint cr pub = Inr kid)"

lemma jwkToPublic_Inr:
  "jwkToPublic cr j = Inr pub \<Longrightarrow> valid_pub pub \<and> thumbprint cr pub = Inr (j_Kid j)"
  by (auto simp: jwkToPublic_def split: if_splits sum.splits dest: PublicFromXY_valid)

lemma usable_keys_bound:
  "usable_keys cr js m kid = Some pub \<Longrightarrow>
     m kid = Some pub \<or> (valid_pub pub \<and> thumbprint cr pub = Inr kid)"
  by (induction cr js m rule: usable_keys.induct)
    (auto split: sum.splits if_splits dest: jwkToPublic_Inr)

lemma refresh_cases:
  "refresh cr cfg rl t1 t2 fetch r = (r', res) \<Longrightarrow>
     (case res of
        Some e \<Rightarrow> errors_Is e ErrNoKey \<and> r_byKid r' = r_byKid r \<and> r_fetchedAt r' = r_fetchedAt r
      | None \<Rightarrow> r_fetchedAt r' = t2 \<and> r_lastTry r' = t1
          \<and> (\<exists>body js. fetch = Inr (200, body) \<and> parse_jwks body = Some js \<and> r_byKid r' = usable_keys cr js Map.empty))"
  by (auto simp: refresh_def Let_def split: if_splits sum.splits prod.splits option.splits)

lemma refresh_ok:
  assumes "refresh cr cfg rl t1 t2 fetch r = (r', res)" "remote_ok cr r"
  shows "remote_ok cr r'"
  using refresh_cases [OF assms(1)] assms(2)
  by (cases res) (auto simp: remote_ok_def dest: usable_keys_bound)

lemma remote_Key_ok:
  assumes "remote_Key cr cfg t0 t1 t2 fetch r kid = (r', res)" "remote_ok cr r"
  shows "remote_ok cr r' \<and> (case res of Inr pub \<Rightarrow> valid_pub pub \<and> thumbprint cr pub = Inr kid
    | Inl e \<Rightarrow> errors_Is e ErrNoKey)"
proof (cases "r_byKid r kid")
  case None
  obtain rb eb where b: "refresh cr cfg True t1 t2 fetch r = (rb, eb)"
    by (cases "refresh cr cfg True t1 t2 fetch r")
  have ok: "remote_ok cr rb"
    by (rule refresh_ok [OF b assms(2)])
  show ?thesis
  proof (cases eb)
    case (Some e)
    then have "r' = rb" "res = Inl e"
      using assms(1) None b by (simp_all add: remote_Key_def Let_def)
    with ok refresh_cases [OF b] Some show ?thesis
      by simp
  next
    case None
    then have "r' = rb" "res = (case r_byKid rb kid of Some k \<Rightarrow> Inr k
        | None \<Rightarrow> Inl (Error ErrNoKey ''kid is not in the published set''))"
      using assms(1) \<open>r_byKid r kid = None\<close> b by (auto simp: remote_Key_def Let_def split: option.splits)
    with ok show ?thesis
      by (auto simp: remote_ok_def split: option.splits)
  qed
next
  case (Some k)
  obtain ra ea where a: "refresh cr cfg False t1 t2 fetch r = (ra, ea)"
    by (cases "refresh cr cfg False t1 t2 fetch r")
  have ok: "remote_ok cr ra"
    by (rule refresh_ok [OF a assms(2)])
  have k: "valid_pub k \<and> thumbprint cr k = Inr kid"
    using assms(2) Some by (simp add: remote_ok_def)
  have "(r' = r \<or> r' = ra) \<and> (res = Inr k \<or> (\<exists>k2. r_byKid ra kid = Some k2 \<and> res = Inr k2)
      \<or> (\<exists>d. res = Inl (Error ErrNoKey d)))"
    using assms(1) Some a by (auto simp: remote_Key_def Let_def split: if_splits option.splits)
  with k ok assms(2) show ?thesis
    by (auto simp: remote_ok_def)
qed

text \<open>One call on the cache as a key source: the endpoint and the clock are whatever they are.\<close>

interpretation remote_keys: verification_keys cr
  "\<lambda>r kid. snd (remote_Key cr cfg t0 t1 t2 fetch r kid)" "remote_ok cr"
  for cr cfg t0 t1 t2 fetch
proof
  fix r kid pub
  assume a: "remote_ok cr r" "snd (remote_Key cr cfg t0 t1 t2 fetch r kid) = Inr pub"
  obtain r' res where "remote_Key cr cfg t0 t1 t2 fetch r kid = (r', res)"
    by (cases "remote_Key cr cfg t0 t1 t2 fetch r kid")
  with remote_Key_ok [OF this a(1)] a(2) show "valid_pub pub \<and> thumbprint cr pub = Inr kid"
    by simp
qed

text \<open>The state after a sequence of calls.\<close>

type_synonym remote_call = "gotime \<times> gotime \<times> gotime \<times> (int \<times> bytes) result \<times> string"

fun remote_run :: "crypto \<Rightarrow> remote_cfg \<Rightarrow> remote_call list \<Rightarrow> remote \<Rightarrow> remote" where
  "remote_run cr cfg [] r = r"
| "remote_run cr cfg ((t0, t1, t2, fetch, kid) # cs) r =
     remote_run cr cfg cs (fst (remote_Key cr cfg t0 t1 t2 fetch r kid))"

lemma remote_run_ok: "remote_ok cr r \<Longrightarrow> remote_ok cr (remote_run cr cfg cs r)"
proof (induction cr cfg cs r rule: remote_run.induct)
  case (2 cr cfg t0 t1 t2 fetch kid cs r)
  obtain r' res where k: "remote_Key cr cfg t0 t1 t2 fetch r kid = (r', res)"
    by (cases "remote_Key cr cfg t0 t1 t2 fetch r kid")
  with remote_Key_ok [OF k 2(2)] 2(1) show ?case
    by simp
qed simp

section \<open>The published set, read back\<close>

lemma jwk_doc_dec:
  "dec_struct False jwk_fields (jwk_doc j) zero_jwk = Some j"
  by (simp add: jwk_doc_def jwk_fields_def field_of_def fld_def zero_jwk_def)

lemma jwks_dec_list: "dec_list (dec_struct False jwk_fields) zero_jwk (map jwk_doc js) old = Some js"
  if "old = []"
  using that by (induction js arbitrary: old) (auto simp: jwk_doc_dec)

definition jwk_text :: "jwk \<Rightarrow> bool" where
  "jwk_text j \<longleftrightarrow> list_all valid_utf8 [j_Kty j, j_Crv j, j_Kid j, j_Use j, j_Alg j, j_X j, j_Y j]"

lemma json_Decode_line:
  assumes "wf_json max_depth j"
  shows "json_Decode (json_Marshal j @ [CHR 0x0A]) = Some j"
  using reads_json_Parse(2) [OF reads_value [of "\<lambda>_. []" "[]" max_depth j "[]" "[CHR 0x0A]"]] assms
  by (simp add: json_Marshal_def num_stop_def skip_ws_def is_ws_def is_digit_def bv_def)

lemma parse_jwks_served:
  assumes "list_all jwk_text js" "length (json_Marshal (jwks_doc js)) < jwks_limit"
  shows "parse_jwks (json_Marshal (jwks_doc js) @ [CHR 0x0A]) = Some js"
proof -
  have k: "valid_utf8 ''keys''" "valid_utf8 ''kid''" "valid_utf8 ''x''" "valid_utf8 ''y''" "valid_utf8 ''kty''" "valid_utf8 ''crv''" "valid_utf8 ''use''" "valid_utf8 ''alg''"
    by (simp_all add: valid_utf8_ascii bv_def)
  have "wf_json (max_depth - 2) (jwk_doc j)" if "jwk_text j" for j
    using that k by (simp add: jwk_doc_def jwk_text_def max_depth_def)
  then have "wf_json max_depth (jwks_doc js)"
    using assms(1) k by (auto simp: jwks_doc_def list_all_iff max_depth_def)
  then have "json_Decode (take jwks_limit (json_Marshal (jwks_doc js) @ [CHR 0x0A])) = Some (jwks_doc js)"
    using assms(2) by (simp add: json_Decode_line)
  then show ?thesis
    by (simp add: parse_jwks_def jwks_doc_def field_of_def fld_def jwks_dec_list)
qed

lemma usable_keys_other: "kid \<notin> j_Kid ` set js \<Longrightarrow> usable_keys cr js m kid = m kid"
  by (induction cr js m rule: usable_keys.induct) (auto split: sum.splits)

lemma usable_keys_hit:
  "distinct (map j_Kid js) \<Longrightarrow> j \<in> set js \<Longrightarrow> jwkToPublic cr j = Inr pub \<Longrightarrow>
     usable_keys cr js m (j_Kid j) = Some pub"
  by (induction cr js m rule: usable_keys.induct) (auto simp: usable_keys_other split: sum.splits)

lemma served_keys_text:
  assumes "keyset_ok cr s" "set_JWKS now s = Inr js"
  shows "list_all jwk_text js \<and> (\<forall>j \<in> set js. j_Use j = ''sig'')"
proof -
  have "jwk_text (js ! i) \<and> j_Use (js ! i) = ''sig''" if "i < length js" for i
  proof -
    note m = map_result_keys [OF assms(2) [unfolded set_JWKS_def]]
    then have l: "length js = length (live_keys now s)"
      by simp
    let ?k = "live_keys now s ! i"
    have "skey_ok cr ?k"
      using that l by (intro live_keys_ok [OF assms(1), of _ now]) simp
    then have v: "valid_pub (sk_Public (k_priv ?k))" and t: "thumbprint cr (sk_Public (k_priv ?k)) = Inr (k_kid ?k)"
      by (simp_all add: skey_ok_def)
    have "valid_utf8 (k_kid ?k)"
      using thumbprint_Inr [OF v, of cr] t by auto
    moreover have "jwkOf (sk_Public (k_priv ?k)) (k_kid ?k) = Inr (js ! i)"
      using m that l by simp
    moreover have "valid_utf8 ''EC''" "valid_utf8 ''P-256''" "valid_utf8 ''sig''" "valid_utf8 ''ES256''"
      by (simp_all add: valid_utf8_ascii bv_def)
    moreover have "js ! i = \<lparr>j_Kty = ''EC'', j_Crv = ''P-256'', j_Kid = k_kid ?k, j_Use = ''sig'', j_Alg = ''ES256'',
        j_X = b64 (pad_to 32 (big_Bytes (pk_X (sk_Public (k_priv ?k))))),
        j_Y = b64 (pad_to 32 (big_Bytes (pk_Y (sk_Public (k_priv ?k)))))\<rparr>"
      using calculation(2) jwkOf_Inr [OF v, of "k_kid ?k"] by simp
    ultimately show ?thesis
      by (simp add: jwk_text_def)
  qed
  then show ?thesis
    by (auto simp: list_all_length in_set_conv_nth)
qed

lemma toy_kid_b64: "toy_kid = b64 (replicate 32 CHR 0x00)"
  using toy_kid valid_pub_bound [OF toy_key_valid]
  by (auto simp: thumbprint_def coord_Inr Let_def toy_crypto_def)

lemma length_u_escape: "length (u_escape r) = 6"
  by (simp add: u_escape_def)

lemma length_quote_body: "length (quote_body s) \<le> 6 * length s"
proof (induction s rule: quote_body.induct)
  case (2 c cs)
  show ?case
  proof (cases "bv c < 128")
    case True
    moreover have "length (escape_ascii c) \<le> 6"
      by (simp add: escape_ascii_def length_u_escape)
    ultimately show ?thesis
      using "2.IH"(1) by (simp add: quote_body.simps(2))
  next
    case False
    show ?thesis
    proof (cases "decode_rune (c # cs)")
      case None
      with False "2.IH"(2) show ?thesis
        by (simp add: quote_body.simps(2) length_u_escape)
    next
      case (Some rn)
      then obtain r n where rn: "decode_rune (c # cs) = Some (r, n)"
        by (cases rn) auto
      have n: "0 < n" "n \<le> length (c # cs)"
        using decode_rune_size [OF rn] by auto
      have "length (quote_body (drop n (c # cs))) \<le> 6 * (length (c # cs) - n)"
        using "2.IH"(3) [OF False rn refl] by simp
      with False rn n show ?thesis
        by (auto simp: quote_body.simps(2) length_u_escape simp del: drop_Suc_Cons take_Suc_Cons)
    qed
  qed
qed simp

lemma length_quote: "length (quote s) \<le> 6 * length s + 2"
  using length_quote_body [of s] by (simp add: quote_def)

lemma length_sextets: "length (sextets xs) \<le> 2 * length xs"
  by (induction xs rule: sextets.induct) auto

lemma length_b64: "length (b64 b) \<le> 2 * length b"
  using length_sextets [of "map bv b"] by (simp add: b64_def)

lemma length_one_key_set:
  assumes "length (j_Kid j) \<le> 64" "length (j_X j) \<le> 64" "length (j_Y j) \<le> 64"
    and "length (j_Kty j) + length (j_Crv j) + length (j_Use j) + length (j_Alg j) \<le> 100"
  shows "length (json_Marshal (jwks_doc [j])) < jwks_limit"
proof -
  have q: "length (quote ''keys'') \<le> 26" "length (quote ''kty'') \<le> 20" "length (quote ''crv'') \<le> 20"
      "length (quote ''kid'') \<le> 20" "length (quote ''use'') \<le> 20" "length (quote ''alg'') \<le> 20"
      "length (quote ''x'') \<le> 8" "length (quote ''y'') \<le> 8"
    by (rule order.trans [OF length_quote], simp)+
  show ?thesis
    using q assms length_quote [of "j_Kid j"] length_quote [of "j_X j"] length_quote [of "j_Y j"]
      length_quote [of "j_Kty j"] length_quote [of "j_Crv j"] length_quote [of "j_Use j"] length_quote [of "j_Alg j"]
    by (simp add: json_Marshal_def jwks_doc_def jwk_doc_def jwks_limit_def)
qed

section \<open>Properties\<close>

text \<open>
  C26 (fetched keys are bound to their names).  Whatever the endpoint has answered over any
  sequence of calls, a key the cache gives for a key id is a P-256 key whose thumbprint is that
  id; every other answer is an \<open>ErrNoKey\<close>.
\<close>

theorem remote_keys_are_bound:
  "case snd (remote_Key cr cfg t0 t1 t2 fetch (remote_run cr cfg calls remote_init) kid) of
     Inr pub \<Rightarrow> valid_pub pub \<and> thumbprint cr pub = Inr kid
   | Inl e \<Rightarrow> errors_Is e ErrNoKey"
proof -
  let ?r = "remote_run cr cfg calls remote_init"
  have "remote_ok cr ?r"
    by (rule remote_run_ok) (simp add: remote_ok_def remote_init_def)
  then show ?thesis
    using remote_Key_ok [of cr cfg t0 t1 t2 fetch ?r kid]
    by (cases "remote_Key cr cfg t0 t1 t2 fetch ?r kid") auto
qed

text \<open>What a fetch is worth: the set it brought, if it answered with one that has a usable key.\<close>

definition good_set :: "crypto \<Rightarrow> (int \<times> bytes) result \<Rightarrow> (string \<rightharpoonup> pubkey) option" where
  "good_set cr fetch =
     (case fetch of
        Inl _ \<Rightarrow> None
      | Inr (status, body) \<Rightarrow>
          if status \<noteq> 200 then None
          else Option.bind (parse_jwks body) (\<lambda>js.
            if list_ex (\<lambda>j. usable_keys cr js Map.empty (j_Kid j) \<noteq> None) js then Some (usable_keys cr js Map.empty) else None))"

abbreviation remote_ttl :: "remote_cfg \<Rightarrow> duration" where
  "remote_ttl cfg \<equiv> (if rc_TTL cfg \<le> 0 then 5 * Minute else rc_TTL cfg)"

abbreviation remote_ceiling :: "remote_cfg \<Rightarrow> duration" where
  "remote_ceiling cfg \<equiv> (if rc_MaxStale cfg \<le> 0 then Hour else rc_MaxStale cfg)"

lemma refresh_good_set:
  assumes "refresh cr cfg rl t1 t2 fetch r = (r', res)"
  shows "(rl \<and> r' = r \<and> res \<noteq> None)
    \<or> (case good_set cr fetch of
         Some m \<Rightarrow> res = None \<and> r' = r\<lparr>r_byKid := m, r_fetchedAt := t2, r_lastTry := t1\<rparr>
       | None \<Rightarrow> res \<noteq> None \<and> r' = r\<lparr>r_lastTry := t1\<rparr>)"
  using assms
  by (auto simp: refresh_def good_set_def Let_def list_all_iff list_ex_iff split: if_splits sum.splits prod.splits option.splits bind_splits)

lemma remote_Key_served:
  assumes "remote_Key cr cfg t0 t1 t2 fetch r kid = (r', Inr pub)"
  shows "(r_byKid r kid = Some pub \<and> time_Sub t0 (r_fetchedAt r) < remote_ttl cfg \<and> r' = r)
    \<or> (\<exists>m. good_set cr fetch = Some m \<and> m kid = Some pub \<and> r' = \<lparr>r_byKid = m, r_fetchedAt = t2, r_lastTry = t1\<rparr>
         \<and> (r_byKid r kid = None \<or> \<not> time_Sub t0 (r_fetchedAt r) < remote_ttl cfg))
    \<or> (good_set cr fetch = None \<and> r_byKid r kid = Some pub \<and> \<not> time_Sub t0 (r_fetchedAt r) < remote_ttl cfg
         \<and> time_Sub t2 (r_fetchedAt r) \<le> remote_ceiling cfg \<and> r' = r\<lparr>r_lastTry := t1\<rparr>)"
proof -
  obtain ra ea where a: "refresh cr cfg True t1 t2 fetch r = (ra, ea)"
    by (cases "refresh cr cfg True t1 t2 fetch r")
  obtain rb eb where b: "refresh cr cfg False t1 t2 fetch r = (rb, eb)"
    by (cases "refresh cr cfg False t1 t2 fetch r")
  show ?thesis
    using assms refresh_good_set [OF a] refresh_good_set [OF b]
    unfolding remote_Key_def Let_def a b by (cases r) (auto split: option.splits if_splits)
qed

lemma remote_Key_cache:
  assumes "remote_Key cr cfg t0 t1 t2 fetch r kid = (r', res)"
  shows "(r_byKid r' = r_byKid r \<and> r_fetchedAt r' = r_fetchedAt r) \<or> (good_set cr fetch = Some (r_byKid r') \<and> r_fetchedAt r' = t2)"
proof -
  obtain ra ea where a: "refresh cr cfg True t1 t2 fetch r = (ra, ea)"
    by (cases "refresh cr cfg True t1 t2 fetch r")
  obtain rb eb where b: "refresh cr cfg False t1 t2 fetch r = (rb, eb)"
    by (cases "refresh cr cfg False t1 t2 fetch r")
  show ?thesis
    using assms refresh_good_set [OF a] refresh_good_set [OF b]
    unfolding remote_Key_def Let_def a b by (auto split: option.splits if_splits)
qed

text \<open>Whatever a history leaves in the cache came with one of its fetches, dated by it.\<close>

lemma remote_run_cache:
  "(r_byKid (remote_run cr cfg calls r) = r_byKid r \<and> r_fetchedAt (remote_run cr cfg calls r) = r_fetchedAt r)
   \<or> (\<exists>(t0, t1, t2, fetch, kid) \<in> set calls.
        good_set cr fetch = Some (r_byKid (remote_run cr cfg calls r)) \<and> r_fetchedAt (remote_run cr cfg calls r) = t2)"
proof (induction cr cfg calls r rule: remote_run.induct)
  case (2 cr cfg t0 t1 t2 fetch kid cs r)
  obtain r' res where k: "remote_Key cr cfg t0 t1 t2 fetch r kid = (r', res)"
    by (cases "remote_Key cr cfg t0 t1 t2 fetch r kid")
  with 2 remote_Key_cache [OF k] show ?case
    by auto
qed simp

text \<open>
  C27 (staleness).  Whatever has happened since the start, a key is served in one of three cases.
  The cache has it and was fetched less than the TTL before the call: then nothing is fetched.  Or
  the endpoint has just answered with a good set that has the key: then the cache becomes that set,
  whole, as of now.  Or the cache has it, is past its TTL and the refresh failed: then the set must
  be no older than \<open>MaxStale\<close>, and its date stays.  So past the TTL a key withdrawn by the signer is
  served only while the endpoint gives no good set, and never past the ceiling.  And what the cache
  has is a set the endpoint gave to an earlier call, dated when that call got it.
\<close>

theorem remote_key_not_stale:
  assumes "r = remote_run cr cfg calls remote_init"
    and "remote_Key cr cfg t0 t1 t2 fetch r kid = (r', Inr pub)"
  shows "((r_byKid r kid = Some pub \<and> time_Sub t0 (r_fetchedAt r) < remote_ttl cfg \<and> r' = r)
      \<or> (\<exists>m. good_set cr fetch = Some m \<and> m kid = Some pub \<and> r' = \<lparr>r_byKid = m, r_fetchedAt = t2, r_lastTry = t1\<rparr>
           \<and> (r_byKid r kid = None \<or> \<not> time_Sub t0 (r_fetchedAt r) < remote_ttl cfg))
      \<or> (good_set cr fetch = None \<and> r_byKid r kid = Some pub \<and> \<not> time_Sub t0 (r_fetchedAt r) < remote_ttl cfg
           \<and> time_Sub t2 (r_fetchedAt r) \<le> remote_ceiling cfg \<and> r' = r\<lparr>r_lastTry := t1\<rparr>))
    \<and> (r_byKid r = Map.empty
       \<or> (\<exists>(s0, s1, s2, f, k) \<in> set calls. good_set cr f = Some (r_byKid r) \<and> r_fetchedAt r = s2))"
  using remote_Key_served [OF assms(2)] remote_run_cache [of cr cfg calls remote_init]
  unfolding assms(1) by (auto simp: remote_init_def)


definition toy_remote :: remote where
  "toy_remote = \<lparr>r_byKid = [toy_kid \<mapsto> sk_Public toy_key], r_fetchedAt = time_Unix 1000, r_lastTry = time_Unix 1000\<rparr>"

definition toy_remote_cfg :: remote_cfg where
  "toy_remote_cfg = \<lparr>rc_TTL = 0, rc_MinRefetch = 0, rc_MaxStale = 0\<rparr>"

text \<open>
  Rate limit.  A token naming an unknown key id within \<open>MinRefetch\<close> of the last attempt
  does not reach the endpoint: the answer and the state are the same whatever it would say.
\<close>

theorem remote_rate_limit:
  assumes "r_byKid r kid = None" "\<not> IsZero (r_lastTry r)"
    and "time_Sub t1 (r_lastTry r) < (if rc_MinRefetch cfg \<le> 0 then 30 * Second else rc_MinRefetch cfg)"
  shows "remote_Key cr cfg t0 t1 t2 fetch r kid = (r, Inl (Error ErrNoKey ''key set refetch is rate limited''))"
  using assms by (simp add: remote_Key_def refresh_def Let_def)

theorem remote_rate_limit_witness:
  "remote_Key toy_crypto toy_remote_cfg (time_Unix 1010) (time_Unix 1010) (time_Unix 1010) (Inr (200, []))
     toy_remote ''other'' = (toy_remote, Inl (Error ErrNoKey ''key set refetch is rate limited''))"
proof (rule remote_rate_limit)
  have "b64 (replicate 32 CHR 0x00) \<noteq> ''other''"
    by code_simp
  then have "toy_kid \<noteq> ''other''"
    by (simp add: toy_kid_b64)
  then show "r_byKid toy_remote ''other'' = None"
    by (simp add: toy_remote_def)
  show "\<not> IsZero (r_lastTry toy_remote)"
    unfolding toy_remote_def by simp code_simp
  have "time_Sub (time_Unix 1010) (time_Unix 1000) = 10 * Second"
    by code_simp
  then show "time_Sub (time_Unix 1010) (r_lastTry toy_remote) <
      (if rc_MinRefetch toy_remote_cfg \<le> 0 then 30 * Second else rc_MinRefetch toy_remote_cfg)"
    by (simp add: toy_remote_def toy_remote_cfg_def)
qed

text \<open>
  A rotation reaches the verifiers.  When a verifier meets a key id it does not know and
  may fetch, and the signer's handler serves its key set, the verifier gets exactly the key the
  set has under that id.
\<close>

theorem published_key_reaches_verifier:
  assumes "keyset_ok cr s" "set_JWKS now s = Inr js" "distinct (map j_Kid js)"
    and "set_PublicKey now s kid = Some pub"
    and "length (json_Marshal (jwks_doc js)) < jwks_limit"
    and "r_byKid r kid = None"
    and "IsZero (r_lastTry r) \<or> (if rc_MinRefetch cfg \<le> 0 then 30 * Second else rc_MinRefetch cfg) \<le> time_Sub t1 (r_lastTry r)"
  shows "snd (remote_Key cr cfg t0 t1 t2 (Inr (rs_Status (JWKSHandler cf ''GET'' js), rs_Body (JWKSHandler cf ''GET'' js))) r kid)
    = Inr pub"
proof -
  have p: "parse_jwks (json_Marshal (jwks_doc js) @ [CHR 0x0A]) = Some js"
    using served_keys_text [OF assms(1,2)] assms(5) by (intro parse_jwks_served) auto
  obtain j where j: "j \<in> set js" "j_Kid j = kid" "PublicFromXY (j_X j) (j_Y j) = Inr pub"
      "j_Alg j = ''ES256''" "j_Kty j = ''EC''" "j_Crv j = ''P-256''" "thumbprint cr pub = Inr kid"
  proof -
    obtain js' where js': "set_JWKS now s = Inr js'"
        "\<forall>kid pk. set_PublicKey now s kid = Some pk \<longrightarrow> (\<exists>j \<in> set js'. j_Kid j = kid \<and> PublicFromXY (j_X j) (j_Y j) = Inr pk)"
        "\<forall>j \<in> set js'. j_Alg j = ''ES256'' \<and> j_Kty j = ''EC'' \<and> j_Crv j = ''P-256''
          \<and> (\<exists>pk. PublicFromXY (j_X j) (j_Y j) = Inr pk \<and> thumbprint cr pk = Inr (j_Kid j))"
      using set_JWKS_spec [OF assms(1), of now] by (elim exE conjE)
    then obtain j where "j \<in> set js" "j_Kid j = kid" "PublicFromXY (j_X j) (j_Y j) = Inr pub"
      using assms(2,4) by auto
    moreover from js' this have "j_Alg j = ''ES256''" "j_Kty j = ''EC''" "j_Crv j = ''P-256''" "thumbprint cr pub = Inr kid"
      using assms(2) by fastforce+
    ultimately show thesis
      using that by blast
  qed
  then have "jwkToPublic cr j = Inr pub"
    using served_keys_text [OF assms(1,2)] by (simp add: jwkToPublic_def)
  from usable_keys_hit [OF assms(3) j(1) this] j(2)
  have u: "usable_keys cr js Map.empty kid = Some pub"
    by simp
  then have "\<not> list_all (\<lambda>j. usable_keys cr js Map.empty (j_Kid j) = None) js"
    using j by (auto simp: list_all_iff)
  then show ?thesis
    using assms(6,7) p u by (auto simp: remote_Key_def refresh_def JWKSHandler_def Let_def)
qed

theorem published_key_reaches_verifier_witness:
  "\<exists>js. set_JWKS (time_Unix 0) toy_set = Inr js
    \<and> snd (remote_Key toy_crypto toy_remote_cfg (time_Unix 0) (time_Unix 0) (time_Unix 0)
        (Inr (rs_Status (JWKSHandler 0 ''GET'' js), rs_Body (JWKSHandler 0 ''GET'' js))) remote_init toy_kid)
      = Inr (sk_Public toy_key)"
proof -
  let ?x = "pad_to 32 (big_Bytes (pk_X (sk_Public toy_key)))" and ?y = "pad_to 32 (big_Bytes (pk_Y (sk_Public toy_key)))"
  let ?j = "\<lparr>j_Kty = ''EC'', j_Crv = ''P-256'', j_Kid = toy_kid, j_Use = ''sig'', j_Alg = ''ES256'',
     j_X = b64 ?x, j_Y = b64 ?y\<rparr>"
  have js: "set_JWKS (time_Unix 0) toy_set = Inr [?j]"
    using jwkOf_Inr [OF toy_key_valid, of toy_kid] by (simp add: set_JWKS_def live_keys_def toy_set_def)
  have "length ?x = 32" "length ?y = 32"
    using valid_pub_bound [OF toy_key_valid] by (auto intro!: length_pad_to length_coord)
  then have len: "length (json_Marshal (jwks_doc [?j])) < jwks_limit"
    using length_b64 [of ?x] length_b64 [of ?y] length_b64 [of "replicate 32 CHR 0x00"]
    by (intro length_one_key_set) (simp_all add: toy_kid_b64)
  have pk: "set_PublicKey (time_Unix 0) toy_set toy_kid = Some (sk_Public toy_key)"
    by (simp add: set_PublicKey_def toy_set_def)
  have "IsZero (r_lastTry remote_init)"
    by (simp add: remote_init_def IsZero_def zero_time_def)
  then show ?thesis
    using published_key_reaches_verifier [OF toy_set_ok js _ pk len, of remote_init] js
    by (simp add: remote_init_def)
qed

text \<open>A set fetched at 0, still served at 1000 when the endpoint is down.\<close>

theorem remote_key_not_stale_witness:
  "\<exists>calls r'. remote_Key toy_crypto toy_remote_cfg (time_Unix 1000) (time_Unix 1000) (time_Unix 1000) (Inl (Error Plain []))
      (remote_run toy_crypto toy_remote_cfg calls remote_init) toy_kid = (r', Inr (sk_Public toy_key))
    \<and> time_Sub (time_Unix 1000) (r_fetchedAt r') \<le> Hour
    \<and> (\<exists>(s0, s1, s2, f, k) \<in> set calls. good_set toy_crypto f = Some (r_byKid r') \<and> r_fetchedAt r' = s2)"
proof -
  let ?fetch = "\<lambda>js. Inr (rs_Status (JWKSHandler 0 ''GET'' js), rs_Body (JWKSHandler 0 ''GET'' js))"
  let ?t = "time_Unix 0" and ?u = "time_Unix 1000"
  obtain fetch where "snd (remote_Key toy_crypto toy_remote_cfg ?t ?t ?t fetch remote_init toy_kid) = Inr (sk_Public toy_key)"
    using published_key_reaches_verifier_witness by blast
  then obtain r where k: "remote_Key toy_crypto toy_remote_cfg ?t ?t ?t fetch remote_init toy_kid = (r, Inr (sk_Public toy_key))"
    by (cases "remote_Key toy_crypto toy_remote_cfg ?t ?t ?t fetch remote_init toy_kid") simp
  then have r: "r_byKid r toy_kid = Some (sk_Public toy_key)" "r_fetchedAt r = ?t" "r_byKid r \<noteq> Map.empty"
    using remote_Key_served [OF k] by (auto simp: remote_init_def)
  let ?calls = "[(?t, ?t, ?t, fetch, toy_kid)]"
  have run: "r = remote_run toy_crypto toy_remote_cfg ?calls remote_init"
    by (simp add: k)
  have t: "time_Sub ?u ?t = 1000 * Second"
    by code_simp
  have f: "remote_Key toy_crypto toy_remote_cfg ?u ?u ?u (Inl (Error Plain [])) r toy_kid
      = (r\<lparr>r_lastTry := ?u\<rparr>, Inr (sk_Public toy_key))"
    by (simp add: remote_Key_def refresh_def toy_remote_cfg_def r t Let_def)
  from remote_key_not_stale [OF run f] r(3) t r(2) f show ?thesis
    unfolding run by (intro exI [of _ ?calls]) auto
qed

end
