(* ===== verification/Gate.thy ===== *)
theory Gate
  imports GoTime "HOL-Library.AList" "HOL-Library.Multiset"
begin

text \<open>
  \<open>proxy/wait.go\<close>: the gate that holds requests until a backend is ready.  Each critical section
  of the code is one operation on the record \<open>gate\<close>: entering and leaving \<open>Acquire\<close>, the release
  function, and a readiness probe that succeeded.  A channel \<open>changed\<close> is a number, fresh for
  every generation of probes; \<open>closed\<close> lists the channels that were closed and \<open>cancelled\<close>
  the generations whose context was cancelled.  The interleavings of any number of requests
  and probes are the step relation \<open>gstep\<close>.
\<close>

record wait_cfg =
  wc_Timeout :: duration
  wc_Interval :: duration
  wc_MaxPending :: int
  wc_MaxBackends :: int

definition NewWaitGate_ok :: "wait_cfg \<Rightarrow> bool" where
  "NewWaitGate_ok cfg \<longleftrightarrow>
     \<not> (wc_Timeout cfg \<le> 0 \<or> wc_Interval cfg \<le> 0 \<or> wc_MaxPending cfg \<le> 0 \<or> wc_MaxBackends cfg \<le> 0)"

record demand =
  d_pending :: int
  d_active :: int
  d_lastActivity :: gotime
  d_checking :: bool
  d_changed :: nat

record gate =
  gt_backends :: "(string \<times> demand) list"
  gt_next :: nat
  gt_closed :: "nat list"
  gt_cancelled :: "nat list"

definition empty_gate :: gate where
  "empty_gate = \<lparr>gt_backends = [], gt_next = 0, gt_closed = [], gt_cancelled = []\<rparr>"

text \<open>
  The address that \<open>tcpReady\<close> dials for an upstream of the given scheme, host and port, as
  \<open>net.JoinHostPort\<close> writes it.
\<close>

definition JoinHostPort :: "string \<Rightarrow> string \<Rightarrow> string" where
  "JoinHostPort host port =
     (if ContainsByte host CHR '':'' then ''['' @ host @ '']:'' @ port else host @ '':'' @ port)"

definition tcpReady_address :: "string \<Rightarrow> string \<Rightarrow> string \<Rightarrow> string" where
  "tcpReady_address scheme host port =
     JoinHostPort host (if port = [] then if scheme = ''https'' then ''443'' else ''80'' else port)"

definition new_demand :: demand where
  "new_demand = \<lparr>d_pending = 0, d_active = 0, d_lastActivity = zero_time, d_checking = False, d_changed = 0\<rparr>"

definition put_demand :: "string \<Rightarrow> demand \<Rightarrow> gate \<Rightarrow> gate" where
  "put_demand key d g = g\<lparr>gt_backends := AList.update key d (gt_backends g)\<rparr>"

text \<open>
  The middle of \<open>Acquire\<close>, once the backend's demand \<open>d\<close> is known: the pending limit, and a new
  generation of probes with its channel when none is running.  The result is the channel the
  request will wait on.
\<close>

definition admit :: "wait_cfg \<Rightarrow> string \<Rightarrow> gotime \<Rightarrow> gate \<Rightarrow> demand \<Rightarrow> gate \<times> nat result" where
  "admit cfg key now g d =
     (if d_pending d \<ge> wc_MaxPending cfg then (g, Inl (Error Plain ''wait gate: pending limit''))
      else
        (let d1 = d\<lparr>d_pending := d_pending d + 1, d_lastActivity := now\<rparr>
         in if d_checking d1 then (put_demand key d1 g, Inr (d_changed d1))
            else (put_demand key (d1\<lparr>d_checking := True, d_changed := gt_next g\<rparr>) (g\<lparr>gt_next := gt_next g + 1\<rparr>),
                  Inr (gt_next g))))"

text \<open>\<open>Acquire\<close> up to its \<open>select\<close>; \<open>ctx_done\<close> says the context has already ended.\<close>

definition acquire_enter :: "wait_cfg \<Rightarrow> bool \<Rightarrow> string \<Rightarrow> gotime \<Rightarrow> gate \<Rightarrow> gate \<times> nat result" where
  "acquire_enter cfg ctx_done key now g =
     (if ctx_done then (g, Inl (Error CtxCanceled []))
      else
        (case map_of (gt_backends g) key of
           None \<Rightarrow>
             if int (length (gt_backends g)) \<ge> wc_MaxBackends cfg
             then (g, Inl (Error Plain ''wait gate: backend limit''))
             else admit cfg key now (put_demand key new_demand g) new_demand
         | Some d \<Rightarrow> admit cfg key now g d))"

text \<open>
  \<open>Acquire\<close> after its \<open>select\<close>, for the demand \<open>d\<close> the request holds a pointer to; \<open>failed\<close> says
  the context has ended.
\<close>

definition acquire_leave :: "bool \<Rightarrow> string \<Rightarrow> gotime \<Rightarrow> gate \<Rightarrow> gate" where
  "acquire_leave failed key now g =
     (case map_of (gt_backends g) key of
        None \<Rightarrow> g
      | Some d \<Rightarrow>
          (let d1 = d\<lparr>d_pending := d_pending d - 1\<rparr>;
               stop = (d_pending d1 = 0 \<and> d_checking d1);
               d2 = (if stop then d1\<lparr>d_checking := False\<rparr> else d1);
               d3 = (if failed then d2 else d2\<lparr>d_active := d_active d2 + 1\<rparr>)
           in put_demand key (d3\<lparr>d_lastActivity := now\<rparr>)
                (if stop then g\<lparr>gt_cancelled := d_changed d # gt_cancelled g\<rparr> else g)))"

definition release :: "string \<Rightarrow> gotime \<Rightarrow> gate \<Rightarrow> gate" where
  "release key now g =
     (case map_of (gt_backends g) key of
        None \<Rightarrow> g
      | Some d \<Rightarrow> put_demand key (d\<lparr>d_active := d_active d - 1, d_lastActivity := now\<rparr>) g)"

text \<open>The critical section of \<open>check\<close>, for the probes of generation \<open>ready\<close>.\<close>

definition probe_ready :: "string \<Rightarrow> nat \<Rightarrow> gate \<Rightarrow> gate" where
  "probe_ready key ready g =
     (case map_of (gt_backends g) key of
        None \<Rightarrow> g
      | Some d \<Rightarrow>
          if d_checking d \<and> d_changed d = ready
          then put_demand key (d\<lparr>d_checking := False\<rparr>)
                 (g\<lparr>gt_closed := ready # gt_closed g, gt_cancelled := ready # gt_cancelled g\<rparr>)
          else g)"

text \<open>\<open>ServeHTTP\<close>: the demand of every backend; \<open>q\<close> is \<open>strconv.Quote\<close>.\<close>

definition metrics_lines :: "(string \<Rightarrow> string) \<Rightarrow> string \<times> demand \<Rightarrow> string" where
  "metrics_lines q b =
     (let label = q (fst b); d = snd b
      in ''tsjwt_backend_pending_requests{upstream='' @ label @ ''} '' @ Itoa (d_pending d) @ [CHR 0x0A]
         @ ''tsjwt_backend_active_requests{upstream='' @ label @ ''} '' @ Itoa (d_active d) @ [CHR 0x0A]
         @ ''tsjwt_backend_last_activity_seconds{upstream='' @ label @ ''} '' @ Itoa (Unix_of (d_lastActivity d)) @ [CHR 0x0A])"

definition gate_metrics :: "(string \<Rightarrow> string) \<Rightarrow> gate \<Rightarrow> string" where
  "gate_metrics q g = concat (map (metrics_lines q) (gt_backends g))"

section \<open>Requests and probes, interleaved\<close>

text \<open>
  A request inside \<open>Acquire\<close> waits on a channel; one whose \<open>Acquire\<close> returned is active until
  it calls its release function, which acts once.  A wait ends when the channel is closed or
  the context has ended; it succeeds only if the context has not.
\<close>

datatype phase = Waiting string nat | Active string

type_synonym gsys = "gate \<times> phase multiset"

inductive gstep :: "wait_cfg \<Rightarrow> gsys \<Rightarrow> gsys \<Rightarrow> bool" for cfg where
  enter: "acquire_enter cfg False key now g = (g', Inr ch) \<Longrightarrow> gstep cfg (g, R) (g', add_mset (Waiting key ch) R)"
| refused: "acquire_enter cfg ended key now g = (g', Inl e) \<Longrightarrow> gstep cfg (g, R) (g', R)"
| admitted: "ch \<in> set (gt_closed g) \<Longrightarrow>
    gstep cfg (g, add_mset (Waiting key ch) R) (acquire_leave False key now g, add_mset (Active key) R)"
| gave_up: "gstep cfg (g, add_mset (Waiting key ch) R) (acquire_leave True key now g, R)"
| released: "gstep cfg (g, add_mset (Active key) R) (release key now g, R)"
| probed: "gstep cfg (g, R) (probe_ready key ready g, R)"

inductive reachable :: "wait_cfg \<Rightarrow> gsys \<Rightarrow> bool" for cfg where
  start: "reachable cfg (empty_gate, {#})"
| step: "reachable cfg s \<Longrightarrow> gstep cfg s s' \<Longrightarrow> reachable cfg s'"

inductive_cases gstep_cases: "gstep cfg (g, R) s'"

section \<open>The invariant\<close>

definition waiting :: "string \<Rightarrow> phase multiset \<Rightarrow> nat" where
  "waiting key R = size (filter_mset (\<lambda>p. case p of Waiting k _ \<Rightarrow> k = key | _ \<Rightarrow> False) R)"

definition running :: "string \<Rightarrow> phase multiset \<Rightarrow> nat" where
  "running key R = count R (Active key)"

text \<open>
  The demand of a backend agrees with the requests: what it counts, and no request waits on a
  channel that nothing will close.
\<close>

definition demand_ok :: "wait_cfg \<Rightarrow> gate \<Rightarrow> phase multiset \<Rightarrow> string \<Rightarrow> demand \<Rightarrow> bool" where
  "demand_ok cfg g R key d \<longleftrightarrow>
     d_pending d = int (waiting key R) \<and> d_active d = int (running key R)
     \<and> d_pending d \<le> wc_MaxPending cfg
     \<and> (d_checking d \<longrightarrow> 0 < d_pending d \<and> d_changed d < gt_next g \<and> d_changed d \<notin> set (gt_closed g)
          \<and> d_changed d \<notin> set (gt_cancelled g))
     \<and> (\<forall>ch. Waiting key ch \<in># R \<longrightarrow> ch \<in> set (gt_closed g) \<or> (d_checking d \<and> d_changed d = ch))"

definition gate_inv :: "wait_cfg \<Rightarrow> gsys \<Rightarrow> bool" where
  "gate_inv cfg s \<longleftrightarrow>
     (case s of (g, R) \<Rightarrow>
        distinct (map fst (gt_backends g)) \<and> int (length (gt_backends g)) \<le> wc_MaxBackends cfg
        \<and> (\<forall>key. case map_of (gt_backends g) key of
             None \<Rightarrow> waiting key R = 0 \<and> running key R = 0
           | Some d \<Rightarrow> demand_ok cfg g R key d)
        \<and> (\<forall>key key' d d'. map_of (gt_backends g) key = Some d \<longrightarrow> map_of (gt_backends g) key' = Some d' \<longrightarrow>
             d_checking d \<longrightarrow> d_checking d' \<longrightarrow> d_changed d = d_changed d' \<longrightarrow> key = key')
        \<and> (\<forall>ch \<in> set (gt_closed g) \<union> set (gt_cancelled g). ch < gt_next g))"

lemma waiting_add [simp]:
  "waiting key (add_mset (Waiting k ch) R) = (if k = key then 1 else 0) + waiting key R"
  "waiting key (add_mset (Active k) R) = waiting key R"
  by (simp_all add: waiting_def)

lemma running_add [simp]:
  "running key (add_mset (Active k) R) = (if k = key then 1 else 0) + running key R"
  "running key (add_mset (Waiting k ch) R) = running key R"
  by (simp_all add: running_def)

lemma waiting_zero: "waiting key R = 0 \<Longrightarrow> Waiting key ch \<notin># R"
  by (auto simp: waiting_def multiset_eq_iff split: phase.splits if_splits dest!: spec [of _ "Waiting key ch"])

lemma map_of_put [simp]:
  "map_of (gt_backends (put_demand key d g)) = (map_of (gt_backends g))(key \<mapsto> d)"
  by (simp add: put_demand_def update_conv')

lemma put_demand_sel [simp]:
  "gt_next (put_demand key d g) = gt_next g" "gt_closed (put_demand key d g) = gt_closed g"
  "gt_cancelled (put_demand key d g) = gt_cancelled g"
  by (simp_all add: put_demand_def)

lemma gate_inv_put:
  assumes inv: "gate_inv cfg (g, R)"
    and upd: "gt_backends g' = AList.update key d' (gt_backends g)"
    and len: "int (length (gt_backends g')) \<le> wc_MaxBackends cfg"
    and nxt: "gt_next g \<le> gt_next g'" "\<forall>ch \<in> set (gt_closed g') \<union> set (gt_cancelled g'). ch < gt_next g'"
    and frame: "\<And>k. k \<noteq> key \<Longrightarrow> waiting k R' = waiting k R \<and> running k R' = running k R"
      "\<And>k ch. k \<noteq> key \<Longrightarrow> Waiting k ch \<in># R' \<Longrightarrow> Waiting k ch \<in># R"
    and closed: "set (gt_closed g) \<subseteq> set (gt_closed g')"
      "\<And>ch. ch \<in> set (gt_closed g') \<union> set (gt_cancelled g') \<Longrightarrow> ch \<notin> set (gt_closed g) \<union> set (gt_cancelled g) \<Longrightarrow>
         \<exists>d. map_of (gt_backends g) key = Some d \<and> d_checking d \<and> d_changed d = ch"
    and here: "demand_ok cfg g' R' key d'"
    and own: "d_checking d' \<Longrightarrow> gt_next g \<le> d_changed d' \<or>
       (\<exists>d. map_of (gt_backends g) key = Some d \<and> d_checking d \<and> d_changed d = d_changed d')"
  shows "gate_inv cfg (g', R')"
proof -
  have m: "map_of (gt_backends g') = (map_of (gt_backends g))(key \<mapsto> d')"
    by (simp add: upd update_conv')
  have dk: "distinct (map fst (gt_backends g'))"
    using inv by (simp add: gate_inv_def upd distinct_update)
  have uniq: "k = key" if "map_of (gt_backends g) k = Some e" "map_of (gt_backends g) key = Some d"
      "d_checking e" "d_checking d" "d_changed e = d_changed d" for k e d
    using inv that unfolding gate_inv_def prod.case by blast
  have each: "case map_of (gt_backends g) k of
             None \<Rightarrow> waiting k R = 0 \<and> running k R = 0
           | Some d \<Rightarrow> demand_ok cfg g R k d" for k
    using inv unfolding gate_inv_def prod.case by blast
  have old: "demand_ok cfg g R k e" if "map_of (gt_backends g) k = Some e" for k e
    using each [of k] that by simp
  have none: "waiting k R = 0 \<and> running k R = 0" if "map_of (gt_backends g) k = None" for k
    using each [of k] that by simp
  have other: "demand_ok cfg g' R' k e" if k: "k \<noteq> key" and e: "map_of (gt_backends g) k = Some e" for k e
  proof -
    note o = old [OF e, unfolded demand_ok_def]
    have fresh: "d_changed e \<notin> set (gt_closed g') \<union> set (gt_cancelled g')" if c: "d_checking e"
    proof
      assume "d_changed e \<in> set (gt_closed g') \<union> set (gt_cancelled g')"
      moreover have "d_changed e \<notin> set (gt_closed g) \<union> set (gt_cancelled g)"
        using o c by auto
      ultimately obtain d where "map_of (gt_backends g) key = Some d" "d_checking d" "d_changed d = d_changed e"
        using closed(2) by blast
      with uniq [OF e this(1) c this(2)] k show False by simp
    qed
    have "ch \<in> set (gt_closed g') \<or> (d_checking e \<and> d_changed e = ch)" if "Waiting k ch \<in># R'" for ch
      using o frame(2) [OF k that] closed(1) by blast
    then show ?thesis
      using o frame(1) [OF k] nxt(1) fresh unfolding demand_ok_def by auto
  qed
  have all: "case map_of (gt_backends g') k of
             None \<Rightarrow> waiting k R' = 0 \<and> running k R' = 0
           | Some d \<Rightarrow> demand_ok cfg g' R' k d" for k
    using here other none frame(1) by (cases "k = key") (auto simp: m split: option.splits)
  have pair: "k = k'" if c: "map_of (gt_backends g') k = Some e" "map_of (gt_backends g') k' = Some e'"
      "d_checking e" "d_checking e'" "d_changed e = d_changed e'" for k k' e e'
  proof -
    have below: "d_changed x < gt_next g" if "map_of (gt_backends g) j = Some x" "d_checking x" for j x
      using old [OF that(1)] that(2) by (simp add: demand_ok_def)
    have one: "False" if a: "map_of (gt_backends g) j = Some x" "j \<noteq> key" "d_checking x" "d_checking d'"
        "d_changed x = d_changed d'" for j x
      using own [OF a(4)] below [OF a(1,3)] a uniq by force
    have two: "k = k'" if "k \<noteq> key" "k' \<noteq> key"
      using inv c that unfolding gate_inv_def prod.case m by auto
    consider "k = key" "k' = key" | "k = key" "k' \<noteq> key" | "k \<noteq> key" "k' = key" | "k \<noteq> key" "k' \<noteq> key"
      by blast
    then show ?thesis
    proof cases
      case 2
      with c have "map_of (gt_backends g) k' = Some e'" "e = d'" by (simp_all add: m)
      with one [of k' e'] c 2 show ?thesis by simp
    next
      case 3
      with c have "map_of (gt_backends g) k = Some e" "e' = d'" by (simp_all add: m)
      with one [of k e] c 3 show ?thesis by simp
    qed (use two in simp_all)
  qed
  show ?thesis
    using dk len all pair nxt(2) unfolding gate_inv_def prod.case by blast
qed


lemma gate_inv_demand:
  assumes "gate_inv cfg (g, R)"
  shows "map_of (gt_backends g) key = Some d \<Longrightarrow> demand_ok cfg g R key d"
    and "map_of (gt_backends g) key = None \<Longrightarrow> waiting key R = 0 \<and> running key R = 0"
proof -
  have "case map_of (gt_backends g) key of
             None \<Rightarrow> waiting key R = 0 \<and> running key R = 0
           | Some d \<Rightarrow> demand_ok cfg g R key d"
    using assms unfolding gate_inv_def prod.case by blast
  then show "map_of (gt_backends g) key = Some d \<Longrightarrow> demand_ok cfg g R key d"
    and "map_of (gt_backends g) key = None \<Longrightarrow> waiting key R = 0 \<and> running key R = 0"
    by simp_all
qed

lemma gate_inv_rest:
  assumes "gate_inv cfg (g, R)"
  shows "int (length (gt_backends g)) \<le> wc_MaxBackends cfg"
    and "ch \<in> set (gt_closed g) \<or> ch \<in> set (gt_cancelled g) \<Longrightarrow> ch < gt_next g"
  using assms unfolding gate_inv_def by auto

lemma put_demand_backends [simp]: "gt_backends (put_demand key d g) = AList.update key d (gt_backends g)"
  by (simp add: put_demand_def)

lemma update_length:
  "map_of al key = Some d0 \<Longrightarrow> length (AList.update key d al) = length al"
  "map_of al key = None \<Longrightarrow> length (AList.update key d al) = Suc (length al)"
  by (induction al) (auto split: if_splits)

lemma gate_inv_new_demand:
  assumes inv: "gate_inv cfg (g, R)" and none: "map_of (gt_backends g) key = None"
    and room: "int (length (gt_backends g)) < wc_MaxBackends cfg" and ok: "NewWaitGate_ok cfg"
  shows "gate_inv cfg (put_demand key new_demand g, R)"
proof (rule gate_inv_put [OF inv, where key = key])
  show "demand_ok cfg (put_demand key new_demand g) R key new_demand"
    using gate_inv_demand(2) [OF inv none] ok waiting_zero
    by (auto simp: demand_ok_def new_demand_def NewWaitGate_ok_def)
qed (use room none gate_inv_rest [OF inv] in \<open>auto simp: update_length new_demand_def\<close>)

lemma admit_inv:
  assumes inv: "gate_inv cfg (g, R)" and d: "map_of (gt_backends g) key = Some d"
    and a: "admit cfg key now g d = (g', Inr ch)"
  shows "gate_inv cfg (g', add_mset (Waiting key ch) R)"
proof (cases "d_checking d")
  case True
  with a have g': "g' = put_demand key (d\<lparr>d_pending := d_pending d + 1, d_lastActivity := now\<rparr>) g" "ch = d_changed d"
      "d_pending d < wc_MaxPending cfg"
    by (auto simp: admit_def Let_def split: if_splits)
  show ?thesis
    unfolding g'(1)
  proof (rule gate_inv_put [OF inv, where key = key])
    show "demand_ok cfg (put_demand key (d\<lparr>d_pending := d_pending d + 1, d_lastActivity := now\<rparr>) g)
        (add_mset (Waiting key ch) R) key (d\<lparr>d_pending := d_pending d + 1, d_lastActivity := now\<rparr>)"
      using gate_inv_demand(1) [OF inv d] g' True by (auto simp: demand_ok_def)
  qed (use d g' True gate_inv_rest [OF inv] in \<open>auto simp: update_length\<close>)
next
  case False
  let ?d = "d\<lparr>d_pending := d_pending d + 1, d_lastActivity := now, d_checking := True, d_changed := gt_next g\<rparr>"
  from False a have g': "g' = put_demand key ?d (g\<lparr>gt_next := gt_next g + 1\<rparr>)" "ch = gt_next g"
      "d_pending d < wc_MaxPending cfg"
    by (auto simp: admit_def Let_def split: if_splits)
  show ?thesis
    unfolding g'(1)
  proof (rule gate_inv_put [OF inv, where key = key])
    show "demand_ok cfg (put_demand key ?d (g\<lparr>gt_next := gt_next g + 1\<rparr>)) (add_mset (Waiting key ch) R) key ?d"
      using gate_inv_demand(1) [OF inv d] g' False gate_inv_rest(2) [OF inv, of "gt_next g"]
      by (auto simp: demand_ok_def)
  qed (use d g' gate_inv_rest [OF inv] in \<open>auto simp: update_length less_Suc_eq\<close>)
qed


lemma acquire_enter_inv:
  assumes ok: "NewWaitGate_ok cfg" and inv: "gate_inv cfg (g, R)"
    and a: "acquire_enter cfg False key now g = (g', Inr ch)"
  shows "gate_inv cfg (g', add_mset (Waiting key ch) R)"
proof (cases "map_of (gt_backends g) key")
  case (Some d)
  with a show ?thesis
    using admit_inv [OF inv Some] by (simp add: acquire_enter_def)
next
  case None
  with a have room: "int (length (gt_backends g)) < wc_MaxBackends cfg"
    and a': "admit cfg key now (put_demand key new_demand g) new_demand = (g', Inr ch)"
    by (auto simp: acquire_enter_def split: if_splits)
  show ?thesis
    by (rule admit_inv [OF gate_inv_new_demand [OF inv None room ok] _ a']) (simp add: update_conv')
qed

lemma acquire_enter_refused:
  assumes ok: "NewWaitGate_ok cfg" and a: "acquire_enter cfg ended key now g = (g', Inl e)"
  shows "g' = g"
proof -
  have n: "fst (admit cfg key now g0 d) = g0" if "admit cfg key now g0 d = (g1, Inl e)" for g0 g1 d
    using that by (auto simp: admit_def Let_def split: if_splits)
  have m: "admit cfg key now g0 new_demand \<noteq> (g1, Inl e)" for g0 g1
    using ok by (auto simp: admit_def new_demand_def NewWaitGate_ok_def Let_def)
  show ?thesis
    using a n m by (fastforce simp: acquire_enter_def split: if_splits option.splits)
qed

lemma acquire_leave_inv:
  assumes inv: "gate_inv cfg (g, add_mset (Waiting key ch) R)"
  shows "gate_inv cfg (acquire_leave failed key now g, if failed then R else add_mset (Active key) R)"
proof -
  let ?R = "if failed then R else add_mset (Active key) R"
  obtain d where d: "map_of (gt_backends g) key = Some d"
    using gate_inv_demand(2) [OF inv, of key] by (cases "map_of (gt_backends g) key") auto
  note ok = gate_inv_demand(1) [OF inv d]
  let ?stop = "d_pending d = 1 \<and> d_checking d"
  let ?d = "d\<lparr>d_pending := d_pending d - 1, d_checking := d_checking d \<and> \<not> ?stop,
    d_active := d_active d + (if failed then 0 else 1), d_lastActivity := now\<rparr>"
  let ?g = "if ?stop then g\<lparr>gt_cancelled := d_changed d # gt_cancelled g\<rparr> else g"
  have leave: "acquire_leave failed key now g = put_demand key ?d ?g"
    using d by (cases d) (auto simp: acquire_leave_def Let_def)
  show ?thesis
    unfolding leave
  proof (rule gate_inv_put [OF inv, where key = key])
    show "demand_ok cfg (put_demand key ?d ?g) ?R key ?d"
      using ok waiting_zero [of key R] by (auto simp: demand_ok_def)
  qed (use d ok gate_inv_rest [OF inv] in \<open>auto simp: update_length demand_ok_def split: if_splits\<close>)
qed

lemma release_inv:
  assumes inv: "gate_inv cfg (g, add_mset (Active key) R)"
  shows "gate_inv cfg (release key now g, R)"
proof -
  obtain d where d: "map_of (gt_backends g) key = Some d"
    using gate_inv_demand(2) [OF inv, of key] by (cases "map_of (gt_backends g) key") auto
  let ?d = "d\<lparr>d_active := d_active d - 1, d_lastActivity := now\<rparr>"
  have rel: "release key now g = put_demand key ?d g"
    using d by (simp add: release_def)
  show ?thesis
    unfolding rel
  proof (rule gate_inv_put [OF inv, where key = key])
    show "demand_ok cfg (put_demand key ?d g) R key ?d"
      using gate_inv_demand(1) [OF inv d] by (auto simp: demand_ok_def)
  qed (use d gate_inv_rest [OF inv] in \<open>auto simp: update_length\<close>)
qed

lemma probe_ready_inv:
  assumes inv: "gate_inv cfg (g, R)"
  shows "gate_inv cfg (probe_ready key ready g, R)"
proof (cases "\<exists>d. map_of (gt_backends g) key = Some d \<and> d_checking d \<and> d_changed d = ready")
  case True
  then obtain d where d: "map_of (gt_backends g) key = Some d" "d_checking d" "d_changed d = ready"
    by blast
  note ok = gate_inv_demand(1) [OF inv d(1)]
  let ?g = "g\<lparr>gt_closed := ready # gt_closed g, gt_cancelled := ready # gt_cancelled g\<rparr>"
  have pr: "probe_ready key ready g = put_demand key (d\<lparr>d_checking := False\<rparr>) ?g"
    using d by (simp add: probe_ready_def)
  show ?thesis
    unfolding pr
  proof (rule gate_inv_put [OF inv, where key = key])
    show "demand_ok cfg (put_demand key (d\<lparr>d_checking := False\<rparr>) ?g) R key (d\<lparr>d_checking := False\<rparr>)"
      using ok d by (auto simp: demand_ok_def)
  qed (use d ok gate_inv_rest [OF inv] in \<open>auto simp: update_length demand_ok_def\<close>)
next
  case False
  then have "probe_ready key ready g = g"
    by (auto simp: probe_ready_def split: option.splits)
  with inv show ?thesis by simp
qed

lemma gate_inv_step:
  assumes ok: "NewWaitGate_ok cfg" and "gstep cfg s s'" and "gate_inv cfg s"
  shows "gate_inv cfg s'"
  using assms(2,3)
proof cases
  case (refused ended key now g g' e R)
  with acquire_enter_refused [OF ok refused(3)] assms(3) show ?thesis by simp
next
  case (admitted ch g key R now)
  with acquire_leave_inv [of cfg g key ch R False] assms(3) show ?thesis by simp
next
  case (gave_up g key ch R now)
  with acquire_leave_inv [of cfg g key ch R True] assms(3) show ?thesis by simp
qed (use assms(3) acquire_enter_inv [OF ok] release_inv probe_ready_inv in auto)

lemma gate_inv_reachable:
  assumes ok: "NewWaitGate_ok cfg" and "reachable cfg s"
  shows "gate_inv cfg s"
  using assms(2)
proof induction
  case start
  then show ?case
    using ok by (simp add: gate_inv_def empty_gate_def NewWaitGate_ok_def waiting_def running_def)
next
  case (step s s')
  then show ?case
    using gate_inv_step [OF ok] by blast
qed


section \<open>Properties\<close>

text \<open>
  C29 (the gate's limits).  However requests and probes interleave, the demand exported for a
  backend is exactly the number of requests waiting and active on it, the waiting ones never
  exceed the pending limit, and the backends never exceed theirs.
\<close>

theorem gate_counts_requests:
  assumes "NewWaitGate_ok cfg" and "reachable cfg (g, R)"
  shows "int (length (gt_backends g)) \<le> wc_MaxBackends cfg
    \<and> (case map_of (gt_backends g) key of
         None \<Rightarrow> waiting key R = 0 \<and> running key R = 0
       | Some d \<Rightarrow> d_pending d = int (waiting key R) \<and> d_active d = int (running key R)
           \<and> d_pending d \<le> wc_MaxPending cfg)"
proof -
  note inv = gate_inv_reachable [OF assms]
  show ?thesis
    using gate_inv_rest(1) [OF inv] gate_inv_demand [OF inv, of key]
    by (cases "map_of (gt_backends g) key") (simp_all add: demand_ok_def)
qed

text \<open>
  C30 (no wake-up is lost).  A request that waits in the gate either waits on a channel that is
  already closed, or on that of the generation of probes now running for its backend, which
  has not been cancelled: its first successful probe closes the channel.
\<close>

theorem gate_no_lost_wakeup:
  assumes "NewWaitGate_ok cfg" and "reachable cfg (g, R)" and "Waiting key ch \<in># R"
  shows "ch \<in> set (gt_closed g)
    \<or> (ch \<notin> set (gt_cancelled g)
       \<and> (\<exists>d. map_of (gt_backends g) key = Some d \<and> d_checking d \<and> d_changed d = ch)
       \<and> ch \<in> set (gt_closed (probe_ready key ch g)))"
proof -
  note inv = gate_inv_reachable [OF assms(1,2)]
  obtain d where d: "map_of (gt_backends g) key = Some d"
    using gate_inv_demand(2) [OF inv, of key] waiting_zero assms(3)
    by (cases "map_of (gt_backends g) key") auto
  show ?thesis
    using gate_inv_demand(1) [OF inv d] d assms(3) by (auto simp: demand_ok_def probe_ready_def)
qed

text \<open>
  Old probes are harmless.  A generation of probes that was cancelled never signals: its
  late success changes nothing, so no later request is let through by it.  And a backend no
  request waits for is not being probed.
\<close>

theorem gate_old_probes_harmless:
  assumes "NewWaitGate_ok cfg" and "reachable cfg (g, R)"
  shows "(old \<in> set (gt_cancelled g) \<longrightarrow> probe_ready key old g = g)
    \<and> (waiting key R = 0 \<longrightarrow> \<not> (\<exists>d. map_of (gt_backends g) key = Some d \<and> d_checking d))"
proof -
  note ok = gate_inv_demand(1) [OF gate_inv_reachable [OF assms]]
  show ?thesis
    by (auto simp: probe_ready_def split: option.splits dest!: ok simp: demand_ok_def)
qed

text \<open>
  What the gate refuses.  A request whose context is alive is refused exactly when its
  backend is new and the backend limit is reached, or when the backend's pending limit is
  reached; a refusal leaves the gate as it was.
\<close>

theorem gate_refuses_exactly:
  assumes "NewWaitGate_ok cfg"
  shows "(case acquire_enter cfg False key now g of
      (g', Inl e) \<Rightarrow> g' = g \<and>
        (case map_of (gt_backends g) key of
           None \<Rightarrow> wc_MaxBackends cfg \<le> int (length (gt_backends g))
         | Some d \<Rightarrow> wc_MaxPending cfg \<le> d_pending d)
    | (g', Inr ch) \<Rightarrow>
        (case map_of (gt_backends g) key of
           None \<Rightarrow> int (length (gt_backends g)) < wc_MaxBackends cfg
         | Some d \<Rightarrow> d_pending d < wc_MaxPending cfg)
        \<and> (\<exists>d. map_of (gt_backends g') key = Some d \<and> d_checking d \<and> d_changed d = ch \<and> d_lastActivity d = now))"
  using assms
  by (auto simp: acquire_enter_def admit_def Let_def new_demand_def NewWaitGate_ok_def update_conv'
      split: option.splits if_splits)

section \<open>The properties on a concrete run\<close>

definition example_gate_cfg :: wait_cfg where
  "example_gate_cfg = \<lparr>wc_Timeout = 30, wc_Interval = 1, wc_MaxPending = 2, wc_MaxBackends = 1\<rparr>"

abbreviation example_gate :: gate where
  "example_gate \<equiv> fst (acquire_enter example_gate_cfg False ''u'' zero_time empty_gate)"

lemma example_gate_ok: "NewWaitGate_ok example_gate_cfg"
  by (simp add: example_gate_cfg_def NewWaitGate_ok_def)

lemma example_gate_enter:
  "acquire_enter example_gate_cfg False ''u'' zero_time empty_gate = (example_gate, Inr 0)"
  by (simp add: acquire_enter_def admit_def empty_gate_def new_demand_def example_gate_cfg_def Let_def)

lemma example_gate_reachable: "reachable example_gate_cfg (example_gate, {#Waiting ''u'' 0#})"
  by (rule reachable.step [OF reachable.start gstep.enter [OF example_gate_enter]])

theorem gate_counts_requests_witness:
  "case map_of (gt_backends example_gate) ''u'' of
     None \<Rightarrow> False | Some d \<Rightarrow> d_pending d = 1 \<and> d_active d = 0"
proof -
  have "map_of (gt_backends example_gate) ''u'' \<noteq> None"
    by (simp add: acquire_enter_def admit_def empty_gate_def new_demand_def example_gate_cfg_def Let_def update_conv')
  then show ?thesis
    using gate_counts_requests [OF example_gate_ok example_gate_reachable, of "''u''"]
    by (auto simp: waiting_def running_def)
qed

theorem gate_no_lost_wakeup_witness: "0 \<in> set (gt_closed (probe_ready ''u'' 0 example_gate))"
proof -
  have "gt_closed example_gate = []"
    by (simp add: acquire_enter_def admit_def empty_gate_def new_demand_def example_gate_cfg_def Let_def)
  then show ?thesis
    using gate_no_lost_wakeup [OF example_gate_ok example_gate_reachable, of "''u''" 0] by simp
qed

theorem gate_old_probes_harmless_witness:
  "probe_ready ''u'' 0 (acquire_leave True ''u'' zero_time example_gate) = acquire_leave True ''u'' zero_time example_gate"
proof -
  have r: "reachable example_gate_cfg (acquire_leave True ''u'' zero_time example_gate, {#})"
    by (rule reachable.step [OF example_gate_reachable gstep.gave_up])
  have "gt_cancelled (acquire_leave True ''u'' zero_time example_gate) = [0]"
    by (simp add: acquire_enter_def admit_def empty_gate_def new_demand_def example_gate_cfg_def Let_def
        acquire_leave_def update_conv')
  then show ?thesis
    using gate_old_probes_harmless [OF example_gate_ok r, of 0 "''u''"] by simp
qed

theorem gate_refuses_exactly_witness:
  "fst (acquire_enter example_gate_cfg False ''v'' zero_time example_gate) = example_gate"
proof -
  have r: "snd (acquire_enter example_gate_cfg False ''v'' zero_time example_gate) = Inl (Error Plain ''wait gate: backend limit'')"
    by (simp add: acquire_enter_def admit_def empty_gate_def new_demand_def example_gate_cfg_def Let_def)
  show ?thesis
    using gate_refuses_exactly [OF example_gate_ok, of example_gate "''v''" zero_time] r
    by (cases "acquire_enter example_gate_cfg False ''v'' zero_time example_gate") simp
qed

end
