(* ===== verification/Router.thy ===== *)
theory Router
  imports Http
begin

text \<open>
  \<open>proxy/router.go\<close>: the route table.  A request is its host, its path, the caller's address
  and its headers; an upstream URL is its string (\<open>None\<close> is \<open>nil\<close>); the map \<open>ClaimHeaders\<close> is
  an association list.  \<open>ul\<close> is \<open>strings.ToLower\<close> on strings that are not ASCII.
\<close>

record http_req =
  hr_Host :: string
  hr_Path :: string
  hr_RawQuery :: string
  hr_RemoteAddr :: string
  hr_Header :: headers

record route =
  rt_Name :: string
  rt_Hostnames :: "string list"
  rt_PathPrefix :: string
  rt_Upstream :: "string option"
  rt_Audience :: string
  rt_Tenant :: string
  rt_ClaimHeaders :: "(string \<times> string) list"

fun hostnames_Valid :: "string list \<Rightarrow> error option" where
  "hostnames_Valid [] = None"
| "hostnames_Valid (h # hs) =
     (if HasPrefix h ''*.'' \<and> CountByte h CHR ''*'' = 1 then hostnames_Valid hs
      else if ContainsByte h CHR ''*''
      then Some (Error Plain ''not an exact name or a leading-label wildcard'')
      else hostnames_Valid hs)"

definition route_Valid :: "route \<Rightarrow> error option" where
  "route_Valid r =
     (if rt_Upstream r = None then Some (Error Plain ''route has no upstream'')
      else if blank (rt_Audience r) then Some (Error Plain ''route has no audience'')
      else
        (case hostnames_Valid (rt_Hostnames r) of
           Some e \<Rightarrow> Some e
         | None \<Rightarrow>
             if rt_PathPrefix r \<noteq> [] \<and> \<not> HasPrefix (rt_PathPrefix r) ''/''
             then Some (Error Plain ''path prefix must start with /'') else None))"

text \<open>The loop over the hostnames; 3 is its \<open>break\<close>.\<close>

fun host_loop :: "(string \<Rightarrow> string) \<Rightarrow> string \<Rightarrow> nat \<Rightarrow> string list \<Rightarrow> nat" where
  "host_loop ul host rank [] = rank"
| "host_loop ul host rank (h # hs) =
     (let hl = ToLower ul h
      in if hl = host then 3
         else (case CutPrefix hl ''*.'' of
                 Some suffix \<Rightarrow>
                   if HasSuffix host (CHR ''.'' # suffix) \<and> rank < 2 then host_loop ul host 2 hs
                   else host_loop ul host rank hs
               | None \<Rightarrow> host_loop ul host rank hs))"

definition request_host :: "(string \<Rightarrow> string) \<Rightarrow> http_req \<Rightarrow> string" where
  "request_host ul req = ToLower ul (TrimSuffix (before_byte (hr_Host req) CHR '':'') ''.'')"

definition route_matches :: "(string \<Rightarrow> string) \<Rightarrow> route \<Rightarrow> http_req \<Rightarrow> (nat \<times> nat) option" where
  "route_matches ul r req =
     (let host = request_host ul req;
          hostRank = (if rt_Hostnames r = [] then 1 else host_loop ul host 0 (rt_Hostnames r))
      in if hostRank = 0 then None
         else if rt_PathPrefix r \<noteq> [] then
           (let p = hr_Path req; trimmed = TrimSuffix (rt_PathPrefix r) ''/''
            in if p \<noteq> trimmed \<and> \<not> HasPrefix p (trimmed @ ''/'') then None
               else Some (hostRank, length trimmed))
         else Some (hostRank, 0))"

text \<open>The loop of \<open>NewRouter\<close> that validates and names the routes, from index \<open>i\<close>.\<close>

fun name_routes :: "nat \<Rightarrow> route list \<Rightarrow> route list result" where
  "name_routes i [] = Inr []"
| "name_routes i (r # rs) =
     (case route_Valid r of
        Some e \<Rightarrow> Inl e
      | None \<Rightarrow>
          (case name_routes (Suc i) rs of
             Inl e \<Rightarrow> Inl e
           | Inr rs' \<Rightarrow>
               Inr ((if rt_Name r = [] then r\<lparr>rt_Name := ''route-'' @ Itoa (int i)\<rparr> else r) # rs')))"

definition NewRouter :: "route list \<Rightarrow> route list result" where
  "NewRouter routes =
     (if routes = [] then Inl (Error Plain ''a router needs at least one route'') else name_routes 0 routes)"

type_synonym scored = "route \<times> nat \<times> nat \<times> nat"

fun score_routes :: "(string \<Rightarrow> string) \<Rightarrow> http_req \<Rightarrow> nat \<Rightarrow> route list \<Rightarrow> scored list" where
  "score_routes ul req i [] = []"
| "score_routes ul req i (r # rs) =
     (case route_matches ul r req of
        None \<Rightarrow> score_routes ul req (Suc i) rs
      | Some (h, p) \<Rightarrow> (r, h, p, i) # score_routes ul req (Suc i) rs)"

text \<open>The comparison of the sort: host and path descending, then the index ascending.\<close>

definition score_key :: "scored \<Rightarrow> int list" where
  "score_key s = (case s of (r, h, p, i) \<Rightarrow> [- int h, - int p, int i])"

definition router_Match :: "(string \<Rightarrow> string) \<Rightarrow> route list \<Rightarrow> http_req \<Rightarrow> route option" where
  "router_Match ul routes req =
     (case sort_key score_key (score_routes ul req 0 routes) of [] \<Rightarrow> None | (r, _) # _ \<Rightarrow> Some r)"

section \<open>Lemmas\<close>

lemma hostnames_Valid_None:
  "hostnames_Valid hs = None \<longleftrightarrow>
     (\<forall>h \<in> set hs. (HasPrefix h ''*.'' \<and> CountByte h CHR ''*'' = 1) \<or> \<not> ContainsByte h CHR ''*'')"
  by (induction hs) auto

lemma host_loop_iff:
  assumes "rank \<le> 2"
  shows "host_loop ul host rank hs =
    (if host \<in> ToLower ul ` set hs then 3
     else if \<exists>h \<in> set hs. \<exists>suffix. ToLower ul h = ''*.'' @ suffix \<and> HasSuffix host (CHR ''.'' # suffix) then 2
     else rank)"
  using assms
proof (induction ul host rank hs rule: host_loop.induct)
  case (2 ul host rank h hs)
  consider "ToLower ul h = host" | "ToLower ul h \<noteq> host" "CutPrefix (ToLower ul h) ''*.'' = None"
    | suffix where "ToLower ul h \<noteq> host" "CutPrefix (ToLower ul h) ''*.'' = Some suffix"
    by (cases "CutPrefix (ToLower ul h) ''*.''") auto
  then show ?case
  proof cases
    case 1
    then show ?thesis by (auto simp: Let_def)
  next
    case c: 2
    then have "\<not> (\<exists>suffix. ToLower ul h = ''*.'' @ suffix)"
      by (auto simp: CutPrefix_None HasPrefix_iff)
    with 2 c show ?thesis
      by (auto simp: Let_def)
  next
    case c: (3 suffix)
    then have "ToLower ul h = ''*.'' @ suffix' \<longleftrightarrow> suffix' = suffix" for suffix'
      by (auto simp: CutPrefix_Some)
    with 2 c show ?thesis
      by (auto simp: Let_def)
  qed
qed simp

lemma score_routes_set:
  "(r, h, p, k) \<in> set (score_routes ul req i rs) \<longleftrightarrow>
     (\<exists>n < length rs. k = i + n \<and> r = rs ! n \<and> route_matches ul r req = Some (h, p))"
proof (induction ul req i rs rule: score_routes.induct)
  case (2 ul req i x xs)
  have "(\<exists>n < length (x # xs). k = i + n \<and> r = (x # xs) ! n \<and> route_matches ul r req = Some (h, p)) \<longleftrightarrow>
      (k = i \<and> r = x \<and> route_matches ul r req = Some (h, p))
      \<or> (\<exists>n < length xs. k = Suc i + n \<and> r = xs ! n \<and> route_matches ul r req = Some (h, p))"
    by (auto simp: less_Suc_eq_0_disj)
  then show ?case
    using 2 by (auto split: option.splits)
qed simp

lemma sort_key_hd_least: "x \<in> set xs \<Longrightarrow> f (hd (sort_key f xs)) \<le> f x"
  using sorted_sort_key [of f xs]
  by (cases "sort_key f xs") (auto simp flip: set_sort [of f xs])

lemma score_key_le:
  "score_key (r, h, p, i) \<le> score_key (r', h', p', i') \<longleftrightarrow>
     h' < h \<or> (h' = h \<and> (p' < p \<or> (p' = p \<and> i \<le> i')))"
  by (auto simp: score_key_def)

lemma router_Match_Some:
  assumes "router_Match ul routes req = Some r"
  obtains i h p where "i < length routes" "routes ! i = r" "route_matches ul r req = Some (h, p)"
    "\<And>j h' p'. j < length routes \<Longrightarrow> route_matches ul (routes ! j) req = Some (h', p') \<Longrightarrow>
       h' < h \<or> (h' = h \<and> (p' < p \<or> (p' = p \<and> i \<le> j)))"
proof -
  let ?S = "score_routes ul req 0 routes"
  obtain h p i rest where s: "sort_key score_key ?S = (r, h, p, i) # rest"
    using assms by (auto simp: router_Match_def split: list.splits)
  then have "(r, h, p, i) \<in> set ?S"
    by (metis list.set_intros(1) set_sort)
  then have i: "i < length routes" "routes ! i = r" "route_matches ul r req = Some (h, p)"
    by (auto simp: score_routes_set)
  show thesis
  proof (rule that [OF i])
    fix j h' p'
    assume "j < length routes" "route_matches ul (routes ! j) req = Some (h', p')"
    then have "(routes ! j, h', p', j) \<in> set ?S"
      by (auto simp: score_routes_set)
    from sort_key_hd_least [OF this, of score_key] show "h' < h \<or> (h' = h \<and> (p' < p \<or> (p' = p \<and> i \<le> j)))"
      by (simp add: s score_key_le)
  qed
qed

lemma score_routes_Nil:
  "score_routes ul req i routes = [] \<longleftrightarrow> (\<forall>r \<in> set routes. route_matches ul r req = None)"
  by (induction ul req i routes rule: score_routes.induct) (auto split: option.splits)

lemma router_Match_None:
  "router_Match ul routes req = None \<longleftrightarrow> (\<forall>r \<in> set routes. route_matches ul r req = None)"
proof -
  have "router_Match ul routes req = None \<longleftrightarrow> sort_key score_key (score_routes ul req 0 routes) = []"
    by (auto simp: router_Match_def split: list.splits)
  then show ?thesis
    by (simp add: score_routes_Nil)
qed

lemma name_routes_Inr:
  "name_routes i rs = Inr rs' \<Longrightarrow> length rs' = length rs \<and> (\<forall>r \<in> set rs. route_Valid r = None)
     \<and> (\<forall>n < length rs. rs' ! n = (if rt_Name (rs ! n) = [] then (rs ! n)\<lparr>rt_Name := ''route-'' @ Itoa (int (i + n))\<rparr> else rs ! n))"
proof (induction i rs arbitrary: rs' rule: name_routes.induct)
  case (2 i r rs)
  then obtain ts where ts: "route_Valid r = None" "name_routes (Suc i) rs = Inr ts"
      "rs' = (if rt_Name r = [] then r\<lparr>rt_Name := ''route-'' @ Itoa (int i)\<rparr> else r) # ts"
    by (auto split: option.splits sum.splits)
  from "2.IH" [OF ts(1,2)] ts show ?case
    by (auto simp: nth_Cons ac_simps split: nat.splits)
qed simp

lemma route_matches_rename [simp]: "route_matches ul (r\<lparr>rt_Name := n\<rparr>) req = route_matches ul r req"
  by (simp add: route_matches_def Let_def)

section \<open>Properties\<close>

text \<open>
  When a route matches.  A route matches when it names no host, or names the request's
  host or a wildcard over it, letter case, port and trailing dot aside; and when it has no path
  prefix, or the path is the prefix or continues it after a slash.  An exact name ranks above
  a wildcard and that above no name; the other rank is the prefix's length.
\<close>

theorem route_matches_exactly:
  "route_matches ul r req = Some (rank, len) \<longleftrightarrow>
    (let host = request_host ul req; pre = TrimSuffix (rt_PathPrefix r) ''/'';
         exact = (host \<in> ToLower ul ` set (rt_Hostnames r));
         wild = list_ex (\<lambda>h. \<exists>suffix front. ToLower ul h = ''*.'' @ suffix \<and> host = front @ CHR ''.'' # suffix) (rt_Hostnames r)
     in rank = (if rt_Hostnames r = [] then 1 else if exact then 3 else if wild then 2 else 0) \<and> rank \<noteq> 0
        \<and> (if rt_PathPrefix r = [] then len = 0
           else len = length pre \<and> (hr_Path req = pre \<or> (\<exists>rest. hr_Path req = pre @ CHR ''/'' # rest))))"
proof -
  have w: "(\<exists>h \<in> set hs. \<exists>suffix. ToLower ul h = ''*.'' @ suffix \<and> HasSuffix host (CHR ''.'' # suffix)) \<longleftrightarrow>
      list_ex (\<lambda>h. \<exists>suffix front. ToLower ul h = ''*.'' @ suffix \<and> host = front @ CHR ''.'' # suffix) hs" for hs host
    by (auto simp: list_ex_iff HasSuffix_iff)
  show ?thesis
    unfolding route_matches_def Let_def host_loop_iff [of 0, simplified] w
    by (auto simp: HasPrefix_iff)
qed

text \<open>
  C28 (the best route).  The router gives the first of the matching routes that rank best by
  host and then by the length of the path prefix; it gives none only when no route matches.
\<close>

theorem router_picks_best:
  "case router_Match ul routes req of
     None \<Rightarrow> list_all (\<lambda>r. route_matches ul r req = None) routes
   | Some r \<Rightarrow> (\<exists>i h p. i < length routes \<and> routes ! i = r \<and> route_matches ul r req = Some (h, p)
       \<and> list_all (\<lambda>j. case route_matches ul (routes ! j) req of
             None \<Rightarrow> True
           | Some (h', p') \<Rightarrow> h' < h \<or> (h' = h \<and> (p' < p \<or> (p' = p \<and> i \<le> j)))) [0..<length routes])"
proof (cases "router_Match ul routes req")
  case None
  then show ?thesis
    using router_Match_None [of ul routes req] by (simp add: list_all_iff)
next
  case (Some r)
  then obtain i h p where i: "i < length routes" "routes ! i = r" "route_matches ul r req = Some (h, p)"
    "\<And>j h' p'. j < length routes \<Longrightarrow> route_matches ul (routes ! j) req = Some (h', p') \<Longrightarrow>
       h' < h \<or> (h' = h \<and> (p' < p \<or> (p' = p \<and> i \<le> j)))"
    using router_Match_Some [OF Some] by metis
  then have "list_all (\<lambda>j. case route_matches ul (routes ! j) req of
             None \<Rightarrow> True
           | Some (h', p') \<Rightarrow> h' < h \<or> (h' = h \<and> (p' < p \<or> (p' = p \<and> i \<le> j)))) [0..<length routes]"
    by (auto simp: list_all_iff split: option.splits)
  with Some i(1-3) show ?thesis
    by auto
qed

text \<open>
  All wildcards rank the same: of two that match, the one declared first wins even when the
  other is the more specific.
\<close>

lemma longer_wildcard_loses:
  "\<exists>r1 r2 req. rt_Hostnames r1 = [''*.ts.net''] \<and> rt_Hostnames r2 = [''*.a.ts.net''] \<and> hr_Host req = ''x.a.ts.net''
     \<and> router_Match id [r1, r2] req = Some r1"
proof -
  let ?r1 = "\<lparr>rt_Name = ''one'', rt_Hostnames = [''*.ts.net''], rt_PathPrefix = [], rt_Upstream = Some ''u1'',
    rt_Audience = ''a1'', rt_Tenant = [], rt_ClaimHeaders = []\<rparr>"
  let ?r2 = "\<lparr>rt_Name = ''two'', rt_Hostnames = [''*.a.ts.net''], rt_PathPrefix = [], rt_Upstream = Some ''u2'',
    rt_Audience = ''a2'', rt_Tenant = [], rt_ClaimHeaders = []\<rparr>"
  let ?q = "\<lparr>hr_Host = ''x.a.ts.net'', hr_Path = ''/'', hr_RawQuery = [], hr_RemoteAddr = [], hr_Header = (\<lambda>_. [])\<rparr>"
  have "route_matches id ?r1 ?q = Some (2, 0)" "route_matches id ?r2 ?q = Some (2, 0)"
    by code_simp+
  then have "router_Match id [?r1, ?r2] ?q = Some ?r1"
    by (simp add: router_Match_def score_key_def)
  then show ?thesis
    by (intro exI [of _ ?r1] exI [of _ ?r2] exI [of _ ?q]) simp
qed

end
