(* ===== verification/Proxy.thy ===== *)
theory Proxy
  imports Router Signer
begin

text \<open>
  \<open>proxy/proxy.go\<close> and \<open>proxy/errors.go\<close>: the identity-aware reverse proxy.  \<open>ServeHTTP\<close> takes
  what its interfaces answer: the two calls of \<open>Signer.Mint\<close> (each a function of the caller's
  address, the audience and the tenant), \<open>Gate.Acquire\<close> as the error it returns for a route, and
  whether the request's context is alive after the wait.  It gives the calls it makes, in order,
  and how it ends: with a response of its own, by handing the request to the reverse proxy of an
  upstream, or without writing anything.  The map \<open>rps\<close> is the list of its keys.
\<close>

record proxy_cfg =
  px_Router :: "route list option"
  px_Upstream :: "string option"
  px_Signer :: bool
  px_Audience :: string
  px_Header :: string
  px_Bearer :: bool
  px_TenantFrom :: "(http_req \<Rightarrow> string) option"
  px_Gate :: bool

record proxy =
  pr_cfg :: proxy_cfg
  pr_router :: "route list"
  pr_rps :: "string list"
  pr_claimHeaders :: "string list"

definition single_route :: "string \<Rightarrow> string option \<Rightarrow> string \<Rightarrow> route" where
  "single_route name up aud =
     \<lparr>rt_Name = name, rt_Hostnames = [], rt_PathPrefix = [], rt_Upstream = up, rt_Audience = aud,
      rt_Tenant = [], rt_ClaimHeaders = []\<rparr>"

text \<open>The router that \<open>New\<close> serves: the one it is given, or the single-upstream shorthand.\<close>

definition proxy_router :: "proxy_cfg \<Rightarrow> route list result" where
  "proxy_router cfg =
     (case px_Router cfg of
        None \<Rightarrow>
          if px_Upstream cfg = None then Inl (Error Plain ''either Router or Upstream is required'')
          else if blank (px_Audience cfg) then Inl (Error Plain ''Audience is required alongside Upstream'')
          else NewRouter [single_route ''default'' (px_Upstream cfg) (px_Audience cfg)]
      | Some rs \<Rightarrow>
          if px_Upstream cfg \<noteq> None then Inl (Error Plain ''set Router or Upstream, not both'') else Inr rs)"

text \<open>\<open>String\<close> of a nil URL panics.\<close>

definition upstream_keys :: "route list \<Rightarrow> string list result" where
  "upstream_keys rs =
     (case those (map rt_Upstream rs) of
        None \<Rightarrow> Inl (Error Panic ''nil URL'')
      | Some us \<Rightarrow> Inr (dedup us))"

definition proxy_New :: "proxy_cfg \<Rightarrow> proxy result" where
  "proxy_New cfg =
     (if \<not> px_Signer cfg then Inl (Error Plain ''Signer is required'')
      else
        (case proxy_router cfg of
           Inl e \<Rightarrow> Inl e
         | Inr rs \<Rightarrow>
             (case upstream_keys rs of
                Inl e \<Rightarrow> Inl e
              | Inr us \<Rightarrow>
                  Inr \<lparr>pr_cfg = cfg\<lparr>px_Header := (if px_Header cfg = [] then DefaultHeader else px_Header cfg)\<rparr>,
                       pr_router = rs, pr_rps = us,
                       pr_claimHeaders = dedup (concat (map (map fst \<circ> rt_ClaimHeaders) rs))\<rparr>)))"

definition claimValue :: "claims \<Rightarrow> string \<Rightarrow> string" where
  "claimValue c name =
     (if name = ''sub'' \<or> name = ''subject'' then c_Subject c
      else if name = ''email'' then c_Email c
      else if name = ''name'' then c_Name c
      else if name = ''node'' then c_Node c
      else if name = ''tenant'' then c_Tenant c
      else if name = ''roles'' then Join (c_Roles c) '',''
      else if name = ''groups'' then Join (c_Groups c) '',''
      else if name = ''tenants'' then Join (c_Tenants c) '',''
      else [])"

text \<open>\<open>refuse\<close>: the status of a mint failure, and its generic body.\<close>

definition StatusText :: "int \<Rightarrow> string" where
  "StatusText s =
     (if s = 401 then ''Unauthorized'' else if s = 403 then ''Forbidden''
      else if s = 500 then ''Internal Server Error'' else [])"

definition refuse_status :: "error \<Rightarrow> int" where
  "refuse_status e = (if errors_Is e ErrNoIdentity then 401 else if errors_Is e ErrNoTenant then 403 else 500)"

definition refuse :: "error \<Rightarrow> response" where
  "refuse e = http_Error (StatusText (refuse_status e)) (refuse_status e)"

section \<open>The transport\<close>

text \<open>\<open>newTransport\<close>; Go's \<open>int\<close> has 64 bits.\<close>

record transport =
  tr_DialTimeout :: duration
  tr_KeepAlive :: duration
  tr_MaxIdleConnsPerHost :: int
  tr_MaxIdleConns :: int
  tr_IdleConnTimeout :: duration
  tr_TLSHandshakeTimeout :: duration
  tr_ExpectContinueTimeout :: duration
  tr_ForceAttemptHTTP2 :: bool

definition newTransport :: "int \<Rightarrow> transport" where
  "newTransport maxIdlePerHost =
     (let n = (if maxIdlePerHost \<le> 0 then 256 else maxIdlePerHost)
      in \<lparr>tr_DialTimeout = 10 * Second, tr_KeepAlive = 30 * Second, tr_MaxIdleConnsPerHost = n, tr_MaxIdleConns = s64 (n * 8),
          tr_IdleConnTimeout = 90 * Second, tr_TLSHandshakeTimeout = 10 * Second, tr_ExpectContinueTimeout = Second,
          tr_ForceAttemptHTTP2 = True\<rparr>)"

text \<open>
  The pool of one backend always has room for the default of the standard library, and fits in the
  pool of all of them unless the flag is absurd.
\<close>

lemma newTransport_pool:
  assumes "n < 2 ^ 60"
  shows "tr_MaxIdleConnsPerHost (newTransport n) > 0"
    "tr_MaxIdleConns (newTransport n) = 8 * tr_MaxIdleConnsPerHost (newTransport n)"
  using assms by (auto simp: newTransport_def Let_def s64_id in_s64_def)

section \<open>ServeHTTP\<close>

datatype call = CallMint string string string | CallAcquire route | CallForward string | CallRelease

datatype ending = Responded response | Forwarded string http_req | Nothing_Written | Crashed

text \<open>What is stripped from every request, whatever route it takes.\<close>

definition strip_request :: "proxy \<Rightarrow> http_req \<Rightarrow> http_req" where
  "strip_request p req =
     req\<lparr>hr_Header := fold (\<lambda>k h. hdr_Del h k) (pr_claimHeaders p)
                        (StripAssertion (hr_Header req) (px_Header (pr_cfg p)))\<rparr>"

text \<open>What is written for the upstream: the assertion, then the route's claim headers.\<close>

definition assertion_value :: "proxy_cfg \<Rightarrow> string \<Rightarrow> string" where
  "assertion_value cfg tok = (if px_Bearer cfg then ''Bearer '' @ tok else tok)"

definition set_claim_header :: "claims \<Rightarrow> string \<times> string \<Rightarrow> headers \<Rightarrow> headers" where
  "set_claim_header c hc h = (let v = claimValue c (snd hc) in if v \<noteq> [] then hdr_Set h (fst hc) v else h)"

definition inject :: "proxy_cfg \<Rightarrow> string \<Rightarrow> claims \<Rightarrow> route \<Rightarrow> http_req \<Rightarrow> http_req" where
  "inject cfg tok c r req =
     req\<lparr>hr_Header := fold (set_claim_header c) (rt_ClaimHeaders r)
                        (hdr_Set (hr_Header req) (px_Header cfg) (assertion_value cfg tok))\<rparr>"

definition forward :: "proxy \<Rightarrow> string \<Rightarrow> claims \<Rightarrow> route \<Rightarrow> http_req \<Rightarrow> call list \<times> ending" where
  "forward p tok c r req =
     (case rt_Upstream r of
        None \<Rightarrow> ([], Crashed)
      | Some u \<Rightarrow>
          if u \<in> set (pr_rps p) then ([CallForward u], Forwarded u (inject (pr_cfg p) tok c r req))
          else ([], Crashed))"

type_synonym mint_fun = "string \<Rightarrow> string \<Rightarrow> string \<Rightarrow> (string \<times> claims) result"

definition request_tenant :: "proxy_cfg \<Rightarrow> route \<Rightarrow> http_req \<Rightarrow> string" where
  "request_tenant cfg r req =
     (if rt_Tenant r = [] then (case px_TenantFrom cfg of None \<Rightarrow> [] | Some f \<Rightarrow> f req) else rt_Tenant r)"

definition unavailable :: response where
  "unavailable = (let e = http_Error ''backend unavailable'' 503 in e\<lparr>rs_Header := (''Retry-After'', ''5'') # rs_Header e\<rparr>)"

text \<open>The request behind the gate; \<open>release\<close> is deferred, so it is the last call on every path.\<close>

definition serve_gated :: "proxy \<Rightarrow> (route \<Rightarrow> error option) \<Rightarrow> bool \<Rightarrow> mint_fun \<Rightarrow> claims \<Rightarrow> route \<Rightarrow> http_req
    \<Rightarrow> call list \<times> ending" where
  "serve_gated p acquire live mint2 c r req =
     (case acquire r of
        Some _ \<Rightarrow> ([CallAcquire r], Responded unavailable)
      | None \<Rightarrow>
          if \<not> live then ([CallAcquire r, CallRelease], Nothing_Written)
          else
            (let again = CallMint (hr_RemoteAddr req) (rt_Audience r) (c_Tenant c)
             in case mint2 (hr_RemoteAddr req) (rt_Audience r) (c_Tenant c) of
                  Inl e \<Rightarrow> ([CallAcquire r, again, CallRelease], Responded (refuse e))
                | Inr (tok, c') \<Rightarrow>
                    (case forward p tok c' r req of
                       (cs, out) \<Rightarrow> ([CallAcquire r, again] @ cs @ [CallRelease], out))))"

definition serve :: "(string \<Rightarrow> string) \<Rightarrow> proxy \<Rightarrow> mint_fun \<Rightarrow> (route \<Rightarrow> error option) \<Rightarrow> bool \<Rightarrow> mint_fun \<Rightarrow> http_req
    \<Rightarrow> call list \<times> ending" where
  "serve ul p mint1 acquire live mint2 req0 =
     (let req = strip_request p req0
      in case router_Match ul (pr_router p) req of
           None \<Rightarrow> ([], Responded (http_Error ''not found'' 404))
         | Some r \<Rightarrow>
             (let tenant = request_tenant (pr_cfg p) r req;
                  first = CallMint (hr_RemoteAddr req) (rt_Audience r) tenant
              in case mint1 (hr_RemoteAddr req) (rt_Audience r) tenant of
                   Inl e \<Rightarrow> ([first], Responded (refuse e))
                 | Inr (tok, c) \<Rightarrow>
                     (case (if px_Gate (pr_cfg p) then serve_gated p acquire live mint2 c r req
                            else forward p tok c r req) of
                        (cs, out) \<Rightarrow> (first # cs, out))))"


section \<open>The signer behind the proxy\<close>

text \<open>What the signer's interfaces answer at one call of \<open>Mint\<close>.\<close>

record signer_world =
  sw_Identify :: "string \<Rightarrow> identity result"
  sw_Resolve :: "identity \<Rightarrow> grant result"
  sw_Current :: "(privkey \<times> string) result"
  sw_Now :: gotime
  sw_ID :: "bytes option"
  sw_Rnd :: nat

definition mint_at :: "crypto \<Rightarrow> (jnum \<Rightarrow> jnum option) \<Rightarrow> signer_cfg \<Rightarrow> signer_world \<Rightarrow> mint_fun" where
  "mint_at cr fp cfg w remote audience tenant =
     Mint cr fp cfg (sw_Identify w remote) (sw_Resolve w) (sw_Current w) (sw_Now w) (sw_ID w) (sw_Rnd w)
       audience tenant"

text \<open>
  What the proxy relies on of the signer it is given: a token for the audience it asked for, and
  for the tenant it asked for when it asked for one, and always for some tenant.
\<close>

locale minting =
  fixes mint :: "'w \<Rightarrow> mint_fun"
  assumes mint_audience: "mint w remote aud ten = Inr (tok, c) \<Longrightarrow> c_Audience c = aud"
    and mint_tenant: "mint w remote aud ten = Inr (tok, c) \<Longrightarrow> ten \<noteq> [] \<Longrightarrow> c_Tenant c = ten"
    and mint_some_tenant: "mint w remote aud ten = Inr (tok, c) \<Longrightarrow> c_Tenant c \<noteq> []"

lemma Mint_tenant:
  assumes "Mint cr fp cfg identify resolve cur now idbytes rnd audience tenant = Inr (tok, c)"
  shows "c_Audience c = audience \<and> c_Tenant c \<noteq> [] \<and> (tenant \<noteq> [] \<longrightarrow> c_Tenant c = tenant)"
proof -
  obtain i g t bs where m: "identify = Inr i" "resolve i = Inr g"
    "grant_Tenant g (if tenant = [] then g_Default g else tenant) = Some t" "c = mint_claims cfg now i g t audience (b64 bs)"
    by (rule Mint_Inr [OF assms])
  have "(if tenant = [] then g_Default g else tenant) \<noteq> []"
    using assms m by (auto simp: Mint_def Let_def split: if_splits sum.splits option.splits)
  with m grant_Tenant_Some [OF m(3)] show ?thesis
    by (auto simp: mint_claims_def)
qed

interpretation signer_minting: minting "mint_at cr fp cfg" for cr fp cfg
  by unfold_locales (auto simp: mint_at_def dest: Mint_tenant)

section \<open>Headers\<close>

abbreviation same_header :: "string \<Rightarrow> string \<Rightarrow> bool" where
  "same_header a b \<equiv> canonical_key a = canonical_key b"

lemma fold_Del_Values [simp]:
  "hdr_Values (fold (\<lambda>k h. hdr_Del h k) ks h) k' = (if \<exists>k \<in> set ks. same_header k k' then [] else hdr_Values h k')"
  by (induction ks arbitrary: h) auto

lemma strip_request_sel [simp]:
  "hr_Host (strip_request p req) = hr_Host req" "hr_Path (strip_request p req) = hr_Path req"
  "hr_RemoteAddr (strip_request p req) = hr_RemoteAddr req"
  by (simp_all add: strip_request_def)

lemma inject_sel [simp]:
  "hr_Host (inject cfg tok c r req) = hr_Host req" "hr_Path (inject cfg tok c r req) = hr_Path req"
  "hr_RemoteAddr (inject cfg tok c r req) = hr_RemoteAddr req"
  by (simp_all add: inject_def)

lemma strip_Values:
  "px_Header (pr_cfg p) \<noteq> [] \<Longrightarrow> hdr_Values (hr_Header (strip_request p req)) k =
     (if \<exists>k' \<in> set (px_Header (pr_cfg p) # pr_claimHeaders p). same_header k' k then []
      else hdr_Values (hr_Header req) k)"
  by (auto simp: strip_request_def StripAssertion_def)

text \<open>The claim header that wins for a key: the last of the route's with that key and a value.\<close>

definition claim_header_for :: "claims \<Rightarrow> (string \<times> string) list \<Rightarrow> string \<Rightarrow> string option" where
  "claim_header_for c hcs k =
     map_option (claimValue c \<circ> snd)
       (find (\<lambda>hc. same_header (fst hc) k \<and> claimValue c (snd hc) \<noteq> []) (rev hcs))"

lemma fold_set_claim_header_Values:
  "hdr_Values (fold (set_claim_header c) hcs h) k =
     (case claim_header_for c hcs k of None \<Rightarrow> hdr_Values h k | Some v \<Rightarrow> [v])"
  by (induction hcs rule: rev_induct) (auto simp: claim_header_for_def set_claim_header_def Let_def)

lemma inject_Values:
  "hdr_Values (hr_Header (inject cfg tok c r req)) k =
     (case claim_header_for c (rt_ClaimHeaders r) k of
        Some v \<Rightarrow> [v]
      | None \<Rightarrow> if same_header (px_Header cfg) k then [assertion_value cfg tok] else hdr_Values (hr_Header req) k)"
  by (simp add: inject_def fold_set_claim_header_Values split: option.splits)

section \<open>What New builds\<close>

lemma those_Some: "those xs = Some ys \<longleftrightarrow> xs = map Some ys"
  by (induction xs arbitrary: ys) (auto split: option.splits)

lemma proxy_New_Inr:
  assumes "proxy_New cfg = Inr p"
  shows "px_Header (pr_cfg p) \<noteq> []" and "proxy_router cfg = Inr (pr_router p)"
    and "\<forall>r \<in> set (pr_router p). \<exists>u. rt_Upstream r = Some u \<and> u \<in> set (pr_rps p)"
    and "set (pr_claimHeaders p) = (\<Union>r \<in> set (pr_router p). fst ` set (rt_ClaimHeaders r))"
proof -
  obtain rs us where r: "proxy_router cfg = Inr rs" "those (map rt_Upstream rs) = Some us"
    and p: "p = \<lparr>pr_cfg = cfg\<lparr>px_Header := (if px_Header cfg = [] then DefaultHeader else px_Header cfg)\<rparr>,
        pr_router = rs, pr_rps = dedup us, pr_claimHeaders = dedup (concat (map (map fst \<circ> rt_ClaimHeaders) rs))\<rparr>"
    using assms by (auto simp: proxy_New_def upstream_keys_def split: if_splits sum.splits option.splits)
  show "px_Header (pr_cfg p) \<noteq> []"
    by (simp add: p DefaultHeader_def)
  show "proxy_router cfg = Inr (pr_router p)"
    using r p by simp
  show "set (pr_claimHeaders p) = (\<Union>r \<in> set (pr_router p). fst ` set (rt_ClaimHeaders r))"
    by (simp add: p set_dedup_onto)
  have "map rt_Upstream rs = map Some us"
    using r(2) by (simp add: those_Some)
  from arg_cong [OF this, of set] have "rt_Upstream ` set rs = Some ` set us"
    by simp
  then show "\<forall>r \<in> set (pr_router p). \<exists>u. rt_Upstream r = Some u \<and> u \<in> set (pr_rps p)"
    by (auto simp: p set_dedup_onto image_def set_eq_iff)
qed

lemma router_Match_in: "router_Match ul rs req = Some r \<Longrightarrow> r \<in> set rs"
  by (erule router_Match_Some) auto

lemma forward_ok:
  assumes "proxy_New cfg = Inr p" "router_Match ul (pr_router p) req' = Some r"
  obtains u where "rt_Upstream r = Some u"
    "\<And>tok c req. forward p tok c r req = ([CallForward u], Forwarded u (inject (pr_cfg p) tok c r req))"
proof -
  obtain u where "rt_Upstream r = Some u" "u \<in> set (pr_rps p)"
    using proxy_New_Inr(3) [OF assms(1)] router_Match_in [OF assms(2)] by blast
  then show thesis
    by (intro that) (simp_all add: forward_def)
qed


context minting
begin

text \<open>How a request came to be forwarded.\<close>

lemma forwarded:
  assumes new: "proxy_New cfg = Inr p"
    and s: "serve ul p (mint w1) acquire live (mint w2) req = (calls, Forwarded u out)"
  obtains r ten tok c where "router_Match ul (pr_router p) (strip_request p req) = Some r" "rt_Upstream r = Some u"
    "ten = request_tenant (pr_cfg p) r (strip_request p req)"
    "out = inject (pr_cfg p) tok c r (strip_request p req)"
    "c_Audience c = rt_Audience r" "ten \<noteq> [] \<longrightarrow> c_Tenant c = ten" "c_Tenant c \<noteq> []"
    "if px_Gate (pr_cfg p)
     then acquire r = None \<and> live \<and> mint w2 (hr_RemoteAddr req) (rt_Audience r) (c_Tenant c) = Inr (tok, c)
       \<and> (\<exists>tok1 c1. mint w1 (hr_RemoteAddr req) (rt_Audience r) ten = Inr (tok1, c1) \<and> c_Tenant c1 = c_Tenant c)
       \<and> calls = [CallMint (hr_RemoteAddr req) (rt_Audience r) ten, CallAcquire r,
            CallMint (hr_RemoteAddr req) (rt_Audience r) (c_Tenant c), CallForward u, CallRelease]
     else mint w1 (hr_RemoteAddr req) (rt_Audience r) ten = Inr (tok, c)
       \<and> calls = [CallMint (hr_RemoteAddr req) (rt_Audience r) ten, CallForward u]"
proof -
  let ?q = "strip_request p req"
  obtain r where r: "router_Match ul (pr_router p) ?q = Some r"
    using s by (auto simp: serve_def Let_def split: option.splits)
  obtain u' where u': "rt_Upstream r = Some u'"
    and f: "forward p tok c r ?q = ([CallForward u'], Forwarded u' (inject (pr_cfg p) tok c r ?q))" for tok c
    by (rule forward_ok [OF new r]) metis
  let ?ten = "request_tenant (pr_cfg p) r ?q"
  obtain tok1 c1 where m1: "mint w1 (hr_RemoteAddr req) (rt_Audience r) ?ten = Inr (tok1, c1)"
    using s r by (cases "mint w1 (hr_RemoteAddr req) (rt_Audience r) ?ten") (auto simp: serve_def Let_def)
  have c1: "c_Audience c1 = rt_Audience r" "?ten \<noteq> [] \<Longrightarrow> c_Tenant c1 = ?ten" "c_Tenant c1 \<noteq> []"
    using mint_audience [OF m1] mint_tenant [OF m1] mint_some_tenant [OF m1] by auto
  show thesis
  proof (cases "px_Gate (pr_cfg p)")
    case False
    with s r m1 f have "u = u'" "out = inject (pr_cfg p) tok1 c1 r ?q"
        "calls = [CallMint (hr_RemoteAddr req) (rt_Audience r) ?ten, CallForward u]"
      by (auto simp: serve_def Let_def)
    then show thesis
      using r u' c1 m1 False by (intro that [of r ?ten tok1 c1]) simp_all
  next
    case True
    with s r m1 have g: "acquire r = None" "live"
      by (auto simp: serve_def serve_gated_def Let_def split: option.splits if_splits)
    then obtain tok2 c2 where m2: "mint w2 (hr_RemoteAddr req) (rt_Audience r) (c_Tenant c1) = Inr (tok2, c2)"
      using True s r m1 by (cases "mint w2 (hr_RemoteAddr req) (rt_Audience r) (c_Tenant c1)")
        (auto simp: serve_def serve_gated_def Let_def)
    have t2: "c_Tenant c2 = c_Tenant c1"
      using mint_tenant [OF m2] c1(3) by simp
    from True s r m1 g m2 f have "u = u'" "out = inject (pr_cfg p) tok2 c2 r ?q"
        "calls = [CallMint (hr_RemoteAddr req) (rt_Audience r) ?ten, CallAcquire r,
            CallMint (hr_RemoteAddr req) (rt_Audience r) (c_Tenant c1), CallForward u, CallRelease]"
      by (auto simp: serve_def serve_gated_def Let_def)
    then show thesis
      using r u' c1 m1 m2 t2 g True mint_audience [OF m2] by (intro that [of r ?ten tok2 c2]) simp_all
  qed
qed

end

section \<open>Properties\<close>

text \<open>
  C10 (what an upstream receives).  A request that reaches an upstream went by the best matching
  route, and every header on it is known: under the key of a claim header of the route that has
  a value, that claim of the token; else under the assertion header the token itself; else
  nothing for a claim header of any route; and only else what the caller sent.  The token was
  minted for the caller's address and the audience of that route, and for the tenant the route
  pins, if it pins one.
\<close>

theorem proxy_forwards_only_minted:
  assumes "proxy_New cfg = Inr p"
    and "serve ul p (mint_at cr fp scfg w1) acquire live (mint_at cr fp scfg w2) req = (calls, Forwarded u out)"
  shows "\<exists>r ten tok c. router_Match ul (pr_router p) (strip_request p req) = Some r \<and> rt_Upstream r = Some u
    \<and> mint_at cr fp scfg (if px_Gate (pr_cfg p) then w2 else w1) (hr_RemoteAddr req) (rt_Audience r) ten = Inr (tok, c)
    \<and> c_Audience c = rt_Audience r \<and> (rt_Tenant r \<noteq> [] \<longrightarrow> c_Tenant c = rt_Tenant r)
    \<and> (\<forall>k. hdr_Values (hr_Header out) k =
         (case claim_header_for c (rt_ClaimHeaders r) k of
            Some v \<Rightarrow> [v]
          | None \<Rightarrow>
              if same_header (px_Header (pr_cfg p)) k then [assertion_value (pr_cfg p) tok]
              else if list_ex (\<lambda>r'. list_ex (\<lambda>h. same_header (fst h) k) (rt_ClaimHeaders r')) (pr_router p) then []
              else hdr_Values (hr_Header req) k))"
proof (rule signer_minting.forwarded [OF assms])
  fix r ten tok c
  assume f: "router_Match ul (pr_router p) (strip_request p req) = Some r" "rt_Upstream r = Some u"
    "ten = request_tenant (pr_cfg p) r (strip_request p req)"
    "out = inject (pr_cfg p) tok c r (strip_request p req)"
    "c_Audience c = rt_Audience r" "ten \<noteq> [] \<longrightarrow> c_Tenant c = ten"
  and g: "if px_Gate (pr_cfg p)
     then acquire r = None \<and> live \<and> mint_at cr fp scfg w2 (hr_RemoteAddr req) (rt_Audience r) (c_Tenant c) = Inr (tok, c)
       \<and> (\<exists>tok1 c1. mint_at cr fp scfg w1 (hr_RemoteAddr req) (rt_Audience r) ten = Inr (tok1, c1) \<and> c_Tenant c1 = c_Tenant c)
       \<and> calls = [CallMint (hr_RemoteAddr req) (rt_Audience r) ten, CallAcquire r,
            CallMint (hr_RemoteAddr req) (rt_Audience r) (c_Tenant c), CallForward u, CallRelease]
     else mint_at cr fp scfg w1 (hr_RemoteAddr req) (rt_Audience r) ten = Inr (tok, c)
       \<and> calls = [CallMint (hr_RemoteAddr req) (rt_Audience r) ten, CallForward u]"
  have m: "mint_at cr fp scfg (if px_Gate (pr_cfg p) then w2 else w1) (hr_RemoteAddr req) (rt_Audience r)
      (if px_Gate (pr_cfg p) then c_Tenant c else ten) = Inr (tok, c)"
    using g by (auto split: if_splits)
  have t: "rt_Tenant r \<noteq> [] \<longrightarrow> c_Tenant c = rt_Tenant r"
    using f(3,6) by (auto simp: request_tenant_def)
  have h: "hdr_Values (hr_Header out) k =
       (case claim_header_for c (rt_ClaimHeaders r) k of
          Some v \<Rightarrow> [v]
        | None \<Rightarrow>
            if same_header (px_Header (pr_cfg p)) k then [assertion_value (pr_cfg p) tok]
            else if list_ex (\<lambda>r'. list_ex (\<lambda>h. same_header (fst h) k) (rt_ClaimHeaders r')) (pr_router p) then []
            else hdr_Values (hr_Header req) k)" for k
    unfolding f(4) inject_Values strip_Values [OF proxy_New_Inr(1) [OF assms(1)]]
    by (auto simp: proxy_New_Inr(4) [OF assms(1)] list_ex_iff split: option.splits)
  show ?thesis
    using f m t h by blast
qed

text \<open>
  C31 (the caller has no say in what is stripped).  What becomes of a request does not depend on
  the assertion header or on any claim header that it carries: the calls the proxy makes and the
  way it ends are the same whatever values they have.
\<close>

theorem proxy_ignores_stripped_headers:
  assumes "proxy_New cfg = Inr p"
    and "\<And>k. k \<notin> canonical_key ` set (px_Header (pr_cfg p) # pr_claimHeaders p) \<Longrightarrow> h k = hr_Header req k"
  shows "serve ul p mint1 acquire live mint2 (req\<lparr>hr_Header := h\<rparr>) = serve ul p mint1 acquire live mint2 req"
proof -
  have d: "fold (\<lambda>k h. hdr_Del h k) ks h0 k = (if k \<in> canonical_key ` set ks then [] else h0 k)" for ks h0 k
    by (induction ks arbitrary: h0) (auto simp: hdr_Del_def)
  have "fold (\<lambda>k h. hdr_Del h k) ks (hdr_Del h0 hd) = fold (\<lambda>k h. hdr_Del h k) (hd # ks) h0" for ks h0 hd
    by simp
  then have "strip_request p (req\<lparr>hr_Header := h\<rparr>) = strip_request p req"
    using proxy_New_Inr(1) [OF assms(1)] assms(2)
    by (cases req) (auto simp: strip_request_def StripAssertion_def fun_eq_iff d simp del: fold.simps)
  then show ?thesis
    by (simp add: serve_def)
qed


text \<open>
  C32 (a wait does not change the tenant).  A request that waits for its backend is forwarded
  with a token minted after the wait, for the same caller, the same audience and the tenant
  that was selected when it arrived: the token minted on arrival never leaves, and the gate is
  held until the response is complete.
\<close>

theorem proxy_gate_keeps_tenant:
  assumes "proxy_New cfg = Inr p" and "px_Gate (pr_cfg p)"
    and "serve ul p (mint_at cr fp scfg w1) acquire live (mint_at cr fp scfg w2) req = (calls, Forwarded u out)"
  shows "\<exists>r ten tok1 c1 tok c.
      mint_at cr fp scfg w1 (hr_RemoteAddr req) (rt_Audience r) ten = Inr (tok1, c1)
    \<and> mint_at cr fp scfg w2 (hr_RemoteAddr req) (rt_Audience r) (c_Tenant c1) = Inr (tok, c)
    \<and> c_Tenant c = c_Tenant c1 \<and> c_Tenant c \<noteq> [] \<and> c_Audience c = c_Audience c1
    \<and> acquire r = None \<and> live
    \<and> out = inject (pr_cfg p) tok c r (strip_request p req)
    \<and> calls = [CallMint (hr_RemoteAddr req) (rt_Audience r) ten, CallAcquire r,
         CallMint (hr_RemoteAddr req) (rt_Audience r) (c_Tenant c1), CallForward u, CallRelease]"
proof (rule signer_minting.forwarded [OF assms(1,3)])
  fix r ten tok c
  assume f: "out = inject (pr_cfg p) tok c r (strip_request p req)" "c_Audience c = rt_Audience r" "c_Tenant c \<noteq> []"
    and g: "if px_Gate (pr_cfg p)
     then acquire r = None \<and> live \<and> mint_at cr fp scfg w2 (hr_RemoteAddr req) (rt_Audience r) (c_Tenant c) = Inr (tok, c)
       \<and> (\<exists>tok1 c1. mint_at cr fp scfg w1 (hr_RemoteAddr req) (rt_Audience r) ten = Inr (tok1, c1) \<and> c_Tenant c1 = c_Tenant c)
       \<and> calls = [CallMint (hr_RemoteAddr req) (rt_Audience r) ten, CallAcquire r,
            CallMint (hr_RemoteAddr req) (rt_Audience r) (c_Tenant c), CallForward u, CallRelease]
     else mint_at cr fp scfg w1 (hr_RemoteAddr req) (rt_Audience r) ten = Inr (tok, c)
       \<and> calls = [CallMint (hr_RemoteAddr req) (rt_Audience r) ten, CallForward u]"
  then obtain tok1 c1 where 1: "mint_at cr fp scfg w1 (hr_RemoteAddr req) (rt_Audience r) ten = Inr (tok1, c1)"
      "c_Tenant c1 = c_Tenant c"
    using assms(2) by auto
  show ?thesis
    using f g assms(2) 1 signer_minting.mint_audience [OF 1(1)]
    by (intro exI [of _ r] exI [of _ ten] exI [of _ tok1] exI [of _ c1] exI [of _ tok] exI [of _ c]) simp
qed

text \<open>
  The gate is always released.  However a request ends, its gate is released as many times
  as it was acquired, which is at most once; the release comes last; and a request the gate did
  not admit is not forwarded.
\<close>

theorem proxy_releases_gate:
  assumes "serve ul p mint1 acquire live mint2 req = (calls, out)"
  shows "count_list calls CallRelease = length (filter (\<lambda>x. case x of CallAcquire r \<Rightarrow> acquire r = None | _ \<Rightarrow> False) calls)
    \<and> count_list calls CallRelease \<le> 1
    \<and> (CallRelease \<in> set calls \<longrightarrow> last calls = CallRelease)
    \<and> (px_Gate (pr_cfg p) \<longrightarrow> (\<forall>u q. out = Forwarded u q \<longrightarrow> CallRelease \<in> set calls))"
proof -
  let ?req = "strip_request p req"
  consider "calls = []" "\<And>u q. out \<noteq> Forwarded u q"
    | m e where "calls = [CallMint (hr_RemoteAddr ?req) m e]" "\<And>u q. out \<noteq> Forwarded u q"
    | r a t tok c cs where "calls = CallMint (hr_RemoteAddr ?req) a t # cs"
        "(if px_Gate (pr_cfg p) then serve_gated p acquire live mint2 c r ?req else forward p tok c r ?req) = (cs, out)"
    using assms by (auto simp: serve_def Let_def split: option.splits sum.splits prod.splits)
  then show ?thesis
  proof cases
    case (3 r a t tok c cs)
    show ?thesis
    proof (cases "px_Gate (pr_cfg p)")
      case False
      with 3 show ?thesis
        by (auto simp: forward_def split: option.splits if_splits)
    next
      case True
      with 3 have sg: "serve_gated p acquire live mint2 c r ?req = (cs, out)"
        by simp
      show ?thesis
        using 3(1) sg
        by (auto simp: serve_gated_def forward_def Let_def split: option.splits if_splits sum.splits prod.splits)
    qed
  qed auto
qed

text \<open>
  How a request is answered.  A proxy that \<open>New\<close> built never panics.  A request with no
  route is answered 404 and nothing is minted for it; when a token is refused the status says
  whether there was no identity, no tenant or some other failure and the body says no more; a
  backend that is not ready gives 503.  There is no other answer of the proxy's own.
\<close>

theorem proxy_answers:
  assumes "proxy_New cfg = Inr p"
  shows "case serve ul p mint1 acquire live mint2 req of (calls, out) \<Rightarrow>
    (case router_Match ul (pr_router p) (strip_request p req) of
       None \<Rightarrow> calls = [] \<and> out = Responded (http_Error ''not found'' 404)
     | Some r \<Rightarrow>
         (case out of
            Crashed \<Rightarrow> False
          | Nothing_Written \<Rightarrow> px_Gate (pr_cfg p) \<and> acquire r = None \<and> \<not> live
          | Forwarded u q \<Rightarrow> rt_Upstream r = Some u \<and> hr_Host q = hr_Host req \<and> hr_Path q = hr_Path req
              \<and> hr_RemoteAddr q = hr_RemoteAddr req
          | Responded resp \<Rightarrow>
              (px_Gate (pr_cfg p) \<and> acquire r \<noteq> None \<and> resp = unavailable)
              \<or> (\<exists>e ten. (mint1 (hr_RemoteAddr req) (rt_Audience r) ten = Inl e
                        \<or> mint2 (hr_RemoteAddr req) (rt_Audience r) ten = Inl e)
                 \<and> resp = http_Error (if errors_Is e ErrNoIdentity then ''Unauthorized''
                        else if errors_Is e ErrNoTenant then ''Forbidden'' else ''Internal Server Error'')
                     (if errors_Is e ErrNoIdentity then 401 else if errors_Is e ErrNoTenant then 403 else 500))))"
proof (cases "router_Match ul (pr_router p) (strip_request p req)")
  case None
  then show ?thesis
    by (simp add: serve_def Let_def)
next
  case (Some r)
  obtain u where u: "rt_Upstream r = Some u"
    and f: "\<And>tok c q. forward p tok c r q = ([CallForward u], Forwarded u (inject (pr_cfg p) tok c r q))"
    by (rule forward_ok [OF assms Some]) metis
  have ref: "refuse e = http_Error (if errors_Is e ErrNoIdentity then ''Unauthorized''
                        else if errors_Is e ErrNoTenant then ''Forbidden'' else ''Internal Server Error'')
                     (if errors_Is e ErrNoIdentity then 401 else if errors_Is e ErrNoTenant then 403 else 500)" for e
    by (simp add: refuse_def refuse_status_def StatusText_def)
  show ?thesis
    unfolding ref [symmetric] using Some u f
    by (cases "px_Gate (pr_cfg p)")
      (auto simp: serve_def serve_gated_def Let_def split: sum.splits option.splits)
qed


section \<open>The properties on a concrete proxy\<close>

definition example_route :: route where
  "example_route = single_route ''svc'' (Some ''http://svc'') ''svc''\<lparr>rt_ClaimHeaders := [(''X-Sub'', ''sub'')]\<rparr>"

definition example_proxy_cfg :: proxy_cfg where
  "example_proxy_cfg = \<lparr>px_Router = Some [example_route], px_Upstream = None, px_Signer = True, px_Audience = [],
     px_Header = [], px_Bearer = False, px_TenantFrom = None, px_Gate = True\<rparr>"

definition example_proxy :: proxy where
  "example_proxy = \<lparr>pr_cfg = example_proxy_cfg\<lparr>px_Header := DefaultHeader\<rparr>, pr_router = [example_route],
     pr_rps = [''http://svc''], pr_claimHeaders = [''X-Sub'']\<rparr>"

definition example_world :: signer_world where
  "example_world = \<lparr>sw_Identify = (\<lambda>_. Inr example_identity), sw_Resolve = policy_resolve example_policy,
     sw_Current = set_Current toy_set, sw_Now = time_Unix 1700000000, sw_ID = Some (replicate 16 CHR 0x01), sw_Rnd = 0\<rparr>"

definition example_req :: http_req where
  "example_req = \<lparr>hr_Host = ''svc'', hr_Path = ''/'', hr_RawQuery = [], hr_RemoteAddr = ''100.64.0.1:1'',
     hr_Header = (\<lambda>k. if k = ''X-Sub'' then [''root''] else [])\<rparr>"

abbreviation example_mint_fun :: mint_fun where
  "example_mint_fun \<equiv> mint_at toy_crypto (\<lambda>_. None) example_cfg example_world"

lemma example_proxy_New: "proxy_New example_proxy_cfg = Inr example_proxy"
  by (simp add: proxy_New_def example_proxy_cfg_def example_proxy_def proxy_router_def upstream_keys_def
      example_route_def single_route_def)

lemma example_mint_tenant: "example_mint_fun remote ''svc'' ten = example_mint" if "ten = [] \<or> ten = ''acme''"
  using that
  by (auto simp: mint_at_def example_mint_def Mint_def example_world_def example_policy_grant Let_def split: option.split)

lemma example_route_matches: "router_Match id [example_route] req = Some example_route"
  by (simp add: router_Match_def score_key_def route_matches_def example_route_def single_route_def)

lemma example_sel [simp]:
  "pr_router example_proxy = [example_route]" "px_Gate (pr_cfg example_proxy)"
  "rt_Audience example_route = ''svc''" "rt_Upstream example_route = Some ''http://svc''"
  "''http://svc'' \<in> set (pr_rps example_proxy)" "request_tenant (pr_cfg example_proxy) example_route req = []"
  "c_Tenant example_minted = ''acme''" "px_Header (pr_cfg example_proxy) = DefaultHeader"
  by (simp_all add: example_proxy_def example_proxy_cfg_def example_route_def single_route_def request_tenant_def
      example_minted_def mint_claims_def)

lemma example_served:
  "\<exists>tok out calls. example_mint = Inr (tok, example_minted)
     \<and> serve id example_proxy example_mint_fun (\<lambda>_. None) True example_mint_fun example_req
       = (calls, Forwarded ''http://svc'' out)"
proof -
  obtain tok where m: "example_mint = Inr (tok, example_minted)"
    using example_mint by blast
  then show ?thesis
    by (auto simp: serve_def serve_gated_def forward_def Let_def example_route_matches example_mint_tenant m)
qed

theorem proxy_forwards_only_minted_witness:
  "\<exists>calls out. serve id example_proxy example_mint_fun (\<lambda>_. None) True example_mint_fun example_req
       = (calls, Forwarded ''http://svc'' out) \<and> hdr_Values (hr_Header out) ''x-sub'' \<noteq> [''root'']"
proof -
  obtain calls out where s: "serve id example_proxy example_mint_fun (\<lambda>_. None) True example_mint_fun example_req
       = (calls, Forwarded ''http://svc'' out)"
    using example_served by blast
  have k: "same_header ''X-Sub'' ''x-sub''" "rt_ClaimHeaders example_route = [(''X-Sub'', ''sub'')]"
    by (code_simp, simp add: example_route_def)
  have h: "\<not> same_header DefaultHeader ''x-sub''"
    by code_simp
  have "hdr_Values (hr_Header out) ''x-sub'' \<noteq> [''root'']"
    using proxy_forwards_only_minted [OF example_proxy_New s]
  proof (elim exE conjE)
    fix r ten tok c
    assume r: "router_Match id (pr_router example_proxy) (strip_request example_proxy example_req) = Some r"
      and mi: "mint_at toy_crypto (\<lambda>_. None) example_cfg (if px_Gate (pr_cfg example_proxy) then example_world else example_world)
          (hr_RemoteAddr example_req) (rt_Audience r) ten = Inr (tok, c)"
      and v: "\<forall>k. hdr_Values (hr_Header out) k =
         (case claim_header_for c (rt_ClaimHeaders r) k of
            Some v \<Rightarrow> [v]
          | None \<Rightarrow>
              if same_header (px_Header (pr_cfg example_proxy)) k then [assertion_value (pr_cfg example_proxy) tok]
              else if list_ex (\<lambda>r'. list_ex (\<lambda>h. same_header (fst h) k) (rt_ClaimHeaders r')) (pr_router example_proxy) then []
              else hdr_Values (hr_Header example_req) k)"
    have r': "r = example_route"
      using r by (simp add: example_route_matches)
    have "c_Subject c = id_Subject example_identity"
      using mi by (auto simp: mint_at_def example_world_def mint_claims_def elim!: Mint_Inr)
    moreover have "id_Subject example_identity \<noteq> ''root''"
      by (simp add: example_identity_def)
    ultimately show ?thesis
      using k h unfolding v [rule_format] r' by (auto simp: claim_header_for_def claimValue_def)
  qed
  with s show ?thesis
    by blast
qed

theorem proxy_ignores_stripped_headers_witness:
  "serve id example_proxy example_mint_fun (\<lambda>_. None) True example_mint_fun (example_req\<lparr>hr_Header := (\<lambda>_. [])\<rparr>)
     = serve id example_proxy example_mint_fun (\<lambda>_. None) True example_mint_fun example_req"
proof -
  have "canonical_key ''X-Sub'' = ''X-Sub''"
    by code_simp
  then show ?thesis
    by (intro proxy_ignores_stripped_headers [OF example_proxy_New]) (simp add: example_req_def example_proxy_def)
qed

theorem proxy_gate_keeps_tenant_witness:
  "\<exists>calls out. serve id example_proxy example_mint_fun (\<lambda>_. None) True example_mint_fun example_req
       = (calls, Forwarded ''http://svc'' out) \<and> last calls = CallRelease"
proof -
  obtain calls out where s: "serve id example_proxy example_mint_fun (\<lambda>_. None) True example_mint_fun example_req
       = (calls, Forwarded ''http://svc'' out)"
    using example_served by blast
  from proxy_gate_keeps_tenant [OF example_proxy_New example_sel(2) s] s show ?thesis
    by fastforce
qed

theorem proxy_releases_gate_witness:
  "snd (serve id example_proxy example_mint_fun (\<lambda>_. None) False example_mint_fun example_req) = Nothing_Written
   \<and> CallRelease \<in> set (fst (serve id example_proxy example_mint_fun (\<lambda>_. None) False example_mint_fun example_req))"
proof -
  obtain tok where m: "example_mint = Inr (tok, example_minted)"
    using example_mint by blast
  then have s: "serve id example_proxy example_mint_fun (\<lambda>_. None) False example_mint_fun example_req
      = ([CallMint (hr_RemoteAddr example_req) ''svc'' [], CallAcquire example_route, CallRelease], Nothing_Written)"
    by (simp add: serve_def serve_gated_def Let_def example_route_matches example_mint_tenant m)
  show ?thesis
    using proxy_releases_gate [OF s] s by simp
qed

theorem proxy_answers_witness:
  "serve id example_proxy (\<lambda>_ _ _. Inl (Error ErrNoTenant [])) (\<lambda>_. None) True example_mint_fun example_req
     \<noteq> ([], Crashed)"
  using proxy_answers [OF example_proxy_New, where ul = id and ?mint1.0 = "\<lambda>_ _ _. Inl (Error ErrNoTenant [])"
      and acquire = "\<lambda>_. None" and live = True and ?mint2.0 = example_mint_fun and req = example_req]
  by (auto simp: example_route_matches)

section \<open>A claim header can replace the assertion\<close>

text \<open>A route may name the assertion header as a claim header: the claim then replaces the token.\<close>

lemma claim_header_replaces_assertion:
  assumes "px_Header cfg = DefaultHeader" "rt_ClaimHeaders r = [(DefaultHeader, ''sub'')]" "c_Subject c \<noteq> []"
  shows "hdr_Values (hr_Header (inject cfg tok c r req)) DefaultHeader = [c_Subject c]"
  using assms by (simp add: inject_Values claim_header_for_def claimValue_def)

end
