(* ===== verification/Dynamic.thy ===== *)
theory Dynamic
  imports Proxy
begin

text \<open>
  \<open>proxy/dynamic.go\<close>: a proxy whose routes are replaced while it runs.  The atomic pointer is
  the field \<open>dy_current\<close>; a request is served by the proxy that was current when it came in.
\<close>

record dynamic =
  dy_cfg :: proxy_cfg
  dy_current :: "proxy option"

definition dynamic_Set :: "dynamic \<Rightarrow> route list \<Rightarrow> error option \<times> dynamic" where
  "dynamic_Set d routes =
     (let cfg = (dy_cfg d)\<lparr>px_Router := None, px_Upstream := None\<rparr>
      in if routes = [] then (None, d\<lparr>dy_current := None\<rparr>)
         else
           (case NewRouter routes of
              Inl e \<Rightarrow> (Some e, d)
            | Inr rs \<Rightarrow>
                (case proxy_New (cfg\<lparr>px_Router := Some rs\<rparr>) of
                   Inl e \<Rightarrow> (Some e, d)
                 | Inr p \<Rightarrow> (None, d\<lparr>dy_current := Some p\<rparr>))))"

definition NewDynamic :: "proxy_cfg \<Rightarrow> route list \<Rightarrow> dynamic result" where
  "NewDynamic cfg routes =
     (case dynamic_Set \<lparr>dy_cfg = cfg, dy_current = None\<rparr> routes of
        (Some e, _) \<Rightarrow> Inl e
      | (None, d) \<Rightarrow> Inr d)"

definition dynamic_Routes :: "dynamic \<Rightarrow> route list" where
  "dynamic_Routes d = (case dy_current d of None \<Rightarrow> [] | Some p \<Rightarrow> pr_router p)"

definition dynamic_serve :: "(string \<Rightarrow> string) \<Rightarrow> dynamic \<Rightarrow> mint_fun \<Rightarrow> (route \<Rightarrow> error option) \<Rightarrow> bool \<Rightarrow> mint_fun
    \<Rightarrow> http_req \<Rightarrow> call list \<times> ending" where
  "dynamic_serve ul d mint1 acquire live mint2 req =
     (case dy_current d of
        None \<Rightarrow> ([], Responded (http_Error ''no routes configured'' 503))
      | Some p \<Rightarrow> serve ul p mint1 acquire live mint2 req)"

section \<open>The specification\<close>

text \<open>
  What the component promises: it serves the last valid table.  Its abstract state is that
  table, with the names that \<open>NewRouter\<close> gives.
\<close>

definition set_table :: "route list \<Rightarrow> route list \<Rightarrow> route list" where
  "set_table table routes =
     (if routes = [] then [] else (case NewRouter routes of Inl _ \<Rightarrow> table | Inr rs \<Rightarrow> rs))"

abbreviation set_tables :: "dynamic \<Rightarrow> route list list \<Rightarrow> dynamic" where
  "set_tables \<equiv> foldl (\<lambda>d rs. snd (dynamic_Set d rs))"

definition dynamic_ok :: "dynamic \<Rightarrow> bool" where
  "dynamic_ok d \<longleftrightarrow> px_Signer (dy_cfg d) \<and>
     (case dy_current d of
        None \<Rightarrow> True
      | Some p \<Rightarrow> pr_router p \<noteq> []
          \<and> proxy_New ((dy_cfg d)\<lparr>px_Upstream := None, px_Router := Some (pr_router p)\<rparr>) = Inr p)"

section \<open>Lemmas\<close>

lemma serve_no_route:
  "router_Match ul (pr_router p) (strip_request p req) = None \<Longrightarrow>
     serve ul p mint1 acquire live mint2 req = ([], Responded (http_Error ''not found'' 404))"
  by (simp add: serve_def Let_def)

lemma serve_never_crashes:
  assumes "proxy_New cfg = Inr p"
  shows "snd (serve ul p mint1 acquire live mint2 req) \<noteq> Crashed"
proof (cases "router_Match ul (pr_router p) (strip_request p req)")
  case None
  then show ?thesis by (simp add: serve_no_route)
next
  case (Some r)
  obtain u where "\<And>tok c q. forward p tok c r q = ([CallForward u], Forwarded u (inject (pr_cfg p) tok c r q))"
    by (rule forward_ok [OF assms Some]) metis
  with Some show ?thesis
    by (simp add: serve_def serve_gated_def Let_def split: sum.splits option.splits)
qed

lemma NewRouter_nonempty: "NewRouter rs = Inr rs' \<Longrightarrow> rs' \<noteq> []"
  using name_routes_Inr [of 0 rs rs'] by (auto simp: NewRouter_def split: if_splits)

lemma route_Valid_upstream: "route_Valid r = None \<Longrightarrow> rt_Upstream r \<noteq> None"
  by (auto simp: route_Valid_def split: if_splits)

lemma NewRouter_upstreams:
  assumes "NewRouter rs = Inr rs'"
  shows "\<exists>us. those (map rt_Upstream rs') = Some us"
proof -
  from assms have n: "name_routes 0 rs = Inr rs'"
    by (simp add: NewRouter_def split: if_splits)
  have "rt_Upstream r \<noteq> None" if "r \<in> set rs'" for r
  proof -
    from that obtain n where "n < length rs'" "r = rs' ! n"
      by (auto simp: in_set_conv_nth)
    with name_routes_Inr [OF n] have "n < length rs" "rt_Upstream r = rt_Upstream (rs ! n)"
      by auto
    with name_routes_Inr [OF n] route_Valid_upstream [of "rs ! n"] show ?thesis
      by simp
  qed
  then have "map rt_Upstream rs' = map Some (map (the \<circ> rt_Upstream) rs')"
    by simp
  then show ?thesis
    unfolding those_Some by blast
qed

text \<open>With a signer, \<open>New\<close> accepts every table that \<open>NewRouter\<close> built.\<close>

lemma proxy_New_routed:
  assumes "NewRouter rs = Inr rs'" "px_Signer cfg"
  shows "\<exists>p. proxy_New (cfg\<lparr>px_Upstream := None, px_Router := Some rs'\<rparr>) = Inr p \<and> pr_router p = rs'"
proof -
  obtain us where "those (map rt_Upstream rs') = Some us"
    using NewRouter_upstreams [OF assms(1)] by blast
  then show ?thesis
    using assms(2) by (simp add: proxy_New_def proxy_router_def upstream_keys_def)
qed

lemma dynamic_Set_eq:
  assumes "px_Signer (dy_cfg d)"
  shows "dynamic_Set d rs =
    (if rs = [] then (None, d\<lparr>dy_current := None\<rparr>)
     else (case NewRouter rs of
             Inl e \<Rightarrow> (Some e, d)
           | Inr rs' \<Rightarrow> (None, d\<lparr>dy_current :=
                 Some (projr (proxy_New ((dy_cfg d)\<lparr>px_Upstream := None, px_Router := Some rs'\<rparr>)))\<rparr>)))"
  using proxy_New_routed [of rs _ "dy_cfg d"] assms
  by (fastforce simp: dynamic_Set_def Let_def split: sum.splits)

lemma dynamic_Set_abs:
  assumes "px_Signer (dy_cfg d)"
  shows "dynamic_Routes (snd (dynamic_Set d rs)) = set_table (dynamic_Routes d) rs"
    and "fst (dynamic_Set d rs) = (if rs = [] then None else case NewRouter rs of Inl e \<Rightarrow> Some e | Inr _ \<Rightarrow> None)"
    and "dy_cfg (snd (dynamic_Set d rs)) = dy_cfg d"
proof -
  show "dynamic_Routes (snd (dynamic_Set d rs)) = set_table (dynamic_Routes d) rs"
  proof (cases "NewRouter rs")
    case (Inr rs')
    with proxy_New_routed [OF Inr assms] show ?thesis
      by (auto simp: dynamic_Set_eq [OF assms] dynamic_Routes_def set_table_def)
  qed (auto simp: dynamic_Set_eq [OF assms] dynamic_Routes_def set_table_def)
qed (auto simp: dynamic_Set_eq [OF assms] split: sum.splits)

lemma dynamic_ok_signer: "dynamic_ok d \<Longrightarrow> px_Signer (dy_cfg d)"
  by (simp add: dynamic_ok_def)

lemma dynamic_Set_ok:
  assumes "dynamic_ok d"
  shows "dynamic_ok (snd (dynamic_Set d rs))"
proof -
  have s: "px_Signer (dy_cfg d)"
    using assms by (simp add: dynamic_ok_def)
  show ?thesis
  proof (cases "NewRouter rs")
    case (Inr rs')
    obtain p where p: "proxy_New ((dy_cfg d)\<lparr>px_Upstream := None, px_Router := Some rs'\<rparr>) = Inr p" "pr_router p = rs'"
      using proxy_New_routed [OF Inr s] by blast
    with p Inr s assms NewRouter_nonempty [OF Inr] show ?thesis
      by (auto simp: dynamic_Set_eq [OF s] dynamic_ok_def)
  next
    case (Inl e)
    then have "snd (dynamic_Set d rs) = (if rs = [] then d\<lparr>dy_current := None\<rparr> else d)"
      by (simp add: dynamic_Set_eq [OF s])
    with assms show ?thesis
      by (simp add: dynamic_ok_def)
  qed
qed

lemma set_tables_abs:
  "dynamic_ok d \<Longrightarrow> dynamic_ok (set_tables d tables)
     \<and> dynamic_Routes (set_tables d tables) = foldl set_table (dynamic_Routes d) tables"
  by (induction tables arbitrary: d) (simp_all add: dynamic_Set_ok dynamic_Set_abs dynamic_ok_signer)

lemma NewDynamic_ok:
  assumes "NewDynamic cfg rs = Inr d" "px_Signer cfg"
  shows "dynamic_ok d \<and> dynamic_Routes d = set_table [] rs"
proof -
  let ?d = "\<lparr>dy_cfg = cfg, dy_current = None\<rparr>"
  have "d = snd (dynamic_Set ?d rs)" "dynamic_ok ?d"
    using assms by (auto simp: NewDynamic_def dynamic_ok_def split: prod.splits option.splits)
  with dynamic_Set_ok [of ?d rs] dynamic_Set_abs(1) [of ?d rs] assms(2) show ?thesis
    by (simp add: dynamic_Routes_def)
qed

section \<open>Properties\<close>

text \<open>
  The last valid table.  However the table is edited, the proxy serves the last one that
  was valid: an edit that \<open>NewRouter\<close> refuses changes nothing, an empty table removes every
  route.
\<close>

theorem dynamic_refines_last_valid:
  assumes "NewDynamic cfg rs = Inr d" and "px_Signer cfg"
  shows "dynamic_Routes (set_tables d edits) = foldl set_table (set_table [] rs) edits"
  using set_tables_abs NewDynamic_ok [OF assms] by simp

text \<open>
  Requests against a changing table.  A request is answered from the table that is current:
  with no table it gets 503, and otherwise what a proxy made for that table does with it, so 404
  when no route of the current table matches, and no panic.
\<close>

theorem dynamic_serves_current:
  assumes "NewDynamic cfg rs = Inr d" and "px_Signer cfg"
    and "d' = set_tables d edits"
  shows "case dynamic_serve ul d' mint1 acquire live mint2 req of (calls, out) \<Rightarrow>
      out \<noteq> Crashed
      \<and> (dynamic_Routes d' = [] \<longrightarrow> calls = [] \<and> out = Responded (http_Error ''no routes configured'' 503))
      \<and> (dynamic_Routes d' \<noteq> [] \<longrightarrow>
           (\<exists>p. pr_router p = dynamic_Routes d' \<and> serve ul p mint1 acquire live mint2 req = (calls, out)
              \<and> (router_Match ul (dynamic_Routes d') (strip_request p req) = None
                 \<longrightarrow> out = Responded (http_Error ''not found'' 404))))"
proof (cases "dy_current d'")
  case None
  then show ?thesis
    by (simp add: dynamic_serve_def dynamic_Routes_def)
next
  case (Some p)
  have ok: "dynamic_ok d'"
    using set_tables_abs NewDynamic_ok [OF assms(1,2)] assms(3) by simp
  with Some have p: "proxy_New ((dy_cfg d')\<lparr>px_Upstream := None, px_Router := Some (pr_router p)\<rparr>) = Inr p"
      "pr_router p \<noteq> []"
    by (simp_all add: dynamic_ok_def)
  obtain calls out where s: "serve ul p mint1 acquire live mint2 req = (calls, out)"
    by fastforce
  have "out \<noteq> Crashed" "router_Match ul (pr_router p) (strip_request p req) = None
      \<Longrightarrow> out = Responded (http_Error ''not found'' 404)"
    using serve_never_crashes [OF p(1), of ul mint1 acquire live mint2 req]
      serve_no_route [of ul p req mint1 acquire live mint2] s by auto
  then show ?thesis
    using Some s p(2) by (auto simp: dynamic_serve_def dynamic_Routes_def)
qed


text \<open>A proxy that starts with one table, is given a bad one, and then none.\<close>

definition example_bad_route :: route where
  "example_bad_route = single_route ''bad'' None ''svc''"

definition example_dynamic :: dynamic where
  "example_dynamic = \<lparr>dy_cfg = example_proxy_cfg, dy_current = Some example_proxy\<rparr>"

lemma example_NewRouter: "NewRouter [example_route] = Inr [example_route]"
proof -
  have "\<not> blank ''svc''" by code_simp
  then show ?thesis
    by (simp add: NewRouter_def route_Valid_def example_route_def single_route_def)
qed

lemma example_NewDynamic: "NewDynamic example_proxy_cfg [example_route] = Inr example_dynamic"
proof -
  have "example_proxy_cfg\<lparr>px_Router := None, px_Upstream := None, px_Router := Some [example_route]\<rparr> = example_proxy_cfg"
    by (simp add: example_proxy_cfg_def)
  then show ?thesis
    by (simp add: NewDynamic_def dynamic_Set_def Let_def example_NewRouter example_proxy_New example_dynamic_def)
qed

theorem dynamic_refines_last_valid_witness:
  "dynamic_Routes (set_tables example_dynamic [[example_bad_route]]) = [example_route]
   \<and> dynamic_Routes (set_tables example_dynamic [[example_bad_route], []]) = []"
proof -
  have b: "NewRouter [example_bad_route] = Inl (Error Plain ''route has no upstream'')"
    by (simp add: NewRouter_def route_Valid_def example_bad_route_def single_route_def)
  have "px_Signer example_proxy_cfg"
    by (simp add: example_proxy_cfg_def)
  note d = dynamic_refines_last_valid [OF example_NewDynamic this]
  show ?thesis
    unfolding d by (simp add: set_table_def b example_NewRouter)
qed

theorem dynamic_serves_current_witness:
  "dynamic_serve id (set_tables example_dynamic [[]]) (\<lambda>_ _ _. Inl (Error Plain [])) (\<lambda>_. None) True (\<lambda>_ _ _. Inl (Error Plain [])) example_req
     = ([], Responded (http_Error ''no routes configured'' 503))"
proof -
  have s: "px_Signer example_proxy_cfg"
    by (simp add: example_proxy_cfg_def)
  have "dynamic_Routes (set_tables example_dynamic [[]]) = []"
    by (simp add: dynamic_Set_def dynamic_Routes_def)
  with dynamic_serves_current [OF example_NewDynamic s refl, of "[[]]" id "\<lambda>_ _ _. Inl (Error Plain [])" "\<lambda>_. None" True "\<lambda>_ _ _. Inl (Error Plain [])" example_req]
  show ?thesis
    by (cases "dynamic_serve id (set_tables example_dynamic [[]]) (\<lambda>_ _ _. Inl (Error Plain [])) (\<lambda>_. None) True (\<lambda>_ _ _. Inl (Error Plain [])) example_req") simp
qed

end
