(* ===== verification/Tsnet.thy ===== *)
theory Tsnet
  imports Tenancy Decode Http
begin

text \<open>
  \<open>tsnetid/tsnetid.go\<close>: the identity of a caller, as the tailnet knows it.  The address tests
  follow \<open>net.SplitHostPort\<close> and \<open>netip.ParseAddr\<close>; an address is its bytes.  The local client's
  \<open>WhoIs\<close> and \<open>tailcfg.UnmarshalCapJSON\<close> are parameters.
\<close>

section \<open>net.SplitHostPort\<close>

text \<open>The host part, \<open>None\<close> for an error.  \<open>last_index\<close> is \<open>strings.LastIndexByte\<close>.\<close>

fun index_byte :: "string \<Rightarrow> char \<Rightarrow> nat option" where
  "index_byte [] c = None"
| "index_byte (x # xs) c = (if x = c then Some 0 else map_option Suc (index_byte xs c))"

definition last_index :: "string \<Rightarrow> char \<Rightarrow> nat option" where
  "last_index s c = map_option (\<lambda>n. length s - 1 - n) (index_byte (rev s) c)"

definition SplitHost :: "string \<Rightarrow> string option" where
  "SplitHost hp =
     (case last_index hp CHR '':'' of
        None \<Rightarrow> None
      | Some i \<Rightarrow>
          (let unbracketed = (\<lambda>host j k.
                 if CHR ''['' \<in> set (drop j hp) \<or> CHR '']'' \<in> set (drop k hp) then None else Some host)
           in if hd hp = CHR ''[''
              then
                (case index_byte hp CHR '']'' of
                   None \<Rightarrow> None
                 | Some e \<Rightarrow> if e + 1 = i then unbracketed (take (e - 1) (drop 1 hp)) 1 (e + 1) else None)
              else if CHR '':'' \<in> set (take i hp) then None
              else unbracketed (take i hp) 0 0))"

section \<open>netip.ParseAddr\<close>

datatype ip_addr = IPv4 (ip_bytes: "int list") | IPv6 (ip_bytes: "int list") (ip_zone: string)

text \<open>One number of a dotted address: digits, no leading zero, at most 255.\<close>

definition octet :: "string \<Rightarrow> int option" where
  "octet s =
     (if s = [] \<or> \<not> list_all is_decimal s \<or> (length s > 1 \<and> hd s = CHR ''0'') then None
      else if int (dec_val (take 4 s)) > 255 \<or> length s > 3 then None else Some (int (dec_val s)))"

definition parse_dotted :: "string \<Rightarrow> int list option" where
  "parse_dotted s =
     (let fields = Split s CHR ''.''
      in if length fields \<noteq> 4 then None else those (map octet fields))"

definition hex_digit :: "char \<Rightarrow> int option" where
  "hex_digit c =
     (let n = (of_char c :: nat)
      in if is_decimal c then Some (int n - 48)
         else if 97 \<le> n \<and> n \<le> 102 then Some (int n - 87)
         else if 65 \<le> n \<and> n \<le> 70 then Some (int n - 55)
         else None)"

text \<open>The hexadecimal digits at the front: their value and number, and the rest.\<close>

fun hex_group :: "int \<Rightarrow> nat \<Rightarrow> string \<Rightarrow> int \<times> nat \<times> string" where
  "hex_group acc n [] = (acc, n, [])"
| "hex_group acc n (c # cs) =
     (case hex_digit c of None \<Rightarrow> (acc, n, c # cs) | Some d \<Rightarrow> hex_group (acc * 16 + d) (n + 1) cs)"

text \<open>
  The loop of \<open>parseIPv6\<close>: the bytes so far and the place of the ellipsis.  A round adds at least
  two bytes, so eight rounds are enough for sixteen.
\<close>

fun ipv6_loop :: "nat \<Rightarrow> int list \<Rightarrow> nat option \<Rightarrow> string \<Rightarrow> (int list \<times> nat option \<times> string) option" where
  "ipv6_loop 0 ip ell s = Some (ip, ell, s)"
| "ipv6_loop (Suc k) ip ell s =
     (if length ip \<ge> 16 then Some (ip, ell, s)
      else
        (case hex_group 0 0 s of
           (acc, n, r) \<Rightarrow>
             if n > 4 \<or> n = 0 then None
             else if r \<noteq> [] \<and> hd r = CHR ''.''
             then
               (if ell = None \<and> length ip \<noteq> 12 then None
                else if length ip + 4 > 16 then None
                else (case parse_dotted s of None \<Rightarrow> None | Some bs \<Rightarrow> Some (ip @ bs, ell, [])))
             else
               (let ip' = ip @ [acc div 256, acc mod 256]
                in if r = [] then Some (ip', ell, [])
                   else if hd r \<noteq> CHR '':'' then None
                   else if length r = 1 then None
                   else if r ! 1 = CHR '':''
                   then
                     (if ell \<noteq> None then None
                      else if length r = 2 then Some (ip', Some (length ip'), [])
                      else ipv6_loop k ip' (Some (length ip')) (drop 2 r))
                   else ipv6_loop k ip' ell (drop 1 r))))"

definition expand_ipv6 :: "int list \<Rightarrow> nat option \<Rightarrow> int list option" where
  "expand_ipv6 ip ell =
     (case ell of
        None \<Rightarrow> if length ip < 16 then None else Some ip
      | Some e \<Rightarrow> if length ip < 16 then Some (take e ip @ replicate (16 - length ip) 0 @ drop e ip) else None)"

definition parse_ipv6 :: "string \<Rightarrow> ip_addr option" where
  "parse_ipv6 s0 =
     (case (case Cut s0 CHR ''%'' of None \<Rightarrow> (s0, None) | Some (a, z) \<Rightarrow> (a, Some z)) of
        (s, z) \<Rightarrow>
          (if z = Some [] then None
           else
             (let zone = (case z of None \<Rightarrow> [] | Some z \<Rightarrow> z); lead = HasPrefix s ''::'';
                  s1 = (if lead then drop 2 s else s); ell = (if lead then Some 0 else None)
              in if lead \<and> s1 = [] then Some (IPv6 (replicate 16 0) zone)
                 else
                   (case ipv6_loop 8 [] ell s1 of
                      None \<Rightarrow> None
                    | Some (ip, ell', r) \<Rightarrow>
                        if r \<noteq> [] then None else map_option (\<lambda>b. IPv6 b zone) (expand_ipv6 ip ell')))))"

definition ParseAddr :: "string \<Rightarrow> ip_addr option" where
  "ParseAddr s =
     (case find (\<lambda>c. c \<in> set ''.:%'') s of
        None \<Rightarrow> None
      | Some c \<Rightarrow> if c = CHR ''.'' then map_option IPv4 (parse_dotted s) else if c = CHR '':'' then parse_ipv6 s else None)"

definition Unmap :: "ip_addr \<Rightarrow> ip_addr" where
  "Unmap a =
     (case a of
        IPv4 b \<Rightarrow> IPv4 b
      | IPv6 b z \<Rightarrow> if take 12 b = replicate 10 0 @ [255, 255] then IPv4 (drop 12 b) else IPv6 b z)"

definition bytes_val :: "int list \<Rightarrow> int" where
  "bytes_val bs = foldl (\<lambda>v b. v * 256 + b) 0 bs"

text \<open>\<open>Prefix.Contains\<close>: never an address with a zone or of the other family.\<close>

definition prefix_Contains :: "ip_addr \<Rightarrow> nat \<Rightarrow> ip_addr \<Rightarrow> bool" where
  "prefix_Contains p bits a =
     (case (p, a) of
        (IPv4 pb, IPv4 ab) \<Rightarrow> bytes_val pb div 2 ^ (32 - bits) = bytes_val ab div 2 ^ (32 - bits)
      | (IPv6 pb _, IPv6 ab z) \<Rightarrow> z = [] \<and> bytes_val pb div 2 ^ (128 - bits) = bytes_val ab div 2 ^ (128 - bits)
      | _ \<Rightarrow> False)"

section \<open>The tailnet's addresses\<close>

definition tailnetV4 :: "ip_addr \<times> nat" where
  "tailnetV4 = (IPv4 [100, 64, 0, 0], 10)"

definition tailnetV6 :: "ip_addr \<times> nat" where
  "tailnetV6 = (IPv6 ([0xfd, 0x7a, 0x11, 0x5c, 0xa1, 0xe0] @ replicate 10 0) [], 48)"

definition isTailnetAddr :: "string \<Rightarrow> bool" where
  "isTailnetAddr remoteAddr =
     (let host = (case SplitHost remoteAddr of Some h \<Rightarrow> h | None \<Rightarrow> remoteAddr)
      in case ParseAddr host of
           None \<Rightarrow> False
         | Some ip0 \<Rightarrow>
             (let ip = Unmap ip0
              in prefix_Contains (fst tailnetV4) (snd tailnetV4) ip \<or> prefix_Contains (fst tailnetV6) (snd tailnetV6) ip))"

section \<open>Identity\<close>

definition CapGroups :: string where "CapGroups = ''tsjwt.dev/cap/groups''"
definition AttrTenants :: string where "AttrTenants = ''tsnetid.tenants''"

record cap_rule =
  cap_Groups :: "string list"
  cap_Tenants :: "string list"

text \<open>\<open>wn_Tagged\<close> is what \<open>Node.IsTagged\<close> answers.\<close>

record whois_node =
  wn_Name :: string
  wn_Tagged :: bool

record whois_user =
  wu_ID :: int
  wu_LoginName :: string
  wu_DisplayName :: string

record 'm whois =
  wi_Node :: "whois_node option"
  wi_UserProfile :: "whois_user option"
  wi_CapMap :: 'm

record ts_source =
  ts_Local :: bool
  ts_Cap :: string
  ts_AllowTagged :: bool
  ts_Timeout :: duration

definition sortedKeys :: "string list \<Rightarrow> string list" where
  "sortedKeys xs = sort (remdups xs)"

text \<open>\<open>identity\<close>: \<open>unm\<close> is \<open>tailcfg.UnmarshalCapJSON\<close>; \<open>None\<close> is its error.\<close>

definition ts_identity :: "('m \<Rightarrow> string \<Rightarrow> cap_rule list option) \<Rightarrow> ts_source \<Rightarrow> whois_node \<Rightarrow> 'm whois \<Rightarrow> identity result" where
  "ts_identity unm s node who =
     (if wn_Tagged node \<and> \<not> ts_AllowTagged s then Inl (Error ErrNoIdentity ''is a tagged node, not a person'')
      else
        (case wi_UserProfile who of
           None \<Rightarrow> Inl (Error ErrNoIdentity ''has no user profile'')
         | Some u \<Rightarrow>
             if wu_LoginName u = [] then Inl (Error ErrNoIdentity ''has no user profile'')
             else
               (case unm (wi_CapMap who) (if ts_Cap s = [] then CapGroups else ts_Cap s) of
                  None \<Rightarrow> Inl (Error ErrNoIdentity ''capability is malformed'')
                | Some rules \<Rightarrow>
                    (let groups = concat (map cap_Groups rules); tenants = concat (map cap_Tenants rules)
                     in Inr \<lparr>id_Subject = ''tailnet:'' @ Itoa (wu_ID u), id_Login = wu_LoginName u,
                          id_DisplayName = wu_DisplayName u, id_Groups = sortedKeys groups,
                          id_Node = TrimSuffix (wn_Name node) ''.'',
                          id_Attributes = (if tenants \<noteq> [] then [AttrTenants \<mapsto> sortedKeys tenants] else Map.empty)\<rparr>))))"

definition whois_timeout :: "ts_source \<Rightarrow> duration" where
  "whois_timeout s = (if ts_Timeout s \<le> 0 then 5 * Second else ts_Timeout s)"

text \<open>\<open>Identify\<close>: \<open>whois\<close> is the local client's answer, bounded by a timeout; \<open>None\<close> is a nil response.\<close>

definition Identify :: "('m \<Rightarrow> string \<Rightarrow> cap_rule list option) \<Rightarrow> ts_source \<Rightarrow> (duration \<Rightarrow> string \<Rightarrow> 'm whois option result)
    \<Rightarrow> string \<Rightarrow> identity result" where
  "Identify unm s whois remoteAddr =
     (if \<not> ts_Local s then Inl (Error ErrNoIdentity ''no tailnet local client'')
      else if \<not> isTailnetAddr remoteAddr then Inl (Error ErrNoIdentity ''is not a tailnet address'')
      else
        (case whois (whois_timeout s) remoteAddr of
           Inl _ \<Rightarrow> Inl (Error ErrNoIdentity ''whois'')
         | Inr None \<Rightarrow> Inl (Error ErrNoIdentity ''whois returned no node'')
         | Inr (Some who) \<Rightarrow>
             (case wi_Node who of
                None \<Rightarrow> Inl (Error ErrNoIdentity ''whois returned no node'')
              | Some node \<Rightarrow> ts_identity unm s node who)))"

section \<open>Lemmas\<close>

text \<open>Dotted addresses, as they are printed.\<close>

definition dotted :: "nat \<Rightarrow> nat \<Rightarrow> nat \<Rightarrow> nat \<Rightarrow> string" where
  "dotted a b c d = dec_digits a @ ''.'' @ dec_digits b @ ''.'' @ dec_digits c @ ''.'' @ dec_digits d"

lemma dec_digits_length: "n < 1000 \<Longrightarrow> length (dec_digits n) \<le> 3"
  by (subst dec_digits.simps, subst dec_digits.simps, subst dec_digits.simps) auto

lemma octet_digits: "n < 256 \<Longrightarrow> octet (dec_digits n) = Some (int n)"
proof -
  assume n: "n < 256"
  have "list_all is_decimal (dec_digits n)"
    using dec_digits_chars by (fastforce simp: list_all_iff is_decimal_def)
  moreover have "\<not> (length (dec_digits n) > 1 \<and> hd (dec_digits n) = CHR ''0'')"
    using dec_digits_hd_zero [of n] by (cases "n = 0") (auto simp: dec_digits_0)
  moreover have "take 4 (dec_digits n) = dec_digits n" "length (dec_digits n) \<le> 3"
    using dec_digits_length [of n] n by simp_all
  ultimately show ?thesis
    using n by (simp add: octet_def dec_digits_nonempty)
qed

lemma dec_digits_no: "of_char c < (48::nat) \<or> of_char c \<ge> (58::nat) \<Longrightarrow> c \<notin> set (dec_digits n)"
  using dec_digits_chars [of c n] by auto

lemma dotted_no: "of_char c < (46::nat) \<or> of_char c \<ge> (58::nat) \<Longrightarrow> c \<notin> set (dotted w x y z)"
  using dec_digits_no [of c] by (auto simp: dotted_def)

lemma parse_dotted_dotted:
  assumes "a < 256" "b < 256" "c < 256" "d < 256"
  shows "parse_dotted (dotted a b c d) = Some [int a, int b, int c, int d]"
proof -
  have no: "CHR ''.'' \<notin> set (dec_digits n)" for n
    by (rule dec_digits_no) simp
  have "Split (dotted a b c d) CHR ''.'' = [dec_digits a, dec_digits b, dec_digits c, dec_digits d]"
    by (simp add: dotted_def Split_append_sep Split_no_sep no)
  then show ?thesis
    using assms by (simp add: parse_dotted_def octet_digits)
qed

lemma find_dotted: "find (\<lambda>c. c \<in> set ''.:%'') (dotted a b c d) = Some (CHR ''.'')"
proof -
  have n: "find (\<lambda>c. c \<in> set ''.:%'') (dec_digits n) = None" for n
    using dec_digits_no [of "CHR ''.''" n] dec_digits_no [of "CHR '':''" n] dec_digits_no [of "CHR ''%''" n]
    by (auto simp: find_None_iff)
  have "find P xs = None \<Longrightarrow> find P (xs @ ys) = find P ys" for P and xs ys :: string
    by (induction xs) (auto split: if_splits)
  from this [OF n] show ?thesis
    by (simp add: dotted_def)
qed

lemma index_byte_append: "c \<notin> set xs \<Longrightarrow> index_byte (xs @ c # ys) c = Some (length xs)"
  by (induction xs) auto

lemma last_index_append: "c \<notin> set ys \<Longrightarrow> last_index (xs @ c # ys) c = Some (length xs)"
  by (simp add: last_index_def index_byte_append)

text \<open>What a listener reports: a host without colons or brackets, and a port.\<close>

lemma SplitHost_plain:
  assumes "host \<noteq> []" "\<forall>c \<in> set '':[]''. c \<notin> set host" "\<forall>c \<in> set '':[]''. c \<notin> set port"
  shows "SplitHost (host @ '':'' @ port) = Some host"
proof -
  have "hd (host @ '':'' @ port) \<noteq> CHR ''[''"
    using assms by (cases host) auto
  then show ?thesis
    using assms last_index_append [of "CHR '':''" port host] by (simp add: SplitHost_def Let_def)
qed

lemma int_div_eq:
  assumes "0 < (m::int)"
  shows "x div m = q \<longleftrightarrow> q * m \<le> x \<and> x < q * m + m"
proof
  assume "x div m = q"
  then have "q * m + x mod m = x"
    using div_mult_mod_eq [of x m] by simp
  moreover have "0 \<le> x mod m" "x mod m < m"
    using assms by simp_all
  ultimately show "q * m \<le> x \<and> x < q * m + m"
    by linarith
next
  assume "q * m \<le> x \<and> x < q * m + m"
  with assms show "x div m = q"
    by (intro int_div_pos_eq [of x m q "x - q * m"]) (simp_all add: mult.commute)
qed

lemma prefix_v4:
  assumes "a < 256" "b < 256" "c < 256" "d < 256"
  shows "prefix_Contains (fst tailnetV4) (snd tailnetV4) (IPv4 [int a, int b, int c, int d]) \<longleftrightarrow> a = 100 \<and> 64 \<le> b \<and> b < 128"
proof -
  let ?x = "16777216 * int a + 65536 * int b + 256 * int c + int d"
  have "?x div 4194304 = 401 \<longleftrightarrow> 1681915904 \<le> ?x \<and> ?x < 1686110208"
    using int_div_eq [of 4194304 ?x 401] by simp
  also have "\<dots> \<longleftrightarrow> a = 100 \<and> 64 \<le> b \<and> b < 128"
  proof -
    consider "a \<le> 99" | "a = 100" | "a \<ge> 101"
      by linarith
    then show ?thesis
      using assms by cases auto
  qed
  finally have "bytes_val [int a, int b, int c, int d] div 2 ^ 22 = 401 \<longleftrightarrow> a = 100 \<and> 64 \<le> b \<and> b < 128"
    by (simp add: bytes_val_def algebra_simps)
  then show ?thesis
    by (auto simp: prefix_Contains_def tailnetV4_def bytes_val_def)
qed

lemma isTailnetAddr_dotted:
  assumes "a < 256" "b < 256" "c < 256" "d < 256" "\<forall>x \<in> set '':[]''. x \<notin> set port"
  shows "isTailnetAddr (dotted a b c d @ '':'' @ port) \<longleftrightarrow> a = 100 \<and> 64 \<le> b \<and> b < 128"
proof -
  have "dotted a b c d \<noteq> []"
    by (simp add: dotted_def)
  moreover have "\<forall>x \<in> set '':[]''. x \<notin> set (dotted a b c d)"
    using dotted_no [of "CHR '':''"] dotted_no [of "CHR ''[''"] dotted_no [of "CHR '']''"] by simp
  ultimately have "SplitHost (dotted a b c d @ '':'' @ port) = Some (dotted a b c d)"
    by (rule SplitHost_plain [OF _ _ assms(5)])
  moreover have "ParseAddr (dotted a b c d) = Some (IPv4 [int a, int b, int c, int d])"
    by (simp add: ParseAddr_def find_dotted parse_dotted_dotted assms del: set_simps)
  moreover have "\<not> prefix_Contains (fst tailnetV6) (snd tailnetV6) (IPv4 bs)" for bs
    by (simp add: prefix_Contains_def tailnetV6_def)
  ultimately show ?thesis
    using prefix_v4 [OF assms(1-4)] by (simp add: isTailnetAddr_def Unmap_def)
qed

lemma ts_identity_Inr:
  assumes "ts_identity unm s node who = Inr i"
  obtains u rules where "wi_UserProfile who = Some u" "wu_LoginName u \<noteq> []" "\<not> wn_Tagged node \<or> ts_AllowTagged s"
    "unm (wi_CapMap who) (if ts_Cap s = [] then CapGroups else ts_Cap s) = Some rules"
    "id_Subject i = ''tailnet:'' @ Itoa (wu_ID u)" "id_Login i = wu_LoginName u"
    "id_Groups i = sort (remdups (concat (map cap_Groups rules)))"
  using assms by (auto simp: ts_identity_def sortedKeys_def Let_def split: if_splits option.splits)

lemma ts_identity_Inl: "ts_identity unm s node who = Inl e \<Longrightarrow> err_sentinel e = ErrNoIdentity"
  by (auto simp: ts_identity_def Let_def split: if_splits option.splits)

lemma Identify_Inr:
  assumes "Identify unm s whois addr = Inr i"
  obtains who node where "isTailnetAddr addr" "whois (whois_timeout s) addr = Inr (Some who)" "wi_Node who = Some node"
    "ts_identity unm s node who = Inr i"
  using assms by (auto simp: Identify_def split: if_splits option.splits sum.splits)

lemma subject_not_blank: "\<not> blank (''tailnet:'' @ s)"
  by (rule not_blank_char [of "CHR ''t''"]) (auto simp: space_seqs_def)

section \<open>Properties\<close>

text \<open>
  C16 (who is identified).  An identity is only given for a caller with an address of the tailnet,
  whose node the tailnet knows and which is no tagged node (unless those are allowed) but that of
  a user with a login; its subject is the user's stable id and is never blank, and its groups are
  exactly those of the capability rules, sorted and each once, whatever the order of the rules.
  Everything else is refused as no identity.
\<close>

theorem identify_sound:
  "case Identify unm s whois addr of
     Inl e \<Rightarrow> err_sentinel e = ErrNoIdentity
   | Inr i \<Rightarrow>
       isTailnetAddr addr \<and> identity_Valid i = None \<and>
       (\<exists>who node u rules.
          whois (whois_timeout s) addr = Inr (Some who) \<and> wi_Node who = Some node \<and> (\<not> wn_Tagged node \<or> ts_AllowTagged s)
          \<and> wi_UserProfile who = Some u \<and> id_Login i = wu_LoginName u \<and> id_Login i \<noteq> [] \<and> id_Subject i = ''tailnet:'' @ Itoa (wu_ID u)
          \<and> unm (wi_CapMap who) (if ts_Cap s = [] then CapGroups else ts_Cap s) = Some rules
          \<and> sorted (id_Groups i) \<and> distinct (id_Groups i) \<and> set (id_Groups i) = (\<Union>r \<in> set rules. set (cap_Groups r)))"
proof (cases "Identify unm s whois addr")
  case (Inl e)
  then show ?thesis
    by (auto simp: Identify_def dest: ts_identity_Inl split: if_splits option.splits sum.splits)
next
  case (Inr i)
  obtain who node where w: "isTailnetAddr addr" "whois (whois_timeout s) addr = Inr (Some who)" "wi_Node who = Some node"
      "ts_identity unm s node who = Inr i"
    by (rule Identify_Inr [OF Inr])
  obtain u rules where u: "wi_UserProfile who = Some u" "wu_LoginName u \<noteq> []" "\<not> wn_Tagged node \<or> ts_AllowTagged s"
      "unm (wi_CapMap who) (if ts_Cap s = [] then CapGroups else ts_Cap s) = Some rules"
      "id_Subject i = ''tailnet:'' @ Itoa (wu_ID u)" "id_Login i = wu_LoginName u"
      "id_Groups i = sort (remdups (concat (map cap_Groups rules)))"
    by (rule ts_identity_Inr [OF w(4)])
  have "identity_Valid i = None"
    using u(5) subject_not_blank by (simp add: identity_Valid_def)
  moreover have "sorted (id_Groups i)" "distinct (id_Groups i)" "set (id_Groups i) = (\<Union>r \<in> set rules. set (cap_Groups r))"
    using u(7) by simp_all
  ultimately show ?thesis
    using Inr w u by (simp only: sum.case) blast
qed

theorem identify_sound_witness:
  "\<exists>i. Identify (\<lambda>_ _. Some [\<lparr>cap_Groups = [''ops'', ''eng''], cap_Tenants = []\<rparr>, \<lparr>cap_Groups = [''eng''], cap_Tenants = []\<rparr>])
      \<lparr>ts_Local = True, ts_Cap = [], ts_AllowTagged = False, ts_Timeout = 0\<rparr>
      (\<lambda>_ _. Inr (Some \<lparr>wi_Node = Some \<lparr>wn_Name = ''n.'', wn_Tagged = False\<rparr>,
        wi_UserProfile = Some \<lparr>wu_ID = 7, wu_LoginName = ''a@x'', wu_DisplayName = ''A''\<rparr>, wi_CapMap = ()\<rparr>))
      ''100.64.0.1:1'' = Inr i
    \<and> id_Subject i = ''tailnet:7'' \<and> sorted (id_Groups i) \<and> set (id_Groups i) = {''ops'', ''eng''}" (is "\<exists>i. ?I = Inr i \<and> _")
proof -
  have "isTailnetAddr ''100.64.0.1:1''" "Itoa 7 = ''7''"
    by code_simp+
  then obtain i where i: "?I = Inr i" "id_Subject i = ''tailnet:7''"
    by (simp add: Identify_def ts_identity_def)
  with identify_sound [where unm = "\<lambda>_ _. Some [\<lparr>cap_Groups = [''ops'', ''eng''], cap_Tenants = []\<rparr>, \<lparr>cap_Groups = [''eng''], cap_Tenants = []\<rparr>]"
      and s = "\<lparr>ts_Local = True, ts_Cap = [], ts_AllowTagged = False, ts_Timeout = 0\<rparr>"
      and whois = "\<lambda>_ _. Inr (Some \<lparr>wi_Node = Some \<lparr>wn_Name = ''n.'', wn_Tagged = False\<rparr>,
        wi_UserProfile = Some \<lparr>wu_ID = 7, wu_LoginName = ''a@x'', wu_DisplayName = ''A''\<rparr>, wi_CapMap = ()\<rparr>)" and addr = "''100.64.0.1:1''"]
  show ?thesis
    by auto
qed

text \<open>
  C17 (the tailnet's IPv4 addresses).  A caller seen at an IPv4 address and port passes for a peer of
  the tailnet exactly when the address lies in \<^verbatim>\<open>100.64.0.0/10\<close>.
\<close>

theorem tailnet_v4_exactly:
  assumes "a < 256" "b < 256" "c < 256" "d < 256" and "list_all is_decimal port"
  shows "isTailnetAddr (Itoa (int a) @ ''.'' @ Itoa (int b) @ ''.'' @ Itoa (int c) @ ''.'' @ Itoa (int d) @ '':'' @ port)
    \<longleftrightarrow> a = 100 \<and> 64 \<le> b \<and> b \<le> 127"
proof -
  have "\<forall>x \<in> set '':[]''. x \<notin> set port"
    using assms(5) by (auto simp: list_all_iff is_decimal_def)
  from isTailnetAddr_dotted [OF assms(1-4) this] show ?thesis
    by (auto simp: dotted_def Itoa_def)
qed

section \<open>The properties on concrete callers\<close>

theorem tailnet_v4_exactly_witness:
  "isTailnetAddr ''100.101.2.3:443'' \<and> \<not> isTailnetAddr ''100.128.2.3:443''"
proof -
  have i: "Itoa (int 100) = ''100''" "Itoa (int 101) = ''101''" "Itoa (int 2) = ''2''" "Itoa (int 3) = ''3''" "Itoa (int 128) = ''128''"
      "list_all is_decimal ''443''"
    by code_simp+
  from tailnet_v4_exactly [of 100 101 2 3, OF _ _ _ _ i(6)] tailnet_v4_exactly [of 100 128 2 3, OF _ _ _ _ i(6)] show ?thesis
    unfolding i by simp
qed

lemma isTailnetAddr_examples:
  "isTailnetAddr ''100.100.1.2:443''" "isTailnetAddr ''[fd7a:115c:a1e0::1]:443''" "isTailnetAddr ''[::ffff:100.64.0.1]:1''"
  "\<not> isTailnetAddr ''127.0.0.1:1''" "\<not> isTailnetAddr ''[::1]:1''" "\<not> isTailnetAddr ''203.0.113.1:443''"
  "\<not> isTailnetAddr ''[fd7a:115c:a1e0::1%eth0]:443''" "\<not> isTailnetAddr ''100.128.0.1:1''" "\<not> isTailnetAddr ''@''"
  by code_simp+


end
