(* ===== verification/ReverseProxy.thy ===== *)
theory ReverseProxy
  imports Proxy Tsnet
begin

text \<open>
  The other half of \<open>proxy/proxy.go\<close>: what the \<open>httputil.ReverseProxy\<close> that \<open>New\<close> builds for an
  upstream (\<open>NewSingleHostReverseProxy\<close> with the error handler of the proxy) does with the request
  it is handed.  It takes out the headers of one hop, those a \<open>Connection\<close> header names among them,
  puts back what an upgrade or trailers need, adds the caller's address and joins the paths.
  \<open>base\<close> is the path of the upstream's URL.  What it sends has no header of its own besides: an
  absent \<open>User-Agent\<close> stays absent on the wire.
\<close>

section \<open>Headers of one hop\<close>

definition hop_headers :: "string list" where
  "hop_headers = [''Connection'', ''Proxy-Connection'', ''Keep-Alive'', ''Proxy-Authenticate'',
     ''Proxy-Authorization'', ''Te'', ''Trailer'', ''Transfer-Encoding'', ''Upgrade'']"

definition trim_string :: "string \<Rightarrow> string" where
  "trim_string s = (let ws = (\<lambda>c. c \<in> set [CHR 0x20, CHR 0x09, CHR 0x0A, CHR 0x0D])
     in rev (dropWhile ws (rev (dropWhile ws s))))"

text \<open>The names a \<open>Connection\<close> header lists.\<close>

definition connection_names :: "headers \<Rightarrow> string list" where
  "connection_names h =
     filter (\<lambda>s. s \<noteq> []) (map trim_string (concat (map (\<lambda>v. Split v CHR '','') (hdr_Values h ''Connection''))))"

definition removeHopByHopHeaders :: "headers \<Rightarrow> headers" where
  "removeHopByHopHeaders h = fold (\<lambda>k h. hdr_Del h k) hop_headers (fold (\<lambda>k h. hdr_Del h k) (connection_names h) h)"

section \<open>Upgrades\<close>

text \<open>\<open>httpguts.HeaderValuesContainsToken\<close>: lists with commas, blanks around, letters of either case.\<close>

definition trim_ows :: "string \<Rightarrow> string" where
  "trim_ows s = (let ws = (\<lambda>c. c = CHR 0x20 \<or> c = CHR 0x09) in rev (dropWhile ws (rev (dropWhile ws s))))"

definition HeaderValuesContainsToken :: "string list \<Rightarrow> string \<Rightarrow> bool" where
  "HeaderValuesContainsToken vs token =
     list_ex (\<lambda>v. list_ex (\<lambda>t. map ascii_lower (trim_ows t) = map ascii_lower token) (Split v CHR '','')) vs"

definition upgradeType :: "headers \<Rightarrow> string" where
  "upgradeType h =
     (if HeaderValuesContainsToken (hdr_Values h ''Connection'') ''Upgrade'' then hdr_Get h ''Upgrade'' else [])"

definition ascii_IsPrint :: "string \<Rightarrow> bool" where
  "ascii_IsPrint s = list_all (\<lambda>c. 32 \<le> (of_char c :: nat) \<and> (of_char c :: nat) \<le> 126) s"

section \<open>What is sent\<close>

definition singleJoiningSlash :: "string \<Rightarrow> string \<Rightarrow> string" where
  "singleJoiningSlash a b =
     (let aslash = (a \<noteq> [] \<and> last a = CHR ''/''); bslash = HasPrefix b ''/''
      in if aslash \<and> bslash then a @ drop 1 b
         else if \<not> aslash \<and> \<not> bslash then a @ ''/'' @ b
         else a @ b)"

definition bad_gateway :: response where
  "bad_gateway = http_Error ''bad gateway'' 502"

text \<open>\<open>ReverseProxy.ServeHTTP\<close> up to the transport: the answer of the error handler, or the request sent.\<close>

definition reverse_proxy :: "string \<Rightarrow> http_req \<Rightarrow> response + http_req" where
  "reverse_proxy base req =
     (let h = hr_Header req; up = upgradeType h
      in if \<not> ascii_IsPrint up then Inl bad_gateway
         else
           (let h1 = removeHopByHopHeaders h;
                h2 = (if HeaderValuesContainsToken (hdr_Values h ''Te'') ''trailers'' then hdr_Set h1 ''Te'' ''trailers'' else h1);
                h3 = (if up \<noteq> [] then hdr_Set (hdr_Set h2 ''Connection'' ''Upgrade'') ''Upgrade'' up else h2);
                h4 = (case SplitHost (hr_RemoteAddr req) of
                        None \<Rightarrow> h3
                      | Some ip \<Rightarrow>
                          hdr_Set h3 ''X-Forwarded-For'' (Join (hdr_Values h3 ''X-Forwarded-For'' @ [ip]) '', ''))
            in Inr (req\<lparr>hr_Header := h4, hr_Path := singleJoiningSlash base (hr_Path req)\<rparr>)))"

section \<open>Lemmas\<close>

text \<open>The headers the reverse proxy and its transport write or remove themselves.\<close>

definition reserved_header :: "string \<Rightarrow> bool" where
  "reserved_header k = list_ex (\<lambda>h. same_header h k) (hop_headers @ [''X-Forwarded-For'', ''Host'', ''Content-Length''])"

definition connection_drops :: "headers \<Rightarrow> string \<Rightarrow> bool" where
  "connection_drops h k = list_ex (\<lambda>s. same_header s k) (connection_names h)"

lemma removeHopByHopHeaders_Values:
  "hdr_Values (removeHopByHopHeaders h) k =
     (if list_ex (\<lambda>k'. same_header k' k) hop_headers \<or> connection_drops h k then [] else hdr_Values h k)"
  by (simp add: removeHopByHopHeaders_def connection_drops_def Bex_set [symmetric])

lemma not_reserved:
  assumes "\<not> reserved_header k"
  shows "\<not> list_ex (\<lambda>k'. same_header k' k) hop_headers"
    "canonical_key ''Te'' \<noteq> canonical_key k" "canonical_key ''Connection'' \<noteq> canonical_key k"
    "canonical_key ''Upgrade'' \<noteq> canonical_key k" "canonical_key ''X-Forwarded-For'' \<noteq> canonical_key k"
  using assms by (auto simp: reserved_header_def hop_headers_def)

text \<open>
  A header of the proxy's own reaches the upstream as it was written, unless a \<open>Connection\<close> header
  names it: then it does not reach it at all.
\<close>

lemma reverse_proxy_Values:
  assumes "reverse_proxy base req = Inr sent" "\<not> reserved_header k"
  shows "hdr_Values (hr_Header sent) k = (if connection_drops (hr_Header req) k then [] else hdr_Values (hr_Header req) k)"
  using assms(1) not_reserved [OF assms(2)]
  by (auto simp: reverse_proxy_def Let_def removeHopByHopHeaders_Values split: if_splits option.splits)

lemma reverse_proxy_Inl:
  "reverse_proxy base req = Inl e \<Longrightarrow> e = bad_gateway \<and> \<not> ascii_IsPrint (upgradeType (hr_Header req))"
  by (simp add: reverse_proxy_def Let_def split: if_splits)

lemma connection_drops_cong:
  "hdr_Values h ''Connection'' = hdr_Values h' ''Connection'' \<Longrightarrow> connection_drops h k = connection_drops h' k"
  by (simp add: connection_drops_def connection_names_def)

text \<open>The proxy leaves a \<open>Connection\<close> header of the caller alone where no route writes one.\<close>

lemma forwarded_connection:
  assumes "px_Header (pr_cfg p) \<noteq> []" "\<not> same_header (px_Header (pr_cfg p)) ''Connection''"
    and "\<forall>h \<in> set (pr_claimHeaders p). \<not> same_header h ''Connection''"
    and "\<forall>h \<in> set (rt_ClaimHeaders r). \<not> same_header (fst h) ''Connection''"
  shows "hdr_Values (hr_Header (inject (pr_cfg p) tok c r (strip_request p req))) ''Connection''
    = hdr_Values (hr_Header req) ''Connection''"
proof -
  have "claim_header_for c (rt_ClaimHeaders r) ''Connection'' = None"
    using assms(4) by (auto simp: claim_header_for_def find_None_iff)
  moreover have "hdr_Values (hr_Header (strip_request p req)) ''Connection'' = hdr_Values (hr_Header req) ''Connection''"
    using assms(2,3) by (subst strip_Values [OF assms(1)]) auto
  ultimately show ?thesis
    using assms(2) by (simp add: inject_Values)
qed

section \<open>A caller can drop its own assertion\<close>

lemma connection_names_assertion:
  assumes "hdr_Values h ''Connection'' = [DefaultHeader]"
  shows "connection_names h = [DefaultHeader]"
proof -
  have "filter (\<lambda>s. s \<noteq> []) (map trim_string (concat (map (\<lambda>v. Split v CHR '','') [DefaultHeader]))) = [DefaultHeader]"
    by code_simp
  with assms show ?thesis
    by (simp add: connection_names_def)
qed

lemma default_not_reserved: "\<not> reserved_header DefaultHeader"
  by code_simp

text \<open>
  The removal runs after the assertion is injected, so a caller can have its assertion, or a claim
  header, withheld from the upstream.
\<close>

lemma connection_header_removes_assertion:
  assumes "hdr_Values (hr_Header req) ''Connection'' = [DefaultHeader]"
    and "px_Header (pr_cfg p) = DefaultHeader" "pr_claimHeaders p = []" "rt_ClaimHeaders r = []"
    and "reverse_proxy base (inject (pr_cfg p) tok c r (strip_request p req)) = Inr sent"
  shows "hdr_Values (hr_Header (inject (pr_cfg p) tok c r (strip_request p req))) DefaultHeader = [assertion_value (pr_cfg p) tok]
    \<and> hdr_Values (hr_Header sent) DefaultHeader = []"
proof -
  let ?h = "hr_Header (inject (pr_cfg p) tok c r (strip_request p req))"
  have d: "\<not> same_header DefaultHeader ''Connection''" "px_Header (pr_cfg p) \<noteq> []"
    using assms(2) by (code_simp, simp add: DefaultHeader_def)
  have "hdr_Values ?h ''Connection'' = [DefaultHeader]"
    using forwarded_connection [OF d(2), of r tok c req] d assms(1-4) by simp
  then have "connection_drops ?h DefaultHeader"
    by (simp add: connection_drops_def connection_names_assertion)
  then have "hdr_Values (hr_Header sent) DefaultHeader = []"
    using reverse_proxy_Values [OF assms(5) default_not_reserved] by simp
  moreover have "hdr_Values ?h DefaultHeader = [assertion_value (pr_cfg p) tok]"
    using assms by (simp add: inject_Values claim_header_for_def)
  ultimately show ?thesis
    by blast
qed

end
