(* ===== verification/Delivery.thy ===== *)
theory Delivery
  imports Dynamic Verifier ReverseProxy
begin

text \<open>
  The path of a request through the whole system: the proxy strips, mints and injects, the reverse
  proxy of the upstream sends what is left of it, and the middleware in front of the backend's
  handler reads the same header, verifies and runs the handler with the claims.
\<close>

lemma signClaims_chars:
  assumes "signClaims cr fp rnd cur c = Inr tok" "x \<in> set tok"
  shows "x = CHR ''.'' \<or> dec6 x \<noteq> None"
  using assms
  by (auto simp: signClaims_def jwt_Sign_def Let_def split: sum.splits option.splits if_splits prod.splits
      dest: b64_chars)

text \<open>A minted token has no space, so it is never mistaken for a bearer value.\<close>

lemma signClaims_bearer:
  assumes "signClaims cr fp rnd cur c = Inr tok"
  shows "tok \<noteq> []" "CutPrefix tok ''Bearer '' = None"
proof -
  show "tok \<noteq> []"
    using assms by (auto simp: signClaims_def jwt_Sign_def Let_def split: sum.splits option.splits if_splits prod.splits)
  have "CHR '' '' \<noteq> CHR ''.''" "dec6 (CHR '' '') = None"
    by code_simp+
  then have "CHR '' '' \<notin> set tok"
    using signClaims_chars [OF assms] by blast
  then show "CutPrefix tok ''Bearer '' = None"
    by (auto simp: CutPrefix_None HasPrefix_iff)
qed

lemma Middleware_assertion:
  assumes "hdr_Values h (px_Header cfg) = [assertion_value cfg tok]" "px_Header cfg \<noteq> []"
    and "signClaims cr fp rnd cur c = Inr tok"
  shows "Middleware (px_Header cfg) verify next_h refuse_h h =
    (case fst (verify tok) of Inl _ \<Rightarrow> refuse_h (http_Error ''unauthorized'' 401) | Inr c \<Rightarrow> next_h (WithClaims None c))"
proof -
  have g: "hdr_Get h (px_Header cfg) = assertion_value cfg tok"
    using assms(1) by (simp add: hdr_Get_def)
  have "CutPrefix (''Bearer '' @ tok) ''Bearer '' = Some tok"
    unfolding CutPrefix_Some by simp
  then show ?thesis
    using g assms(2) signClaims_bearer [OF assms(3)]
    by (cases "px_Bearer cfg") (simp_all add: Middleware_def Let_def assertion_value_def del: append_Cons append.simps)
qed

text \<open>The middleware behind the reverse proxy: the same answer, or none of the assertion is left.\<close>

lemma Middleware_sent:
  assumes "reverse_proxy base out = Inr sent" "\<not> reserved_header hn" "hn \<noteq> []"
  shows "Middleware hn verify next_h refuse_h (hr_Header sent) =
    (if connection_drops (hr_Header out) hn then refuse_h (http_Error ''unauthorized'' 401)
     else Middleware hn verify next_h refuse_h (hr_Header out))"
proof (cases "connection_drops (hr_Header out) hn")
  case True
  have "CutPrefix [] ''Bearer '' = None"
    by code_simp
  moreover have "hdr_Get (hr_Header sent) hn = []"
    using reverse_proxy_Values [OF assms(1,2)] True by (simp add: hdr_Get_def)
  ultimately show ?thesis
    using assms(3) True by (simp add: Middleware_def Let_def)
next
  case False
  then have "hdr_Get (hr_Header sent) hn = hdr_Get (hr_Header out) hn"
    using reverse_proxy_Values [OF assms(1,2)] by (simp add: hdr_Get_def)
  then show ?thesis
    using False assms(3) by (simp add: Middleware_def)
qed

text \<open>A verifier of another audience refuses a token that its own one accepts.\<close>

lemma other_audience_refuses:
  assumes "verify_token cr fp (vcfg\<lparr>v_Audience := a\<rparr>) key t tok = Inr c" "v_Audience vcfg \<noteq> a"
  shows "\<exists>e. verify_token cr fp vcfg key t tok = Inl e"
proof (cases "verify_token cr fp vcfg key t tok")
  case (Inr c')
  from assms(1) obtain hdr body where 1: "jwt_Parse tok = Inr (hdr, body)" "claims_UnmarshalJSON fp body = Inr c"
      "check_claims (vcfg\<lparr>v_Audience := a\<rparr>) t c = None"
    by (rule verify_token_Inr) simp
  from Inr obtain hdr' body' where 2: "jwt_Parse tok = Inr (hdr', body')" "claims_UnmarshalJSON fp body' = Inr c'"
      "check_claims vcfg t c' = None"
    by (rule verify_token_Inr) simp
  from 1 2 have "c' = c"
    by simp
  with 1(3) 2(3) assms(2) show ?thesis
    by (simp add: check_claims_None)
qed simp

text \<open>What the middleware of a backend does with a request the proxy forwards.\<close>

lemma forwarded_reaches_handler:
  assumes "crypto_ok cr" "keyset_ok cr s" "signer_New iss hk hi ht ttl leeway = Inr scfg" "leeway < 2 ^ 61"
    and "proxy_New cfg = Inr p"
    and "serve ul p (mint_at cr fp scfg w1) acquire live (mint_at cr fp scfg w2) req = (calls, Forwarded u out)"
    and "w = (if px_Gate (pr_cfg p) then w2 else w1)" "sw_Current w = set_Current s" "sane_time (sw_Now w)"
      "sw_ID w \<noteq> Some []" "Second \<le> sg_TTL scfg"
    and "\<And>r ten tok c. r \<in> set (pr_router p) \<Longrightarrow> mint_at cr fp scfg w (hr_RemoteAddr req) (rt_Audience r) ten = Inr (tok, c) \<Longrightarrow>
       claims_ok c \<and> c_IssuedAt c \<noteq> 0 \<and> c_Expiry c \<noteq> 0"
    and "\<And>r h. r \<in> set (pr_router p) \<Longrightarrow> h \<in> set (rt_ClaimHeaders r) \<Longrightarrow> \<not> same_header (fst h) (px_Header (pr_cfg p))"
    and "v_Issuer vcfg = iss" "0 < v_Leeway vcfg" "v_Leeway vcfg < 2 ^ 61"
    and "MaxTTL \<le> v_MaxLifetime vcfg" "v_MaxLifetime vcfg < 2 ^ 61"
    and "\<And>priv kid. set_Current s = Inr (priv, kid) \<Longrightarrow> key kid = Inr (sk_Public priv)"
    and "sane_time t" "tns (sw_Now w) \<le> tns t" "tns t \<le> tns (sw_Now w) + sg_TTL scfg - Second"
  shows "\<exists>r tok c. router_Match ul (pr_router p) (strip_request p req) = Some r \<and> rt_Upstream r = Some u
    \<and> (\<exists>ten. mint_at cr fp scfg w (hr_RemoteAddr req) (rt_Audience r) ten = Inr (tok, c))
    \<and> c_Audience c = rt_Audience r \<and> (rt_Tenant r \<noteq> [] \<longrightarrow> c_Tenant c = rt_Tenant r)
    \<and> out = inject (pr_cfg p) tok c r (strip_request p req)
    \<and> Middleware (px_Header (pr_cfg p)) (Verify cr fp vcfg key t (guard_Seen g) None) next_h refuse_h (hr_Header out)
        = (if v_Audience vcfg = rt_Audience r then next_h (WithClaims None c)
           else refuse_h (http_Error ''unauthorized'' 401))"
proof (rule signer_minting.forwarded [OF assms(5,6)])
  fix r ten tok c
  assume f: "router_Match ul (pr_router p) (strip_request p req) = Some r" "rt_Upstream r = Some u"
    "ten = request_tenant (pr_cfg p) r (strip_request p req)"
    "out = inject (pr_cfg p) tok c r (strip_request p req)"
    "c_Audience c = rt_Audience r" "ten \<noteq> [] \<longrightarrow> c_Tenant c = ten"
  and g: "if px_Gate (pr_cfg p)
     then acquire r = None \<and> live \<and> mint_at cr fp scfg w2 (hr_RemoteAddr req) (rt_Audience r) (c_Tenant c) = Inr (tok, c)
       \<and> (\<exists>tok1 c1. mint_at cr fp scfg w1 (hr_RemoteAddr req) (rt_Audience r) ten = Inr (tok1, c1) \<and> c_Tenant c1 = c_Tenant c)
       \<and> calls = [CallMint (hr_RemoteAddr req) (rt_Audience r) ten, CallAcquire r,
            CallMint (hr_RemoteAddr req) (rt_Audience r) (c_Tenant c), CallForward u, CallRelease]
     else mint_at cr fp scfg w1 (hr_RemoteAddr req) (rt_Audience r) ten = Inr (tok, c)
       \<and> calls = [CallMint (hr_RemoteAddr req) (rt_Audience r) ten, CallForward u]"
  have m: "mint_at cr fp scfg w (hr_RemoteAddr req) (rt_Audience r)
      (if px_Gate (pr_cfg p) then c_Tenant c else ten) = Inr (tok, c)"
    using g assms(7) by (auto split: if_splits)
  then obtain identify ten' where M: "Mint cr fp scfg identify (sw_Resolve w) (set_Current s) (sw_Now w) (sw_ID w) (sw_Rnd w)
      (rt_Audience r) ten' = Inr (tok, c)"
    using assms(8) by (auto simp: mint_at_def)
  have sub: "c_Subject c \<noteq> []" and sg: "signClaims cr fp (sw_Rnd w) (set_Current s) c = Inr tok"
    by (rule Mint_Inr [OF M]; auto simp: mint_claims_def identity_Valid_def split: if_splits)+
  let ?v = "vcfg\<lparr>v_Audience := rt_Audience r\<rparr>"
  have "tns t \<le> (c_Expiry c + unixToInternal) * Second + v_Leeway vcfg"
    using minted_lifetime [OF assms(3) M assms(9)] assms(4,15,22) by simp
  then have v: "verify_token cr fp ?v key t tok = Inr c"
    using assms(9-11,14-21) assms(12) [OF router_Match_in [OF f(1)] m] sub
    by (intro minted_accepted [OF assms(1-4) M]) auto
  have e: "claim_header_for c (rt_ClaimHeaders r) (px_Header (pr_cfg p)) = None"
    using assms(13) [OF router_Match_in [OF f(1)]] by (auto simp: claim_header_for_def find_None_iff)
  have mw: "Middleware (px_Header (pr_cfg p)) (Verify cr fp vcfg key t (guard_Seen g) None) next_h refuse_h (hr_Header out)
      = (case fst (Verify cr fp vcfg key t (guard_Seen g) None tok) of
           Inl _ \<Rightarrow> refuse_h (http_Error ''unauthorized'' 401) | Inr c \<Rightarrow> next_h (WithClaims None c))"
    by (rule Middleware_assertion [OF _ proxy_New_Inr(1) [OF assms(5)] sg]) (simp add: f(4) inject_Values e)
  have "Middleware (px_Header (pr_cfg p)) (Verify cr fp vcfg key t (guard_Seen g) None) next_h refuse_h (hr_Header out)
        = (if v_Audience vcfg = rt_Audience r then next_h (WithClaims None c)
           else refuse_h (http_Error ''unauthorized'' 401))"
  proof (cases "v_Audience vcfg = rt_Audience r")
    case True
    then have "?v = vcfg" by simp
    with v True show ?thesis
      by (simp add: mw Verify_def)
  next
    case False
    with other_audience_refuses [OF v] show ?thesis
      by (auto simp: mw Verify_def)
  qed
  moreover have "rt_Tenant r \<noteq> [] \<longrightarrow> c_Tenant c = rt_Tenant r"
    using f(3,6) by (auto simp: request_tenant_def)
  ultimately show ?thesis
    using f m by blast
qed

text \<open>And what it does with the request as the reverse proxy sends it on.\<close>

lemma sent_reaches_handler:
  assumes "crypto_ok cr" "keyset_ok cr s" "signer_New iss hk hi ht ttl leeway = Inr scfg" "leeway < 2 ^ 61"
    and "proxy_New cfg = Inr p"
    and "serve ul p (mint_at cr fp scfg w1) acquire live (mint_at cr fp scfg w2) req = (calls, Forwarded u out)"
    and "w = (if px_Gate (pr_cfg p) then w2 else w1)" "sw_Current w = set_Current s" "sane_time (sw_Now w)"
      "sw_ID w \<noteq> Some []" "Second \<le> sg_TTL scfg"
    and "\<And>r ten tok c. r \<in> set (pr_router p) \<Longrightarrow> mint_at cr fp scfg w (hr_RemoteAddr req) (rt_Audience r) ten = Inr (tok, c) \<Longrightarrow>
       claims_ok c \<and> c_IssuedAt c \<noteq> 0 \<and> c_Expiry c \<noteq> 0"
    and "\<And>r h. r \<in> set (pr_router p) \<Longrightarrow> h \<in> set (rt_ClaimHeaders r) \<Longrightarrow>
       \<not> same_header (fst h) (px_Header (pr_cfg p)) \<and> \<not> same_header (fst h) ''Connection''"
    and "v_Issuer vcfg = iss" "0 < v_Leeway vcfg" "v_Leeway vcfg < 2 ^ 61"
    and "MaxTTL \<le> v_MaxLifetime vcfg" "v_MaxLifetime vcfg < 2 ^ 61"
    and "\<And>priv kid. set_Current s = Inr (priv, kid) \<Longrightarrow> key kid = Inr (sk_Public priv)"
    and "sane_time t" "tns (sw_Now w) \<le> tns t" "tns t \<le> tns (sw_Now w) + sg_TTL scfg - Second"
    and "\<not> reserved_header (px_Header (pr_cfg p))"
  shows "\<exists>r tok c. router_Match ul (pr_router p) (strip_request p req) = Some r \<and> rt_Upstream r = Some u
    \<and> (\<exists>ten. mint_at cr fp scfg w (hr_RemoteAddr req) (rt_Audience r) ten = Inr (tok, c))
    \<and> c_Audience c = rt_Audience r \<and> (rt_Tenant r \<noteq> [] \<longrightarrow> c_Tenant c = rt_Tenant r)
    \<and> (case reverse_proxy base out of
         Inl e \<Rightarrow> e = bad_gateway \<and> HeaderValuesContainsToken (hdr_Values (hr_Header req) ''Connection'') ''Upgrade''
           \<and> \<not> ascii_IsPrint (hdr_Get (hr_Header out) ''Upgrade'')
       | Inr sent \<Rightarrow>
           Middleware (px_Header (pr_cfg p)) (Verify cr fp vcfg key t (guard_Seen g) None) next_h refuse_h (hr_Header sent)
           = (if v_Audience vcfg = rt_Audience r \<and> \<not> connection_drops (hr_Header req) (px_Header (pr_cfg p))
              then next_h (WithClaims None c) else refuse_h (http_Error ''unauthorized'' 401)))"
proof -
  let ?hd = "px_Header (pr_cfg p)"
  have claims: "\<not> same_header (fst h) ?hd" if "r \<in> set (pr_router p)" "h \<in> set (rt_ClaimHeaders r)" for r h
    using assms(13) [OF that] by simp
  have "\<exists>r tok c. router_Match ul (pr_router p) (strip_request p req) = Some r \<and> rt_Upstream r = Some u
    \<and> (\<exists>ten. mint_at cr fp scfg w (hr_RemoteAddr req) (rt_Audience r) ten = Inr (tok, c))
    \<and> c_Audience c = rt_Audience r \<and> (rt_Tenant r \<noteq> [] \<longrightarrow> c_Tenant c = rt_Tenant r)
    \<and> out = inject (pr_cfg p) tok c r (strip_request p req)
    \<and> Middleware ?hd (Verify cr fp vcfg key t (guard_Seen g) None) next_h refuse_h (hr_Header out)
        = (if v_Audience vcfg = rt_Audience r then next_h (WithClaims None c)
           else refuse_h (http_Error ''unauthorized'' 401))"
    by (rule forwarded_reaches_handler) (fact assms claims)+
  then obtain r tok c ten where f: "router_Match ul (pr_router p) (strip_request p req) = Some r" "rt_Upstream r = Some u"
      "mint_at cr fp scfg w (hr_RemoteAddr req) (rt_Audience r) ten = Inr (tok, c)"
      "c_Audience c = rt_Audience r" "rt_Tenant r \<noteq> [] \<longrightarrow> c_Tenant c = rt_Tenant r"
      "out = inject (pr_cfg p) tok c r (strip_request p req)"
      "Middleware ?hd (Verify cr fp vcfg key t (guard_Seen g) None) next_h refuse_h (hr_Header out)
        = (if v_Audience vcfg = rt_Audience r then next_h (WithClaims None c) else refuse_h (http_Error ''unauthorized'' 401))"
    by blast
  have "\<not> same_header ?hd ''Connection''"
    using not_reserved(3) [OF assms(23)] by simp
  moreover have "\<forall>h \<in> set (pr_claimHeaders p). \<not> same_header h ''Connection''"
    using assms(13) proxy_New_Inr(4) [OF assms(5)] by auto
  ultimately have conn: "hdr_Values (hr_Header out) ''Connection'' = hdr_Values (hr_Header req) ''Connection''"
    using forwarded_connection [OF proxy_New_Inr(1) [OF assms(5)]] assms(13) router_Match_in [OF f(1)] unfolding f(6) by blast
  note drops = connection_drops_cong [OF conn]
  have "case reverse_proxy base out of
         Inl e \<Rightarrow> e = bad_gateway \<and> HeaderValuesContainsToken (hdr_Values (hr_Header req) ''Connection'') ''Upgrade''
           \<and> \<not> ascii_IsPrint (hdr_Get (hr_Header out) ''Upgrade'')
       | Inr sent \<Rightarrow>
           Middleware ?hd (Verify cr fp vcfg key t (guard_Seen g) None) next_h refuse_h (hr_Header sent)
           = (if v_Audience vcfg = rt_Audience r \<and> \<not> connection_drops (hr_Header req) ?hd
              then next_h (WithClaims None c) else refuse_h (http_Error ''unauthorized'' 401))"
  proof (cases "reverse_proxy base out")
    case (Inl e)
    with reverse_proxy_Inl [OF Inl] conn show ?thesis
      by (auto simp: upgradeType_def ascii_IsPrint_def split: if_splits)
  next
    case (Inr sent)
    with Middleware_sent [where verify = "Verify cr fp vcfg key t (guard_Seen g) None" and next_h = next_h and refuse_h = refuse_h,
        OF Inr assms(23) proxy_New_Inr(1) [OF assms(5)]] f(7) drops show ?thesis
      by simp
  qed
  with f show ?thesis
    by blast
qed

section \<open>Properties\<close>

text \<open>
  C12 (from the caller to the handler).  A request the proxy hands to the reverse proxy of an upstream
  is accepted by the backend that the matching route is for: as long as the token lives, the middleware
  of a verifier of that route's audience runs the handler on what the reverse proxy sends, with the
  claims minted for the caller, which name that audience and the tenant the route pins.  At a backend
  of any other audience the same request is refused; and so it is everywhere when the caller has named
  the assertion header in a \<open>Connection\<close> header, which makes the reverse proxy drop it.  A request to
  switch to a protocol with an unprintable name is answered 502 and not sent.  The header of the
  assertion is not one the reverse proxy writes itself, and no claim goes into \<open>Connection\<close>.
\<close>

theorem proxied_request_reaches_handler:
  assumes "crypto_ok cr" "keyset_ok cr s" "signer_New iss hk hi ht ttl leeway = Inr scfg" "leeway < 2 ^ 61"
    and "proxy_New cfg = Inr p"
    and "serve ul p (mint_at cr fp scfg w1) acquire live (mint_at cr fp scfg w2) req = (calls, Forwarded u out)"
    and "w = (if px_Gate (pr_cfg p) then w2 else w1)" "sw_Current w = set_Current s" "sane_time (sw_Now w)"
      "sw_ID w \<noteq> Some []" "Second \<le> sg_TTL scfg"
    and "\<And>r ten tok c. r \<in> set (pr_router p) \<Longrightarrow> mint_at cr fp scfg w (hr_RemoteAddr req) (rt_Audience r) ten = Inr (tok, c) \<Longrightarrow>
       claims_ok c \<and> c_IssuedAt c \<noteq> 0 \<and> c_Expiry c \<noteq> 0"
    and "\<And>r h. r \<in> set (pr_router p) \<Longrightarrow> h \<in> set (rt_ClaimHeaders r) \<Longrightarrow>
       \<not> same_header (fst h) (px_Header (pr_cfg p)) \<and> \<not> same_header (fst h) ''Connection''"
    and "v_Issuer vcfg = iss" "0 < v_Leeway vcfg" "v_Leeway vcfg < 2 ^ 61"
    and "MaxTTL \<le> v_MaxLifetime vcfg" "v_MaxLifetime vcfg < 2 ^ 61"
    and "\<And>priv kid. set_Current s = Inr (priv, kid) \<Longrightarrow> key kid = Inr (sk_Public priv)"
    and "sane_time t" "tns (sw_Now w) \<le> tns t" "tns t \<le> tns (sw_Now w) + sg_TTL scfg - Second"
    and "\<not> reserved_header (px_Header (pr_cfg p))"
  shows "\<exists>r tok c. router_Match ul (pr_router p) (strip_request p req) = Some r \<and> rt_Upstream r = Some u
    \<and> (\<exists>ten. mint_at cr fp scfg w (hr_RemoteAddr req) (rt_Audience r) ten = Inr (tok, c))
    \<and> c_Audience c = rt_Audience r \<and> (rt_Tenant r \<noteq> [] \<longrightarrow> c_Tenant c = rt_Tenant r)
    \<and> (case reverse_proxy base out of
         Inl e \<Rightarrow> e = bad_gateway \<and> HeaderValuesContainsToken (hdr_Values (hr_Header req) ''Connection'') ''Upgrade''
           \<and> \<not> ascii_IsPrint (hdr_Get (hr_Header out) ''Upgrade'')
       | Inr sent \<Rightarrow>
           Middleware (px_Header (pr_cfg p)) (Verify cr fp vcfg key t (guard_Seen g) None) next_h refuse_h (hr_Header sent)
           = (if v_Audience vcfg = rt_Audience r \<and> \<not> connection_drops (hr_Header req) (px_Header (pr_cfg p))
              then next_h (WithClaims None c) else refuse_h (http_Error ''unauthorized'' 401)))"
  using sent_reaches_handler [OF assms] .

theorem proxied_request_reaches_handler_witness:
  "\<exists>calls out sent c. serve id example_proxy example_mint_fun (\<lambda>_. None) True example_mint_fun example_req
       = (calls, Forwarded ''http://svc'' out)
   \<and> reverse_proxy ''/base'' out = Inr sent
   \<and> Middleware DefaultHeader (Verify toy_crypto (\<lambda>_. None) example_vcfg (local_Key toy_set (time_Unix 1700000200))
        (time_Unix 1700000200) (guard_Seen (time_Unix 0)) None) (\<lambda>ctx. Inr ctx) Inl (hr_Header sent) = Inr (Some c)"
proof -
  have "\<not> blank ''iss''" by code_simp
  then have n: "signer_New ''iss'' True True True 0 0 = Inr example_cfg"
    by (simp add: signer_New_def DefaultTTL_def MaxTTL_def example_cfg_def Let_def)
  have x: "sane_time (time_Unix 1700000000)" "sane_time (time_Unix 1700000200)"
      "tns (time_Unix 1700000000) \<le> tns (time_Unix 1700000200)"
      "tns (time_Unix 1700000200) \<le> 299000000000 + tns (time_Unix 1700000000)"
    by code_simp+
  have w: "sw_Current example_world = set_Current toy_set" "sw_Now example_world = time_Unix 1700000000"
      "sw_ID example_world \<noteq> Some []"
    by (simp_all add: example_world_def)
  have k: "local_Key toy_set t kid = Inr (sk_Public priv)" if "set_Current toy_set = Inr (priv, kid)" for priv kid t
    using set_current_published [OF toy_set_ok that] by (simp add: local_Key_def)
  obtain calls out where s: "serve id example_proxy example_mint_fun (\<lambda>_. None) True example_mint_fun example_req
       = (calls, Forwarded ''http://svc'' out)"
    using example_served by blast
  have c: "claims_ok c \<and> c_IssuedAt c \<noteq> 0 \<and> c_Expiry c \<noteq> 0"
    if "r \<in> set (pr_router example_proxy)"
      "example_mint_fun (hr_RemoteAddr example_req) (rt_Audience r) ten = Inr (tok, c)" for r ten tok c
  proof -
    from that(2) obtain i g t bs where m: "sw_Identify example_world (hr_RemoteAddr example_req) = Inr i"
      "sw_Resolve example_world i = Inr g" "grant_Tenant g (if ten = [] then g_Default g else ten) = Some t"
      "sw_ID example_world = Some bs" "c = mint_claims example_cfg (sw_Now example_world) i g t (rt_Audience r) (b64 bs)"
      unfolding mint_at_def by (rule Mint_Inr)
    from grant_Tenant_Some [OF m(3)] m that(1) have "c = example_minted"
      by (auto simp: example_world_def example_policy_grant example_minted_def)
    moreover have "claims_ok example_minted" "c_IssuedAt example_minted \<noteq> 0" "c_Expiry example_minted \<noteq> 0"
      by code_simp+
    ultimately show ?thesis
      by simp
  qed
  have h: "\<not> same_header (fst h) (px_Header (pr_cfg example_proxy)) \<and> \<not> same_header (fst h) ''Connection''"
    if "r \<in> set (pr_router example_proxy)" "h \<in> set (rt_ClaimHeaders r)" for r h
  proof -
    have "\<not> same_header ''X-Sub'' DefaultHeader" "\<not> same_header ''X-Sub'' ''Connection''"
      by code_simp+
    then show ?thesis
      using that by (auto simp: example_route_def)
  qed
  have W: "example_world = (if px_Gate (pr_cfg example_proxy) then example_world else example_world)"
    by simp
  have "\<exists>r tok c. router_Match id (pr_router example_proxy) (strip_request example_proxy example_req) = Some r
    \<and> rt_Upstream r = Some ''http://svc''
    \<and> (\<exists>ten. mint_at toy_crypto (\<lambda>_. None) example_cfg example_world (hr_RemoteAddr example_req) (rt_Audience r) ten = Inr (tok, c))
    \<and> c_Audience c = rt_Audience r \<and> (rt_Tenant r \<noteq> [] \<longrightarrow> c_Tenant c = rt_Tenant r)
    \<and> (case reverse_proxy ''/base'' out of
         Inl e \<Rightarrow> e = bad_gateway \<and> HeaderValuesContainsToken (hdr_Values (hr_Header example_req) ''Connection'') ''Upgrade''
           \<and> \<not> ascii_IsPrint (hdr_Get (hr_Header out) ''Upgrade'')
       | Inr sent \<Rightarrow>
           Middleware (px_Header (pr_cfg example_proxy)) (Verify toy_crypto (\<lambda>_. None) example_vcfg
             (local_Key toy_set (time_Unix 1700000200)) (time_Unix 1700000200) (guard_Seen (time_Unix 0)) None)
             (\<lambda>ctx. Inr ctx) Inl (hr_Header sent)
           = (if v_Audience example_vcfg = rt_Audience r \<and> \<not> connection_drops (hr_Header example_req) (px_Header (pr_cfg example_proxy))
              then Inr (WithClaims None c) else Inl (http_Error ''unauthorized'' 401)))"
    by (rule proxied_request_reaches_handler [OF toy_crypto_ok toy_set_ok n _ example_proxy_New s W w(1) _ w(3) _ c h _ _ _ _ _ k])
      (simp_all add: w(2) x default_not_reserved, simp_all add: x example_cfg_def example_vcfg_def MaxTTL_def)
  then obtain r c where r: "router_Match id (pr_router example_proxy) (strip_request example_proxy example_req) = Some r"
    "case reverse_proxy ''/base'' out of
         Inl e \<Rightarrow> e = bad_gateway \<and> HeaderValuesContainsToken (hdr_Values (hr_Header example_req) ''Connection'') ''Upgrade''
           \<and> \<not> ascii_IsPrint (hdr_Get (hr_Header out) ''Upgrade'')
       | Inr sent \<Rightarrow>
           Middleware (px_Header (pr_cfg example_proxy)) (Verify toy_crypto (\<lambda>_. None) example_vcfg
             (local_Key toy_set (time_Unix 1700000200)) (time_Unix 1700000200) (guard_Seen (time_Unix 0)) None)
             (\<lambda>ctx. Inr ctx) Inl (hr_Header sent)
           = (if v_Audience example_vcfg = rt_Audience r \<and> \<not> connection_drops (hr_Header example_req) (px_Header (pr_cfg example_proxy))
              then Inr (WithClaims None c) else Inl (http_Error ''unauthorized'' 401))"
    by blast
  have "hdr_Values (hr_Header example_req) ''Connection'' = []"
    by code_simp
  then have "\<not> connection_drops (hr_Header example_req) k" "\<not> HeaderValuesContainsToken (hdr_Values (hr_Header example_req) ''Connection'') ''Upgrade''"
    for k
    by (simp_all add: HeaderValuesContainsToken_def connection_drops_def connection_names_def)
  moreover have "v_Audience example_vcfg = rt_Audience r" "px_Header (pr_cfg example_proxy) = DefaultHeader"
    using r(1) by (auto simp: example_route_matches example_vcfg_def)
  ultimately show ?thesis
    using s r(2) by (auto simp: WithClaims_def split: sum.split_asm)
qed

end
