(* ===== verification/RouteFile.thy ===== *)
theory RouteFile
  imports Router Claims
begin

text \<open>
  \<open>routetable/routefile.go\<close>: the rendered route table that the controller writes and the data
  plane reads.  \<open>url.Parse\<close> is the parameter \<open>up\<close>: the \<open>String\<close> and the \<open>Host\<close> of the URL, or
  \<open>None\<close>; a file system is a map from paths to contents.  The map \<open>ClaimHeaders\<close> is an
  association list with distinct keys.
\<close>

record route_entry =
  re_Name :: string
  re_Hostnames :: "string list"
  re_PathPrefix :: string
  re_Upstream :: string
  re_Audience :: string
  re_Tenant :: string
  re_ClaimHeaders :: "(string \<times> string) list"

record route_file =
  rf_Revision :: int
  rf_Gateway :: string
  rf_Routes :: "route_entry list"

type_synonym url_parse = "string \<Rightarrow> (string \<times> string) option"

definition entry_of :: "route \<Rightarrow> route_entry option" where
  "entry_of r =
     map_option (\<lambda>u. \<lparr>re_Name = rt_Name r, re_Hostnames = rt_Hostnames r, re_PathPrefix = rt_PathPrefix r,
         re_Upstream = u, re_Audience = rt_Audience r, re_Tenant = rt_Tenant r, re_ClaimHeaders = rt_ClaimHeaders r\<rparr>)
       (rt_Upstream r)"

text \<open>\<open>String\<close> of a nil URL panics.\<close>

definition Render :: "string \<Rightarrow> int \<Rightarrow> route list \<Rightarrow> route_file result" where
  "Render gateway revision routes =
     (case those (map entry_of routes) of
        None \<Rightarrow> Inl (Error Panic ''nil URL'')
      | Some es \<Rightarrow> Inr \<lparr>rf_Revision = revision, rf_Gateway = gateway, rf_Routes = es\<rparr>)"

definition route_of :: "route_entry \<Rightarrow> string \<Rightarrow> route" where
  "route_of e u =
     \<lparr>rt_Name = re_Name e, rt_Hostnames = re_Hostnames e, rt_PathPrefix = re_PathPrefix e, rt_Upstream = Some u,
      rt_Audience = re_Audience e, rt_Tenant = re_Tenant e, rt_ClaimHeaders = re_ClaimHeaders e\<rparr>"

fun parse_entries :: "url_parse \<Rightarrow> route_entry list \<Rightarrow> route list result" where
  "parse_entries up [] = Inr []"
| "parse_entries up (e # es) =
     (case up (re_Upstream e) of
        None \<Rightarrow> Inl (Error Plain ''upstream'')
      | Some (u, host) \<Rightarrow>
          if host = [] then Inl (Error Plain ''upstream has no host'')
          else
            (case route_Valid (route_of e u) of
               Some err \<Rightarrow> Inl err
             | None \<Rightarrow>
                 (case parse_entries up es of Inl err \<Rightarrow> Inl err | Inr rs \<Rightarrow> Inr (route_of e u # rs))))"

definition file_Parse :: "url_parse \<Rightarrow> route_file \<Rightarrow> route list result" where
  "file_Parse up f = parse_entries up (rf_Routes f)"

section \<open>The JSON form\<close>

definition entry_members :: "route_entry \<Rightarrow> (bool \<times> string \<times> json) list" where
  "entry_members e =
     [(True, ''name'', JStr (re_Name e)),
      (re_Hostnames e \<noteq> [], ''hostnames'', JArr (map JStr (re_Hostnames e))),
      (re_PathPrefix e \<noteq> [], ''pathPrefix'', JStr (re_PathPrefix e)),
      (True, ''upstream'', JStr (re_Upstream e)),
      (True, ''audience'', JStr (re_Audience e)),
      (re_Tenant e \<noteq> [], ''tenant'', JStr (re_Tenant e)),
      (re_ClaimHeaders e \<noteq> [], ''claimHeaders'',
         JObj (map (\<lambda>hc. (fst hc, JStr (snd hc))) (sort_key fst (re_ClaimHeaders e))))]"

text \<open>A nil slice is written as \<open>null\<close>.\<close>

definition file_doc :: "route_file \<Rightarrow> json" where
  "file_doc f =
     JObj [(''revision'', JNum (NInt (rf_Revision f))), (''gateway'', JStr (rf_Gateway f)),
       (''routes'', if rf_Routes f = [] then JNull else JArr (map (\<lambda>e. JObj (written (entry_members e))) (rf_Routes f)))]"

text \<open>A map of strings, decoded over the entries already there.\<close>

fun dec_smap :: "(string \<times> string) list decoder" where
  "dec_smap JNull m = Some []"
| "dec_smap (JObj kvs) m =
     map_option (\<lambda>vs. fold (\<lambda>(k, v). AList.update k v) (zip (map fst kvs) vs) m)
       (those (map (\<lambda>kv. dec_string (snd kv) []) kvs))"
| "dec_smap _ m = None"

definition zero_route_entry :: route_entry where
  "zero_route_entry = \<lparr>re_Name = [], re_Hostnames = [], re_PathPrefix = [], re_Upstream = [], re_Audience = [],
     re_Tenant = [], re_ClaimHeaders = []\<rparr>"

definition route_entry_fields :: "route_entry fields" where
  "route_entry_fields =
     [fld ''name'' dec_string re_Name (\<lambda>x. re_Name_update (\<lambda>_. x)),
      fld ''hostnames'' (dec_slice dec_string []) re_Hostnames (\<lambda>x. re_Hostnames_update (\<lambda>_. x)),
      fld ''pathPrefix'' dec_string re_PathPrefix (\<lambda>x. re_PathPrefix_update (\<lambda>_. x)),
      fld ''upstream'' dec_string re_Upstream (\<lambda>x. re_Upstream_update (\<lambda>_. x)),
      fld ''audience'' dec_string re_Audience (\<lambda>x. re_Audience_update (\<lambda>_. x)),
      fld ''tenant'' dec_string re_Tenant (\<lambda>x. re_Tenant_update (\<lambda>_. x)),
      fld ''claimHeaders'' dec_smap re_ClaimHeaders (\<lambda>x. re_ClaimHeaders_update (\<lambda>_. x))]"

definition zero_file :: route_file where
  "zero_file = \<lparr>rf_Revision = 0, rf_Gateway = [], rf_Routes = []\<rparr>"

definition file_fields :: "route_file fields" where
  "file_fields =
     [fld ''revision'' dec_int64 rf_Revision (\<lambda>x. rf_Revision_update (\<lambda>_. x)),
      fld ''gateway'' dec_string rf_Gateway (\<lambda>x. rf_Gateway_update (\<lambda>_. x)),
      fld ''routes'' (dec_slice (dec_struct False route_entry_fields) zero_route_entry) rf_Routes (\<lambda>x. rf_Routes_update (\<lambda>_. x))]"

section \<open>Reading and writing\<close>

type_synonym file_sys = "string \<rightharpoonup> string"

text \<open>\<open>contents\<close> is what \<open>os.ReadFile\<close> gives.\<close>

definition decode_file :: "string \<Rightarrow> route_file option" where
  "decode_file b = Option.bind (json_Parse b) (\<lambda>j. dec_struct False file_fields j zero_file)"

definition ReadRouteFile :: "url_parse \<Rightarrow> string result \<Rightarrow> (route_file \<times> route list) result" where
  "ReadRouteFile up contents =
     (case contents of
        Inl e \<Rightarrow> Inl e
      | Inr b \<Rightarrow>
          (case decode_file b of
             None \<Rightarrow> Inl (Error Plain ''parse'')
           | Some f \<Rightarrow> (case file_Parse up f of Inl e \<Rightarrow> Inl e | Inr rs \<Rightarrow> Inr (f, rs))))"

definition file_bytes :: "route_file \<Rightarrow> string" where
  "file_bytes f = json_MarshalIndent (file_doc f) @ [CHR 0x0A]"

text \<open>
  \<open>WriteRouteFile\<close>: the states the file system passes through, the last one being the final
  one, and the error.  \<open>mkdir\<close> and \<open>rename\<close> say whether those calls work; \<open>wrote\<close> is how many
  bytes a failing write leaves in the temporary file, \<open>None\<close> when the write works.
\<close>

definition tmp_path :: "string \<Rightarrow> string" where
  "tmp_path path = path @ ''.tmp''"

definition WriteRouteFile :: "string \<Rightarrow> route_file \<Rightarrow> bool \<Rightarrow> nat option \<Rightarrow> bool \<Rightarrow> file_sys
    \<Rightarrow> file_sys list \<times> error option" where
  "WriteRouteFile path f mkdir wrote rename fs =
     (if \<not> mkdir then ([fs], Some (Error Plain ''mkdir''))
      else
        (let b = file_bytes f; partial = map (\<lambda>n. fs(tmp_path path \<mapsto> take n b))
         in case wrote of
              Some n \<Rightarrow> (fs # partial [0..<Suc n], Some (Error Plain ''write''))
            | None \<Rightarrow>
                (let written_fs = fs # partial [0..<Suc (length b)];
                     full = fs(tmp_path path \<mapsto> b)
                 in if rename then (written_fs @ [full(tmp_path path := None, path \<mapsto> b)], None)
                    else (written_fs, Some (Error Plain ''rename'')))))"

section \<open>Lemmas\<close>

text \<open>What a table can hold and still be read back: text in UTF-8, claim headers in order.\<close>

definition entry_ok :: "route_entry \<Rightarrow> bool" where
  "entry_ok e \<longleftrightarrow>
     list_all valid_utf8 ([re_Name e, re_PathPrefix e, re_Upstream e, re_Audience e, re_Tenant e] @ re_Hostnames e)
     \<and> list_all (\<lambda>hc. valid_utf8 (fst hc) \<and> valid_utf8 (snd hc)) (re_ClaimHeaders e)
     \<and> distinct (map fst (re_ClaimHeaders e))"

definition file_ok :: "route_file \<Rightarrow> bool" where
  "file_ok f \<longleftrightarrow> in_s64 (rf_Revision f) \<and> valid_utf8 (rf_Gateway f) \<and> list_all entry_ok (rf_Routes f)"

definition sorted_entry :: "route_entry \<Rightarrow> route_entry" where
  "sorted_entry e = e\<lparr>re_ClaimHeaders := sort_key fst (re_ClaimHeaders e)\<rparr>"

lemma dec_smap_strings:
  assumes "distinct (map fst m)"
  shows "dec_smap (JObj (map (\<lambda>hc. (fst hc, JStr (snd hc))) m)) [] = Some m"
proof -
  have "those (map (\<lambda>kv. dec_string (snd kv) []) (map (\<lambda>hc. (fst hc, JStr (snd hc))) m)) = Some (map snd m)"
    by (induction m) auto
  moreover have "fold (\<lambda>(k, v). AList.update k v) (zip (map fst m) (map snd m)) [] = m"
    using fold_update_append [of "[]" m] assms by (simp add: zip_map_fst_snd)
  ultimately show ?thesis
    by (simp add: comp_def)
qed

lemma dec1_entry:
  "dec1 route_entry_fields (True, ''name'', JStr s) v = Some (v\<lparr>re_Name := s\<rparr>)"
  "re_Hostnames v = [] \<Longrightarrow> dec1 route_entry_fields (xs \<noteq> [], ''hostnames'', JArr (map JStr xs)) v = Some (v\<lparr>re_Hostnames := xs\<rparr>)"
  "re_PathPrefix v = [] \<Longrightarrow> dec1 route_entry_fields (s \<noteq> [], ''pathPrefix'', JStr s) v = Some (v\<lparr>re_PathPrefix := s\<rparr>)"
  "dec1 route_entry_fields (True, ''upstream'', JStr s) v = Some (v\<lparr>re_Upstream := s\<rparr>)"
  "dec1 route_entry_fields (True, ''audience'', JStr s) v = Some (v\<lparr>re_Audience := s\<rparr>)"
  "re_Tenant v = [] \<Longrightarrow> dec1 route_entry_fields (s \<noteq> [], ''tenant'', JStr s) v = Some (v\<lparr>re_Tenant := s\<rparr>)"
  by (auto simp: dec1_def route_entry_fields_def field_of_def fld_def)

lemma dec1_entry_headers:
  assumes "re_ClaimHeaders v = []" "distinct (map fst m)"
  shows "dec1 route_entry_fields (m \<noteq> [], ''claimHeaders'', JObj (map (\<lambda>hc. (fst hc, JStr (snd hc))) (sort_key fst m))) v
       = Some (v\<lparr>re_ClaimHeaders := sort_key fst m\<rparr>)"
proof -
  have "dec_smap (JObj (map (\<lambda>hc. (fst hc, JStr (snd hc))) (sort_key fst m))) [] = Some (sort_key fst m)"
    by (rule dec_smap_strings) (rule distinct_map_sort_key [OF assms(2)])
  with assms show ?thesis
    by (simp add: dec1_def route_entry_fields_def field_of_def fld_def del: dec_smap.simps(2))
qed

lemma entry_roundtrip:
  "entry_ok e \<Longrightarrow> dec_members False route_entry_fields (written (entry_members e)) zero_route_entry = Some (sorted_entry e)"
  by (simp add: entry_members_def dec_members_written dec_members_written_Nil dec1_entry dec1_entry_headers zero_route_entry_def entry_ok_def
      sorted_entry_def)

lemma entries_roundtrip':
  "list_all entry_ok es \<Longrightarrow>
     dec_list (dec_struct False route_entry_fields) zero_route_entry (map (\<lambda>e. JObj (written (entry_members e))) es) []
       = Some (map sorted_entry es)"
  by (induction es) (auto simp: entry_roundtrip)

lemma file_doc_dec:
  assumes "file_ok f"
  shows "dec_struct False file_fields (file_doc f) zero_file = Some (f\<lparr>rf_Routes := map sorted_entry (rf_Routes f)\<rparr>)"
  using assms entries_roundtrip' [of "rf_Routes f"]
  by (auto simp: file_ok_def file_doc_def file_fields_def zero_file_def field_of_def fld_def)

lemma entry_doc_wf: "entry_ok e \<Longrightarrow> wf_json 4 (JObj (written (entry_members e)))"
proof -
  assume e: "entry_ok e"
  have ascii: "valid_utf8 k" if "k \<in> set [''name'', ''hostnames'', ''pathPrefix'', ''upstream'', ''audience'', ''tenant'', ''claimHeaders'']" for k
    using that by (auto simp: valid_utf8_ascii bv_def)
  have "valid_utf8 (fst (snd x))" if "x \<in> set (entry_members e)" for x
    by (rule ascii) (use that in \<open>auto simp: entry_members_def\<close>)
  moreover have "wf_json 3 (snd (snd x))" if "x \<in> set (entry_members e)" for x
    using that e by (auto simp: entry_ok_def entry_members_def list_all_iff)
  ultimately show ?thesis
    by (auto simp: written_def list_all_iff)
qed


lemma wf_json_mono: "wf_json d j \<Longrightarrow> d \<le> d' \<Longrightarrow> wf_json d' j"
proof (induction d j arbitrary: d' rule: wf_json.induct)
  case (5 d xs)
  then have "wf_json (d' - 1) x" if "x \<in> set xs" for x
    using that by (auto simp: list_all_iff intro!: "5.IH" diff_le_mono)
  with 5 show ?case
    by (auto simp: list_all_iff)
next
  case (6 d kvs)
  then have "wf_json (d' - 1) (snd kv)" if "kv \<in> set kvs" for kv
    using that by (auto simp: list_all_iff intro!: "6.IH" [of kv] diff_le_mono)
  with 6 show ?case
    by (auto simp: list_all_iff)
qed auto

lemma file_doc_wf: "file_ok f \<Longrightarrow> wf_json max_depth (file_doc f)"
proof -
  assume f: "file_ok f"
  have "wf_json 9998 (JObj (written (entry_members e)))" if "e \<in> set (rf_Routes f)" for e
    by (rule wf_json_mono [OF entry_doc_wf]) (use that f in \<open>auto simp: file_ok_def list_all_iff\<close>)
  then show ?thesis
    using f by (auto simp: file_doc_def file_ok_def max_depth_def list_all_iff valid_utf8_ascii bv_def simp del: wf_json.simps(6))
      (auto simp: list_all_iff valid_utf8_ascii bv_def)
qed

lemma file_roundtrip:
  assumes "file_ok f"
  shows "decode_file (file_bytes f) = Some (f\<lparr>rf_Routes := map sorted_entry (rf_Routes f)\<rparr>)"
proof -
  have "all_ws [CHR 0x0A]" "num_stop [CHR 0x0A]"
    by code_simp+
  then have "json_Parse (file_bytes f) = Some (file_doc f)"
    unfolding file_bytes_def by (rule json_Parse_MarshalIndent [OF file_doc_wf [OF assms]])
  then show ?thesis
    by (simp add: decode_file_def file_doc_dec [OF assms])
qed

definition sorted_route :: "route \<Rightarrow> route" where
  "sorted_route r = r\<lparr>rt_ClaimHeaders := sort_key fst (rt_ClaimHeaders r)\<rparr>"

lemma route_Valid_sorted [simp]: "route_Valid (sorted_route r) = route_Valid r"
  by (simp add: route_Valid_def sorted_route_def)

lemma route_of_entry:
  "entry_of r = Some e \<Longrightarrow> \<exists>u. rt_Upstream r = Some u \<and> re_Upstream (sorted_entry e) = u
     \<and> route_of (sorted_entry e) u = sorted_route r"
  by (cases r) (auto simp: entry_of_def route_of_def sorted_entry_def sorted_route_def)

lemma parse_entries_rendered:
  assumes "those (map entry_of routes) = Some es"
    and "\<And>r u. r \<in> set routes \<Longrightarrow> rt_Upstream r = Some u \<Longrightarrow> \<exists>h. h \<noteq> [] \<and> up u = Some (u, h)"
    and "\<And>r. r \<in> set routes \<Longrightarrow> route_Valid r = None"
  shows "parse_entries up (map sorted_entry es) = Inr (map sorted_route routes)"
  using assms
proof (induction routes arbitrary: es)
  case (Cons r routes)
  then obtain e es' where e: "entry_of r = Some e" "those (map entry_of routes) = Some es'" "es = e # es'"
    by (auto split: option.splits)
  obtain u where u: "rt_Upstream r = Some u" "re_Upstream (sorted_entry e) = u"
      "route_of (sorted_entry e) u = sorted_route r"
    using route_of_entry [OF e(1)] by blast
  obtain h where "h \<noteq> []" "up u = Some (u, h)"
    using Cons.prems(2) [of r u] u(1) by auto
  moreover have "parse_entries up (map sorted_entry es') = Inr (map sorted_route routes)"
    by (rule Cons.IH [OF e(2)]) (rule Cons.prems(2,3); simp)+
  ultimately show ?case
    using u e(3) Cons.prems(3) [of r] by simp
qed simp

lemma ReadRouteFile_rendered:
  assumes "Render gw n routes = Inr f" and "file_ok f"
    and "\<And>r u. r \<in> set routes \<Longrightarrow> rt_Upstream r = Some u \<Longrightarrow> \<exists>h. h \<noteq> [] \<and> up u = Some (u, h)"
    and "\<And>r. r \<in> set routes \<Longrightarrow> route_Valid r = None"
  shows "\<exists>f'. ReadRouteFile up (Inr (file_bytes f))
        = Inr (f', map (\<lambda>r. r\<lparr>rt_ClaimHeaders := sort_key fst (rt_ClaimHeaders r)\<rparr>) routes)
    \<and> rf_Revision f' = n \<and> rf_Gateway f' = gw"
proof -
  obtain es where es: "those (map entry_of routes) = Some es"
    and f: "f = \<lparr>rf_Revision = n, rf_Gateway = gw, rf_Routes = es\<rparr>"
    using assms(1) by (auto simp: Render_def split: option.splits)
  show ?thesis
    using file_roundtrip [OF assms(2)] parse_entries_rendered [OF es assms(3,4)]
    by (simp add: ReadRouteFile_def file_Parse_def f sorted_route_def)
qed

lemma WriteRouteFile_path:
  "fs' \<in> set (fst (WriteRouteFile path f mkdir wrote rename fs)) \<Longrightarrow>
     (fs' path = fs path \<or> fs' path = Some (file_bytes f)) \<and> (\<forall>p. p \<noteq> path \<and> p \<noteq> path @ ''.tmp'' \<longrightarrow> fs' p = fs p)"
  by (auto simp: WriteRouteFile_def tmp_path_def Let_def split: option.splits if_splits)

lemma WriteRouteFile_last:
  "fst (WriteRouteFile path f mkdir wrote rename fs) \<noteq> []
   \<and> last (fst (WriteRouteFile path f mkdir wrote rename fs)) path
       = (if snd (WriteRouteFile path f mkdir wrote rename fs) = None then Some (file_bytes f) else fs path)"
  by (auto simp: WriteRouteFile_def tmp_path_def Let_def last_map last_append split: option.splits)

section \<open>Properties\<close>

text \<open>
  C33 (the table survives the file).  What the controller renders and writes, the data plane
  reads back: the same routes in the same order, with the same revision and gateway (only the
  claim headers of a route come in the order of their names), for routes that are valid, hold
  UTF-8 text and whose upstreams parse to themselves.
\<close>

theorem route_table_roundtrip:
  assumes "Render gw n routes = Inr f" and "file_ok f"
    and "\<And>r u. r \<in> set routes \<Longrightarrow> rt_Upstream r = Some u \<Longrightarrow> \<exists>h. h \<noteq> [] \<and> up u = Some (u, h)"
    and "\<And>r. r \<in> set routes \<Longrightarrow> route_Valid r = None"
  shows "\<exists>f'. ReadRouteFile up (Inr (file_bytes f))
        = Inr (f', map (\<lambda>r. r\<lparr>rt_ClaimHeaders := sort_key fst (rt_ClaimHeaders r)\<rparr>) routes)
    \<and> rf_Revision f' = n \<and> rf_Gateway f' = gw"
  using ReadRouteFile_rendered [OF assms] .

text \<open>
  The file is replaced atomically.  At every moment of a write, wherever it fails, the file
  is either the one that was there or the whole of the new one; after an error it is the old
  one, and without one the new one.  No other file but the temporary one changes.
\<close>

theorem write_is_atomic:
  "case WriteRouteFile path f mkdir wrote rename fs of (states, err) \<Rightarrow>
     list_all (\<lambda>fs'. (fs' path = fs path \<or> fs' path = Some (file_bytes f))
        \<and> (\<forall>p. p \<noteq> path \<and> p \<noteq> path @ ''.tmp'' \<longrightarrow> fs' p = fs p)) states
     \<and> states \<noteq> [] \<and> last states path = (if err = None then Some (file_bytes f) else fs path)"
  using WriteRouteFile_path [of _ path f mkdir wrote rename fs] WriteRouteFile_last [of path f mkdir wrote rename fs]
  by (auto simp: list_all_iff split: prod.splits)

section \<open>The properties on a concrete table\<close>

definition toy_url :: url_parse where
  "toy_url s = (case CutPrefix s ''http://'' of None \<Rightarrow> None | Some h \<Rightarrow> Some (s, h))"

definition example_table :: "route list" where
  "example_table =
     [\<lparr>rt_Name = ''ns/app#0.0'', rt_Hostnames = [''app.ts.net''], rt_PathPrefix = ''/api'', rt_Upstream = Some ''http://app.ns.svc:80'',
       rt_Audience = ''app.ns'', rt_Tenant = [], rt_ClaimHeaders = [(''X-User'', ''email''), (''X-Roles'', ''roles'')]\<rparr>]"

theorem route_table_roundtrip_witness:
  "\<exists>f f'. Render ''gw'' 7 example_table = Inr f
    \<and> ReadRouteFile toy_url (Inr (file_bytes f))
        = Inr (f', map (\<lambda>r. r\<lparr>rt_ClaimHeaders := [(''X-Roles'', ''roles''), (''X-User'', ''email'')]\<rparr>) example_table)
    \<and> rf_Revision f' = 7"
proof -
  obtain f where f: "Render ''gw'' 7 example_table = Inr f" "file_ok f"
    by (auto simp: Render_def example_table_def entry_of_def file_ok_def entry_ok_def in_s64_def valid_utf8_ascii bv_def)
  have "\<not> blank ''app.ns''"
    by code_simp
  then have "route_Valid r = None" if "r \<in> set example_table" for r
    using that by (auto simp: example_table_def route_Valid_def HasPrefix_def CountByte_def ContainsByte_def)
  moreover have "\<exists>h. h \<noteq> [] \<and> toy_url u = Some (u, h)" if "r \<in> set example_table" "rt_Upstream r = Some u" for r u
    using that by (auto simp: example_table_def toy_url_def CutPrefix_def HasPrefix_def)
  ultimately show ?thesis
    using route_table_roundtrip [OF f, of toy_url] f(1) by (fastforce simp: example_table_def)
qed

end
