(* ===== verification/GatewayRoutes.thy ===== *)
theory GatewayRoutes
  imports RouteFile GoTime "HOL-Library.Multiset"
begin

text \<open>
  \<open>gateway/routes.go\<close>: the translation of the HTTPRoutes attached to a Gateway into a route
  table.  The objects of the Gateway API are records of the fields the code reads; a pointer
  field is an option.  \<open>url.Parse\<close> is the parameter \<open>up\<close> (its \<open>String\<close> and \<open>Host\<close>) and \<open>ul\<close>
  is \<open>strings.ToLower\<close> on strings that are not ASCII; \<open>q\<close> is the \<open>%q\<close> verb.  Of an error of
  \<open>url.Parse\<close> the model keeps no text.
\<close>

datatype from_namespaces = FromAll | FromSame | FromOther string

datatype path_type = MatchPathPrefix | MatchExact | MatchOther string

record gw_listener =
  ls_Hostname :: "string option"
  ls_From :: "from_namespaces option"

record gw_gateway =
  gw_Namespace :: string
  gw_Name :: string
  gw_Generation :: int
  gw_Annotations :: "string \<rightharpoonup> string"
  gw_Listeners :: "gw_listener list"

record parent_ref =
  pa_Group :: "string option"
  pa_Kind :: "string option"
  pa_Namespace :: "string option"
  pa_Name :: string

record path_match =
  pm_Type :: "path_type option"
  pm_Value :: "string option"

record rule_match =
  rm_Path :: "path_match option"
  rm_Headers :: "(string \<times> string) list"
  rm_Method :: "string option"

record backend_ref =
  br_Kind :: "string option"
  br_Namespace :: "string option"
  br_Name :: string
  br_Port :: "int option"
  br_Filters :: "string list"

record http_rule =
  ru_Matches :: "rule_match list"
  ru_BackendRefs :: "backend_ref list"
  ru_Filters :: "string list"

record http_route =
  ro_Namespace :: string
  ro_Name :: string
  ro_Generation :: int
  ro_Annotations :: "string \<rightharpoonup> string"
  ro_ParentRefs :: "parent_ref list"
  ro_Hostnames :: "string list"
  ro_Rules :: "http_rule list"

record service =
  sv_Namespace :: string
  sv_Name :: string
  sv_Ports :: "int list"

datatype route_reason =
  Accepted | NoMatchingListenerHostname | BackendNotFound | UnsupportedValue | InvalidKind | RefNotPermitted

record route_error =
  er_Route :: string
  er_Reason :: route_reason
  er_Detail :: string

definition AudienceAnnotation :: string where "AudienceAnnotation = ''tsjwt.dev/audience''"
definition AllowedAudiencesAnnotation :: string where "AllowedAudiencesAnnotation = ''tsjwt.dev/allowed-audiences''"
definition TenantAnnotation :: string where "TenantAnnotation = ''tsjwt.dev/tenant''"
definition ClaimHeadersAnnotation :: string where "ClaimHeadersAnnotation = ''tsjwt.dev/claim-headers''"

text \<open>Reading a key of a map of strings: the zero value when it is not there.\<close>

definition annotation :: "(string \<rightharpoonup> string) \<Rightarrow> string \<Rightarrow> string" where
  "annotation m k = (case m k of None \<Rightarrow> [] | Some v \<Rightarrow> v)"

section \<open>Listeners and hostnames\<close>

definition listenerAdmits :: "gw_listener \<Rightarrow> string \<Rightarrow> string \<Rightarrow> bool" where
  "listenerAdmits l gwNamespace routeNS =
     (case (case ls_From l of None \<Rightarrow> FromSame | Some f \<Rightarrow> f) of
        FromAll \<Rightarrow> True
      | FromSame \<Rightarrow> routeNS = gwNamespace
      | FromOther _ \<Rightarrow> False)"

definition admittingListeners :: "gw_gateway \<Rightarrow> string \<Rightarrow> gw_listener list" where
  "admittingListeners gw routeNS = filter (\<lambda>l. listenerAdmits l (gw_Namespace gw) routeNS) (gw_Listeners gw)"

fun attached_loop :: "gw_gateway \<Rightarrow> http_route \<Rightarrow> parent_ref list \<Rightarrow> bool" where
  "attached_loop gw r [] = False"
| "attached_loop gw r (p # ps) =
     (if pa_Kind p \<noteq> None \<and> pa_Kind p \<noteq> Some ''Gateway'' then attached_loop gw r ps
      else
        (let ns = (case pa_Namespace p of None \<Rightarrow> ro_Namespace r | Some n \<Rightarrow> n)
         in if pa_Name p = gw_Name gw \<and> ns = gw_Namespace gw
            then admittingListeners gw (ro_Namespace r) \<noteq> []
            else attached_loop gw r ps))"

definition attachedTo :: "gw_gateway \<Rightarrow> http_route \<Rightarrow> bool" where
  "attachedTo gw r = attached_loop gw r (ro_ParentRefs r)"

definition intersectHostname :: "(string \<Rightarrow> string) \<Rightarrow> string \<Rightarrow> string \<Rightarrow> string option" where
  "intersectHostname ul a0 b0 =
     (let a = ToLower ul a0; b = ToLower ul b0;
          aw = HasPrefix a ''*.''; bw = HasPrefix b ''*.''
      in if \<not> aw \<and> \<not> bw then (if a = b then Some a else None)
         else if aw \<and> \<not> bw then (if HasSuffix b (TrimPrefix a ''*'') then Some b else None)
         else if \<not> aw \<and> bw then (if HasSuffix a (TrimPrefix b ''*'') then Some a else None)
         else if a = b then Some a
         else if HasSuffix (TrimPrefix a ''*'') (TrimPrefix b ''*'') then Some a
         else if HasSuffix (TrimPrefix b ''*'') (TrimPrefix a ''*'') then Some b
         else None)"

definition listener_names :: "gw_gateway \<Rightarrow> http_route \<Rightarrow> string list" where
  "listener_names gw r =
     concat (map (\<lambda>l. case ls_Hostname l of None \<Rightarrow> [] | Some h \<Rightarrow> if h = [] then [] else [h])
       (admittingListeners gw (ro_Namespace r)))"

definition hostnamesFor :: "(string \<Rightarrow> string) \<Rightarrow> gw_gateway \<Rightarrow> http_route \<Rightarrow> string list \<times> bool" where
  "hostnamesFor ul gw r =
     (let listener = listener_names gw r; names = ro_Hostnames r
      in if listener = [] \<and> names = [] then ([], True)
         else if listener = [] then (names, True)
         else if names = [] then (listener, True)
         else
           (let out = dedup (concat (map (\<lambda>rh. List.map_filter (intersectHostname ul rh) listener) names))
            in (out, out \<noteq> [])))"

section \<open>Annotations\<close>

definition parseAllowedAudiences :: "string \<Rightarrow> string list" where
  "parseAllowedAudiences v = filter (\<lambda>a. a \<noteq> []) (map TrimSpace (Split v CHR '',''))"

definition known_claims :: "string list" where
  "known_claims = [''sub'', ''subject'', ''email'', ''name'', ''node'', ''tenant'', ''tenants'', ''roles'', ''groups'']"

fun claim_headers_loop :: "(string \<Rightarrow> string) \<Rightarrow> string list \<Rightarrow> (string \<times> string) list \<Rightarrow> (string \<times> string) list result" where
  "claim_headers_loop q [] out = Inr out"
| "claim_headers_loop q (p # ps) out =
     (let pair = TrimSpace p
      in if pair = [] then claim_headers_loop q ps out
         else
           (case Cut pair CHR ''='' of
              None \<Rightarrow> Inl (Error Plain (''claim-headers: '' @ q pair @ '' is not header=claim''))
            | Some (h, c) \<Rightarrow>
                (let header = TrimSpace h; claim = TrimSpace c
                 in if header = [] \<or> claim = [] then Inl (Error Plain (''claim-headers: '' @ q pair @ '' is not header=claim''))
                    else if claim \<notin> set known_claims
                    then Inl (Error Plain (''claim-headers: '' @ q claim @ '' is not a claim that can be written to a header''))
                    else claim_headers_loop q ps (AList.update header claim out))))"

definition parseClaimHeaders :: "(string \<Rightarrow> string) \<Rightarrow> string \<Rightarrow> (string \<times> string) list result" where
  "parseClaimHeaders q v = (if blank v then Inr [] else claim_headers_loop q (Split v CHR '','') [])"

section \<open>Rules\<close>

fun pathPrefixes_loop :: "rule_match list \<Rightarrow> string list" where
  "pathPrefixes_loop [] = []"
| "pathPrefixes_loop (m # ms) =
     (case Option.bind (rm_Path m) (\<lambda>p. map_option (Pair (pm_Type p)) (pm_Value p)) of
        None \<Rightarrow> [] # pathPrefixes_loop ms
      | Some (t, v) \<Rightarrow>
          if t = None \<or> t = Some MatchPathPrefix
          then (if v = ''/'' then [] else v) # pathPrefixes_loop ms
          else pathPrefixes_loop ms)"

definition pathPrefixes :: "http_rule \<Rightarrow> string list" where
  "pathPrefixes rule = (if ru_Matches rule = [] then [[]] else pathPrefixes_loop (ru_Matches rule))"

definition servicePortExists :: "service \<Rightarrow> int \<Rightarrow> bool" where
  "servicePortExists s port = list_ex (\<lambda>p. p = port) (sv_Ports s)"

definition service_key :: "string \<Rightarrow> string \<Rightarrow> string" where
  "service_key ns name = ns @ ''/'' @ name"

definition service_map :: "service list \<Rightarrow> string \<rightharpoonup> service" where
  "service_map services = fold (\<lambda>s m. m(service_key (sv_Namespace s) (sv_Name s) \<mapsto> s)) services Map.empty"

definition derived_audience :: "service \<Rightarrow> string" where
  "derived_audience s = sv_Name s @ ''.'' @ sv_Namespace s"

definition service_url :: "service \<Rightarrow> int \<Rightarrow> string" where
  "service_url s port = ''http://'' @ sv_Name s @ ''.'' @ sv_Namespace s @ ''.svc:'' @ Itoa port"

definition rule_name :: "http_route \<Rightarrow> nat \<Rightarrow> string" where
  "rule_name r ri = ro_Namespace r @ ''/'' @ ro_Name r @ ''#'' @ Itoa (int ri)"

definition build_routes :: "string \<Rightarrow> string list \<Rightarrow> string \<Rightarrow> string \<Rightarrow> string \<Rightarrow> (string \<times> string) list \<Rightarrow> string list
    \<Rightarrow> route list" where
  "build_routes name hostnames upstream audience ten hs prefixes =
     map (\<lambda>(pi, prefix). \<lparr>rt_Name = name @ ''.'' @ Itoa (int pi), rt_Hostnames = hostnames, rt_PathPrefix = prefix,
            rt_Upstream = Some upstream, rt_Audience = audience, rt_Tenant = ten, rt_ClaimHeaders = hs\<rparr>)
       (List.enumerate 0 prefixes)"

text \<open>The backend of a rule: its Service and port, or why it has none.\<close>

definition rule_backend :: "(string \<Rightarrow> string) \<Rightarrow> http_route \<Rightarrow> http_rule \<Rightarrow> (string \<rightharpoonup> service) \<Rightarrow> (route_reason \<times> string) + (service \<times> int)" where
  "rule_backend q r rule svc =
     (case ru_BackendRefs rule of
        [] \<Rightarrow> Inl (BackendNotFound, ''the rule names no backend'')
      | ref # others \<Rightarrow>
          if others \<noteq> [] then Inl (UnsupportedValue, ''more than one backendRef is not supported: the audience must be decided by the backend, so a request cannot be split between two'')
          else if br_Kind ref \<noteq> None \<and> br_Kind ref \<noteq> Some ''Service'' then Inl (InvalidKind, ''backend kind '' @ q (the (br_Kind ref)) @ '' is not supported, only Service'')
          else if br_Namespace ref \<noteq> None \<and> br_Namespace ref \<noteq> Some (ro_Namespace r)
          then Inl (RefNotPermitted, ''cross-namespace backendRef to namespace '' @ q (the (br_Namespace ref))
            @ '' is not permitted: a ReferenceGrant is required and this controller does not evaluate one'')
          else
            (case svc (service_key (ro_Namespace r) (br_Name ref)) of
               None \<Rightarrow> Inl (BackendNotFound, ''Service '' @ service_key (ro_Namespace r) (br_Name ref) @ '' does not exist'')
             | Some s \<Rightarrow>
                 (case br_Port ref of
                    None \<Rightarrow> Inl (UnsupportedValue, ''the backendRef names no port'')
                  | Some port \<Rightarrow>
                      if \<not> servicePortExists s port then Inl (BackendNotFound, ''Service '' @ service_key (ro_Namespace r) (br_Name ref) @ '' has no port '' @ Itoa port)
                      else Inr (s, port))))"

text \<open>The audience: the backend's own, or one the Gateway allows.\<close>

definition rule_audience :: "http_route \<Rightarrow> service \<Rightarrow> string list \<Rightarrow> string option" where
  "rule_audience r s allowed =
     (let audience = annotation (ro_Annotations r) AudienceAnnotation
      in if audience = [] then Some (derived_audience s)
         else if audience = derived_audience s then Some audience
         else if audience \<in> set allowed then Some audience else None)"

definition translateRule :: "(string \<Rightarrow> string) \<Rightarrow> url_parse \<Rightarrow> http_route \<Rightarrow> nat \<Rightarrow> http_rule \<Rightarrow> string list \<Rightarrow> (string \<rightharpoonup> service) \<Rightarrow> string list
    \<Rightarrow> route_error + route list" where
  "translateRule q up r ri rule hostnames svc allowed =
     (let name = rule_name r ri; err = (\<lambda>reason detail. \<lparr>er_Route = name, er_Reason = reason, er_Detail = detail\<rparr>)
      in case rule_backend q r rule svc of
           Inl (reason, detail) \<Rightarrow> Inl (err reason detail)
         | Inr (s, port) \<Rightarrow>
             (case up (service_url s port) of
                None \<Rightarrow> Inl (err UnsupportedValue ''url'')
              | Some (upstream, _) \<Rightarrow>
                  (case rule_audience r s allowed of
                     None \<Rightarrow> Inl (err UnsupportedValue (''audience '' @ q (annotation (ro_Annotations r) AudienceAnnotation)
                       @ '' is not permitted: a custom audience must be listed in the Gateway'' @ [CHR 0x27] @ ''s '' @ AllowedAudiencesAnnotation
                       @ '' annotation, so a route cannot mint a token for a backend the Gateway has not authorised''))
                   | Some audience \<Rightarrow>
                       (case parseClaimHeaders q (annotation (ro_Annotations r) ClaimHeadersAnnotation) of
                          Inl e \<Rightarrow> Inl (err UnsupportedValue (err_detail e))
                        | Inr hs \<Rightarrow>
                            if ru_Filters rule \<noteq> [] then Inl (err UnsupportedValue (''filters are not implemented, and ['' @ Join (ru_Filters rule) '' ''
                              @ ''] would be silently ignored; give the service its own Gateway instead of rewriting paths onto a shared one''))
                            else if list_ex (\<lambda>br. br_Filters br \<noteq> []) (ru_BackendRefs rule)
                            then Inl (err UnsupportedValue ''backendRef filters are not implemented and would be silently ignored'')
                            else
                              (let prefixes = pathPrefixes rule
                               in if prefixes = [] then Inl (err UnsupportedValue ''no usable path match: this router matches prefixes, so an exact or regular-expression match is refused rather than widened'')
                                  else Inr (build_routes name hostnames upstream audience
                                         (annotation (ro_Annotations r) TenantAnnotation) hs prefixes))))))"

section \<open>Translate\<close>

fun translate_rules :: "(string \<Rightarrow> string) \<Rightarrow> url_parse \<Rightarrow> http_route \<Rightarrow> string list \<Rightarrow> (string \<rightharpoonup> service) \<Rightarrow> string list \<Rightarrow> nat \<Rightarrow> http_rule list
    \<Rightarrow> route list \<times> route_error list" where
  "translate_rules q up r hostnames svc allowed ri [] = ([], [])"
| "translate_rules q up r hostnames svc allowed ri (rule # rules) =
     (case translate_rules q up r hostnames svc allowed (Suc ri) rules of
        (out, errs) \<Rightarrow>
          (case translateRule q up r ri rule hostnames svc allowed of
             Inl e \<Rightarrow> (out, e # errs)
           | Inr built \<Rightarrow> (built @ out, errs)))"

definition route_key :: "http_route \<Rightarrow> string" where
  "route_key r = ro_Namespace r @ ''/'' @ ro_Name r"

definition translate_route :: "(string \<Rightarrow> string) \<Rightarrow> url_parse \<Rightarrow> (string \<Rightarrow> string) \<Rightarrow> gw_gateway \<Rightarrow> (string \<rightharpoonup> service) \<Rightarrow> string list \<Rightarrow> http_route
    \<Rightarrow> route list \<times> route_error list" where
  "translate_route q up ul gw svc allowed r =
     (if \<not> attachedTo gw r then ([], [])
      else
        (case hostnamesFor ul gw r of
           (hostnames, ok) \<Rightarrow>
             if \<not> ok
             then ([], [\<lparr>er_Route = route_key r, er_Reason = NoMatchingListenerHostname,
                         er_Detail = ''no hostname in this route overlaps a listener on the Gateway''\<rparr>])
             else translate_rules q up r hostnames svc allowed 0 (ro_Rules r)))"

definition Translate :: "(string \<Rightarrow> string) \<Rightarrow> url_parse \<Rightarrow> (string \<Rightarrow> string) \<Rightarrow> gw_gateway \<Rightarrow> http_route list \<Rightarrow> service list
    \<Rightarrow> route list \<times> route_error list" where
  "Translate q up ul gw routes services =
     (let svc = service_map services;
          allowed = parseAllowedAudiences (annotation (gw_Annotations gw) AllowedAudiencesAnnotation);
          parts = map (translate_route q up ul gw svc allowed) routes
      in (sort_key rt_Name (concat (map fst parts)), concat (map snd parts)))"

section \<open>Status conditions\<close>

record condition =
  co_Type :: string
  co_Status :: string
  co_ObservedGeneration :: int
  co_LastTransitionTime :: gotime
  co_Reason :: string
  co_Message :: string

definition reason_text :: "route_reason \<Rightarrow> string" where
  "reason_text r =
     (case r of Accepted \<Rightarrow> ''Accepted'' | NoMatchingListenerHostname \<Rightarrow> ''NoMatchingListenerHostname''
      | BackendNotFound \<Rightarrow> ''BackendNotFound'' | UnsupportedValue \<Rightarrow> ''UnsupportedValue''
      | InvalidKind \<Rightarrow> ''InvalidKind'' | RefNotPermitted \<Rightarrow> ''RefNotPermitted'')"

text \<open>\<open>now\<close> is the time of the call.\<close>

definition routeStatusCondition :: "gotime \<Rightarrow> int \<Rightarrow> bool \<Rightarrow> route_reason \<Rightarrow> string \<Rightarrow> condition" where
  "routeStatusCondition now gen accepted reason msg =
     \<lparr>co_Type = ''Accepted'', co_Status = (if accepted then ''True'' else ''False''),
      co_ObservedGeneration = gen, co_LastTransitionTime = now,
      co_Reason = reason_text reason, co_Message = msg\<rparr>"

definition routeAcceptedCondition :: "gotime \<Rightarrow> http_route \<Rightarrow> route_error list \<Rightarrow> condition" where
  "routeAcceptedCondition now r errs =
     (case find (\<lambda>e. er_Route e = route_key r \<or> HasPrefix (er_Route e) (route_key r @ ''#'')) errs of
        Some e \<Rightarrow> routeStatusCondition now (ro_Generation r) False (er_Reason e) (er_Detail e)
      | None \<Rightarrow> routeStatusCondition now (ro_Generation r) True Accepted ''accepted by tsjwt'')"

definition parentRefToGateway :: "gw_gateway \<Rightarrow> parent_ref" where
  "parentRefToGateway gw = \<lparr>pa_Group = Some ''gateway.networking.k8s.io'', pa_Kind = Some ''Gateway'', pa_Namespace = Some (gw_Namespace gw), pa_Name = gw_Name gw\<rparr>"

definition RenderFor :: "string \<Rightarrow> int \<Rightarrow> route list \<Rightarrow> route_file result" where
  "RenderFor gateway revision routes = Render gateway revision routes"


section \<open>Names and the hosts they cover\<close>

text \<open>
  The hosts a name in lower case answers for, as the router matches them: the name itself, and
  for \<open>*.suffix\<close> every host that ends in \<open>.suffix\<close>.
\<close>

definition covers :: "string \<Rightarrow> string \<Rightarrow> bool" where
  "covers p host \<longleftrightarrow>
     p = host \<or> (case CutPrefix p ''*.'' of None \<Rightarrow> False | Some suffix \<Rightarrow> HasSuffix host (CHR ''.'' # suffix))"

definition covers_any :: "(string \<Rightarrow> string) \<Rightarrow> string list \<Rightarrow> string \<Rightarrow> bool" where
  "covers_any ul ps host \<longleftrightarrow> ps = [] \<or> list_ex (\<lambda>p. covers (ToLower ul p) host) ps"

lemma suffix_linear: "HasSuffix h a \<Longrightarrow> HasSuffix h b \<Longrightarrow> HasSuffix a b \<or> HasSuffix b a"
  by (auto simp: HasSuffix_iff append_eq_append_conv2)

lemma HasSuffix_trans: "HasSuffix a b \<Longrightarrow> HasSuffix b c \<Longrightarrow> HasSuffix a c"
  by (auto simp: HasSuffix_iff)

text \<open>A wildcard covers exactly the hosts with its suffix.\<close>

lemma covers_wild:
  assumes "HasPrefix p ''*.''"
  shows "covers p host \<longleftrightarrow> HasSuffix host (TrimPrefix p ''*'')"
proof -
  obtain t where t: "p = ''*.'' @ t"
    using assms by (auto simp: HasPrefix_iff)
  have "TrimPrefix p ''*'' = CHR ''.'' # t"
    using TrimPrefix_append [of "''*''" "CHR ''.'' # t"] by (simp add: t)
  moreover have "CutPrefix p ''*.'' = Some t"
    by (simp add: t CutPrefix_Some)
  ultimately show ?thesis
    by (auto simp: covers_def t HasSuffix_iff)
qed

lemma covers_exact: "\<not> HasPrefix p ''*.'' \<Longrightarrow> covers p host \<longleftrightarrow> p = host"
  by (simp add: covers_def CutPrefix_def)

lemma intersectHostname_covers:
  "(case intersectHostname ul a b of None \<Rightarrow> False | Some c \<Rightarrow> covers c host)
     \<longleftrightarrow> covers (ToLower ul a) host \<and> covers (ToLower ul b) host"
proof -
  let ?a = "ToLower ul a" and ?b = "ToLower ul b"
  consider "\<not> HasPrefix ?a ''*.''" "\<not> HasPrefix ?b ''*.''" | "HasPrefix ?a ''*.''" "\<not> HasPrefix ?b ''*.''"
    | "\<not> HasPrefix ?a ''*.''" "HasPrefix ?b ''*.''" | "HasPrefix ?a ''*.''" "HasPrefix ?b ''*.''"
    by blast
  then show ?thesis
  proof cases
    case 4
    let ?s = "TrimPrefix ?a ''*''" and ?t = "TrimPrefix ?b ''*''"
    have "HasSuffix host ?s \<and> HasSuffix host ?t \<longleftrightarrow>
        (if ?a = ?b then HasSuffix host ?s else if HasSuffix ?s ?t then HasSuffix host ?s
         else if HasSuffix ?t ?s then HasSuffix host ?t else False)"
    proof (cases "?a = ?b \<or> HasSuffix ?s ?t \<or> HasSuffix ?t ?s")
      case True
      then show ?thesis
        by (cases "?a = ?b"; cases "HasSuffix ?s ?t") (auto intro: HasSuffix_trans)
    next
      case False
      with suffix_linear [of host ?s ?t] show ?thesis
        by auto
    qed
    with 4 show ?thesis
      by (simp add: intersectHostname_def Let_def covers_wild)
  qed (auto simp: intersectHostname_def Let_def covers_wild covers_exact)
qed

lemma intersectHostname_lower:
  "intersectHostname ul a b = Some c \<Longrightarrow> c = ToLower ul a \<or> c = ToLower ul b"
  by (auto simp: intersectHostname_def Let_def split: if_splits)

lemma ToLower_ascii_idem: "is_ascii s \<Longrightarrow> ToLower ul (ToLower ul s) = ToLower ul s"
proof -
  assume a: "is_ascii s"
  then have "is_ascii (map ascii_lower s)"
    by (auto simp: is_ascii_def list_all_iff ascii_lower_def take_bit_nat_def)
  with a show ?thesis
    by (simp add: ToLower_def ascii_upper_lower)
qed

lemma map_filter_set: "x \<in> set (List.map_filter f xs) \<longleftrightarrow> (\<exists>y \<in> set xs. f y = Some x)"
  by (auto simp: map_filter_def image_iff)

lemma hostnamesFor_covers:
  assumes "hostnamesFor ul gw r = (hs, ok)"
    and "list_all is_ascii (ro_Hostnames r)" "list_all is_ascii (listener_names gw r)"
  shows "(ok \<and> covers_any ul hs host) \<longleftrightarrow> covers_any ul (ro_Hostnames r) host \<and> covers_any ul (listener_names gw r) host"
proof (cases "listener_names gw r = [] \<or> ro_Hostnames r = []")
  case True
  with assms(1) show ?thesis
    by (auto simp: hostnamesFor_def Let_def covers_any_def split: if_splits)
next
  case False
  let ?out = "dedup (concat (map (\<lambda>rh. List.map_filter (intersectHostname ul rh) (listener_names gw r)) (ro_Hostnames r)))"
  have h: "hs = ?out" "ok \<longleftrightarrow> ?out \<noteq> []"
    using False assms(1) by (auto simp: hostnamesFor_def Let_def)
  have idem: "ToLower ul c = c" if "intersectHostname ul a b = Some c" "a \<in> set (ro_Hostnames r)" "b \<in> set (listener_names gw r)" for a b c
    using intersectHostname_lower [OF that(1)] that(2,3) assms(2,3) ToLower_ascii_idem by (auto simp: list_all_iff)
  have "(ok \<and> covers_any ul hs host) \<longleftrightarrow> (\<exists>c \<in> set ?out. covers (ToLower ul c) host)"
    unfolding h(2) unfolding h(1) by (auto simp: covers_any_def list_ex_iff)
  also have "\<dots> \<longleftrightarrow> (\<exists>a \<in> set (ro_Hostnames r). \<exists>b \<in> set (listener_names gw r).
      case intersectHostname ul a b of None \<Rightarrow> False | Some c \<Rightarrow> covers c host)"
  proof
    assume "\<exists>c \<in> set ?out. covers (ToLower ul c) host"
    then obtain a b c where "a \<in> set (ro_Hostnames r)" "b \<in> set (listener_names gw r)"
        "intersectHostname ul a b = Some c" "covers (ToLower ul c) host"
      by (auto simp: set_dedup_onto map_filter_set)
    with idem show "\<exists>a \<in> set (ro_Hostnames r). \<exists>b \<in> set (listener_names gw r).
      case intersectHostname ul a b of None \<Rightarrow> False | Some c \<Rightarrow> covers c host"
      by force
  next
    assume "\<exists>a \<in> set (ro_Hostnames r). \<exists>b \<in> set (listener_names gw r).
      case intersectHostname ul a b of None \<Rightarrow> False | Some c \<Rightarrow> covers c host"
    then obtain a b c where c: "a \<in> set (ro_Hostnames r)" "b \<in> set (listener_names gw r)"
        "intersectHostname ul a b = Some c" "covers c host"
      by (auto split: option.splits)
    then have "c \<in> set ?out"
      by (auto simp: set_dedup_onto map_filter_set)
    with c idem show "\<exists>c \<in> set ?out. covers (ToLower ul c) host"
      by force
  qed
  also have "\<dots> \<longleftrightarrow> covers_any ul (ro_Hostnames r) host \<and> covers_any ul (listener_names gw r) host"
    using False by (auto simp: intersectHostname_covers covers_any_def list_ex_iff)
  finally show ?thesis .
qed


section \<open>Where the routes of a table come from\<close>

lemma translate_rules_routes:
  "x \<in> set (fst (translate_rules q up r hs svc allowed ri rules)) \<longleftrightarrow>
     (\<exists>n < length rules. \<exists>built. translateRule q up r (ri + n) (rules ! n) hs svc allowed = Inr built \<and> x \<in> set built)"
proof (induction rules arbitrary: ri)
  case (Cons rule rules)
  show ?case
    using Cons [of "Suc ri"]
    by (cases "translateRule q up r ri rule hs svc allowed") (auto simp: Ex_less_Suc2 split: prod.splits)
qed simp

lemma translate_rules_errors:
  "e \<in> set (snd (translate_rules q up r hs svc allowed ri rules)) \<longleftrightarrow>
     (\<exists>n < length rules. translateRule q up r (ri + n) (rules ! n) hs svc allowed = Inl e)"
proof (induction rules arbitrary: ri)
  case (Cons rule rules)
  show ?case
    using Cons [of "Suc ri"]
    by (cases "translateRule q up r ri rule hs svc allowed") (auto simp: Ex_less_Suc2 split: prod.splits)
qed simp

lemma translateRule_Inl: "translateRule q up r ri rule hs svc allowed = Inl e \<Longrightarrow> er_Route e = rule_name r ri"
  by (auto simp: translateRule_def Let_def split: sum.splits option.splits if_splits prod.splits)

lemma rule_backend_Inr:
  assumes "rule_backend q r rule svc = Inr (s, port)"
  shows "\<exists>ref. ru_BackendRefs rule = [ref] \<and> svc (service_key (ro_Namespace r) (br_Name ref)) = Some s
    \<and> br_Port ref = Some port \<and> port \<in> set (sv_Ports s)"
  using assms
  by (auto simp: rule_backend_def servicePortExists_def list_ex_iff split: list.splits option.splits if_splits)

lemma translateRule_Inr:
  assumes "translateRule q up r ri rule hs svc allowed = Inr built"
  obtains ref s port u host audience chs where "ru_BackendRefs rule = [ref]"
    "svc (service_key (ro_Namespace r) (br_Name ref)) = Some s" "br_Port ref = Some port" "port \<in> set (sv_Ports s)"
    "up (service_url s port) = Some (u, host)" "rule_audience r s allowed = Some audience"
    "parseClaimHeaders q (annotation (ro_Annotations r) ClaimHeadersAnnotation) = Inr chs"
    "ru_Filters rule = []" "pathPrefixes rule \<noteq> []"
    "built = build_routes (rule_name r ri) hs u audience (annotation (ro_Annotations r) TenantAnnotation) chs (pathPrefixes rule)"
proof -
  obtain s port u host audience chs where t: "rule_backend q r rule svc = Inr (s, port)"
    "up (service_url s port) = Some (u, host)" "rule_audience r s allowed = Some audience"
    "parseClaimHeaders q (annotation (ro_Annotations r) ClaimHeadersAnnotation) = Inr chs"
    "ru_Filters rule = []" "pathPrefixes rule \<noteq> []"
    "built = build_routes (rule_name r ri) hs u audience (annotation (ro_Annotations r) TenantAnnotation) chs (pathPrefixes rule)"
    using assms by (auto simp: translateRule_def Let_def split: sum.splits option.splits if_splits prod.splits)
  with rule_backend_Inr [OF t(1)] that show thesis
    by blast
qed

lemma build_routes_set:
  "x \<in> set (build_routes name hs u aud ten chs ps) \<longleftrightarrow>
     (\<exists>n < length ps. x = \<lparr>rt_Name = name @ ''.'' @ Itoa (int n), rt_Hostnames = hs, rt_PathPrefix = ps ! n,
        rt_Upstream = Some u, rt_Audience = aud, rt_Tenant = ten, rt_ClaimHeaders = chs\<rparr>)"
proof -
  have "set (List.enumerate 0 ps) = (\<lambda>n. (n, ps ! n)) ` {..<length ps}"
    by (auto simp: in_set_enumerate_eq image_iff)
  then show ?thesis
    by (auto simp: build_routes_def image_image)
qed

lemma service_map_Some:
  "service_map services k = Some s \<Longrightarrow> s \<in> set services \<and> k = service_key (sv_Namespace s) (sv_Name s)"
proof -
  have "fold (\<lambda>s m. m(service_key (sv_Namespace s) (sv_Name s) \<mapsto> s)) ss m k = Some s \<Longrightarrow>
      (s \<in> set ss \<and> k = service_key (sv_Namespace s) (sv_Name s)) \<or> m k = Some s" for ss m
    by (induction ss arbitrary: m) (fastforce split: if_splits)+
  then show "service_map services k = Some s \<Longrightarrow> s \<in> set services \<and> k = service_key (sv_Namespace s) (sv_Name s)"
    by (fastforce simp: service_map_def)
qed

text \<open>
  The names the API server admits: a namespace and a Service have a DNS label, an HTTPRoute a DNS
  subdomain, which may have dots.
\<close>

definition dns_label :: "string \<Rightarrow> bool" where
  "dns_label n \<longleftrightarrow> n \<noteq> [] \<and> list_all (\<lambda>c. c \<in> set ''abcdefghijklmnopqrstuvwxyz0123456789-'') n"

definition dns_subdomain :: "string \<Rightarrow> bool" where
  "dns_subdomain n \<longleftrightarrow> n \<noteq> [] \<and> list_all (\<lambda>c. c \<in> set ''abcdefghijklmnopqrstuvwxyz0123456789-.'') n"

definition route_named :: "http_route \<Rightarrow> bool" where
  "route_named r \<longleftrightarrow> dns_label (ro_Namespace r) \<and> dns_subdomain (ro_Name r)"

definition service_named :: "service \<Rightarrow> bool" where
  "service_named s \<longleftrightarrow> dns_label (sv_Namespace s) \<and> dns_label (sv_Name s)"

lemma list_all_avoids: "list_all (\<lambda>c. c \<in> S) n \<Longrightarrow> x \<notin> S \<Longrightarrow> x \<notin> set n"
  by (auto simp: list_all_iff)

lemma dns_label_chars:
  assumes "dns_label n"
  shows "CHR ''/'' \<notin> set n" "CHR ''.'' \<notin> set n" "CHR ''#'' \<notin> set n"
  using assms [unfolded dns_label_def, THEN conjunct2] by (rule list_all_avoids, simp)+

lemma dns_subdomain_chars:
  assumes "dns_subdomain n"
  shows "CHR ''#'' \<notin> set n"
  using assms [unfolded dns_subdomain_def, THEN conjunct2] by (rule list_all_avoids) simp

lemma sep_inj: "(c :: char) \<notin> set a \<Longrightarrow> c \<notin> set a' \<Longrightarrow> a @ c # b = a' @ c # b' \<longleftrightarrow> a = a' \<and> b = b'"
  by (auto simp: append_eq_Cons_conv Cons_eq_append_conv append_eq_append_conv2)

lemma service_key_inj:
  "dns_label a \<Longrightarrow> dns_label a' \<Longrightarrow> service_key a b = service_key a' b' \<longleftrightarrow> a = a' \<and> b = b'"
  using sep_inj [of "CHR ''/''" a a' b b'] dns_label_chars(1) by (simp add: service_key_def)

lemma derived_audience_inj:
  "dns_label (sv_Name s) \<Longrightarrow> dns_label (sv_Name s') \<Longrightarrow>
     derived_audience s = derived_audience s' \<longleftrightarrow> sv_Name s = sv_Name s' \<and> sv_Namespace s = sv_Namespace s'"
  using sep_inj [of "CHR ''.''" "sv_Name s" "sv_Name s'" "sv_Namespace s" "sv_Namespace s'"] dns_label_chars(2)
  by (simp add: derived_audience_def)

lemma rule_audience_Some:
  "rule_audience r s allowed = Some a \<Longrightarrow> a = derived_audience s \<or> a \<in> set allowed"
  by (auto simp: rule_audience_def Let_def split: if_splits)

lemma attached_admitted: "attachedTo gw r \<Longrightarrow> \<exists>l \<in> set (gw_Listeners gw). listenerAdmits l (gw_Namespace gw) (ro_Namespace r)"
proof -
  have "attached_loop gw r ps \<Longrightarrow> admittingListeners gw (ro_Namespace r) \<noteq> []" for ps
    by (induction ps) (auto simp: Let_def split: if_splits)
  then show "attachedTo gw r \<Longrightarrow> \<exists>l \<in> set (gw_Listeners gw). listenerAdmits l (gw_Namespace gw) (ro_Namespace r)"
    by (fastforce simp: attachedTo_def admittingListeners_def filter_empty_conv)
qed

abbreviation allowed_audiences :: "gw_gateway \<Rightarrow> string list" where
  "allowed_audiences gw \<equiv> parseAllowedAudiences (annotation (gw_Annotations gw) AllowedAudiencesAnnotation)"

lemma Translate_routes:
  assumes "x \<in> set (fst (Translate q up ul gw routes services))"
  obtains r n built hs where "r \<in> set routes" "attachedTo gw r" "hostnamesFor ul gw r = (hs, True)" "n < length (ro_Rules r)"
    "translateRule q up r n (ro_Rules r ! n) hs (service_map services) (allowed_audiences gw) = Inr built" "x \<in> set built"
proof -
  obtain r where r: "r \<in> set routes"
      "x \<in> set (fst (translate_route q up ul gw (service_map services) (allowed_audiences gw) r))"
    using assms by (auto simp: Translate_def Let_def)
  then obtain hs where "attachedTo gw r" "hostnamesFor ul gw r = (hs, True)"
      "x \<in> set (fst (translate_rules q up r hs (service_map services) (allowed_audiences gw) 0 (ro_Rules r)))"
    by (auto simp: translate_route_def split: if_splits prod.splits)
  with r(1) that show thesis
    unfolding translate_rules_routes by auto
qed


lemma allowed_not_blank: "a \<in> set (parseAllowedAudiences v) \<Longrightarrow> \<not> blank a"
  by (auto simp: parseAllowedAudiences_def blank_def TrimSpace_idem)

lemma derived_not_blank: "\<not> blank (derived_audience s)"
  by (rule not_blank_char [of "CHR ''.''"]) (auto simp: derived_audience_def space_seqs_def)

text \<open>Where a route of the table comes from, and where it leads.\<close>

lemma translated_backend:
  assumes "x \<in> set (fst (Translate q up ul gw routes services))"
    and rn: "list_all (\<lambda>r. dns_label (ro_Namespace r)) routes"
    and sn: "list_all service_named services"
  shows "\<exists>r rule ref s port. r \<in> set routes \<and> attachedTo gw r
    \<and> (\<exists>l \<in> set (gw_Listeners gw). listenerAdmits l (gw_Namespace gw) (ro_Namespace r))
    \<and> rule \<in> set (ro_Rules r) \<and> ru_BackendRefs rule = [ref] \<and> ru_Filters rule = []
    \<and> hostnamesFor ul gw r = (rt_Hostnames x, True) \<and> rt_PathPrefix x \<in> set (pathPrefixes rule)
    \<and> s \<in> set services \<and> sv_Namespace s = ro_Namespace r \<and> sv_Name s = br_Name ref
    \<and> br_Port ref = Some port \<and> port \<in> set (sv_Ports s)
    \<and> rt_Upstream x = map_option fst (up (service_url s port))
    \<and> rt_Tenant x = annotation (ro_Annotations r) TenantAnnotation
    \<and> (rt_Audience x = derived_audience s \<or> rt_Audience x \<in> set (allowed_audiences gw))
    \<and> (\<forall>s' \<in> set services. rt_Audience x = derived_audience s' \<longrightarrow>
         (sv_Namespace s' = sv_Namespace s \<and> sv_Name s' = sv_Name s) \<or> rt_Audience x \<in> set (allowed_audiences gw))"
proof (rule Translate_routes [OF assms(1)], erule translateRule_Inr)
  fix r n built hs ref s port u host audience chs
  assume a: "r \<in> set routes" "attachedTo gw r" "x \<in> set built"
    "service_map services (service_key (ro_Namespace r) (br_Name ref)) = Some s" "port \<in> set (sv_Ports s)"
    "up (service_url s port) = Some (u, host)" "rule_audience r s (allowed_audiences gw) = Some audience"
    "built = build_routes (rule_name r n) hs u audience (annotation (ro_Annotations r) TenantAnnotation) chs
       (pathPrefixes (ro_Rules r ! n))"
    and rule: "n < length (ro_Rules r)" "hostnamesFor ul gw r = (hs, True)" "ru_BackendRefs (ro_Rules r ! n) = [ref]"
    "br_Port ref = Some port" "ru_Filters (ro_Rules r ! n) = []"
  note s = service_map_Some [OF a(4)]
  have ns: "sv_Namespace s = ro_Namespace r" "sv_Name s = br_Name ref"
    using service_key_inj [THEN iffD1, OF _ _ s [THEN conjunct2]] rn sn a(1) s by (simp_all add: list_all_iff service_named_def)
  have x: "rt_Upstream x = Some u" "rt_Audience x = audience" "rt_Tenant x = annotation (ro_Annotations r) TenantAnnotation"
      "rt_Hostnames x = hs" "rt_PathPrefix x \<in> set (pathPrefixes (ro_Rules r ! n))"
    using a(3) unfolding a(8) build_routes_set by auto
  have "rt_Audience x = derived_audience s \<or> rt_Audience x \<in> set (allowed_audiences gw)"
    using rule_audience_Some [OF a(7)] x by simp
  moreover have "(sv_Namespace s' = sv_Namespace s \<and> sv_Name s' = sv_Name s) \<or> rt_Audience x \<in> set (allowed_audiences gw)"
    if "s' \<in> set services" "rt_Audience x = derived_audience s'" for s'
    using rule_audience_Some [OF a(7)] x(2) that(2) derived_audience_inj [of s s'] sn that(1) s
    unfolding list_all_iff service_named_def by metis
  ultimately show ?thesis
    using a(1,2,5,6) rule attached_admitted [OF a(2)] s ns x
    by (intro exI [of _ r] exI [of _ "ro_Rules r ! n"] exI [of _ ref] exI [of _ s] exI [of _ port]) simp
qed

section \<open>Properties\<close>

text \<open>
  C13 (a route cannot borrow another backend).  Every route of the table comes from an HTTPRoute
  that names the Gateway and whose namespace a listener admits, from one of its rules, which has no
  filters; it answers for the hosts of the route and its listeners, under a path of the rule; it
  leads to the port and the Service the rule names, in that same namespace; its tokens name that
  Service's own audience or one the Gateway's owner allows; so a token for another Service's
  audience is minted only if the owner lists it.  Of names it takes only what the API server checks:
  a namespace is a DNS label, and so is the name of a Service.
\<close>

theorem translate_isolates_backends:
  assumes "x \<in> set (fst (Translate q up ul gw routes services))"
    and rn: "list_all (\<lambda>r. dns_label (ro_Namespace r)) routes"
    and sn: "list_all service_named services"
  shows "\<exists>r rule ref s port. r \<in> set routes \<and> attachedTo gw r
    \<and> (\<exists>l \<in> set (gw_Listeners gw). listenerAdmits l (gw_Namespace gw) (ro_Namespace r))
    \<and> rule \<in> set (ro_Rules r) \<and> ru_BackendRefs rule = [ref] \<and> ru_Filters rule = []
    \<and> hostnamesFor ul gw r = (rt_Hostnames x, True) \<and> rt_PathPrefix x \<in> set (pathPrefixes rule)
    \<and> s \<in> set services \<and> sv_Namespace s = ro_Namespace r \<and> sv_Name s = br_Name ref
    \<and> br_Port ref = Some port \<and> port \<in> set (sv_Ports s)
    \<and> rt_Upstream x = map_option fst (up (service_url s port))
    \<and> rt_Tenant x = annotation (ro_Annotations r) TenantAnnotation
    \<and> (rt_Audience x = derived_audience s \<or> rt_Audience x \<in> set (allowed_audiences gw))
    \<and> (\<forall>s' \<in> set services. rt_Audience x = derived_audience s' \<longrightarrow>
         (sv_Namespace s' = sv_Namespace s \<and> sv_Name s' = sv_Name s) \<or> rt_Audience x \<in> set (allowed_audiences gw))"
  using translated_backend [OF assms] .

text \<open>
  Hostnames.  A route answers for a host exactly when both the route's own names and the
  names of the listeners that admit it do, where a side that lists no name covers every host;
  when the two have no host in common the route is rejected.
\<close>

theorem hostnames_intersect_exactly:
  assumes "hostnamesFor ul gw r = (hs, ok)"
    and "list_all is_ascii (ro_Hostnames r)" "list_all is_ascii (listener_names gw r)"
  shows "(ok \<and> covers_any ul hs host) \<longleftrightarrow> covers_any ul (ro_Hostnames r) host \<and> covers_any ul (listener_names gw r) host"
  using hostnamesFor_covers [OF assms] .


lemma key_hash_prefix:
  assumes "CHR ''#'' \<notin> set k" "CHR ''#'' \<notin> set k'"
  shows "HasPrefix (k' @ ''#'' @ t) (k @ ''#'') \<longleftrightarrow> k = k'" "\<not> HasPrefix k' (k @ ''#'')" "k' @ ''#'' @ t \<noteq> k"
  using sep_inj [OF assms(2,1), of t] assms by (auto simp: HasPrefix_iff)

lemma plain_key: "route_named r \<Longrightarrow> CHR ''#'' \<notin> set (route_key r)"
  using dns_label_chars(3) dns_subdomain_chars by (auto simp: route_key_def route_named_def)

lemma translate_route_errors:
  "e \<in> set (snd (translate_route q up ul gw svc allowed r)) \<longleftrightarrow>
     attachedTo gw r \<and>
     (if snd (hostnamesFor ul gw r)
      then \<exists>n < length (ro_Rules r). translateRule q up r n (ro_Rules r ! n) (fst (hostnamesFor ul gw r)) svc allowed = Inl e
      else e = \<lparr>er_Route = route_key r, er_Reason = NoMatchingListenerHostname,
                er_Detail = ''no hostname in this route overlaps a listener on the Gateway''\<rparr>)"
  using translate_rules_errors [of e q up r "fst (hostnamesFor ul gw r)" svc allowed 0 "ro_Rules r"]
  by (auto simp: translate_route_def split: prod.splits)

text \<open>An error belongs to the route whose key it carries.\<close>

definition error_of :: "http_route \<Rightarrow> route_error \<Rightarrow> bool" where
  "error_of r e \<longleftrightarrow> er_Route e = route_key r \<or> HasPrefix (er_Route e) (route_key r @ ''#'')"

lemma error_of_iff:
  assumes "e \<in> set (snd (translate_route q up ul gw svc allowed r'))"
    and "CHR ''#'' \<notin> set (route_key r)" "CHR ''#'' \<notin> set (route_key r')"
  shows "error_of r e \<longleftrightarrow> route_key r = route_key r'"
proof -
  have "er_Route e = route_key r' \<or> (\<exists>t. er_Route e = route_key r' @ ''#'' @ t)"
    using assms(1) by (auto simp: translate_route_errors rule_name_def route_key_def dest!: translateRule_Inl split: if_splits)
  then show ?thesis
  proof (elim disjE exE)
    assume "er_Route e = route_key r'"
    with key_hash_prefix(2) [OF assms(2,3)] show ?thesis
      by (auto simp: error_of_def)
  next
    fix t
    assume "er_Route e = route_key r' @ ''#'' @ t"
    with key_hash_prefix(1,3) [OF assms(2,3), of t] show ?thesis
      by (simp add: error_of_def)
  qed
qed

text \<open>
  What a route's status says.  The condition written on an attached route is \<open>Accepted\<close>
  exactly when its hostnames overlap a listener and every one of its rules was translated; a
  rejection of another route does not touch it.
\<close>

theorem route_status_exact:
  assumes "r \<in> set routes" "attachedTo gw r" "distinct (map route_key routes)"
    and "list_all route_named routes"
  shows "co_Status (routeAcceptedCondition now r (snd (Translate q up ul gw routes services))) = ''True'' \<longleftrightarrow>
    snd (hostnamesFor ul gw r)
    \<and> list_all (\<lambda>n. \<exists>built. translateRule q up r n (ro_Rules r ! n) (fst (hostnamesFor ul gw r)) (service_map services)
          (allowed_audiences gw) = Inr built) [0..<length (ro_Rules r)]"
proof -
  let ?t = "translate_route q up ul gw (service_map services) (allowed_audiences gw)"
  have hash: "CHR ''#'' \<notin> set (route_key r')" if "r' \<in> set routes" for r'
    using plain_key assms(4) that by (auto simp: list_all_iff)
  have same: "r' = r" if "r' \<in> set routes" "route_key r = route_key r'" for r'
    using that assms(1,3) by (auto simp: distinct_map dest: inj_onD)
  have "co_Status (routeAcceptedCondition now r (snd (Translate q up ul gw routes services))) = ''True'' \<longleftrightarrow>
      \<not> (\<exists>e \<in> set (snd (Translate q up ul gw routes services)). error_of r e)"
    by (auto simp: routeAcceptedCondition_def routeStatusCondition_def error_of_def find_None_iff find_Some_iff
        split: option.splits)
  also have "\<dots> \<longleftrightarrow> \<not> (\<exists>r' \<in> set routes. \<exists>e \<in> set (snd (?t r')). error_of r e)"
    by (auto simp: Translate_def Let_def)
  also have "\<dots> \<longleftrightarrow> set (snd (?t r)) = {}"
    using error_of_iff [OF _ hash [OF assms(1)] hash] same assms(1) by auto
  also have "\<dots> \<longleftrightarrow> snd (hostnamesFor ul gw r)
    \<and> (\<forall>n < length (ro_Rules r). \<forall>e. translateRule q up r n (ro_Rules r ! n) (fst (hostnamesFor ul gw r)) (service_map services)
          (allowed_audiences gw) \<noteq> Inl e)"
    unfolding set_eq_iff translate_route_errors using assms(2) by auto
  also have "\<dots> \<longleftrightarrow> snd (hostnamesFor ul gw r)
    \<and> list_all (\<lambda>n. \<exists>built. translateRule q up r n (ro_Rules r ! n) (fst (hostnamesFor ul gw r)) (service_map services)
          (allowed_audiences gw) = Inr built) [0..<length (ro_Rules r)]"
  proof -
    have "(\<forall>e. v \<noteq> Inl e) \<longleftrightarrow> (\<exists>b. v = Inr b)" for v :: "route_error + route list"
      by (cases v) auto
    then show ?thesis
      by (auto simp: list_all_iff)
  qed
  finally show ?thesis .
qed


section \<open>The table loads\<close>

definition good_host :: "string \<Rightarrow> bool" where
  "good_host h \<longleftrightarrow> is_ascii h \<and> hostnames_Valid [h] = None"

lemma ascii_lower_star: "ascii_lower c = CHR ''*'' \<longleftrightarrow> c = CHR ''*''" "ascii_lower c = CHR ''.'' \<longleftrightarrow> c = CHR ''.''"
  by (auto simp: of_char_eq [symmetric] char_cases_lower is_upper_def)

lemma good_host_lower: "good_host h \<Longrightarrow> good_host (ToLower ul h)"
proof -
  assume g: "good_host h"
  then have l: "ToLower ul h = map ascii_lower h"
    by (simp add: good_host_def ToLower_def)
  have a: "is_ascii (map ascii_lower h)"
    using g by (auto simp: good_host_def is_ascii_def list_all_iff ascii_lower_def take_bit_nat_def)
  have "HasPrefix (map ascii_lower h) ''*.'' \<longleftrightarrow> HasPrefix h ''*.''"
    by (cases h; cases "tl h") (auto simp: HasPrefix_def ascii_lower_star)
  moreover have "CountByte (map ascii_lower h) CHR ''*'' = CountByte h CHR ''*''"
    by (simp add: CountByte_def filter_map comp_def ascii_lower_star)
  moreover have "ContainsByte (map ascii_lower h) CHR ''*'' \<longleftrightarrow> ContainsByte h CHR ''*''"
    by (auto simp: ContainsByte_def ascii_lower_star image_iff eq_commute [of "CHR ''*''"])
  ultimately show ?thesis
    using g a by (simp add: good_host_def l split: if_splits)
qed

lemma hostnames_Valid_all: "hostnames_Valid hs = None \<longleftrightarrow> list_all (\<lambda>h. hostnames_Valid [h] = None) hs"
  by (induction hs) auto

lemma listener_names_set: "h \<in> set (listener_names gw r) \<Longrightarrow> \<exists>l \<in> set (gw_Listeners gw). ls_Hostname l = Some h"
  by (auto simp: listener_names_def admittingListeners_def split: option.splits if_splits)

lemma hostnamesFor_good:
  assumes "hostnamesFor ul gw r = (hs, ok)" "list_all good_host (ro_Hostnames r)"
    and "\<And>l h. l \<in> set (gw_Listeners gw) \<Longrightarrow> ls_Hostname l = Some h \<Longrightarrow> good_host h"
  shows "hostnames_Valid hs = None"
proof -
  have g: "good_host h" if "h \<in> set (ro_Hostnames r) \<or> h \<in> set (listener_names gw r)" for h
    using that assms(2,3) listener_names_set by (force simp: list_all_iff)
  have "good_host h" if "h \<in> set hs" for h
  proof -
    have "h \<in> set (ro_Hostnames r) \<or> h \<in> set (listener_names gw r)
        \<or> (\<exists>a \<in> set (ro_Hostnames r). \<exists>b \<in> set (listener_names gw r). intersectHostname ul a b = Some h)"
      using that assms(1)
      by (auto simp: hostnamesFor_def Let_def set_dedup_onto map_filter_set split: if_splits)
    then show ?thesis
      using g good_host_lower intersectHostname_lower by metis
  qed
  then show ?thesis
    by (subst hostnames_Valid_all) (simp add: list_all_iff good_host_def)
qed

text \<open>The API server wants a leading slash of an exact or a prefix match; a regular expression is free.\<close>

definition prefix_match :: "path_match \<Rightarrow> bool" where
  "prefix_match pm \<longleftrightarrow> (case pm_Type pm of None \<Rightarrow> True | Some t \<Rightarrow> t = MatchPathPrefix)"

lemma pathPrefixes_set:
  "p \<in> set (pathPrefixes rule) \<Longrightarrow>
     p = [] \<or> (\<exists>m \<in> set (ru_Matches rule). \<exists>pm. rm_Path m = Some pm \<and> prefix_match pm \<and> pm_Value pm = Some p)"
proof -
  have "p \<in> set (pathPrefixes_loop ms) \<Longrightarrow> p = [] \<or> (\<exists>m \<in> set ms. \<exists>pm. rm_Path m = Some pm \<and> prefix_match pm \<and> pm_Value pm = Some p)" for ms
    by (induction ms) (auto simp: prefix_match_def split: option.splits if_splits bind_splits)
  then show "p \<in> set (pathPrefixes rule) \<Longrightarrow>
      p = [] \<or> (\<exists>m \<in> set (ru_Matches rule). \<exists>pm. rm_Path m = Some pm \<and> prefix_match pm \<and> pm_Value pm = Some p)"
    by (auto simp: pathPrefixes_def split: if_splits)
qed

lemma name_routes_named:
  "\<forall>r \<in> set rs. route_Valid r = None \<and> rt_Name r \<noteq> [] \<Longrightarrow> name_routes i rs = Inr rs"
  by (induction i rs rule: name_routes.induct) auto

lemma Translate_valid:
  assumes "\<And>r. r \<in> set routes \<Longrightarrow> list_all good_host (ro_Hostnames r)"
    and "\<And>l h. l \<in> set (gw_Listeners gw) \<Longrightarrow> ls_Hostname l = Some h \<Longrightarrow> good_host h"
    and "\<And>r rule m pm p. r \<in> set routes \<Longrightarrow> rule \<in> set (ro_Rules r) \<Longrightarrow> m \<in> set (ru_Matches rule) \<Longrightarrow>
       rm_Path m = Some pm \<Longrightarrow> prefix_match pm \<Longrightarrow> pm_Value pm = Some p \<Longrightarrow> HasPrefix p ''/''"
    and "x \<in> set (fst (Translate q up ul gw routes services))"
  shows "route_Valid x = None \<and> rt_Name x \<noteq> []"
proof (rule Translate_routes [OF assms(4)], erule translateRule_Inr)
  fix r n built hs ref s port u host audience chs
  assume a: "r \<in> set routes" "x \<in> set built" "hostnamesFor ul gw r = (hs, True)" "n < length (ro_Rules r)"
    "rule_audience r s (allowed_audiences gw) = Some audience"
    "built = build_routes (rule_name r n) hs u audience (annotation (ro_Annotations r) TenantAnnotation) chs
       (pathPrefixes (ro_Rules r ! n))"
  obtain m where m: "m < length (pathPrefixes (ro_Rules r ! n))" "rt_PathPrefix x = pathPrefixes (ro_Rules r ! n) ! m"
    and x: "rt_Upstream x = Some u" "rt_Audience x = audience" "rt_Hostnames x = hs" "rt_Name x \<noteq> []"
    using a(2) unfolding a(6) build_routes_set by auto
  have "rt_PathPrefix x = [] \<or> HasPrefix (rt_PathPrefix x) ''/''"
    using pathPrefixes_set [of "rt_PathPrefix x" "ro_Rules r ! n"] m assms(3) [OF a(1) nth_mem [OF a(4)]] by auto
  moreover have "\<not> blank audience"
    using rule_audience_Some [OF a(5)] derived_not_blank allowed_not_blank by auto
  moreover have "hostnames_Valid hs = None"
    by (rule hostnamesFor_good [OF a(3) assms(1) [OF a(1)] assms(2)])
  ultimately show ?thesis
    using x by (auto simp: route_Valid_def)
qed

text \<open>The router takes the table as it is.\<close>

lemma Translate_loads:
  assumes "\<And>r. r \<in> set routes \<Longrightarrow> list_all good_host (ro_Hostnames r)"
    and "\<And>l h. l \<in> set (gw_Listeners gw) \<Longrightarrow> ls_Hostname l = Some h \<Longrightarrow> good_host h"
    and "\<And>r rule m pm p. r \<in> set routes \<Longrightarrow> rule \<in> set (ro_Rules r) \<Longrightarrow> m \<in> set (ru_Matches rule) \<Longrightarrow>
       rm_Path m = Some pm \<Longrightarrow> prefix_match pm \<Longrightarrow> pm_Value pm = Some p \<Longrightarrow> HasPrefix p ''/''"
    and "fst (Translate q up ul gw routes services) \<noteq> []"
  shows "NewRouter (fst (Translate q up ul gw routes services)) = Inr (fst (Translate q up ul gw routes services))"
  using Translate_valid [OF assms(1-3)] assms(4) by (auto simp: NewRouter_def name_routes_named)

section \<open>The order of the objects\<close>

lemma filter_unique:
  assumes "distinct (map f xs)" "x \<in> set xs"
  shows "filter (\<lambda>y. f x = f y) xs = [x]"
  using assms by (induction xs) (auto simp: filter_empty_conv image_iff)

lemma sort_key_mset_cong:
  assumes "mset xs = mset ys" "distinct (map f ys)"
  shows "sort_key f xs = sort_key f ys"
proof (rule properties_for_sort_key)
  have d: "distinct (map f xs)"
    using assms mset_eq_imp_distinct_iff [of "map f xs" "map f ys"] by simp
  show "mset (sort_key f ys) = mset xs"
    using assms(1) by simp
  show "filter (\<lambda>x. f k = f x) (sort_key f ys) = filter (\<lambda>x. f k = f x) xs" if "k \<in> set (sort_key f ys)" for k
  proof -
    have k: "k \<in> set ys" "k \<in> set xs"
      using that assms(1) mset_eq_setD by auto
    have "distinct (map f (sort_key f ys))"
      using assms(2) by (simp add: distinct_map)
    then show ?thesis
      using filter_unique [of f "sort_key f ys" k] filter_unique [OF d k(2)] that by simp
  qed
  show "sorted (map f (sort_key f ys))"
    by simp
qed


text \<open>Names of the routes of a rule, and of an HTTPRoute.\<close>

lemma build_routes_names: "map rt_Name (build_routes name hs u aud ten chs ps) = map (\<lambda>n. name @ ''.'' @ Itoa (int n)) [0..<length ps]"
  by (rule nth_equalityI) (simp_all add: build_routes_def nth_enumerate_eq)

lemma Itoa_inj: "Itoa (int m) = Itoa (int n) \<longleftrightarrow> m = n"
  by (simp add: Itoa_def dec_digits_inj)

lemma Itoa_no_dot: "CHR ''.'' \<notin> set (Itoa (int n))"
  using dec_digits_chars [of "CHR ''.''" n] by (auto simp: Itoa_def)

lemma rule_names:
  assumes "translateRule q up r ri rule hs svc allowed = Inr built"
  shows "distinct (map rt_Name built)" "x \<in> set built \<Longrightarrow> \<exists>m. rt_Name x = rule_name r ri @ ''.'' @ Itoa (int m)"
proof -
  obtain u aud ten chs where b: "built = build_routes (rule_name r ri) hs u aud ten chs (pathPrefixes rule)"
    by (rule translateRule_Inr [OF assms]) simp
  show "distinct (map rt_Name built)"
    unfolding b build_routes_names by (auto simp: distinct_map inj_on_def Itoa_inj)
  show "x \<in> set built \<Longrightarrow> \<exists>m. rt_Name x = rule_name r ri @ ''.'' @ Itoa (int m)"
    unfolding b build_routes_set by auto
qed

lemma rules_names:
  "distinct (map rt_Name (fst (translate_rules q up r hs svc allowed ri rules)))
   \<and> (\<forall>x \<in> set (fst (translate_rules q up r hs svc allowed ri rules)).
        \<exists>n m. ri \<le> n \<and> rt_Name x = route_key r @ ''#'' @ Itoa (int n) @ ''.'' @ Itoa (int m))"
proof (induction rules arbitrary: ri)
  case (Cons rule rules)
  let ?rest = "fst (translate_rules q up r hs svc allowed (Suc ri) rules)"
  show ?case
  proof (cases "translateRule q up r ri rule hs svc allowed")
    case (Inl e)
    then have "fst (translate_rules q up r hs svc allowed ri (rule # rules)) = ?rest"
      by (simp split: prod.splits)
    with Cons [of "Suc ri"] show ?thesis
      by (metis Suc_leD)
  next
    case (Inr built)
    note b = rule_names [OF Inr]
    have name: "rule_name r ri @ t = route_key r @ ''#'' @ Itoa (int ri) @ t" for t
      by (simp add: rule_name_def route_key_def)
    have "rt_Name x \<noteq> rt_Name y" if xy: "x \<in> set built" "y \<in> set ?rest" for x y
    proof -
      obtain m n m' where "rt_Name x = route_key r @ ''#'' @ Itoa (int ri) @ ''.'' @ Itoa (int m)"
          "rt_Name y = route_key r @ ''#'' @ Itoa (int n) @ ''.'' @ Itoa (int m')" "Suc ri \<le> n"
        using b(2) [OF xy(1)] Cons [of "Suc ri"] xy(2) name by metis
      then show ?thesis
        using sep_inj [OF Itoa_no_dot Itoa_no_dot, of ri "Itoa (int m)" n "Itoa (int m')"] by (auto simp: Itoa_inj)
    qed
    then have "set (map rt_Name built) \<inter> set (map rt_Name ?rest) = {}"
      by auto
    moreover have "\<exists>n m. ri \<le> n \<and> rt_Name x = route_key r @ ''#'' @ Itoa (int n) @ ''.'' @ Itoa (int m)" if "x \<in> set built" for x
      using b(2) [OF that] name by (metis le_refl)
    moreover have "\<exists>n m. ri \<le> n \<and> rt_Name x = route_key r @ ''#'' @ Itoa (int n) @ ''.'' @ Itoa (int m)" if "x \<in> set ?rest" for x
      using Cons [of "Suc ri"] that by (meson Suc_leD)
    moreover have "fst (translate_rules q up r hs svc allowed ri (rule # rules)) = built @ ?rest"
      using Inr by (simp split: prod.splits)
    ultimately show ?thesis
      using b(1) Cons [of "Suc ri"] by auto
  qed
qed simp

lemma route_names:
  "distinct (map rt_Name (fst (translate_route q up ul gw svc allowed r)))
   \<and> (\<forall>x \<in> set (fst (translate_route q up ul gw svc allowed r)). \<exists>t. rt_Name x = route_key r @ ''#'' @ t)"
  using rules_names [of q up r "fst (hostnamesFor ul gw r)" svc allowed 0 "ro_Rules r"]
  by (auto simp: translate_route_def split: prod.splits)

lemma table_names:
  assumes "distinct (map route_key routes)" "list_all route_named routes"
  shows "distinct (map rt_Name (concat (map (\<lambda>r. fst (translate_route q up ul gw svc allowed r)) routes)))"
  using assms
proof (induction routes)
  case (Cons r routes)
  have "rt_Name x \<noteq> rt_Name y" if x: "x \<in> set (fst (translate_route q up ul gw svc allowed r))"
      and y: "r' \<in> set routes" "y \<in> set (fst (translate_route q up ul gw svc allowed r'))" for x y r'
  proof -
    obtain t t' where t: "rt_Name x = route_key r @ CHR ''#'' # t" "rt_Name y = route_key r' @ CHR ''#'' # t'"
      using route_names [of q up ul gw svc allowed r] route_names [of q up ul gw svc allowed r'] x y(2) by fastforce
    have "route_key r \<noteq> route_key r'" "CHR ''#'' \<notin> set (route_key r)" "CHR ''#'' \<notin> set (route_key r')"
      using Cons.prems y(1) plain_key by (auto simp: list_all_iff)
    with sep_inj show ?thesis
      unfolding t by blast
  qed
  then show ?case
    using Cons route_names [of q up ul gw svc allowed r] by auto
qed simp

text \<open>
  C38 (the order of the objects does not matter).  The table, and so every tie the router breaks
  by position, is the same in whatever order the API server lists the HTTPRoutes.
\<close>

theorem translate_order_irrelevant:
  assumes "mset routes = mset routes'" "distinct (map route_key routes)"
    and "list_all route_named routes"
  shows "fst (Translate q up ul gw routes services) = fst (Translate q up ul gw routes' services)"
proof -
  let ?f = "\<lambda>r. fst (translate_route q up ul gw (service_map services) (allowed_audiences gw) r)"
  have c: "mset (concat (map ?f rs)) = (\<Sum>r \<in># mset rs. mset (?f r))" for rs
    by (induction rs) auto
  have "distinct (map rt_Name (concat (map ?f routes)))"
    by (rule table_names [OF assms(2,3)])
  from sort_key_mset_cong [OF _ this, of "concat (map ?f routes')"] show ?thesis
    using assms(1) c by (simp add: Translate_def Let_def comp_def)
qed


section \<open>The properties on concrete objects\<close>

definition example_gw :: gw_gateway where
  "example_gw = \<lparr>gw_Namespace = ''ns'', gw_Name = ''gw'', gw_Generation = 3, gw_Annotations = Map.empty,
     gw_Listeners = [\<lparr>ls_Hostname = Some ''*.ts.net'', ls_From = None\<rparr>]\<rparr>"

definition example_ref :: backend_ref where
  "example_ref = \<lparr>br_Kind = None, br_Namespace = None, br_Name = ''app'', br_Port = Some 80, br_Filters = []\<rparr>"

definition example_rule :: http_rule where
  "example_rule = \<lparr>ru_Matches = [\<lparr>rm_Path = Some \<lparr>pm_Type = None, pm_Value = Some ''/api''\<rparr>, rm_Headers = [], rm_Method = None\<rparr>],
     ru_BackendRefs = [example_ref], ru_Filters = []\<rparr>"

definition example_http_route :: "string \<Rightarrow> http_route" where
  "example_http_route name = \<lparr>ro_Namespace = ''ns'', ro_Name = name, ro_Generation = 1, ro_Annotations = Map.empty,
     ro_ParentRefs = [\<lparr>pa_Group = None, pa_Kind = None, pa_Namespace = None, pa_Name = ''gw''\<rparr>], ro_Hostnames = [''App.ts.net''],
     ro_Rules = [example_rule]\<rparr>"

definition example_services :: "service list" where
  "example_services = [\<lparr>sv_Namespace = ''ns'', sv_Name = ''app'', sv_Ports = [80]\<rparr>]"

abbreviation example_translate :: "http_route list \<Rightarrow> route list \<times> route_error list" where
  "example_translate rs \<equiv> Translate id toy_url id example_gw rs example_services"

definition translated :: "string \<Rightarrow> route" where
  "translated name = \<lparr>rt_Name = name, rt_Hostnames = [''app.ts.net''], rt_PathPrefix = ''/api'',
     rt_Upstream = Some ''http://app.ns.svc:80'', rt_Audience = ''app.ns'', rt_Tenant = [], rt_ClaimHeaders = []\<rparr>"

lemma example_translated:
  "example_translate [example_http_route ''b.v2'', example_http_route ''a'']
     = ([translated ''ns/a#0.0'', translated ''ns/b.v2#0.0''], [])"
  by code_simp


abbreviation example_routes :: "http_route list" where
  "example_routes \<equiv> [example_http_route ''b.v2'', example_http_route ''a'']"

lemma example_names_plain:
  "list_all route_named example_routes"
  "list_all service_named example_services"
  "distinct (map route_key example_routes)"
  "list_all (\<lambda>r. dns_label (ro_Namespace r)) example_routes"
  by code_simp+

theorem translate_isolates_backends_witness:
  "\<exists>s \<in> set example_services. sv_Namespace s = ''ns'' \<and> rt_Audience (translated ''ns/a#0.0'') = derived_audience s"
proof -
  have x: "translated ''ns/a#0.0'' \<in> set (fst (example_translate example_routes))"
    by (simp add: example_translated)
  have n: "allowed_audiences example_gw = []"
    by code_simp
  show ?thesis
    using translate_isolates_backends [OF x example_names_plain(4,2)]
  proof (elim exE conjE)
    fix r rule ref s port
    assume r: "r \<in> set example_routes" and s: "s \<in> set example_services" "sv_Namespace s = ro_Namespace r"
      and a: "rt_Audience (translated ''ns/a#0.0'') = derived_audience s
        \<or> rt_Audience (translated ''ns/a#0.0'') \<in> set (allowed_audiences example_gw)"
    have "ro_Namespace r = ''ns''"
      using r by (auto simp: example_http_route_def)
    with s a n show ?thesis
      by (intro bexI [OF _ s(1)]) simp
  qed
qed

theorem hostnames_intersect_exactly_witness:
  "covers_any id (fst (hostnamesFor id example_gw (example_http_route ''a''))) ''app.ts.net''"
proof -
  have h: "hostnamesFor id example_gw (example_http_route ''a'') = ([''app.ts.net''], True)"
    by code_simp
  have "list_all is_ascii (ro_Hostnames (example_http_route ''a''))"
      "list_all is_ascii (listener_names example_gw (example_http_route ''a''))"
      "covers_any id (ro_Hostnames (example_http_route ''a'')) ''app.ts.net''"
      "covers_any id (listener_names example_gw (example_http_route ''a'')) ''app.ts.net''"
    by code_simp+
  with hostnames_intersect_exactly [OF h this(1,2), of "''app.ts.net''"] show ?thesis
    by (simp add: h)
qed

theorem route_status_exact_witness:
  "co_Status (routeAcceptedCondition zero_time (example_http_route ''a'') (snd (example_translate example_routes))) = ''True''"
proof -
  have "attachedTo example_gw (example_http_route ''a'')"
    by code_simp
  note s = route_status_exact [OF _ this example_names_plain(3) example_names_plain(1), of zero_time id toy_url id example_services]
  have "snd (hostnamesFor id example_gw (example_http_route ''a''))"
    by code_simp
  moreover have "ro_Rules (example_http_route ''a'') = [example_rule]"
    by (simp add: example_http_route_def)
  moreover have "(case translateRule id toy_url (example_http_route ''a'') 0 example_rule
      (fst (hostnamesFor id example_gw (example_http_route ''a''))) (service_map example_services) (allowed_audiences example_gw) of
        Inl _ \<Rightarrow> False | Inr _ \<Rightarrow> True)"
    by code_simp
  ultimately show ?thesis
    using s by (auto split: sum.splits)
qed

theorem translate_order_irrelevant_witness:
  "fst (example_translate (rev example_routes)) = [translated ''ns/a#0.0'', translated ''ns/b.v2#0.0'']"
proof -
  have "fst (example_translate example_routes) = fst (example_translate (rev example_routes))"
    by (rule translate_order_irrelevant [OF _ example_names_plain(3,1)]) simp_all
  then show ?thesis
    by (simp add: example_translated)
qed

section \<open>What the translation leaves out\<close>

text \<open>
  Of a match only the path is read: conditions on headers or on the method are not refused, and
  the route serves requests that do not meet them.
\<close>

lemma translateRule_cong:
  assumes "ru_BackendRefs a = ru_BackendRefs b" "ru_Filters a = ru_Filters b" "pathPrefixes a = pathPrefixes b"
  shows "translateRule q up r ri a names svc allowed = translateRule q up r ri b names svc allowed"
  unfolding translateRule_def rule_backend_def assms ..

lemma match_conditions_ignored:
  "translateRule q up r ri (rule\<lparr>ru_Matches := map (\<lambda>m. m\<lparr>rm_Headers := hs, rm_Method := me\<rparr>) (ru_Matches rule)\<rparr>) names svc allowed
     = translateRule q up r ri rule names svc allowed"
proof -
  have "pathPrefixes_loop (map (\<lambda>m. m\<lparr>rm_Headers := hs, rm_Method := me\<rparr>) ms) = pathPrefixes_loop ms" for ms
    by (induction ms) (auto split: option.splits)
  then show ?thesis
    by (intro translateRule_cong) (simp_all add: pathPrefixes_def)
qed

text \<open>An exact match beside a prefix match is dropped in silence; alone it is refused.\<close>

lemma exact_match_dropped:
  "pathPrefixes_loop [\<lparr>rm_Path = Some \<lparr>pm_Type = None, pm_Value = Some ''/a''\<rparr>, rm_Headers = [], rm_Method = None\<rparr>,
     \<lparr>rm_Path = Some \<lparr>pm_Type = Some MatchExact, pm_Value = Some ''/b''\<rparr>, rm_Headers = [], rm_Method = None\<rparr>] = [''/a'']"
  by simp

text \<open>
  A listener without a hostname admits every host, but beside a named one it no longer counts:
  a route for another host is rejected although that listener serves it.
\<close>

lemma nameless_listener_ignored:
  "snd (hostnamesFor id (example_gw\<lparr>gw_Listeners := [\<lparr>ls_Hostname = None, ls_From = None\<rparr>, \<lparr>ls_Hostname = Some ''*.ts.net'', ls_From = None\<rparr>]\<rparr>)
     ((example_http_route ''a'')\<lparr>ro_Hostnames := [''app.example'']\<rparr>)) = False
   \<and> snd (hostnamesFor id (example_gw\<lparr>gw_Listeners := [\<lparr>ls_Hostname = None, ls_From = None\<rparr>]\<rparr>)
     ((example_http_route ''a'')\<lparr>ro_Hostnames := [''app.example'']\<rparr>)) = True"
  by code_simp

text \<open>Names are sorted as text, so the eleventh rule of an HTTPRoute comes before its third.\<close>

lemma eleventh_rule_before_third:
  "rule_name (example_http_route ''a'') 10 < rule_name (example_http_route ''a'') 2"
  by code_simp

end
