(* ===== verification/Flags.thy ===== *)
theory Flags
  imports Http GoTime
begin

text \<open>
  What the commands use of package \<open>flag\<close>, and \<open>time.ParseDuration\<close>, on which both the
  controller (for an annotation) and the flags rely.  The fractional part of a duration goes
  through a product of \<open>float64\<close>, which is the parameter \<open>fl\<close>: \<open>fl f scale unit\<close> is
  \<open>uint64(float64(f) * (float64(unit) / scale))\<close>, as \<open>fl_exact\<close> gives it where no bit is lost.
\<close>

section \<open>time.ParseDuration\<close>

definition digit_val :: "char \<Rightarrow> int" where
  "digit_val c = int (of_char c) - 48"

text \<open>\<open>leadingInt\<close>: \<open>None\<close> is an overflow.\<close>

fun leadingInt :: "int \<Rightarrow> string \<Rightarrow> (int \<times> string) option" where
  "leadingInt x [] = Some (x, [])"
| "leadingInt x (c # cs) =
     (if \<not> is_decimal c then Some (x, c # cs)
      else if x > 2 ^ 63 div 10 then None
      else if x * 10 + digit_val c > 2 ^ 63 then None
      else leadingInt (x * 10 + digit_val c) cs)"

text \<open>\<open>leadingFraction\<close>: the digits that fit, the power of ten they are scaled by, and the rest.\<close>

fun leadingFraction :: "int \<Rightarrow> int \<Rightarrow> bool \<Rightarrow> string \<Rightarrow> int \<times> int \<times> string" where
  "leadingFraction x scale overflow [] = (x, scale, [])"
| "leadingFraction x scale overflow (c # cs) =
     (if \<not> is_decimal c then (x, scale, c # cs)
      else if overflow \<or> x > (2 ^ 63 - 1) div 10 \<or> x * 10 + digit_val c > 2 ^ 63 then leadingFraction x scale True cs
      else leadingFraction (x * 10 + digit_val c) (scale * 10) False cs)"

definition unitMap :: "string \<Rightarrow> int option" where
  "unitMap = map_of
     [(''ns'', 1), (''us'', 10 ^ 3), ([CHR 0xC2, CHR 0xB5, CHR ''s''], 10 ^ 3), ([CHR 0xCE, CHR 0xBC, CHR ''s''], 10 ^ 3),
      (''ms'', 10 ^ 6), (''s'', 10 ^ 9), (''m'', 60 * 10 ^ 9), (''h'', 3600 * 10 ^ 9)]"

definition unit_byte :: "char \<Rightarrow> bool" where
  "unit_byte c \<longleftrightarrow> c \<noteq> CHR ''.'' \<and> \<not> is_decimal c"

lemma leadingInt_length: "leadingInt x s = Some (v, r) \<Longrightarrow> length r \<le> length s"
  by (induction x s rule: leadingInt.induct) (auto split: if_splits)

lemma leadingFraction_length: "leadingFraction x sc b s = (v, sc', r) \<Longrightarrow> length r \<le> length s"
  by (induction x sc b s rule: leadingFraction.induct) (fastforce split: if_splits)+

text \<open>One number: the integer, the fraction with its scale, and the rest; \<open>None\<close> when it is not one.\<close>

definition duration_number :: "string \<Rightarrow> (int \<times> int \<times> int \<times> string) option" where
  "duration_number s =
     (if s = [] \<or> \<not> (hd s = CHR ''.'' \<or> is_decimal (hd s)) then None
      else
        (case leadingInt 0 s of
           None \<Rightarrow> None
         | Some (v, s1) \<Rightarrow>
             (let pre = (length s1 \<noteq> length s);
                  (f, scale, s2, post) =
                    (case s1 of
                       [] \<Rightarrow> (0, 1, s1, False)
                     | c # r \<Rightarrow>
                         if c = CHR ''.''
                         then (case leadingFraction 0 1 False r of (f, scale, s2) \<Rightarrow> (f, scale, s2, length s2 \<noteq> length r))
                         else (0, 1, s1, False))
              in if \<not> pre \<and> \<not> post then None else Some (v, f, scale, s2))))"

lemma duration_number_length: "duration_number s = Some (v, f, scale, r) \<Longrightarrow> length r \<le> length s"
  by (auto simp: duration_number_def Let_def split: if_splits option.splits list.splits prod.splits
      dest!: leadingInt_length leadingFraction_length)

type_synonym float_mul = "int \<Rightarrow> int \<Rightarrow> int \<Rightarrow> int"

definition fl_exact :: float_mul where
  "fl_exact f scale unit = f * unit div scale"

function duration_loop :: "float_mul \<Rightarrow> int \<Rightarrow> string \<Rightarrow> int option" where
  "duration_loop fl d s =
     (if s = [] then Some d
      else
        (case duration_number s of
           None \<Rightarrow> None
         | Some (v, f, scale, s2) \<Rightarrow>
             (let u = takeWhile unit_byte s2
              in if u = [] then None
                 else
                   (case unitMap u of
                      None \<Rightarrow> None
                    | Some unit \<Rightarrow>
                        (if v > 2 ^ 63 div unit then None
                         else
                           (let v2 = v * unit + (if f > 0 then fl f scale unit else 0)
                            in if v2 > 2 ^ 63 \<or> d + v2 > 2 ^ 63 then None
                               else duration_loop fl (d + v2) (dropWhile unit_byte s2)))))))"
  by pat_completeness auto

termination
proof (relation "measure (\<lambda>(fl, d, s). length s)", goal_cases)
  case (2 fl d s x x1 x2 x3 x4 x5 x6 u unit v2)
  then have "length x6 \<le> length s" "u = takeWhile unit_byte x6"
    using duration_number_length [of s x1 x3 x5 x6] by simp_all
  moreover have "takeWhile unit_byte x6 \<noteq> []"
    using 2 by simp
  then have "length (dropWhile unit_byte x6) < length x6"
    by (cases x6) (auto simp: less_Suc_eq_le length_dropWhile_le split: if_splits)
  ultimately show ?case
    by simp
qed simp

declare duration_loop.simps [simp del]

definition ParseDuration :: "float_mul \<Rightarrow> string \<Rightarrow> duration option" where
  "ParseDuration fl s0 =
     (let neg = (case s0 of c # _ \<Rightarrow> c = CHR ''-'' | [] \<Rightarrow> False);
          s = (case s0 of c # r \<Rightarrow> if c = CHR ''-'' \<or> c = CHR ''+'' then r else s0 | [] \<Rightarrow> s0)
      in if s = ''0'' then Some 0
         else if s = [] then None
         else
           (case duration_loop fl 0 s of
              None \<Rightarrow> None
            | Some d \<Rightarrow> if neg then Some (- d) else if d > 2 ^ 63 - 1 then None else Some d))"

section \<open>Package flag\<close>

text \<open>
  A flag is its name, whether it is boolean, and the effect of setting it; \<open>None\<close> is a value
  that does not parse.  The flag set exits the program on an error.
\<close>

type_synonym 'o flags = "(string \<times> bool \<times> (string \<Rightarrow> 'o \<Rightarrow> 'o option)) list"

definition string_flag :: "string \<Rightarrow> (string \<Rightarrow> 'o \<Rightarrow> 'o) \<Rightarrow> string \<times> bool \<times> (string \<Rightarrow> 'o \<Rightarrow> 'o option)" where
  "string_flag name upd = (name, False, \<lambda>v r. Some (upd v r))"

definition duration_flag :: "float_mul \<Rightarrow> string \<Rightarrow> (duration \<Rightarrow> 'o \<Rightarrow> 'o) \<Rightarrow> string \<times> bool \<times> (string \<Rightarrow> 'o \<Rightarrow> 'o option)" where
  "duration_flag fl name upd = (name, False, \<lambda>v r. map_option (\<lambda>d. upd d r) (ParseDuration fl v))"

text \<open>\<open>strconv.ParseInt\<close> in base 0 is the parameter \<open>num\<close>.\<close>

definition int_flag :: "(string \<Rightarrow> int option) \<Rightarrow> string \<Rightarrow> (int \<Rightarrow> 'o \<Rightarrow> 'o) \<Rightarrow> string \<times> bool \<times> (string \<Rightarrow> 'o \<Rightarrow> 'o option)" where
  "int_flag num name upd = (name, False, \<lambda>v r. map_option (\<lambda>n. upd n r) (num v))"

definition ParseBool :: "string \<Rightarrow> bool option" where
  "ParseBool s =
     (if s \<in> set [''1'', ''t'', ''T'', ''true'', ''TRUE'', ''True''] then Some True
      else if s \<in> set [''0'', ''f'', ''F'', ''false'', ''FALSE'', ''False''] then Some False
      else None)"

definition bool_flag :: "string \<Rightarrow> (bool \<Rightarrow> 'o \<Rightarrow> 'o) \<Rightarrow> string \<times> bool \<times> (string \<Rightarrow> 'o \<Rightarrow> 'o option)" where
  "bool_flag name upd = (name, True, \<lambda>v r. map_option (\<lambda>b. upd b r) (ParseBool v))"

text \<open>A name and, after the first \<open>=\<close> past its first byte, a value.\<close>

definition split_flag :: "string \<Rightarrow> string \<times> string option" where
  "split_flag n = (case Cut (tl n) CHR ''='' of None \<Rightarrow> (n, None) | Some (a, v) \<Rightarrow> (hd n # a, Some v))"

text \<open>\<open>Parse\<close>: \<open>None\<close> is a usage error; an argument that is no flag ends the flags.\<close>

fun parse_flags :: "'o flags \<Rightarrow> string list \<Rightarrow> 'o \<Rightarrow> 'o option" where
  "parse_flags fs [] r = Some r"
| "parse_flags fs (a # as) r =
     (if length a < 2 \<or> hd a \<noteq> CHR ''-'' then Some r
      else if a = ''--'' then Some r
      else
        (let n = (if a ! 1 = CHR ''-'' then drop 2 a else drop 1 a)
         in if n = [] \<or> hd n = CHR ''-'' \<or> hd n = CHR ''='' then None
            else
              (case split_flag n of
                 (name, value) \<Rightarrow>
                   (case map_of fs name of
                      None \<Rightarrow> None
                    | Some (is_bool, upd) \<Rightarrow>
                        (case value of
                           Some v \<Rightarrow> Option.bind (upd v r) (parse_flags fs as)
                         | None \<Rightarrow>
                             if is_bool then Option.bind (upd ''true'' r) (parse_flags fs as)
                             else
                               (case as of
                                  [] \<Rightarrow> None
                                | v # as' \<Rightarrow> Option.bind (upd v r) (parse_flags fs as')))))))"

section \<open>Lemmas\<close>

text \<open>How one argument \<open>-name=value\<close> is read.\<close>

lemma Cut_no: "c \<notin> set s \<Longrightarrow> Cut s c = None"
  by (simp add: Cut_None_iff)

lemma parse_flag_value:
  assumes "map_of fs name = Some (is_bool, upd)" "name \<noteq> []" "CHR ''='' \<notin> set name" "hd name \<noteq> CHR ''-''"
  shows "parse_flags fs ((CHR ''-'' # name @ CHR ''='' # v) # as) r = Option.bind (upd v r) (parse_flags fs as)"
proof -
  obtain c n where n: "name = c # n" "c \<noteq> CHR ''-''" "c \<noteq> CHR ''=''"
    using assms by (cases name) auto
  have "split_flag (name @ CHR ''='' # v) = (name, Some v)"
    using assms(3) by (simp add: split_flag_def n)
  with assms(1) n show ?thesis
    by simp
qed

lemma parse_flag_bool:
  assumes "map_of fs name = Some (True, upd)" "name \<noteq> []" "CHR ''='' \<notin> set name" "hd name \<noteq> CHR ''-''"
  shows "parse_flags fs ((CHR ''-'' # name) # as) r = Option.bind (upd ''true'' r) (parse_flags fs as)"
proof -
  obtain c n where n: "name = c # n" "c \<noteq> CHR ''-''" "c \<noteq> CHR ''=''"
    using assms by (cases name) auto
  have "split_flag name = (name, None)"
    using assms(3) by (simp add: split_flag_def n Cut_no)
  with assms(1) n show ?thesis
    by simp
qed

lemma ParseDuration_examples:
  "ParseDuration fl_exact ''2m'' = Some (2 * Minute)" "ParseDuration fl_exact ''1.5s'' = Some (1500 * Millisecond)"
  "ParseDuration fl_exact ''-1h2m'' = Some (- 62 * Minute)" "ParseDuration fl_exact ''5'' = None"
  "ParseDuration fl_exact ''1d'' = None" "ParseDuration fl_exact ''0'' = Some 0"
  by code_simp+

end
