(* ===== verification/Provision.thy ===== *)
theory Provision
  imports GatewayRoutes Flags
begin

text \<open>
  \<open>gateway/provision.go\<close>: the objects the controller provisions for a Gateway.  The Kubernetes
  objects are records of the fields the code sets; a set of labels is an association list, a
  resource quantity its text.
\<close>

type_synonym labels = "(string \<times> string) list"

record provision_cfg =
  pc_Image :: string
  pc_ServiceAccount :: string
  pc_CredentialSecret :: string
  pc_Tag :: string
  pc_StorageClass :: string
  pc_Zone :: string
  pc_JWKSOverTLS :: bool
  pc_Capability :: string

record object_meta =
  om_Name :: string
  om_Namespace :: string
  om_Labels :: labels

section \<open>Names\<close>

definition n_statefulSet :: "gw_gateway \<Rightarrow> string" where "n_statefulSet gw = ''tsjwt-'' @ gw_Name gw"
definition n_service :: "gw_gateway \<Rightarrow> string" where "n_service gw = ''tsjwt-'' @ gw_Name gw"
definition n_routes :: "gw_gateway \<Rightarrow> string" where "n_routes gw = ''tsjwt-'' @ gw_Name gw @ ''-routes''"
definition n_keys :: "gw_gateway \<Rightarrow> string" where "n_keys gw = ''tsjwt-'' @ gw_Name gw @ ''-keys''"
definition n_serviceAccount :: "gw_gateway \<Rightarrow> string" where "n_serviceAccount gw = ''tsjwt-'' @ gw_Name gw @ ''-dataplane''"

text \<open>The node name a listener declares: the first one, in the order of the listeners.\<close>

fun declared_loop :: "gw_listener list \<Rightarrow> string option" where
  "declared_loop [] = None"
| "declared_loop (l # ls) =
     (case ls_Hostname l of
        None \<Rightarrow> declared_loop ls
      | Some h \<Rightarrow>
          if h = [] then declared_loop ls
          else if HasPrefix h ''*.'' then declared_loop ls
          else (case Cut h CHR ''.'' of Some (label, _) \<Rightarrow> if label \<noteq> [] then Some label else Some h | None \<Rightarrow> Some h))"

definition declaredHostname :: "gw_gateway \<Rightarrow> string option" where
  "declaredHostname gw = declared_loop (gw_Listeners gw)"

definition node_hostname :: "gw_gateway \<Rightarrow> string" where
  "node_hostname gw = (case declaredHostname gw of Some h \<Rightarrow> h | None \<Rightarrow> gw_Name gw)"

definition hostnameArg :: "gw_gateway \<Rightarrow> string" where
  "hostnameArg gw = (case declaredHostname gw of Some h \<Rightarrow> ''-hostname='' @ h | None \<Rightarrow> ''-hostname=$(POD_NAME)'')"

definition n_labels :: "gw_gateway \<Rightarrow> labels" where
  "n_labels gw =
     [(''app.kubernetes.io/name'', ''tsjwt''), (''app.kubernetes.io/managed-by'', ''tsjwt-gateway-controller''),
      (''tsjwt.dev/gateway'', gw_Name gw)]"

section \<open>ConfigMap, Service, account and Role\<close>

record config_map_obj =
  cmo_Meta :: object_meta
  cmo_Data :: "(string \<times> string) list"

definition RoutesConfigMap :: "gw_gateway \<Rightarrow> string \<Rightarrow> config_map_obj" where
  "RoutesConfigMap gw rendered =
     \<lparr>cmo_Meta = \<lparr>om_Name = n_routes gw, om_Namespace = gw_Namespace gw, om_Labels = n_labels gw\<rparr>,
      cmo_Data = [(''routes.json'', rendered)]\<rparr>"

record service_port =
  sp_Name :: string
  sp_Port :: int
  sp_TargetPort :: string

record service_obj =
  svo_Meta :: object_meta
  svo_Selector :: labels
  svo_Ports :: "service_port list"

definition Service :: "gw_gateway \<Rightarrow> service_obj" where
  "Service gw =
     \<lparr>svo_Meta = \<lparr>om_Name = n_service gw, om_Namespace = gw_Namespace gw, om_Labels = n_labels gw\<rparr>,
      svo_Selector = n_labels gw,
      svo_Ports = [\<lparr>sp_Name = ''jwks'', sp_Port = 9100, sp_TargetPort = ''jwks''\<rparr>]\<rparr>"

definition DataPlaneServiceAccount :: "gw_gateway \<Rightarrow> object_meta" where
  "DataPlaneServiceAccount gw = \<lparr>om_Name = n_serviceAccount gw, om_Namespace = gw_Namespace gw, om_Labels = n_labels gw\<rparr>"

definition JWKSOverTLSAnnotation :: string where "JWKSOverTLSAnnotation = ''tsjwt.dev/jwks-tls''"
definition BackendWaitAnnotation :: string where "BackendWaitAnnotation = ''tsjwt.dev/backend-wait-timeout''"

record policy_rule =
  plr_APIGroups :: "string list"
  plr_Resources :: "string list"
  plr_ResourceNames :: "string list"
  plr_Verbs :: "string list"

record role_obj =
  rlo_Meta :: object_meta
  rlo_Rules :: "policy_rule list"

definition KeysRole :: "gw_gateway \<Rightarrow> role_obj" where
  "KeysRole gw =
     \<lparr>rlo_Meta = \<lparr>om_Name = n_keys gw, om_Namespace = gw_Namespace gw, om_Labels = n_labels gw\<rparr>,
      rlo_Rules =
        [\<lparr>plr_APIGroups = [[]], plr_Resources = [''configmaps''], plr_ResourceNames = [], plr_Verbs = [''create'']\<rparr>,
         \<lparr>plr_APIGroups = [[]], plr_Resources = [''configmaps''], plr_ResourceNames = [n_keys gw], plr_Verbs = [''get'', ''update'']\<rparr>]\<rparr>"

record role_ref =
  rr_APIGroup :: string
  rr_Kind :: string
  rr_Name :: string

record rbac_subject =
  su_Kind :: string
  su_Name :: string
  su_Namespace :: string

record role_binding_obj =
  rbo_Meta :: object_meta
  rbo_RoleRef :: role_ref
  rbo_Subjects :: "rbac_subject list"

definition KeysRoleBinding :: "gw_gateway \<Rightarrow> role_binding_obj" where
  "KeysRoleBinding gw =
     \<lparr>rbo_Meta = \<lparr>om_Name = n_keys gw, om_Namespace = gw_Namespace gw, om_Labels = n_labels gw\<rparr>,
      rbo_RoleRef = \<lparr>rr_APIGroup = ''rbac.authorization.k8s.io'', rr_Kind = ''Role'', rr_Name = n_keys gw\<rparr>,
      rbo_Subjects = [\<lparr>su_Kind = ''ServiceAccount'', su_Name = n_serviceAccount gw, su_Namespace = gw_Namespace gw\<rparr>]\<rparr>"

section \<open>The StatefulSet\<close>

datatype uri_scheme = SchemeHTTP | SchemeHTTPS

record http_probe =
  hp_Path :: string
  hp_Port :: string
  hp_Scheme :: uri_scheme
  hp_InitialDelay :: int
  hp_Period :: int
  hp_FailureThreshold :: int

datatype env_source = EnvField string | EnvSecret string string

record env_var =
  ev_Name :: string
  ev_From :: env_source

record volume_mount =
  vm_Name :: string
  vm_Path :: string
  vm_ReadOnly :: bool

record container_security =
  cs_AllowEscalation :: bool
  cs_ReadOnlyRoot :: bool
  cs_Drop :: "string list"

record container_obj =
  ct_Name :: string
  ct_Image :: string
  ct_Command :: "string list"
  ct_Args :: "string list"
  ct_Env :: "env_var list"
  ct_Ports :: "(string \<times> int) list"
  ct_Mounts :: "volume_mount list"
  ct_Readiness :: http_probe
  ct_Liveness :: http_probe
  ct_Security :: container_security
  ct_Requests :: "(string \<times> string) list"
  ct_Limits :: "(string \<times> string) list"

record pod_security =
  ps_NonRoot :: bool
  ps_User :: int
  ps_Group :: int
  ps_FSGroup :: int
  ps_Seccomp :: string

record config_volume =
  cv_Name :: string
  cv_ConfigMap :: string
  cv_Optional :: "bool option"

record pod_template =
  pt_Labels :: labels
  pt_ServiceAccount :: string
  pt_Security :: "pod_security option"
  pt_Containers :: "container_obj list"
  pt_Volumes :: "config_volume list"
  pt_NodeSelector :: labels

record volume_claim =
  vc_Name :: string
  vc_AccessModes :: "string list"
  vc_Storage :: string
  vc_StorageClass :: "string option"

record stateful_set =
  ss_Meta :: object_meta
  ss_ServiceName :: string
  ss_Replicas :: int
  ss_PodManagement :: string
  ss_Selector :: labels
  ss_Template :: pod_template
  ss_Claims :: "volume_claim list"

definition jwks_tls :: "gw_gateway \<Rightarrow> provision_cfg \<Rightarrow> bool" where
  "jwks_tls gw cfg \<longleftrightarrow> pc_JWKSOverTLS cfg \<or> annotation (gw_Annotations gw) JWKSOverTLSAnnotation = ''true''"

definition wait_error :: "float_mul \<Rightarrow> gw_gateway \<Rightarrow> bool" where
  "wait_error fl gw \<longleftrightarrow>
     (let wait = annotation (gw_Annotations gw) BackendWaitAnnotation
      in wait \<noteq> [] \<and> (case ParseDuration fl wait of None \<Rightarrow> True | Some d \<Rightarrow> d \<le> 0 \<or> d > 2 * Minute))"

definition dataplane_args :: "gw_gateway \<Rightarrow> provision_cfg \<Rightarrow> string list" where
  "dataplane_args gw cfg =
     (let wait = annotation (gw_Annotations gw) BackendWaitAnnotation
      in [''-gateway='' @ gw_Namespace gw @ ''/'' @ gw_Name gw,
          hostnameArg gw,
          ''-routes=/etc/tsjwt/routes.json'',
          ''-state-dir=/var/lib/tsjwt'',
          ''-tenants=/etc/tsjwt-tenants/tenants.json'',
          ''-issuer=https://'' @ node_hostname gw,
          ''-listen=:443'',
          ''-jwks-listen=0.0.0.0:9100'',
          ''-key-tags='' @ pc_Tag cfg,
          ''-share-keys='' @ n_keys gw]
         @ (if wait \<noteq> [] then [''-backend-wait-timeout='' @ wait] else [])
         @ (if jwks_tls gw cfg then [''-jwks-tls''] else [])
         @ (if pc_Capability cfg \<noteq> [] then [''-cap='' @ pc_Capability cfg] else []))"

definition dataplane_env :: "provision_cfg \<Rightarrow> env_var list" where
  "dataplane_env cfg =
     [\<lparr>ev_Name = ''POD_NAME'', ev_From = EnvField ''metadata.name''\<rparr>,
      \<lparr>ev_Name = ''TS_OAUTH_CLIENT_ID'', ev_From = EnvSecret (pc_CredentialSecret cfg) ''TS_OAUTH_CLIENT_ID''\<rparr>,
      \<lparr>ev_Name = ''TS_OAUTH_CLIENT_SECRET'', ev_From = EnvSecret (pc_CredentialSecret cfg) ''TS_OAUTH_CLIENT_SECRET''\<rparr>]"

definition dataplane_container :: "gw_gateway \<Rightarrow> provision_cfg \<Rightarrow> container_obj" where
  "dataplane_container gw cfg =
     (let scheme = (if jwks_tls gw cfg then SchemeHTTPS else SchemeHTTP)
      in \<lparr>ct_Name = ''tsjwt'', ct_Image = pc_Image cfg, ct_Command = [''/usr/local/bin/tsjwt-dataplane''],
          ct_Args = dataplane_args gw cfg, ct_Env = dataplane_env cfg, ct_Ports = [(''jwks'', 9100)],
          ct_Mounts =
            [\<lparr>vm_Name = ''state'', vm_Path = ''/var/lib/tsjwt'', vm_ReadOnly = False\<rparr>,
             \<lparr>vm_Name = ''routes'', vm_Path = ''/etc/tsjwt'', vm_ReadOnly = True\<rparr>,
             \<lparr>vm_Name = ''tenants'', vm_Path = ''/etc/tsjwt-tenants'', vm_ReadOnly = True\<rparr>],
          ct_Readiness = \<lparr>hp_Path = ''/readyz'', hp_Port = ''jwks'', hp_Scheme = scheme, hp_InitialDelay = 0,
            hp_Period = 5, hp_FailureThreshold = 24\<rparr>,
          ct_Liveness = \<lparr>hp_Path = ''/healthz'', hp_Port = ''jwks'', hp_Scheme = scheme, hp_InitialDelay = 10,
            hp_Period = 30, hp_FailureThreshold = 4\<rparr>,
          ct_Security = \<lparr>cs_AllowEscalation = False, cs_ReadOnlyRoot = True, cs_Drop = [''ALL'']\<rparr>,
          ct_Requests = [(''cpu'', ''10m''), (''memory'', ''64Mi'')],
          ct_Limits = [(''memory'', ''256Mi'')]\<rparr>)"

definition dataplane_template :: "gw_gateway \<Rightarrow> provision_cfg \<Rightarrow> string \<Rightarrow> pod_template" where
  "dataplane_template gw cfg tenantsConfigMap =
     \<lparr>pt_Labels = n_labels gw, pt_ServiceAccount = n_serviceAccount gw,
      pt_Security = Some \<lparr>ps_NonRoot = True, ps_User = 65532, ps_Group = 65532, ps_FSGroup = 65532, ps_Seccomp = ''RuntimeDefault''\<rparr>,
      pt_Containers = [dataplane_container gw cfg],
      pt_Volumes =
        [\<lparr>cv_Name = ''routes'', cv_ConfigMap = n_routes gw, cv_Optional = Some True\<rparr>,
         \<lparr>cv_Name = ''tenants'', cv_ConfigMap = tenantsConfigMap, cv_Optional = None\<rparr>],
      pt_NodeSelector = (if pc_Zone cfg \<noteq> [] then [(''topology.kubernetes.io/zone'', pc_Zone cfg)] else [])\<rparr>"

definition StatefulSet :: "float_mul \<Rightarrow> gw_gateway \<Rightarrow> provision_cfg \<Rightarrow> string \<Rightarrow> stateful_set result" where
  "StatefulSet fl gw cfg tenantsConfigMap =
     (if pc_Image cfg = [] then Inl (Error Plain ''gateway: Config.Image is required'')
      else if pc_CredentialSecret cfg = [] then Inl (Error Plain ''gateway: Config.CredentialSecret is required'')
      else if pc_Tag cfg = [] then Inl (Error Plain ''gateway: Config.Tag is required'')
      else if wait_error fl gw then Inl (Error Plain ''gateway: must be a positive duration no greater than 2m'')
      else Inr
        \<lparr>ss_Meta = \<lparr>om_Name = n_statefulSet gw, om_Namespace = gw_Namespace gw, om_Labels = n_labels gw\<rparr>,
         ss_ServiceName = n_service gw, ss_Replicas = 1, ss_PodManagement = ''Parallel'', ss_Selector = n_labels gw,
         ss_Template = dataplane_template gw cfg tenantsConfigMap,
         ss_Claims = [\<lparr>vc_Name = ''state'', vc_AccessModes = [''ReadWriteOnce''], vc_Storage = ''1Gi'',
           vc_StorageClass = (if pc_StorageClass cfg \<noteq> [] then Some (pc_StorageClass cfg) else None)\<rparr>]\<rparr>)"

section \<open>What the Role allows\<close>

text \<open>
  How the API server reads a rule for ConfigMaps of the core group: the verb is listed, and a rule
  with resource names applies to those objects only.  A creation carries no name.
\<close>

definition rule_allows :: "policy_rule \<Rightarrow> string \<Rightarrow> string option \<Rightarrow> bool" where
  "rule_allows r verb name \<longleftrightarrow>
     [] \<in> set (plr_APIGroups r) \<and> ''configmaps'' \<in> set (plr_Resources r) \<and> verb \<in> set (plr_Verbs r)
     \<and> (plr_ResourceNames r = [] \<or> (case name of None \<Rightarrow> False | Some n \<Rightarrow> n \<in> set (plr_ResourceNames r)))"

definition role_allows :: "role_obj \<Rightarrow> string \<Rightarrow> string option \<Rightarrow> bool" where
  "role_allows role verb name \<longleftrightarrow> list_ex (\<lambda>r. rule_allows r verb name) (rlo_Rules role)"

lemma suffix_eq: "length a = length b \<Longrightarrow> x @ a = y @ b \<longleftrightarrow> x = y \<and> a = b"
  by auto

lemma keys_not_routes: "n_keys gw \<noteq> n_routes gw'"
proof
  assume "n_keys gw = n_routes gw'"
  then have "rev (n_keys gw) = rev (n_routes gw')"
    by simp
  then show False
    by (simp add: n_keys_def n_routes_def)
qed

lemma n_keys_inj: "n_keys gw = n_keys gw' \<longleftrightarrow> gw_Name gw = gw_Name gw'"
  by (simp add: n_keys_def)

lemma role_allows_keys:
  "role_allows (KeysRole gw) verb n \<longleftrightarrow> verb = ''create'' \<or> ((verb = ''get'' \<or> verb = ''update'') \<and> n = Some (n_keys gw))"
  by (cases n) (auto simp: role_allows_def rule_allows_def KeysRole_def)

lemma share_keys_arg: "''-share-keys='' @ n_keys gw \<in> set (dataplane_args gw cfg)"
  unfolding dataplane_args_def Let_def set_append by (rule UnI1) (simp only: list.set insert_iff simp_thms)

section \<open>Properties\<close>

text \<open>
  The Role is narrow.  What is bound to a data plane's own account lets it read and update
  exactly one ConfigMap, the one its \<open>-share-keys\<close> argument names; so neither the route table
  of a Gateway nor the keys of another Gateway in the namespace can be read or rewritten
  through it, and no verb but \<open>create\<close>, \<open>get\<close> and \<open>update\<close> is allowed on anything.
\<close>

theorem keys_role_is_narrow:
  "(role_allows (KeysRole gw) verb (Some name) \<longleftrightarrow> verb = ''create'' \<or> (verb \<in> {''get'', ''update''} \<and> name = n_keys gw))
   \<and> \<not> role_allows (KeysRole gw) ''update'' (Some (n_routes gw'))
   \<and> (role_allows (KeysRole gw) ''update'' (Some (n_keys gw')) \<longleftrightarrow> gw_Name gw' = gw_Name gw)
   \<and> rr_Name (rbo_RoleRef (KeysRoleBinding gw)) = om_Name (rlo_Meta (KeysRole gw))
   \<and> map su_Name (rbo_Subjects (KeysRoleBinding gw)) = [pt_ServiceAccount (dataplane_template gw cfg tenants)]
   \<and> list_all (\<lambda>c. ''-share-keys='' @ n_keys gw \<in> set (ct_Args c)) (pt_Containers (dataplane_template gw cfg tenants))"
proof -
  have n: "\<not> (''update'' = ''create'')" "\<not> (''update'' = ''get'')"
    by simp_all
  have "map su_Name (rbo_Subjects (KeysRoleBinding gw)) = [pt_ServiceAccount (dataplane_template gw cfg tenants)]"
    by (simp add: KeysRoleBinding_def dataplane_template_def)
  moreover have "rr_Name (rbo_RoleRef (KeysRoleBinding gw)) = om_Name (rlo_Meta (KeysRole gw))"
    by (simp add: KeysRole_def KeysRoleBinding_def)
  moreover have "pt_Containers (dataplane_template gw cfg tenants) = [dataplane_container gw cfg]"
    by (simp add: dataplane_template_def)
  moreover have "ct_Args (dataplane_container gw cfg) = dataplane_args gw cfg"
    by (simp add: dataplane_container_def Let_def)
  moreover have "n_routes gw' \<noteq> n_keys gw" "n_keys gw' = n_keys gw \<longleftrightarrow> gw_Name gw' = gw_Name gw"
    using keys_not_routes [of gw gw'] n_keys_inj [of gw' gw] by auto
  ultimately show ?thesis
    using share_keys_arg [of gw cfg] n unfolding role_allows_keys option.inject by simp
qed

end
