(* ===== verification/FileSource.thy ===== *)
theory FileSource
  imports RouteFile GoTime
begin

text \<open>
  \<open>routetable/filesource.go\<close>: the data plane's route table, re-read from the rendered file at
  every interval and kept in a local cache across restarts.  One read takes what
  \<open>os.ReadFile\<close> gives for the file and how a write of the cache goes.
\<close>

record source_cfg =
  so_Path :: string
  so_CachePath :: string
  so_Interval :: duration

record source =
  so_current :: "route list"
  so_rev :: int
  so_loaded :: bool
  so_fromCach :: bool
  so_lastErr :: "error option"

definition empty_source :: source where
  "empty_source = \<lparr>so_current = [], so_rev = 0, so_loaded = False, so_fromCach = False, so_lastErr = None\<rparr>"

record cache_io =
  io_mkdir :: bool
  io_wrote :: "nat option"
  io_rename :: bool

definition sameRoute :: "route \<Rightarrow> route \<Rightarrow> bool" where
  "sameRoute a b \<longleftrightarrow>
     \<not> (rt_Name a \<noteq> rt_Name b \<or> rt_PathPrefix a \<noteq> rt_PathPrefix b \<or> rt_Audience a \<noteq> rt_Audience b
        \<or> rt_Tenant a \<noteq> rt_Tenant b \<or> rt_Upstream a \<noteq> rt_Upstream b
        \<or> length (rt_Hostnames a) \<noteq> length (rt_Hostnames b))
     \<and> list_all (\<lambda>j. rt_Hostnames a ! j = rt_Hostnames b ! j) [0..<length (rt_Hostnames a)]"

definition sameRoutes :: "route list \<Rightarrow> route list \<Rightarrow> bool" where
  "sameRoutes a b \<longleftrightarrow> length a = length b \<and> list_all (\<lambda>i. sameRoute (a ! i) (b ! i)) [0..<length a]"

text \<open>\<open>Refresh\<close>: the error, the table given to \<open>OnChange\<close>, and the file systems it passes through.\<close>

definition Refresh :: "url_parse \<Rightarrow> source_cfg \<Rightarrow> string result \<Rightarrow> cache_io \<Rightarrow> source \<Rightarrow> file_sys
    \<Rightarrow> source \<times> file_sys list \<times> route list option \<times> error option" where
  "Refresh up cfg contents io s fs =
     (case ReadRouteFile up contents of
        Inl e \<Rightarrow> (s, [fs], None, Some e)
      | Inr (f, routes) \<Rightarrow>
          (let changed = \<not> sameRoutes (so_current s) routes;
               s1 = (if changed then s\<lparr>so_current := routes\<rparr> else s);
               s2 = s1\<lparr>so_rev := rf_Revision f, so_loaded := True, so_fromCach := False\<rparr>
           in if \<not> changed then (s2, [fs], None, None)
              else
                (s2,
                 if so_CachePath cfg \<noteq> []
                 then fst (WriteRouteFile (so_CachePath cfg) f (io_mkdir io) (io_wrote io) (io_rename io) fs)
                 else [fs],
                 Some routes, None)))"

text \<open>The closure \<open>read\<close> of \<open>Run\<close>, with the state and the file system after it.\<close>

definition read_once :: "url_parse \<Rightarrow> source_cfg \<Rightarrow> string result \<times> cache_io \<Rightarrow> source \<times> file_sys \<Rightarrow> source \<times> file_sys" where
  "read_once up cfg x st =
     (case Refresh up cfg (fst x) (snd x) (fst st) (snd st) of
        (s, fss, _, err) \<Rightarrow> (s\<lparr>so_lastErr := err\<rparr>, last fss))"

definition source_interval :: "duration \<Rightarrow> duration" where
  "source_interval i = (if i \<le> 0 then 5 * Second else i)"

definition run_source :: "url_parse \<Rightarrow> source_cfg \<Rightarrow> (string result \<times> cache_io) list \<Rightarrow> source \<times> file_sys \<Rightarrow> source \<times> file_sys" where
  "run_source up cfg xs st = fold (read_once up cfg) xs st"

text \<open>\<open>LoadCache\<close>: \<open>contents\<close> is what \<open>os.ReadFile\<close> gives for the cache.\<close>

definition LoadCache :: "url_parse \<Rightarrow> source_cfg \<Rightarrow> string result \<Rightarrow> source \<Rightarrow> source \<times> error option" where
  "LoadCache up cfg contents s =
     (if so_CachePath cfg = [] then (s, None)
      else
        (case ReadRouteFile up contents of
           Inl e \<Rightarrow> if errors_Is e ErrNotExist then (s, None) else (s, Some e)
         | Inr (f, routes) \<Rightarrow>
             (s\<lparr>so_current := routes, so_rev := rf_Revision f, so_loaded := True, so_fromCach := True\<rparr>, None)))"

definition stored :: "file_sys \<Rightarrow> string \<Rightarrow> string result" where
  "stored fs path = (case fs path of None \<Rightarrow> Inl (Error ErrNotExist ''open'') | Some b \<Rightarrow> Inr b)"

section \<open>The specification\<close>

text \<open>
  What the source promises: the last table that could be read, up to the claim headers, which
  the comparison leaves out.
\<close>

definition sans_headers :: "route list \<Rightarrow> route list" where
  "sans_headers rs = map (rt_ClaimHeaders_update (\<lambda>_. [])) rs"

definition last_table :: "url_parse \<Rightarrow> route list \<Rightarrow> string result \<Rightarrow> route list" where
  "last_table up table contents = (case ReadRouteFile up contents of Inl _ \<Rightarrow> table | Inr (_, rs) \<Rightarrow> rs)"

text \<open>Exactly: a table that differs from the one in use in claim headers alone is passed over.\<close>

definition keep_table :: "url_parse \<Rightarrow> route list \<Rightarrow> string result \<Rightarrow> route list" where
  "keep_table up table contents =
     (case ReadRouteFile up contents of
        Inl _ \<Rightarrow> table
      | Inr (_, rs) \<Rightarrow> if sans_headers table = sans_headers rs then table else rs)"

text \<open>
  The cache beside the table: it takes a file when the table changes and the write works, and
  otherwise keeps what it has.
\<close>

definition io_ok :: "cache_io \<Rightarrow> bool" where
  "io_ok io \<longleftrightarrow> io_mkdir io \<and> io_wrote io = None \<and> io_rename io"

definition keep_cached :: "url_parse \<Rightarrow> route list \<times> (route_file \<times> route list) option \<Rightarrow> string result \<times> cache_io
    \<Rightarrow> route list \<times> (route_file \<times> route list) option" where
  "keep_cached up tc x =
     (case ReadRouteFile up (fst x) of
        Inl _ \<Rightarrow> tc
      | Inr (f, rs) \<Rightarrow>
          if sans_headers (fst tc) = sans_headers rs then tc
          else (rs, if io_ok (snd x) then Some (f, rs) else snd tc))"

definition readable :: "url_parse \<Rightarrow> string result \<Rightarrow> bool" where
  "readable up contents \<longleftrightarrow> (case ReadRouteFile up contents of Inl _ \<Rightarrow> False | Inr _ \<Rightarrow> True)"

section \<open>Lemmas\<close>

lemma sameRoute_iff: "sameRoute a b \<longleftrightarrow> a\<lparr>rt_ClaimHeaders := []\<rparr> = b\<lparr>rt_ClaimHeaders := []\<rparr>"
proof -
  have "(length (rt_Hostnames a) = length (rt_Hostnames b)
      \<and> list_all (\<lambda>j. rt_Hostnames a ! j = rt_Hostnames b ! j) [0..<length (rt_Hostnames a)]) \<longleftrightarrow> rt_Hostnames a = rt_Hostnames b"
    unfolding list_eq_iff_nth_eq [of "rt_Hostnames a"] by (auto simp: list_all_iff)
  then have "sameRoute a b \<longleftrightarrow> rt_Name a = rt_Name b \<and> rt_PathPrefix a = rt_PathPrefix b \<and> rt_Audience a = rt_Audience b
      \<and> rt_Tenant a = rt_Tenant b \<and> rt_Upstream a = rt_Upstream b \<and> rt_Hostnames a = rt_Hostnames b"
    unfolding sameRoute_def by blast
  then show ?thesis
    by (cases a; cases b) (simp, blast)
qed

lemma sameRoutes_iff: "sameRoutes a b \<longleftrightarrow> sans_headers a = sans_headers b"
proof -
  have "sans_headers a = sans_headers b \<longleftrightarrow>
      length a = length b \<and> (\<forall>i < length a. (a ! i)\<lparr>rt_ClaimHeaders := []\<rparr> = (b ! i)\<lparr>rt_ClaimHeaders := []\<rparr>)"
    unfolding list_eq_iff_nth_eq [of "sans_headers a"] by (auto simp: sans_headers_def)
  then show ?thesis
    by (simp add: sameRoutes_def sameRoute_iff list_all_iff Ball_def)
qed

lemma sans_headers_length [simp]: "length (sans_headers rs) = length rs"
  by (simp add: sans_headers_def)

lemma Refresh_source:
  "fst (Refresh up cfg contents io s fs) =
     (case ReadRouteFile up contents of
        Inl e \<Rightarrow> s
      | Inr (f, rs) \<Rightarrow> s\<lparr>so_current := (if sameRoutes (so_current s) rs then so_current s else rs),
            so_rev := rf_Revision f, so_loaded := True, so_fromCach := False\<rparr>)"
  by (auto simp: Refresh_def Let_def split: sum.splits)

lemma Refresh_err:
  "snd (snd (snd (Refresh up cfg contents io s fs))) =
     (case ReadRouteFile up contents of Inl e \<Rightarrow> Some e | Inr _ \<Rightarrow> None)"
  by (auto simp: Refresh_def Let_def split: sum.splits)

lemma read_once_source:
  "fst (read_once up cfg x (s, fs)) =
     (case ReadRouteFile up (fst x) of
        Inl e \<Rightarrow> s\<lparr>so_lastErr := Some e\<rparr>
      | Inr (f, rs) \<Rightarrow> s\<lparr>so_current := (if sameRoutes (so_current s) rs then so_current s else rs),
            so_rev := rf_Revision f, so_loaded := True, so_fromCach := False, so_lastErr := None\<rparr>)"
  using Refresh_source [of up cfg "fst x" "snd x" s fs] Refresh_err [of up cfg "fst x" "snd x" s fs]
  by (auto simp: read_once_def split: prod.splits sum.splits)

lemma run_source_abs:
  "sans_headers (so_current (fst (run_source up cfg xs st)))
      = sans_headers (foldl (last_table up) (so_current (fst st)) (map fst xs))
   \<and> (so_loaded (fst (run_source up cfg xs st)) \<longleftrightarrow> so_loaded (fst st) \<or> list_ex (readable up) (map fst xs))"
proof (induction xs arbitrary: st rule: rev_induct)
  case Nil
  then show ?case by (simp add: run_source_def)
next
  case (snoc x xs)
  obtain s fs where s: "run_source up cfg xs st = (s, fs)"
    by fastforce
  then have r: "run_source up cfg (xs @ [x]) st = read_once up cfg x (s, fs)"
    by (simp add: run_source_def)
  show ?case
    using snoc [of st] s unfolding r
    by (auto simp: read_once_source last_table_def readable_def sameRoutes_iff split: sum.splits)
qed

lemma run_source_table: "so_current (fst (run_source up cfg xs st)) = foldl (keep_table up) (so_current (fst st)) (map fst xs)"
proof (induction xs arbitrary: st)
  case (Cons x xs)
  obtain s fs where s: "st = (s, fs)"
    by fastforce
  have "so_current (fst (read_once up cfg x st)) = keep_table up (so_current (fst st)) (fst x)"
    by (simp add: s read_once_source keep_table_def sameRoutes_iff split: sum.splits)
  then show ?case
    using Cons [of "read_once up cfg x st"] by (simp add: run_source_def)
qed (simp add: run_source_def)

text \<open>The cache only ever holds whole tables, each of which was read from the file and parsed.\<close>

lemma Refresh_cache:
  assumes "fs' \<in> set (fst (snd (Refresh up cfg contents io s fs)))"
  shows "fs' (so_CachePath cfg) = fs (so_CachePath cfg)
    \<or> (\<exists>f rs. ReadRouteFile up contents = Inr (f, rs) \<and> fs' (so_CachePath cfg) = Some (file_bytes f))"
  using assms WriteRouteFile_path [of _ "so_CachePath cfg" _ "io_mkdir io" "io_wrote io" "io_rename io" fs]
  by (fastforce simp: Refresh_def Let_def split: sum.splits if_splits)


lemma run_source_cache:
  "snd (run_source up cfg xs st) (so_CachePath cfg) = snd st (so_CachePath cfg)
   \<or> (\<exists>x \<in> set xs. \<exists>f rs. ReadRouteFile up (fst x) = Inr (f, rs)
        \<and> snd (run_source up cfg xs st) (so_CachePath cfg) = Some (file_bytes f))"
proof (induction xs arbitrary: st rule: rev_induct)
  case Nil
  then show ?case by (simp add: run_source_def)
next
  case (snoc x xs)
  let ?st = "run_source up cfg xs st"
  let ?fss = "fst (snd (Refresh up cfg (fst x) (snd x) (fst ?st) (snd ?st)))"
  have r: "run_source up cfg (xs @ [x]) st = read_once up cfg x ?st"
    by (simp add: run_source_def)
  have "snd (read_once up cfg x ?st) = last ?fss"
    by (simp add: read_once_def split: prod.splits)
  moreover have "?fss \<noteq> []"
    using WriteRouteFile_last by (auto simp: Refresh_def Let_def split: sum.splits)
  ultimately have "snd (read_once up cfg x ?st) \<in> set ?fss"
    by simp
  from Refresh_cache [OF this] snoc [of st] show ?case
    unfolding r by (elim disjE bexE exE conjE) (simp_all, blast+)
qed

text \<open>And it holds exactly the table \<open>keep_cached\<close> says.\<close>

lemma WriteRouteFile_ok:
  "snd (WriteRouteFile path f (io_mkdir io) (io_wrote io) (io_rename io) fs) = None \<longleftrightarrow> io_ok io"
  by (auto simp: WriteRouteFile_def io_ok_def Let_def split: option.splits)

lemma read_once_cached:
  assumes "so_CachePath cfg \<noteq> []"
    and "fs (so_CachePath cfg) = map_option (\<lambda>x. file_bytes (fst x)) c"
  shows "(case read_once up cfg x (s, fs) of (s', fs') \<Rightarrow>
      (so_current s', fs' (so_CachePath cfg))
        = (case keep_cached up (so_current s, c) x of (t, c') \<Rightarrow> (t, map_option (\<lambda>x. file_bytes (fst x)) c')))"
  using assms WriteRouteFile_last [of "so_CachePath cfg"] WriteRouteFile_ok [of "so_CachePath cfg" _ "snd x"]
  by (auto simp: read_once_def Refresh_def keep_cached_def Let_def sameRoutes_iff split: sum.splits prod.splits)

lemma run_source_cached:
  assumes "so_CachePath cfg \<noteq> []"
  shows "fs (so_CachePath cfg) = map_option (\<lambda>x. file_bytes (fst x)) c \<Longrightarrow>
    (case run_source up cfg xs (s, fs) of (s', fs') \<Rightarrow>
      (so_current s', fs' (so_CachePath cfg))
        = (case foldl (keep_cached up) (so_current s, c) xs of (t, c') \<Rightarrow> (t, map_option (\<lambda>x. file_bytes (fst x)) c')))"
proof (induction xs arbitrary: s fs c)
  case (Cons x xs)
  obtain s1 fs1 where r: "read_once up cfg x (s, fs) = (s1, fs1)"
    by fastforce
  obtain t c1 where k: "keep_cached up (so_current s, c) x = (t, c1)"
    by fastforce
  have "so_current s1 = t" "fs1 (so_CachePath cfg) = map_option (\<lambda>x. file_bytes (fst x)) c1"
    using read_once_cached [where s = s and fs = fs and c = c and up = up and x = x, OF assms Cons.prems] by (simp_all add: r k)
  with Cons.IH [of fs1 c1 s1] show ?case
    by (simp add: run_source_def r k)
qed (simp add: run_source_def)

lemma cached_was_read:
  "snd (foldl (keep_cached up) (t, None) xs) = Some (f, rs) \<Longrightarrow> \<exists>x \<in> set xs. ReadRouteFile up (fst x) = Inr (f, rs)"
  by (induction xs rule: rev_induct) (auto simp: keep_cached_def split: sum.splits if_splits)

lemma cached_is_current:
  assumes "list_all (\<lambda>x. io_ok (snd x)) xs" "foldl (keep_cached up) ([], None) xs = (t, c)"
  shows "t = (case c of None \<Rightarrow> [] | Some (_, rs) \<Rightarrow> rs)"
  using assms
proof (induction xs arbitrary: t c rule: rev_induct)
  case (snoc x xs)
  then show ?case
    by (cases "foldl (keep_cached up) ([], None) xs") (auto simp: keep_cached_def split: sum.splits if_splits)
qed simp

lemma parse_entries_sorted:
  "parse_entries up es = Inr rs \<Longrightarrow> parse_entries up (map sorted_entry es) = Inr (map sorted_route rs)"
proof (induction es arbitrary: rs)
  case (Cons e es)
  have r: "re_Upstream (sorted_entry e) = re_Upstream e" "route_of (sorted_entry e) u = sorted_route (route_of e u)" for u
    by (simp_all add: sorted_entry_def route_of_def sorted_route_def)
  show ?case
    using Cons by (auto simp: r split: option.splits if_splits sum.splits)
qed simp

lemma ReadRouteFile_again:
  assumes "ReadRouteFile up contents = Inr (f, rs)" "file_ok f"
  shows "\<exists>f'. ReadRouteFile up (Inr (file_bytes f)) = Inr (f', map sorted_route rs) \<and> rf_Revision f' = rf_Revision f"
proof -
  have "parse_entries up (rf_Routes f) = Inr rs"
    using assms(1) by (auto simp: ReadRouteFile_def file_Parse_def split: sum.splits option.splits)
  from parse_entries_sorted [OF this] file_roundtrip [OF assms(2)] show ?thesis
    by (simp add: ReadRouteFile_def file_Parse_def)
qed

section \<open>Properties\<close>

text \<open>
  The source fails open.  Whatever the file holds at each read, the table in use is the last
  one that could be read, up to claim headers: a file that is missing, malformed or has one bad
  route changes nothing but the recorded error, and the source counts as loaded once any read
  has worked.
\<close>

theorem source_fails_open:
  "sans_headers (so_current (fst (run_source up cfg xs (s, fs))))
      = sans_headers (foldl (last_table up) (so_current s) (map fst xs))
   \<and> (so_loaded (fst (run_source up cfg xs (s, fs))) \<longleftrightarrow> so_loaded s \<or> list_ex (readable up) (map fst xs))
   \<and> (readable up contents \<or> (\<exists>e. read_once up cfg (contents, io) (s, fs) = (s\<lparr>so_lastErr := Some e\<rparr>, fs)))"
proof -
  have "\<exists>e. read_once up cfg (contents, io) (s, fs) = (s\<lparr>so_lastErr := Some e\<rparr>, fs)" if n: "\<not> readable up contents"
  proof -
    obtain e where "ReadRouteFile up contents = Inl e"
      using n by (auto simp: readable_def split: sum.splits)
    then show ?thesis
      by (intro exI [of _ e]) (simp add: read_once_def Refresh_def)
  qed
  then show ?thesis
    using run_source_abs [of up cfg xs "(s, fs)"] by auto
qed

text \<open>
  C34 (a restart keeps the routes).  However the reads and the writes of the cache went, a process
  that starts again loads from the cache, without an error, the last table that was taken up and
  whose write worked, with the revision of its file: \<open>keep_cached\<close> follows the reads, and says which
  that is.  If no write worked there is nothing to load.  If all of them did, and the process had
  begun without routes, the table it starts again with is the one that was in use, claim headers in
  the order of their names.
\<close>

theorem source_survives_restart:
  assumes "so_CachePath cfg \<noteq> []" and "fs (so_CachePath cfg) = None"
    and "run_source up cfg xs (s, fs) = (s', fs')"
    and "\<And>x f rs. x \<in> set xs \<Longrightarrow> ReadRouteFile up (fst x) = Inr (f, rs) \<Longrightarrow> file_ok f"
  shows "case foldl (keep_cached up) (so_current s, None) xs of (table, cached) \<Rightarrow>
    so_current s' = table
    \<and> LoadCache up cfg (stored fs' (so_CachePath cfg)) empty_source
        = ((case cached of
              None \<Rightarrow> empty_source
            | Some (f, rs) \<Rightarrow> \<lparr>so_current = map (\<lambda>r. r\<lparr>rt_ClaimHeaders := sort_key fst (rt_ClaimHeaders r)\<rparr>) rs,
                so_rev = rf_Revision f, so_loaded = True, so_fromCach = True, so_lastErr = None\<rparr>), None)
    \<and> (so_current s = [] \<and> list_all (\<lambda>x. io_ok (snd x)) xs \<longrightarrow>
         so_current (fst (LoadCache up cfg (stored fs' (so_CachePath cfg)) empty_source))
           = map (\<lambda>r. r\<lparr>rt_ClaimHeaders := sort_key fst (rt_ClaimHeaders r)\<rparr>) (so_current s'))"
proof -
  obtain t c where k: "foldl (keep_cached up) (so_current s, None) xs = (t, c)"
    by fastforce
  have st: "so_current s' = t" "fs' (so_CachePath cfg) = map_option (\<lambda>x. file_bytes (fst x)) c"
    using run_source_cached [where fs = fs and c = None and up = up and xs = xs and s = s, OF assms(1)] assms(2,3) by (simp_all add: k)
  have sorted: "(\<lambda>r. r\<lparr>rt_ClaimHeaders := sort_key fst (rt_ClaimHeaders r)\<rparr>) = sorted_route"
    by (simp add: sorted_route_def fun_eq_iff)
  have load: "LoadCache up cfg (stored fs' (so_CachePath cfg)) empty_source
        = ((case c of
              None \<Rightarrow> empty_source
            | Some (f, rs) \<Rightarrow> \<lparr>so_current = map sorted_route rs,
                so_rev = rf_Revision f, so_loaded = True, so_fromCach = True, so_lastErr = None\<rparr>), None)"
  proof (cases c)
    case None
    with st show ?thesis
      using assms(1) by (simp add: LoadCache_def stored_def ReadRouteFile_def)
  next
    case (Some frs)
    then obtain f rs where c: "c = Some (f, rs)"
      by (cases frs) simp
    obtain x where x: "x \<in> set xs" "ReadRouteFile up (fst x) = Inr (f, rs)"
      using cached_was_read [of up "so_current s" xs f rs] k c by auto
    obtain f' where "ReadRouteFile up (Inr (file_bytes f)) = Inr (f', map sorted_route rs)" "rf_Revision f' = rf_Revision f"
      using ReadRouteFile_again [OF x(2) assms(4) [OF x]] by blast
    with st c show ?thesis
      using assms(1) by (simp add: LoadCache_def stored_def empty_source_def)
  qed
  have "so_current (case c of None \<Rightarrow> empty_source | Some (f, rs) \<Rightarrow> \<lparr>so_current = map sorted_route rs,
                so_rev = rf_Revision f, so_loaded = True, so_fromCach = True, so_lastErr = None\<rparr>) = map sorted_route t"
    if "so_current s = []" "list_all (\<lambda>x. io_ok (snd x)) xs"
    using cached_is_current [OF that(2), of up t c] k that(1) by (auto simp: empty_source_def split: option.splits)
  with load st k show ?thesis
    unfolding sorted by simp
qed

section \<open>The properties on a concrete source\<close>

definition example_file :: route_file where
  "example_file = \<lparr>rf_Revision = 7, rf_Gateway = ''gw'',
     rf_Routes = [\<lparr>re_Name = ''a'', re_Hostnames = [], re_PathPrefix = [], re_Upstream = ''http://a'', re_Audience = ''a.ns'',
       re_Tenant = [], re_ClaimHeaders = []\<rparr>]\<rparr>"

definition example_source_cfg :: source_cfg where
  "example_source_cfg = \<lparr>so_Path = ''/r'', so_CachePath = ''/c'', so_Interval = 0\<rparr>"

definition good_io :: cache_io where
  "good_io = \<lparr>io_mkdir = True, io_wrote = None, io_rename = True\<rparr>"

lemma example_file_ok: "file_ok example_file"
  by (simp add: file_ok_def example_file_def entry_ok_def in_s64_def valid_utf8_ascii bv_def)

lemma example_read: "\<exists>rs. ReadRouteFile toy_url (Inr (file_bytes example_file)) = Inr (example_file, rs) \<and> length rs = 1"
proof -
  have "example_file\<lparr>rf_Routes := map sorted_entry (rf_Routes example_file)\<rparr> = example_file"
    by (simp add: example_file_def sorted_entry_def)
  moreover have "\<not> blank ''a.ns''"
    by code_simp
  moreover have "toy_url ''http://a'' = Some (''http://a'', ''a'')"
    by code_simp
  ultimately show ?thesis
    by (simp add: ReadRouteFile_def file_roundtrip [OF example_file_ok] file_Parse_def)
      (simp add: example_file_def route_of_def route_Valid_def)
qed

theorem source_survives_restart_witness:
  "\<exists>s' fs'. run_source toy_url example_source_cfg [(Inr (file_bytes example_file), good_io), (Inr ''not json'', good_io)]
       (empty_source, Map.empty) = (s', fs')
     \<and> length (so_current s') = 1
     \<and> length (so_current (fst (LoadCache toy_url example_source_cfg (stored fs' ''/c'') empty_source))) = 1
     \<and> so_rev (fst (LoadCache toy_url example_source_cfg (stored fs' ''/c'') empty_source)) = 7"
proof -
  let ?xs = "[(Inr (file_bytes example_file), good_io), (Inr ''not json'', good_io)]"
  obtain s' fs' where r: "run_source toy_url example_source_cfg ?xs (empty_source, Map.empty) = (s', fs')"
    by fastforce
  obtain rs where rd: "ReadRouteFile toy_url (Inr (file_bytes example_file)) = Inr (example_file, rs)" "length rs = 1"
    using example_read by blast
  have bad: "ReadRouteFile toy_url (Inr ''not json'') = Inl (Error Plain ''parse'')"
    by code_simp
  have c: "so_CachePath example_source_cfg = ''/c''"
    by (simp add: example_source_cfg_def)
  have "sans_headers [] \<noteq> sans_headers rs" "io_ok good_io"
    using rd(2) by (auto simp: sans_headers_def io_ok_def good_io_def)
  then have k: "foldl (keep_cached toy_url) (so_current empty_source, None) ?xs = (rs, Some (example_file, rs))"
    using rd(1) bad by (simp add: keep_cached_def empty_source_def)
  have "file_ok f" if "x \<in> set ?xs" "ReadRouteFile toy_url (fst x) = Inr (f, rs')" for x f rs'
    using that rd bad example_file_ok by auto
  then show ?thesis
    using source_survives_restart [OF _ _ r] r rd(2) unfolding k prod.case c by (simp add: example_file_def)
qed

text \<open>
  The comparison leaves out the claim headers, so an edit that changes only those is not taken
  up, while the revision moves on.
\<close>

lemma claim_header_edit_ignored:
  assumes "ReadRouteFile up contents = Inr (f, [r\<lparr>rt_ClaimHeaders := hs\<rparr>])" "so_current s = [r]"
  shows "so_current (fst (Refresh up cfg contents io s fs)) = [r] \<and> so_rev (fst (Refresh up cfg contents io s fs)) = rf_Revision f"
proof -
  have "sameRoutes [r] [r\<lparr>rt_ClaimHeaders := hs\<rparr>]"
    by (simp add: sameRoutes_iff sans_headers_def)
  with assms show ?thesis
    by (simp add: Refresh_source)
qed

end
