(* ===== verification/Watcher.thy ===== *)
theory Watcher
  imports FileSource GatewayRoutes
begin

text \<open>
  \<open>gateway/watcher.go\<close>: a route table kept in step with the HTTPRoutes by polling the API server.
  One read takes what the client gives for the Gateway and the two lists.  The contract of a
  polled table is the locale \<open>polled_table\<close>; the watcher and the file source both provide it.
\<close>

section \<open>The contract of a polled table\<close>

text \<open>
  A consumer that is told of each new table: its table after a run of steps.  \<open>step\<close> gives the
  new state and the table passed to \<open>OnChange\<close>, if any.
\<close>

fun follow :: "('i \<Rightarrow> 's \<Rightarrow> 's \<times> 'a option) \<Rightarrow> 'i list \<Rightarrow> 's \<times> 'a \<Rightarrow> 's \<times> 'a" where
  "follow step [] (s, t) = (s, t)"
| "follow step (x # xs) (s, t) =
     (case step x s of (s', changed) \<Rightarrow> follow step xs (s', case changed of None \<Rightarrow> t | Some t' \<Rightarrow> t'))"

definition latest :: "('i \<Rightarrow> 'a option) \<Rightarrow> 'a \<Rightarrow> 'i \<Rightarrow> 'a" where
  "latest found t x = (case found x of None \<Rightarrow> t | Some u \<Rightarrow> u)"

locale polled_table =
  fixes found :: "'i \<Rightarrow> route list option"
    and current :: "'s \<Rightarrow> route list"
    and step :: "'i \<Rightarrow> 's \<Rightarrow> 's \<times> route list option"
  assumes step_failed: "found x = None \<Longrightarrow> step x s = (s', c) \<Longrightarrow> current s' = current s \<and> c = None"
    and step_same: "found x = Some t \<Longrightarrow> sans_headers (current s) = sans_headers t \<Longrightarrow> step x s = (s', c) \<Longrightarrow>
      current s' = current s \<and> c = None"
    and step_new: "found x = Some t \<Longrightarrow> sans_headers (current s) \<noteq> sans_headers t \<Longrightarrow> step x s = (s', c) \<Longrightarrow>
      current s' = t \<and> c = Some t"
begin

lemma step_current:
  assumes "step x s = (s', c)"
  shows "sans_headers (current s') = sans_headers (latest found (current s) x)"
    and "current s' = (case c of None \<Rightarrow> current s | Some t \<Rightarrow> t)"
proof -
  show "sans_headers (current s') = sans_headers (latest found (current s) x)"
  proof (cases "found x")
    case None
    with step_failed [OF None assms] show ?thesis
      by (simp add: latest_def)
  next
    case (Some t)
    with step_same [OF Some _ assms] step_new [OF Some _ assms] show ?thesis
      by (cases "sans_headers (current s) = sans_headers t") (simp_all add: latest_def)
  qed
  show "current s' = (case c of None \<Rightarrow> current s | Some t \<Rightarrow> t)"
  proof (cases "found x")
    case None
    with step_failed [OF None assms] show ?thesis
      by simp
  next
    case (Some t)
    with step_same [OF Some _ assms] step_new [OF Some _ assms] show ?thesis
      by (cases "sans_headers (current s) = sans_headers t") simp_all
  qed
qed

text \<open>The table is the last one found, and a consumer that is told of the changes has it too.\<close>

lemma follow_current:
  "follow step xs (s, t) = (s', t') \<Longrightarrow> sans_headers (current s) = sans_headers t0 \<Longrightarrow>
     sans_headers (current s') = sans_headers (foldl (latest found) t0 xs)"
proof (induction xs arbitrary: s t t0)
  case (Cons x xs)
  obtain s1 c where s1: "step x s = (s1, c)"
    by fastforce
  have "sans_headers (current s1) = sans_headers (latest found t0 x)"
    using step_current(1) [OF s1] Cons.prems(2) by (simp add: latest_def split: option.splits)
  with Cons.IH [of s1 "case c of None \<Rightarrow> t | Some t' \<Rightarrow> t'"] Cons.prems(1) s1 show ?case
    by simp
qed simp

lemma follow_consumer: "follow step xs (s, current s) = (s', t') \<Longrightarrow> t' = current s'"
proof (induction xs arbitrary: s)
  case (Cons x xs)
  obtain s1 c where s1: "step x s = (s1, c)"
    by fastforce
  with Cons.IH [of s1] Cons.prems step_current(2) [OF s1] show ?case
    by simp
qed simp

end

section \<open>The watcher\<close>

record watcher =
  wt_current :: "route list"
  wt_rev :: int
  wt_lastErr :: "error option"

definition empty_watcher :: watcher where
  "empty_watcher = \<lparr>wt_current = [], wt_rev = 0, wt_lastErr = None\<rparr>"

record cluster_read =
  cr_gateway :: "gw_gateway result"
  cr_routes :: "http_route list result"
  cr_services :: "service list result"

definition sameTable :: "route list \<Rightarrow> route list \<Rightarrow> bool" where
  "sameTable a b \<longleftrightarrow>
     length a = length b \<and>
     list_all (\<lambda>i.
       \<not> (rt_Name (a ! i) \<noteq> rt_Name (b ! i) \<or> rt_PathPrefix (a ! i) \<noteq> rt_PathPrefix (b ! i)
          \<or> rt_Audience (a ! i) \<noteq> rt_Audience (b ! i) \<or> rt_Tenant (a ! i) \<noteq> rt_Tenant (b ! i)
          \<or> rt_Upstream (a ! i) \<noteq> rt_Upstream (b ! i)
          \<or> length (rt_Hostnames (a ! i)) \<noteq> length (rt_Hostnames (b ! i)))
       \<and> list_all (\<lambda>j. rt_Hostnames (a ! i) ! j = rt_Hostnames (b ! i) ! j) [0..<length (rt_Hostnames (a ! i))])
       [0..<length a]"

text \<open>The calls of the client in their order: the first that fails ends the refresh.\<close>

definition read_table :: "(string \<Rightarrow> string) \<Rightarrow> url_parse \<Rightarrow> (string \<Rightarrow> string) \<Rightarrow> cluster_read \<Rightarrow> route list result" where
  "read_table q up ul c =
     (case cr_gateway c of
        Inl e \<Rightarrow> Inl e
      | Inr gw \<Rightarrow>
          (case cr_routes c of
             Inl e \<Rightarrow> Inl e
           | Inr routes \<Rightarrow>
               (case cr_services c of
                  Inl e \<Rightarrow> Inl e
                | Inr services \<Rightarrow> Inr (fst (Translate q up ul gw routes services)))))"

text \<open>\<open>Refresh\<close>: the state after it, the table given to \<open>OnChange\<close>, and the error.\<close>

definition watcher_Refresh :: "(string \<Rightarrow> string) \<Rightarrow> url_parse \<Rightarrow> (string \<Rightarrow> string) \<Rightarrow> cluster_read \<Rightarrow> watcher
    \<Rightarrow> watcher \<times> route list option \<times> error option" where
  "watcher_Refresh q up ul c w =
     (case read_table q up ul c of
        Inl e \<Rightarrow> (w, None, Some e)
      | Inr table \<Rightarrow>
          if \<not> sameTable (wt_current w) table
          then (w\<lparr>wt_current := table, wt_rev := (wt_rev w + 1) mod 2 ^ 64\<rparr>, Some table, None)
          else (w, None, None))"

text \<open>The closure \<open>refresh\<close> of \<open>Run\<close>.\<close>

definition watcher_refresh :: "(string \<Rightarrow> string) \<Rightarrow> url_parse \<Rightarrow> (string \<Rightarrow> string) \<Rightarrow> cluster_read \<Rightarrow> watcher
    \<Rightarrow> watcher \<times> route list option" where
  "watcher_refresh q up ul c w =
     (case watcher_Refresh q up ul c w of (w', changed, err) \<Rightarrow> (w'\<lparr>wt_lastErr := err\<rparr>, changed))"

definition watcher_interval :: "duration \<Rightarrow> duration" where
  "watcher_interval i = (if i \<le> 0 then 5 * Second else i)"

definition watcher_Run :: "(string \<Rightarrow> string) \<Rightarrow> url_parse \<Rightarrow> (string \<Rightarrow> string) \<Rightarrow> cluster_read list
    \<Rightarrow> watcher \<times> route list \<Rightarrow> watcher \<times> route list" where
  "watcher_Run q up ul = follow (watcher_refresh q up ul)"

section \<open>Both provide the contract\<close>

lemma sameTable_sameRoutes: "sameTable a b \<longleftrightarrow> sameRoutes a b"
  unfolding sameTable_def sameRoutes_def sameRoute_def ..

definition found_table :: "(string \<Rightarrow> string) \<Rightarrow> url_parse \<Rightarrow> (string \<Rightarrow> string) \<Rightarrow> cluster_read \<Rightarrow> route list option" where
  "found_table q up ul c = (case read_table q up ul c of Inl _ \<Rightarrow> None | Inr t \<Rightarrow> Some t)"

interpretation watched: polled_table "found_table q up ul" wt_current "watcher_refresh q up ul"
  by unfold_locales
    (auto simp: watcher_refresh_def watcher_Refresh_def found_table_def sameTable_sameRoutes sameRoutes_iff
      split: sum.splits if_splits)

text \<open>The file source, with the table it gives to \<open>OnChange\<close>.\<close>

definition source_step :: "url_parse \<Rightarrow> source_cfg \<Rightarrow> string result \<times> cache_io \<Rightarrow> source \<times> file_sys
    \<Rightarrow> (source \<times> file_sys) \<times> route list option" where
  "source_step up cfg x st =
     (case Refresh up cfg (fst x) (snd x) (fst st) (snd st) of
        (s, fss, changed, err) \<Rightarrow> ((s\<lparr>so_lastErr := err\<rparr>, last fss), changed))"

lemma source_step_read_once: "fst (source_step up cfg x st) = read_once up cfg x st"
  by (simp add: source_step_def read_once_def split: prod.splits)

definition found_file :: "url_parse \<Rightarrow> string result \<times> cache_io \<Rightarrow> route list option" where
  "found_file up x = (case ReadRouteFile up (fst x) of Inl _ \<Rightarrow> None | Inr (_, rs) \<Rightarrow> Some rs)"

interpretation filed: polled_table "found_file up" "so_current \<circ> fst" "source_step up cfg"
  by unfold_locales
    (auto simp: source_step_def Refresh_def found_file_def Let_def sameRoutes_iff
      split: sum.splits prod.splits if_splits)

section \<open>Properties\<close>

text \<open>The watcher's error and revision after a run.\<close>

lemma watcher_refresh_err:
  "watcher_refresh q up ul c w = (w', changed) \<Longrightarrow>
     wt_lastErr w' = (case read_table q up ul c of Inl e \<Rightarrow> Some e | Inr _ \<Rightarrow> None)
     \<and> wt_rev w' = (if changed = None then wt_rev w else (wt_rev w + 1) mod 2 ^ 64)"
  by (auto simp: watcher_refresh_def watcher_Refresh_def split: sum.splits if_splits)

lemma follow_append: "follow step (xs @ ys) st = follow step ys (follow step xs st)"
  by (induction step xs st rule: follow.induct) (auto split: prod.splits)

text \<open>
  The watcher fails open.  However the reads of the API server went, the watcher's table and
  the table of a consumer it notifies are the translation of the last state that could be read
  whole, up to the claim headers, which the comparison leaves out; the recorded error is that of
  the last read.
\<close>

theorem watcher_fails_open:
  assumes "watcher_Run q up ul cs (empty_watcher, []) = (w, consumer)"
  shows "consumer = wt_current w
    \<and> sans_headers (wt_current w)
        = sans_headers (foldl (\<lambda>t c. case read_table q up ul c of Inl _ \<Rightarrow> t | Inr u \<Rightarrow> u) [] cs)
    \<and> (if cs = [] then wt_lastErr w = None
       else wt_lastErr w = (case read_table q up ul (last cs) of Inl e \<Rightarrow> Some e | Inr _ \<Rightarrow> None))"
proof -
  have l: "latest (found_table q up ul) = (\<lambda>t c. case read_table q up ul c of Inl _ \<Rightarrow> t | Inr u \<Rightarrow> u)"
    by (auto simp: fun_eq_iff latest_def found_table_def split: sum.splits)
  have "wt_lastErr w = (case read_table q up ul (last cs) of Inl e \<Rightarrow> Some e | Inr _ \<Rightarrow> None)" if ne: "cs \<noteq> []"
  proof -
    obtain cs0 c where cs: "cs = cs0 @ [c]"
      using ne by (cases cs rule: rev_cases) auto
    obtain w0 t0 w1 ch where "follow (watcher_refresh q up ul) cs0 (empty_watcher, []) = (w0, t0)"
        "watcher_refresh q up ul c w0 = (w1, ch)"
      by fastforce
    with assms watcher_refresh_err [OF this(2)] show ?thesis
      by (auto simp: watcher_Run_def cs follow_append)
  qed
  moreover have "wt_lastErr w = None" if "cs = []"
    using assms that by (auto simp: watcher_Run_def empty_watcher_def)
  ultimately show ?thesis
    using watched.follow_current [of q up ul cs empty_watcher "[]" w consumer "[]"]
      watched.follow_consumer [of q up ul cs empty_watcher w consumer] assms
    by (simp add: watcher_Run_def empty_watcher_def l)
qed

theorem watcher_fails_open_witness:
  "\<exists>w. watcher_Run id toy_url id
      [\<lparr>cr_gateway = Inr example_gw, cr_routes = Inr example_routes, cr_services = Inr example_services\<rparr>,
       \<lparr>cr_gateway = Inl (Error Plain ''down''), cr_routes = Inr [], cr_services = Inr []\<rparr>] (empty_watcher, [])
     = (w, wt_current w) \<and> map rt_Name (wt_current w) = [''ns/a#0.0'', ''ns/b.v2#0.0''] \<and> wt_lastErr w \<noteq> None"
proof -
  let ?cs = "[\<lparr>cr_gateway = Inr example_gw, cr_routes = Inr example_routes, cr_services = Inr example_services\<rparr>,
       \<lparr>cr_gateway = Inl (Error Plain ''down''), cr_routes = Inr [], cr_services = Inr []\<rparr>]"
  obtain w t where w: "watcher_Run id toy_url id ?cs (empty_watcher, []) = (w, t)"
    by fastforce
  have t: "fst (Translate id toy_url id example_gw example_routes example_services) = [translated ''ns/a#0.0'', translated ''ns/b.v2#0.0'']"
    by (simp add: example_translated)
  have "sans_headers (wt_current w) = sans_headers [translated ''ns/a#0.0'', translated ''ns/b.v2#0.0'']"
      "wt_lastErr w = Some (Error Plain ''down'')" "t = wt_current w"
    using watcher_fails_open [OF w] by (simp_all add: read_table_def t)
  moreover have n: "map rt_Name (sans_headers rs) = map rt_Name rs" for rs
    by (simp add: sans_headers_def)
  ultimately have "map rt_Name (wt_current w) = map rt_Name [translated ''ns/a#0.0'', translated ''ns/b.v2#0.0'']"
    by (metis n)
  then have "map rt_Name (wt_current w) = [''ns/a#0.0'', ''ns/b.v2#0.0'']"
    by (simp add: translated_def)
  with w \<open>t = wt_current w\<close> \<open>wt_lastErr w = Some (Error Plain ''down'')\<close> show ?thesis
    by auto
qed

end
