(* ===== verification/Reconcile.thy ===== *)
theory Reconcile
  imports Provision Watcher
begin

text \<open>
  \<open>gateway/reconcile.go\<close>: the controller.  The API server is a store of objects, the record
  \<open>cluster\<close>; \<open>api\<close> gives the error, if any, of each call a reconcile makes.  \<open>CreateOrUpdate\<close>
  of the controller runtime reads an object, applies the caller's changes and writes it when it
  changed; an owner reference is the name of the owning Gateway, which lives in the same
  namespace.  The store keeps an object as it was written (defaults that a real API server fills in
  are not modelled), and beside the objects a log of the writes issued, those it refused included.
  \<open>now\<close> is the clock of the reconcile.
\<close>

section \<open>Conditions\<close>

fun set_condition_loop :: "condition \<Rightarrow> condition list \<Rightarrow> condition list" where
  "set_condition_loop c [] = [c]"
| "set_condition_loop c (x # xs) =
     (if co_Type x \<noteq> co_Type c then x # set_condition_loop c xs
      else (if co_Status x = co_Status c then c\<lparr>co_LastTransitionTime := co_LastTransitionTime x\<rparr> else c) # xs)"

definition setCondition :: "gotime \<Rightarrow> condition \<Rightarrow> condition list \<Rightarrow> condition list" where
  "setCondition now c conds =
     set_condition_loop (if IsZero (co_LastTransitionTime c) then c\<lparr>co_LastTransitionTime := now\<rparr> else c) conds"

record parent_status =
  pst_ParentRef :: parent_ref
  pst_ControllerName :: string
  pst_Conditions :: "condition list"

record route_obj =
  ht_Route :: http_route
  ht_Parents :: "parent_status list"

definition ControllerName :: string where
  "ControllerName = ''tsjwt.dev/gateway-controller''"

definition parentRefEqual :: "parent_ref \<Rightarrow> parent_ref \<Rightarrow> bool" where
  "parentRefEqual a b \<longleftrightarrow>
     pa_Name a = pa_Name b
     \<and> ((pa_Namespace a = None \<and> pa_Namespace b = None)
        \<or> (pa_Namespace a \<noteq> None \<and> pa_Namespace b \<noteq> None \<and> the (pa_Namespace a) = the (pa_Namespace b)))"

definition same_condition :: "condition \<Rightarrow> condition \<Rightarrow> bool" where
  "same_condition c cond \<longleftrightarrow>
     co_Status c = co_Status cond \<and> co_Reason c = co_Reason cond \<and> co_Message c = co_Message cond
     \<and> co_ObservedGeneration c = co_ObservedGeneration cond"

text \<open>\<open>upsertRouteParentCondition\<close>: the parents after it and whether anything changed.\<close>

fun upsert_parents :: "gotime \<Rightarrow> parent_ref \<Rightarrow> condition \<Rightarrow> parent_status list \<Rightarrow> parent_status list \<times> bool" where
  "upsert_parents now ref cond [] =
     ([\<lparr>pst_ParentRef = ref, pst_ControllerName = ControllerName, pst_Conditions = [cond]\<rparr>], True)"
| "upsert_parents now ref cond (p # ps) =
     (if pst_ControllerName p \<noteq> ControllerName \<or> \<not> parentRefEqual (pst_ParentRef p) ref
      then (case upsert_parents now ref cond ps of (ps', changed) \<Rightarrow> (p # ps', changed))
      else
        (case find (\<lambda>c. co_Type c = co_Type cond) (pst_Conditions p) of
           Some c \<Rightarrow>
             if same_condition c cond then (p # ps, False)
             else (p\<lparr>pst_Conditions := setCondition now cond (pst_Conditions p)\<rparr> # ps, True)
         | None \<Rightarrow> (p\<lparr>pst_Conditions := setCondition now cond (pst_Conditions p)\<rparr> # ps, True)))"

definition upsertRouteParentCondition :: "gotime \<Rightarrow> parent_ref \<Rightarrow> condition \<Rightarrow> route_obj \<Rightarrow> route_obj \<times> bool" where
  "upsertRouteParentCondition now ref cond r =
     (case upsert_parents now ref cond (ht_Parents r) of (ps, changed) \<Rightarrow> (r\<lparr>ht_Parents := ps\<rparr>, changed))"

section \<open>The cluster\<close>

datatype object_kind = KConfigMap | KServiceAccount | KRole | KRoleBinding | KService | KStatefulSet

type_synonym object_key = "object_kind \<times> string \<times> string"

text \<open>The content of an object; a StatefulSet has its number of ready replicas beside it.\<close>

datatype k8s_spec =
    ConfigMapSpec "(string \<times> string) list"
  | AccountSpec
  | RoleSpec "policy_rule list"
  | BindingSpec role_ref "rbac_subject list"
  | ServiceSpec labels "service_port list"
  | StatefulSetSpec stateful_set int

record k8s_obj =
  ko_Labels :: labels
  ko_Owner :: "string option"
  ko_Spec :: k8s_spec

record gateway_obj =
  go_Gateway :: gw_gateway
  go_Class :: string
  go_Conditions :: "condition list"
  go_Addresses :: "string list"

record class_obj =
  gc_ControllerName :: string
  gc_Generation :: int
  gc_Conditions :: "condition list"

datatype api_call =
    GetGateway | GetClass | ListRoutes | ListServices
  | UpdateRouteStatus string | GetObject object_kind | WriteObject object_kind | UpdateGatewayStatus | UpdateClassStatus

record cluster =
  cl_Gateways :: "((string \<times> string) \<times> gateway_obj) list"
  cl_Classes :: "(string \<times> class_obj) list"
  cl_Routes :: "route_obj list"
  cl_Objects :: "(object_key \<times> k8s_obj) list"
  cl_Writes :: "api_call list"

type_synonym api = "api_call \<Rightarrow> error option"

definition service_of :: "object_key \<times> k8s_obj \<Rightarrow> service option" where
  "service_of ko =
     (case ko of
        ((k, ns, name), ob) \<Rightarrow>
          (case ko_Spec ob of
             ServiceSpec _ ports \<Rightarrow> Some \<lparr>sv_Namespace = ns, sv_Name = name, sv_Ports = map sp_Port ports\<rparr>
           | _ \<Rightarrow> None))"

definition list_services :: "cluster \<Rightarrow> service list" where
  "list_services cl = List.map_filter service_of (cl_Objects cl)"

section \<open>apply\<close>

text \<open>
  What \<open>apply\<close> asks for: the key, the object as built, and the changes made to what is there.
\<close>

type_synonym apply_step = "object_key \<times> k8s_obj \<times> (k8s_obj \<Rightarrow> k8s_obj)"

definition set_owner :: "string \<Rightarrow> k8s_obj \<Rightarrow> k8s_obj result" where
  "set_owner gw ob =
     (if ko_Owner ob \<noteq> None \<and> ko_Owner ob \<noteq> Some gw then Inl (Error Plain ''already owned'')
      else Inr (ob\<lparr>ko_Owner := Some gw\<rparr>))"

text \<open>\<open>CreateOrUpdate\<close>: the objects after it, the writes it issued, and the object itself.\<close>

definition apply_obj :: "api \<Rightarrow> string \<Rightarrow> apply_step \<Rightarrow> (object_key \<times> k8s_obj) list
    \<Rightarrow> (object_key \<times> k8s_obj) list \<times> api_call list \<times> k8s_obj result" where
  "apply_obj api gw step obs =
     (case step of
        (key, built, mutate) \<Rightarrow>
          (case api (GetObject (fst key)) of
             Some e \<Rightarrow> (obs, [], Inl e)
           | None \<Rightarrow>
               (let existing = map_of obs key
                in case set_owner gw (mutate (case existing of None \<Rightarrow> built | Some ob \<Rightarrow> ob)) of
                     Inl e \<Rightarrow> (obs, [], Inl e)
                   | Inr ob \<Rightarrow>
                       if existing = Some ob then (obs, [], Inr ob)
                       else
                         (case api (WriteObject (fst key)) of
                            Some e \<Rightarrow> (obs, [WriteObject (fst key)], Inl e)
                          | None \<Rightarrow> (AList.update key ob obs, [WriteObject (fst key)], Inr ob)))))"

fun apply_all :: "api \<Rightarrow> string \<Rightarrow> apply_step list \<Rightarrow> (object_key \<times> k8s_obj) list
    \<Rightarrow> (object_key \<times> k8s_obj) list \<times> api_call list \<times> error option" where
  "apply_all api gw [] obs = (obs, [], None)"
| "apply_all api gw (s # ss) obs =
     (case apply_obj api gw s obs of
        (obs', ws, Inl e) \<Rightarrow> (obs', ws, Some e)
      | (obs', ws, Inr _) \<Rightarrow>
          (case apply_all api gw ss obs' of (obs2, ws2, err) \<Rightarrow> (obs2, ws @ ws2, err)))"

definition set_spec :: "k8s_spec \<Rightarrow> k8s_obj \<Rightarrow> k8s_obj" where
  "set_spec s ob = ob\<lparr>ko_Spec := s\<rparr>"

text \<open>\<open>svc.Spec.Selector = \<dots>\<close>: the ports of a Service that is there are left alone.\<close>

definition set_selector :: "labels \<Rightarrow> k8s_obj \<Rightarrow> k8s_obj" where
  "set_selector sel ob = (case ko_Spec ob of ServiceSpec _ ports \<Rightarrow> ob\<lparr>ko_Spec := ServiceSpec sel ports\<rparr> | _ \<Rightarrow> ob)"

definition base_steps :: "gw_gateway \<Rightarrow> string \<Rightarrow> apply_step list" where
  "base_steps gw rendered =
     (let ns = gw_Namespace gw; ob = (\<lambda>spec. \<lparr>ko_Labels = n_labels gw, ko_Owner = None, ko_Spec = spec\<rparr>);
          role = rlo_Rules (KeysRole gw); rb = KeysRoleBinding gw; svc = Service gw
      in [((KConfigMap, ns, n_routes gw), ob (ConfigMapSpec (cmo_Data (RoutesConfigMap gw rendered))),
             set_spec (ConfigMapSpec [(''routes.json'', rendered)])),
          ((KServiceAccount, ns, n_serviceAccount gw), ob AccountSpec, id),
          ((KRole, ns, n_keys gw), ob (RoleSpec role), set_spec (RoleSpec role)),
          ((KRoleBinding, ns, n_keys gw), ob (BindingSpec (rbo_RoleRef rb) (rbo_Subjects rb)),
             set_spec (BindingSpec (rbo_RoleRef rb) (rbo_Subjects rb))),
          ((KService, ns, n_service gw), ob (ServiceSpec (svo_Selector svc) (svo_Ports svc)), set_selector (n_labels gw))])"

definition empty_template :: pod_template where
  "empty_template = \<lparr>pt_Labels = [], pt_ServiceAccount = [], pt_Security = None, pt_Containers = [], pt_Volumes = [], pt_NodeSelector = []\<rparr>"

definition empty_sts :: "object_meta \<Rightarrow> stateful_set" where
  "empty_sts m =
     \<lparr>ss_Meta = \<lparr>om_Name = om_Name m, om_Namespace = om_Namespace m, om_Labels = []\<rparr>, ss_ServiceName = [], ss_Replicas = 0,
      ss_PodManagement = [], ss_Selector = [], ss_Template = empty_template, ss_Claims = []\<rparr>"

text \<open>The mutable half of the StatefulSet; its volume claims only when it has none.\<close>

definition mutate_sts :: "stateful_set \<Rightarrow> k8s_obj \<Rightarrow> k8s_obj" where
  "mutate_sts want ob =
     (case ko_Spec ob of
        StatefulSetSpec s ready \<Rightarrow>
          ob\<lparr>ko_Labels := om_Labels (ss_Meta want),
             ko_Spec := StatefulSetSpec
               (s\<lparr>ss_Meta := (ss_Meta s)\<lparr>om_Labels := om_Labels (ss_Meta want)\<rparr>,
                  ss_ServiceName := ss_ServiceName want, ss_Replicas := ss_Replicas want,
                  ss_PodManagement := ss_PodManagement want, ss_Selector := ss_Selector want,
                  ss_Template := ss_Template want,
                  ss_Claims := (if ss_Claims s = [] then ss_Claims want else ss_Claims s)\<rparr>) ready\<rparr>
      | _ \<Rightarrow> ob)"

definition sts_step :: "gw_gateway \<Rightarrow> stateful_set \<Rightarrow> apply_step" where
  "sts_step gw want =
     ((KStatefulSet, gw_Namespace gw, n_statefulSet gw),
      \<lparr>ko_Labels = [], ko_Owner = None, ko_Spec = StatefulSetSpec (empty_sts (ss_Meta want)) 0\<rparr>, mutate_sts want)"

definition ready_replicas :: "k8s_obj \<Rightarrow> int" where
  "ready_replicas ob = (case ko_Spec ob of StatefulSetSpec _ n \<Rightarrow> n | _ \<Rightarrow> 0)"

section \<open>Status\<close>

text \<open>
  One route of \<open>applyRouteStatus\<close>, with the writes issued: one that fails is only logged and leaves the
  stored route.
\<close>

definition route_status :: "api \<Rightarrow> gotime \<Rightarrow> gw_gateway \<Rightarrow> route_error list \<Rightarrow> route_obj \<Rightarrow> route_obj \<times> api_call list" where
  "route_status api now gw errs r =
     (if \<not> attachedTo gw (ht_Route r) then (r, [])
      else
        (case upsertRouteParentCondition now (parentRefToGateway gw) (routeAcceptedCondition now (ht_Route r) errs) r of
           (r', changed) \<Rightarrow>
             if \<not> changed then (r, [])
             else (case api (UpdateRouteStatus (route_key (ht_Route r))) of
                     Some _ \<Rightarrow> (r, [UpdateRouteStatus (route_key (ht_Route r))])
                   | None \<Rightarrow> (r', [UpdateRouteStatus (route_key (ht_Route r))]))))"

abbreviation status_route :: "api \<Rightarrow> gotime \<Rightarrow> gw_gateway \<Rightarrow> route_error list \<Rightarrow> route_obj \<Rightarrow> route_obj" where
  "status_route api now gw errs r \<equiv> fst (route_status api now gw errs r)"

abbreviation status_writes :: "api \<Rightarrow> gotime \<Rightarrow> gw_gateway \<Rightarrow> route_error list \<Rightarrow> route_obj list \<Rightarrow> api_call list" where
  "status_writes api now gw errs rs \<equiv> concat (map (\<lambda>r. snd (route_status api now gw errs r)) rs)"

definition applyRouteStatus :: "api \<Rightarrow> gotime \<Rightarrow> gw_gateway \<Rightarrow> route_error list \<Rightarrow> cluster \<Rightarrow> cluster" where
  "applyRouteStatus api now gw errs cl =
     cl\<lparr>cl_Routes := map (status_route api now gw errs) (cl_Routes cl),
        cl_Writes := cl_Writes cl @ status_writes api now gw errs (cl_Routes cl)\<rparr>"

definition programmed_condition :: "gw_gateway \<Rightarrow> int \<Rightarrow> nat \<Rightarrow> condition" where
  "programmed_condition gw ready routeCount =
     \<lparr>co_Type = ''Programmed'', co_Status = (if ready > 0 then ''True'' else ''False''),
      co_ObservedGeneration = gw_Generation gw, co_LastTransitionTime = zero_time,
      co_Reason = (if ready > 0 then ''Programmed'' else ''Pending''),
      co_Message = (if ready > 0
        then Itoa ready @ '' replica(s) ready, serving '' @ Itoa (int routeCount) @ '' route(s)''
        else ''the data plane is not ready yet'')\<rparr>"

definition accepted_condition :: "int \<Rightarrow> condition" where
  "accepted_condition gen =
     \<lparr>co_Type = ''Accepted'', co_Status = ''True'', co_ObservedGeneration = gen, co_LastTransitionTime = zero_time,
      co_Reason = ''Accepted'', co_Message = ''accepted by tsjwt''\<rparr>"

definition gateway_status :: "gotime \<Rightarrow> int \<Rightarrow> nat \<Rightarrow> gateway_obj \<Rightarrow> gateway_obj" where
  "gateway_status now ready routeCount g =
     (let gw = go_Gateway g;
          conds = setCondition now (programmed_condition gw ready routeCount)
                    (setCondition now (accepted_condition (gw_Generation gw)) (go_Conditions g))
      in g\<lparr>go_Conditions := conds, go_Addresses := (if ready > 0 then [node_hostname gw] else go_Addresses g)\<rparr>)"

section \<open>Reconcile\<close>

text \<open>\<open>render\<close>: the file's text and the number of routes, after the statuses were written.\<close>

definition render :: "api \<Rightarrow> (string \<Rightarrow> string) \<Rightarrow> url_parse \<Rightarrow> (string \<Rightarrow> string) \<Rightarrow> gotime \<Rightarrow> gw_gateway \<Rightarrow> cluster
    \<Rightarrow> cluster \<times> (string \<times> nat) result" where
  "render api q up ul now gw cl =
     (case api ListRoutes of
        Some e \<Rightarrow> (cl, Inl e)
      | None \<Rightarrow>
          (case api ListServices of
             Some e \<Rightarrow> (cl, Inl e)
           | None \<Rightarrow>
               (case Translate q up ul gw (map ht_Route (cl_Routes cl)) (list_services cl) of
                  (table, errs) \<Rightarrow>
                    (let cl' = applyRouteStatus api now gw errs cl
                     in case Render (gw_Namespace gw @ ''/'' @ gw_Name gw) (gw_Generation gw) table of
                          Inl e \<Rightarrow> (cl', Inl e)
                        | Inr f \<Rightarrow> (cl', Inr (file_bytes f, length table))))))"

text \<open>The part after the guards: render, the objects in their order, and the status.\<close>

definition provision :: "api \<Rightarrow> (string \<Rightarrow> string) \<Rightarrow> url_parse \<Rightarrow> (string \<Rightarrow> string) \<Rightarrow> float_mul \<Rightarrow> provision_cfg \<Rightarrow> string
    \<Rightarrow> gotime \<Rightarrow> gateway_obj \<Rightarrow> cluster \<Rightarrow> cluster \<times> error option" where
  "provision api q up ul fl cfg tenants now g cl =
     (let gw = go_Gateway g
      in case render api q up ul now gw cl of
           (cl1, Inl e) \<Rightarrow> (cl1, Some e)
         | (cl1, Inr (rendered, n)) \<Rightarrow>
             (case apply_all api (gw_Name gw) (base_steps gw rendered) (cl_Objects cl1) of
                (obs, ws, Some e) \<Rightarrow> (cl1\<lparr>cl_Objects := obs, cl_Writes := cl_Writes cl1 @ ws\<rparr>, Some e)
              | (obs, ws, None) \<Rightarrow>
                  (case StatefulSet fl gw cfg tenants of
                     Inl e \<Rightarrow> (cl1\<lparr>cl_Objects := obs, cl_Writes := cl_Writes cl1 @ ws\<rparr>, Some e)
                   | Inr want \<Rightarrow>
                       (case apply_obj api (gw_Name gw) (sts_step gw want) obs of
                          (obs2, ws2, Inl e) \<Rightarrow> (cl1\<lparr>cl_Objects := obs2, cl_Writes := cl_Writes cl1 @ ws @ ws2\<rparr>, Some e)
                        | (obs2, ws2, Inr sts) \<Rightarrow>
                            (let cl2 = cl1\<lparr>cl_Objects := obs2, cl_Writes := cl_Writes cl1 @ ws @ ws2 @ [UpdateGatewayStatus]\<rparr>
                             in case api UpdateGatewayStatus of
                                  Some e \<Rightarrow> (cl2, Some e)
                                | None \<Rightarrow>
                                    (cl2\<lparr>cl_Gateways := AList.update (gw_Namespace gw, gw_Name gw)
                                       (gateway_status now (ready_replicas sts) n g) (cl_Gateways cl1)\<rparr>, None))))))"

definition Reconcile :: "api \<Rightarrow> (string \<Rightarrow> string) \<Rightarrow> url_parse \<Rightarrow> (string \<Rightarrow> string) \<Rightarrow> float_mul \<Rightarrow> provision_cfg \<Rightarrow> string
    \<Rightarrow> gotime \<Rightarrow> string \<times> string \<Rightarrow> cluster \<Rightarrow> cluster \<times> error option" where
  "Reconcile api q up ul fl cfg tenants now req cl =
     (case api GetGateway of
        Some e \<Rightarrow> (cl, Some e)
      | None \<Rightarrow>
          (case map_of (cl_Gateways cl) req of
             None \<Rightarrow> (cl, None)
           | Some g \<Rightarrow>
               (case api GetClass of
                  Some e \<Rightarrow> (cl, Some e)
                | None \<Rightarrow>
                    (case map_of (cl_Classes cl) (go_Class g) of
                       None \<Rightarrow> (cl, None)
                     | Some gc \<Rightarrow>
                         if gc_ControllerName gc \<noteq> ControllerName then (cl, None)
                         else provision api q up ul fl cfg tenants now g cl))))"

text \<open>The reconciler of the GatewayClasses.\<close>

definition ReconcileClass :: "api \<Rightarrow> gotime \<Rightarrow> string \<Rightarrow> cluster \<Rightarrow> cluster \<times> error option" where
  "ReconcileClass api now name cl =
     (case api GetClass of
        Some e \<Rightarrow> (cl, Some e)
      | None \<Rightarrow>
          (case map_of (cl_Classes cl) name of
             None \<Rightarrow> (cl, None)
           | Some gc \<Rightarrow>
               if gc_ControllerName gc \<noteq> ControllerName then (cl, None)
               else
                 (let cl1 = cl\<lparr>cl_Writes := cl_Writes cl @ [UpdateClassStatus]\<rparr>
                  in case api UpdateClassStatus of
                       Some e \<Rightarrow> (cl1, Some e)
                     | None \<Rightarrow>
                         (cl1\<lparr>cl_Classes := AList.update name
                            (gc\<lparr>gc_Conditions := setCondition now (accepted_condition (gc_Generation gc)) (gc_Conditions gc)\<rparr>)
                            (cl_Classes cl)\<rparr>, None))))"

text \<open>The watch: the Gateways to reconcile when a route changes.\<close>

fun route_gateways :: "http_route \<Rightarrow> parent_ref list \<Rightarrow> (string \<times> string) list" where
  "route_gateways r [] = []"
| "route_gateways r (p # ps) =
     (if pa_Kind p \<noteq> None \<and> pa_Kind p \<noteq> Some ''Gateway'' then route_gateways r ps
      else ((case pa_Namespace p of None \<Rightarrow> ro_Namespace r | Some n \<Rightarrow> n), pa_Name p) # route_gateways r ps)"

section \<open>Conditions are settled\<close>

text \<open>The first condition of the type says the same, whenever it last changed.\<close>

definition holds_condition :: "condition \<Rightarrow> condition list \<Rightarrow> bool" where
  "holds_condition c xs \<longleftrightarrow> (\<exists>t. find (\<lambda>x. co_Type x = co_Type c) xs = Some (c\<lparr>co_LastTransitionTime := t\<rparr>))"

lemma set_condition_loop_noop: "holds_condition c xs \<Longrightarrow> set_condition_loop (c\<lparr>co_LastTransitionTime := t\<rparr>) xs = xs"
proof (induction xs)
  case (Cons x xs)
  then show ?case
    by (cases "co_Type x = co_Type c") (auto simp: holds_condition_def)
qed (simp add: holds_condition_def)

lemma setCondition_noop: "holds_condition c xs \<Longrightarrow> setCondition now c xs = xs"
  using set_condition_loop_noop [of c xs "co_LastTransitionTime c"] set_condition_loop_noop [of c xs now]
  by (simp add: setCondition_def)

lemma set_condition_loop_holds: "holds_condition c (set_condition_loop (c\<lparr>co_LastTransitionTime := t\<rparr>) xs)"
proof (induction xs)
  case Nil
  show ?case by (auto simp: holds_condition_def)
next
  case (Cons x xs)
  then show ?case by (auto simp: holds_condition_def)
qed

lemma setCondition_holds: "holds_condition c (setCondition now c xs)"
  using set_condition_loop_holds [of c "co_LastTransitionTime c" xs] set_condition_loop_holds [of c now xs]
  by (simp add: setCondition_def)

lemma set_condition_loop_find:
  "co_Type d \<noteq> ty \<Longrightarrow> find (\<lambda>x. co_Type x = ty) (set_condition_loop d xs) = find (\<lambda>x. co_Type x = ty) xs"
  by (induction xs) auto

lemma setCondition_other: "co_Type d \<noteq> co_Type c \<Longrightarrow> holds_condition c xs \<Longrightarrow> holds_condition c (setCondition now d xs)"
  using set_condition_loop_find [of d "co_Type c" xs]
    set_condition_loop_find [of "d\<lparr>co_LastTransitionTime := now\<rparr>" "co_Type c" xs]
  by (auto simp: holds_condition_def setCondition_def)

lemma gateway_status_idem:
  "gateway_status now' ready n (gateway_status now ready n g) = gateway_status now ready n g"
proof -
  have ty: "co_Type (programmed_condition gw r m) \<noteq> co_Type (accepted_condition k)" for gw r m k
    by (simp add: programmed_condition_def accepted_condition_def)
  let ?A = "accepted_condition (gw_Generation (go_Gateway g))" and ?P = "programmed_condition (go_Gateway g) ready n"
  let ?cs = "setCondition now ?P (setCondition now ?A (go_Conditions g))"
  have "holds_condition ?A ?cs" "holds_condition ?P ?cs"
    by (rule setCondition_other [OF ty setCondition_holds]) (rule setCondition_holds)
  then show ?thesis
    by (simp add: gateway_status_def Let_def setCondition_noop)
qed

text \<open>A condition of a route that says the same is left alone.\<close>

lemma set_condition_loop_same:
  assumes "same_condition cond cond'" "co_Type cond = co_Type cond'"
  shows "\<exists>x. find (\<lambda>c. co_Type c = co_Type cond') (set_condition_loop (cond\<lparr>co_LastTransitionTime := t\<rparr>) cs) = Some x
    \<and> same_condition x cond'"
  using assms by (induction cs) (auto simp: same_condition_def)

lemma setCondition_same:
  assumes "same_condition cond cond'" "co_Type cond = co_Type cond'"
  shows "\<exists>x. find (\<lambda>c. co_Type c = co_Type cond') (setCondition now cond cs) = Some x \<and> same_condition x cond'"
  using set_condition_loop_same [OF assms, of now cs] set_condition_loop_same [OF assms, of "co_LastTransitionTime cond" cs]
  by (simp add: setCondition_def)

lemma parentRefEqual_refl [simp]: "parentRefEqual r r"
  by (cases "pa_Namespace r") (simp_all add: parentRefEqual_def)

lemma upsert_parents_stable:
  assumes "same_condition cond cond'" "co_Type cond = co_Type cond'"
  shows "upsert_parents now' ref cond' (fst (upsert_parents now ref cond ps)) = (fst (upsert_parents now ref cond ps), False)"
proof (induction ps)
  case Nil
  with assms show ?case by simp
next
  case (Cons p ps)
  show ?case
  proof (cases "pst_ControllerName p \<noteq> ControllerName \<or> \<not> parentRefEqual (pst_ParentRef p) ref")
    case True
    with Cons show ?thesis
      by (auto split: prod.splits)
  next
    case False
    obtain x where x: "find (\<lambda>c. co_Type c = co_Type cond') (setCondition now cond (pst_Conditions p)) = Some x"
        "same_condition x cond'"
      using setCondition_same [OF assms] by blast
    show ?thesis
    proof (cases "find (\<lambda>c. co_Type c = co_Type cond) (pst_Conditions p)")
      case None
      with False x show ?thesis
        by simp
    next
      case (Some c)
      have "same_condition c cond \<Longrightarrow> same_condition c cond'"
        using assms(1) by (simp add: same_condition_def)
      with Some False x assms(2) show ?thesis
        by simp
    qed
  qed
qed

lemma upsert_unchanged: "snd (upsert_parents now ref cond ps) = False \<Longrightarrow> fst (upsert_parents now ref cond ps) = ps"
  by (induction ps) (auto split: prod.splits option.splits if_splits)

lemma routeAcceptedCondition_same:
  "same_condition (routeAcceptedCondition now r errs) (routeAcceptedCondition now' r errs)
   \<and> co_Type (routeAcceptedCondition now r errs) = co_Type (routeAcceptedCondition now' r errs)"
  by (simp add: same_condition_def routeAcceptedCondition_def routeStatusCondition_def split: option.splits)

lemma route_status_route [simp]: "ht_Route (status_route api now gw errs r) = ht_Route r"
  by (auto simp: route_status_def upsertRouteParentCondition_def split: prod.splits option.splits)

lemma route_status_idem:
  "route_status (\<lambda>_. None) now' gw errs (status_route (\<lambda>_. None) now gw errs r) = (status_route (\<lambda>_. None) now gw errs r, [])"
proof (cases "attachedTo gw (ht_Route r)")
  case True
  let ?ps = "upsert_parents now (parentRefToGateway gw) (routeAcceptedCondition now (ht_Route r) errs) (ht_Parents r)"
  have r: "status_route (\<lambda>_. None) now gw errs r = r\<lparr>ht_Parents := fst ?ps\<rparr>"
    using True upsert_unchanged [of now "parentRefToGateway gw" "routeAcceptedCondition now (ht_Route r) errs" "ht_Parents r"]
    by (auto simp: route_status_def upsertRouteParentCondition_def split: prod.splits)
  have "upsert_parents now' (parentRefToGateway gw) (routeAcceptedCondition now' (ht_Route r) errs) (fst ?ps) = (fst ?ps, False)"
    by (rule upsert_parents_stable) (use routeAcceptedCondition_same in blast)+
  then show ?thesis
    unfolding r using True by (simp add: route_status_def upsertRouteParentCondition_def)
qed (simp add: route_status_def)

section \<open>Objects are settled\<close>

definition settles :: "(k8s_obj \<Rightarrow> k8s_obj) \<Rightarrow> bool" where
  "settles m \<longleftrightarrow> (\<forall>ob w. m ((m ob)\<lparr>ko_Owner := w\<rparr>) = (m ob)\<lparr>ko_Owner := w\<rparr>)"

definition settled_step :: "string \<Rightarrow> (object_key \<times> k8s_obj) list \<Rightarrow> apply_step \<Rightarrow> bool" where
  "settled_step gw obs s =
     (case s of (key, built, m) \<Rightarrow>
        (case map_of obs key of None \<Rightarrow> False | Some ob \<Rightarrow> m ob = ob \<and> ko_Owner ob = Some gw))"

lemma set_spec_eq: "set_spec s ob = ob \<Longrightarrow> ko_Spec ob = s"
proof -
  assume "set_spec s ob = ob"
  moreover have "ko_Spec (set_spec s ob) = s"
    by (simp add: set_spec_def)
  ultimately show ?thesis by simp
qed

lemma settles_set_spec: "settles (set_spec s)"
  by (simp add: settles_def set_spec_def)

lemma settles_id: "settles id"
  by (simp add: settles_def)

lemma settles_set_selector: "settles (set_selector sel)"
  by (auto simp: settles_def set_selector_def split: k8s_spec.splits)

lemma settles_mutate_sts: "settles (mutate_sts want)"
  by (auto simp: settles_def mutate_sts_def split: k8s_spec.splits)

lemma apply_obj_others: "key \<noteq> fst s \<Longrightarrow> map_of (fst (apply_obj api gw s obs)) key = map_of obs key"
  by (auto simp: apply_obj_def Let_def update_conv' split: prod.splits option.splits sum.splits)

lemma apply_obj_settled:
  assumes "apply_obj api gw s obs = (obs', ws, Inr ob)" "settles (snd (snd s))"
  shows "settled_step gw obs' s \<and> map_of obs' (fst s) = Some ob"
proof -
  obtain key built m where s: "s = (key, built, m)"
    by (cases s) auto
  let ?x = "case map_of obs key of None \<Rightarrow> built | Some ob \<Rightarrow> ob"
  from assms(1) have ob: "set_owner gw (m ?x) = Inr ob"
      and o: "obs' = (if map_of obs key = Some ob then obs else AList.update key ob obs)"
    by (auto simp: apply_obj_def s Let_def split: option.splits sum.splits if_splits)
  from ob have "ob = (m ?x)\<lparr>ko_Owner := Some gw\<rparr>"
    by (auto simp: set_owner_def split: if_splits)
  then have "m ob = ob" "ko_Owner ob = Some gw"
    using assms(2) by (simp_all add: settles_def s)
  with o show ?thesis
    by (simp add: settled_step_def s update_conv')
qed

lemma apply_obj_again:
  assumes "settled_step gw obs s" "map_of obs (fst s) = Some ob"
  shows "apply_obj (\<lambda>_. None) gw s obs = (obs, [], Inr ob)"
  using assms by (auto simp: settled_step_def apply_obj_def set_owner_def Let_def split: prod.splits)

lemma apply_all_others:
  "key \<notin> fst ` set ss \<Longrightarrow> map_of (fst (apply_all api gw ss obs)) key = map_of obs key"
proof (induction ss arbitrary: obs)
  case (Cons s ss)
  obtain obs1 ws r where s: "apply_obj api gw s obs = (obs1, ws, r)"
    by (metis prod_cases3)
  have "map_of (fst (apply_all api gw ss obs1)) key = map_of obs1 key"
    using Cons by simp
  then show ?case
    using Cons.prems s apply_obj_others [of key s api gw obs] by (auto split: prod.splits sum.splits)
qed simp

lemma settled_step_cong: "map_of obs (fst s) = map_of obs' (fst s) \<Longrightarrow> settled_step gw obs s = settled_step gw obs' s"
  by (auto simp: settled_step_def split: prod.splits)

lemma apply_all_settled:
  "apply_all api gw ss obs = (obs', ws, None) \<Longrightarrow> distinct (map fst ss) \<Longrightarrow> list_all (\<lambda>s. settles (snd (snd s))) ss \<Longrightarrow>
     list_all (settled_step gw obs') ss"
proof (induction ss arbitrary: obs ws)
  case (Cons s ss)
  obtain obs1 ob w1 w2 where s: "apply_obj api gw s obs = (obs1, w1, Inr ob)" "apply_all api gw ss obs1 = (obs', w2, None)"
    using Cons.prems(1) by (auto split: prod.splits sum.splits)
  have "settled_step gw obs1 s"
    using apply_obj_settled [OF s(1)] Cons.prems(3) by simp
  moreover have "map_of obs' (fst s) = map_of obs1 (fst s)"
    using apply_all_others [of "fst s" ss api gw obs1] Cons.prems(2) s(2) by simp
  ultimately show ?case
    using Cons s(2) settled_step_cong [of obs1 s obs' gw] by simp
qed simp

lemma apply_all_again: "list_all (settled_step gw obs) ss \<Longrightarrow> apply_all (\<lambda>_. None) gw ss obs = (obs, [], None)"
proof (induction ss)
  case (Cons s ss)
  then obtain ob where "map_of obs (fst s) = Some ob"
    by (auto simp: settled_step_def split: prod.splits option.splits)
  with Cons apply_obj_again [of gw obs s ob] show ?case
    by simp
qed simp

lemma base_steps_settle:
  "distinct (map fst (base_steps gw rendered))" "list_all (\<lambda>s. settles (snd (snd s))) (base_steps gw rendered)"
  by (simp_all add: base_steps_def Let_def settles_set_spec settles_id settles_set_selector)

lemma sts_key_new: "(KStatefulSet, ns, name) \<notin> fst ` set (base_steps gw rendered)"
  by (auto simp: base_steps_def Let_def)

section \<open>The parts of a reconcile\<close>

text \<open>What a reconcile that ends without an error has done.\<close>

lemma provision_success:
  assumes "provision api q up ul fl cfg tenants now g cl = (cl', None)"
  obtains table errs f want obs ws obs' ws' sts
  where "Translate q up ul (go_Gateway g) (map ht_Route (cl_Routes cl)) (list_services cl) = (table, errs)"
    "Render (gw_Namespace (go_Gateway g) @ ''/'' @ gw_Name (go_Gateway g)) (gw_Generation (go_Gateway g)) table = Inr f"
    "apply_all api (gw_Name (go_Gateway g)) (base_steps (go_Gateway g) (file_bytes f)) (cl_Objects cl) = (obs, ws, None)"
    "StatefulSet fl (go_Gateway g) cfg tenants = Inr want"
    "apply_obj api (gw_Name (go_Gateway g)) (sts_step (go_Gateway g) want) obs = (obs', ws', Inr sts)"
    "cl' = cl\<lparr>cl_Routes := map (status_route api now (go_Gateway g) errs) (cl_Routes cl), cl_Objects := obs',
       cl_Writes := cl_Writes cl @ status_writes api now (go_Gateway g) errs (cl_Routes cl) @ ws @ ws' @ [UpdateGatewayStatus],
       cl_Gateways := AList.update (gw_Namespace (go_Gateway g), gw_Name (go_Gateway g))
         (gateway_status now (ready_replicas sts) (length table) g) (cl_Gateways cl)\<rparr>"
proof -
  from assms obtain cl1 rendered n where r: "render api q up ul now (go_Gateway g) cl = (cl1, Inr (rendered, n))"
    by (auto simp: provision_def Let_def split: prod.splits sum.splits)
  then obtain table errs f where t:
      "Translate q up ul (go_Gateway g) (map ht_Route (cl_Routes cl)) (list_services cl) = (table, errs)"
      "Render (gw_Namespace (go_Gateway g) @ ''/'' @ gw_Name (go_Gateway g)) (gw_Generation (go_Gateway g)) table = Inr f"
      "rendered = file_bytes f" "n = length table" "cl1 = applyRouteStatus api now (go_Gateway g) errs cl"
    by (auto simp: render_def Let_def split: prod.splits sum.splits option.splits)
  from assms r obtain obs ws where a:
      "apply_all api (gw_Name (go_Gateway g)) (base_steps (go_Gateway g) rendered) (cl_Objects cl1) = (obs, ws, None)"
    by (auto simp: provision_def Let_def split: prod.splits option.splits)
  from assms r a obtain want where w: "StatefulSet fl (go_Gateway g) cfg tenants = Inr want"
    by (auto simp: provision_def Let_def split: sum.splits)
  from assms r a w obtain obs' ws' sts where s:
      "apply_obj api (gw_Name (go_Gateway g)) (sts_step (go_Gateway g) want) obs = (obs', ws', Inr sts)"
    by (auto simp: provision_def Let_def split: prod.splits sum.splits)
  from assms r a w s have "cl' = cl1\<lparr>cl_Objects := obs', cl_Writes := cl_Writes cl1 @ ws @ ws' @ [UpdateGatewayStatus],
       cl_Gateways := AList.update (gw_Namespace (go_Gateway g), gw_Name (go_Gateway g))
         (gateway_status now (ready_replicas sts) n g) (cl_Gateways cl1)\<rparr>"
    by (auto simp: provision_def Let_def split: option.splits)
  with t a w s show ?thesis
    by (intro that [of table errs f obs ws want obs' ws' sts]) (simp_all add: applyRouteStatus_def)
qed

lemma Reconcile_served:
  assumes "map_of (cl_Gateways cl) req = Some g" "map_of (cl_Classes cl) (go_Class g) = Some gc" "gc_ControllerName gc = ControllerName"
  shows "Reconcile (\<lambda>_. None) q up ul fl cfg tenants now req cl = provision (\<lambda>_. None) q up ul fl cfg tenants now g cl"
  using assms by (simp add: Reconcile_def)

text \<open>What changes between two states of the store, seen from one Gateway.\<close>

definition provisioned_keys :: "gw_gateway \<Rightarrow> object_key list" where
  "provisioned_keys gw =
     (let ns = gw_Namespace gw
      in [(KConfigMap, ns, n_routes gw), (KServiceAccount, ns, n_serviceAccount gw), (KRole, ns, n_keys gw),
          (KRoleBinding, ns, n_keys gw), (KService, ns, n_service gw), (KStatefulSet, ns, n_statefulSet gw)])"

definition only_own :: "string \<Rightarrow> object_key set \<Rightarrow> (object_key \<times> k8s_obj) list \<Rightarrow> (object_key \<times> k8s_obj) list \<Rightarrow> bool" where
  "only_own gw K obs obs' \<longleftrightarrow>
     (\<forall>key. map_of obs' key \<noteq> map_of obs key \<longrightarrow>
        key \<in> K \<and> (\<exists>ob. map_of obs' key = Some ob \<and> ko_Owner ob = Some gw)
        \<and> (\<forall>old. map_of obs key = Some old \<longrightarrow> ko_Owner old = None \<or> ko_Owner old = Some gw))"

lemma only_own_refl [simp]: "only_own gw K obs obs"
  by (simp add: only_own_def)

lemma only_own_trans: "only_own gw K obs obs1 \<Longrightarrow> only_own gw K obs1 obs2 \<Longrightarrow> only_own gw K obs obs2"
  unfolding only_own_def by metis

definition step_ok :: "object_key set \<Rightarrow> apply_step \<Rightarrow> bool" where
  "step_ok K s \<longleftrightarrow> fst s \<in> K \<and> (\<forall>ob. ko_Owner (snd (snd s) ob) = ko_Owner ob)"

lemma apply_obj_own:
  assumes "step_ok K s"
  shows "only_own gw K obs (fst (apply_obj api gw s obs))"
proof -
  obtain key built m where s: "s = (key, built, m)"
    by (cases s) auto
  have "ko_Owner old = None \<or> ko_Owner old = Some gw" "ko_Owner ob = Some gw"
    if "set_owner gw (m old) = Inr ob" for old ob
    using that assms by (auto simp: set_owner_def step_ok_def s split: if_splits)
  then show ?thesis
    using assms by (auto simp: only_own_def apply_obj_def s Let_def step_ok_def update_conv'
        split: option.splits sum.splits)
qed

lemma apply_all_own: "list_all (step_ok K) ss \<Longrightarrow> only_own gw K obs (fst (apply_all api gw ss obs))"
proof (induction ss arbitrary: obs)
  case (Cons s ss)
  obtain obs1 ws r where s: "apply_obj api gw s obs = (obs1, ws, r)"
    by (metis prod_cases3)
  have "only_own gw K obs obs1"
    using apply_obj_own [of K s gw obs api] Cons.prems s by simp
  moreover have "only_own gw K obs1 (fst (apply_all api gw ss obs1))"
    using Cons by simp
  ultimately show ?case
    using s by (auto split: sum.splits prod.splits intro: only_own_trans)
qed simp

lemma base_steps_own: "list_all (step_ok (set (provisioned_keys gw))) (base_steps gw rendered)"
  by (simp add: base_steps_def provisioned_keys_def Let_def step_ok_def set_spec_def)
    (auto simp: set_selector_def split: k8s_spec.splits)

lemma sts_step_own: "step_ok (set (provisioned_keys gw)) (sts_step gw want)"
  by (auto simp: sts_step_def provisioned_keys_def Let_def step_ok_def mutate_sts_def split: k8s_spec.splits)

lemma render_frame:
  assumes "render api q up ul now gw cl = (cl1, r)"
  shows "cl_Objects cl1 = cl_Objects cl \<and> cl_Classes cl1 = cl_Classes cl \<and> cl_Gateways cl1 = cl_Gateways cl
    \<and> (cl_Routes cl1 = cl_Routes cl \<or> (\<exists>errs. cl_Routes cl1 = map (status_route api now gw errs) (cl_Routes cl)))"
  using assms by (auto simp: render_def applyRouteStatus_def Let_def split: option.splits prod.splits sum.splits)

lemma provision_frame:
  assumes "provision api q up ul fl cfg tenants now g cl = (cl', err)"
  shows "only_own (gw_Name (go_Gateway g)) (set (provisioned_keys (go_Gateway g))) (cl_Objects cl) (cl_Objects cl')
    \<and> cl_Classes cl' = cl_Classes cl
    \<and> (\<forall>k. k \<noteq> (gw_Namespace (go_Gateway g), gw_Name (go_Gateway g)) \<longrightarrow> map_of (cl_Gateways cl') k = map_of (cl_Gateways cl) k)
    \<and> (cl_Routes cl' = cl_Routes cl \<or> (\<exists>errs. cl_Routes cl' = map (status_route api now (go_Gateway g) errs) (cl_Routes cl)))"
proof -
  obtain cl1 r where r: "render api q up ul now (go_Gateway g) cl = (cl1, r)"
    by fastforce
  note f = render_frame [OF r]
  show ?thesis
  proof (cases r)
    case (Inl e)
    with assms r f show ?thesis
      by (simp add: provision_def Let_def)
  next
    case (Inr x)
    obtain rendered n where x: "x = (rendered, n)"
      by fastforce
    obtain obs ws e where a:
        "apply_all api (gw_Name (go_Gateway g)) (base_steps (go_Gateway g) rendered) (cl_Objects cl1) = (obs, ws, e)"
      by (metis prod_cases3)
    have o: "only_own (gw_Name (go_Gateway g)) (set (provisioned_keys (go_Gateway g))) (cl_Objects cl) obs"
      using apply_all_own [OF base_steps_own [of "go_Gateway g" rendered], where gw = "gw_Name (go_Gateway g)" and obs = "cl_Objects cl1"
          and api = api] a f
      by simp
    have "only_own (gw_Name (go_Gateway g)) (set (provisioned_keys (go_Gateway g))) obs
        (fst (apply_obj api (gw_Name (go_Gateway g)) (sts_step (go_Gateway g) want) obs))" for want
      by (rule apply_obj_own [OF sts_step_own])
    note o2 = only_own_trans [OF o this]
    show ?thesis
    proof (cases e)
      case (Some e')
      with assms r Inr x a o f show ?thesis
        by (auto simp: provision_def Let_def)
    next
      case None
      show ?thesis
      proof (cases "StatefulSet fl (go_Gateway g) cfg tenants")
        case (Inl e')
        with assms r \<open>r = Inr x\<close> x a o f None show ?thesis
          by (auto simp: provision_def Let_def)
      next
        case (Inr want)
        obtain obs2 ws2 rs where b: "apply_obj api (gw_Name (go_Gateway g)) (sts_step (go_Gateway g) want) obs = (obs2, ws2, rs)"
          by (metis prod_cases3)
        with assms r \<open>r = Inr x\<close> x a o2 [of want] f None Inr show ?thesis
          by (auto simp: provision_def Let_def update_conv' split: sum.splits option.splits)
      qed
    qed
  qed
qed

lemma upsert_foreign:
  "filter (\<lambda>p. pst_ControllerName p \<noteq> ControllerName) (fst (upsert_parents now ref cond ps))
     = filter (\<lambda>p. pst_ControllerName p \<noteq> ControllerName) ps"
  by (induction ps) (auto split: prod.splits option.splits)

definition foreign_status :: "route_obj \<Rightarrow> parent_status list" where
  "foreign_status r = filter (\<lambda>p. pst_ControllerName p \<noteq> ControllerName) (ht_Parents r)"

lemma route_status_frame:
  "foreign_status (status_route api now gw errs r) = foreign_status r"
  "attachedTo gw (ht_Route r) \<or> status_route api now gw errs r = r"
  using upsert_foreign [of now "parentRefToGateway gw" "routeAcceptedCondition now (ht_Route r) errs" "ht_Parents r"]
  by (auto simp: foreign_status_def route_status_def upsertRouteParentCondition_def split: prod.splits option.splits)

section \<open>Properties\<close>


text \<open>
  C36 (a reconcile keeps to its own).  Whatever the API server refuses on the way, a reconcile of a
  Gateway changes no object but the six it names after the Gateway, never one that another
  Gateway owns, and what it writes it owns; other Gateways, the classes and the specs of the
  routes stay as they are, and so do the statuses of routes that are not attached and those other
  controllers wrote.  A Gateway of another class changes nothing.
\<close>

theorem reconcile_keeps_to_its_own:
  assumes "Reconcile api q up ul fl cfg tenants now req cl = (cl', err)"
    and "map_of (cl_Gateways cl) req = Some g" "req = (gw_Namespace (go_Gateway g), gw_Name (go_Gateway g))"
  shows "(case map_of (cl_Classes cl) (go_Class g) of None \<Rightarrow> cl' = cl | Some gc \<Rightarrow> gc_ControllerName gc = ControllerName \<or> cl' = cl)
    \<and> (map_of (cl_Objects cl') key = map_of (cl_Objects cl) key \<or>
        (key \<in> set (provisioned_keys (go_Gateway g))
         \<and> (\<exists>ob. map_of (cl_Objects cl') key = Some ob \<and> ko_Owner ob = Some (snd req))
         \<and> (case map_of (cl_Objects cl) key of None \<Rightarrow> True | Some old \<Rightarrow> ko_Owner old = None \<or> ko_Owner old = Some (snd req))))
    \<and> cl_Classes cl' = cl_Classes cl \<and> (k = req \<or> map_of (cl_Gateways cl') k = map_of (cl_Gateways cl) k)
    \<and> list_all2 (\<lambda>r r'. ht_Route r' = ht_Route r \<and> (attachedTo (go_Gateway g) (ht_Route r) \<or> r' = r)
         \<and> foreign_status r' = foreign_status r) (cl_Routes cl) (cl_Routes cl')"
proof -
  have cls: "case map_of (cl_Classes cl) (go_Class g) of None \<Rightarrow> cl' = cl | Some gc \<Rightarrow> gc_ControllerName gc = ControllerName \<or> cl' = cl"
    using assms(1,2) by (auto simp: Reconcile_def split: option.splits if_splits)
  consider "cl' = cl" | "provision api q up ul fl cfg tenants now g cl = (cl', err)"
    using assms(1,2) by (auto simp: Reconcile_def split: option.splits if_splits)
  then have own: "only_own (snd req) (set (provisioned_keys (go_Gateway g))) (cl_Objects cl) (cl_Objects cl')
      \<and> cl_Classes cl' = cl_Classes cl \<and> (\<forall>k. k \<noteq> req \<longrightarrow> map_of (cl_Gateways cl') k = map_of (cl_Gateways cl) k)
      \<and> (cl_Routes cl' = cl_Routes cl \<or> (\<exists>errs. cl_Routes cl' = map (status_route api now (go_Gateway g) errs) (cl_Routes cl)))"
  proof cases
    case 2
    from provision_frame [OF this] show ?thesis
      unfolding assms(3) snd_conv .
  qed simp
  from own [THEN conjunct1, unfolded only_own_def, THEN spec, of key]
  have "map_of (cl_Objects cl') key = map_of (cl_Objects cl) key \<or>
      (key \<in> set (provisioned_keys (go_Gateway g))
       \<and> (\<exists>ob. map_of (cl_Objects cl') key = Some ob \<and> ko_Owner ob = Some (snd req))
       \<and> (case map_of (cl_Objects cl) key of None \<Rightarrow> True | Some old \<Rightarrow> ko_Owner old = None \<or> ko_Owner old = Some (snd req)))"
    by (auto split: option.splits)
  moreover have "list_all2 (\<lambda>r r'. ht_Route r' = ht_Route r \<and> (attachedTo (go_Gateway g) (ht_Route r) \<or> r' = r)
      \<and> foreign_status r' = foreign_status r) (cl_Routes cl) (cl_Routes cl')"
    using own by (elim conjE disjE exE) (simp_all add: list_all2_same list.rel_map route_status_frame)
  ultimately show ?thesis
    using cls own by blast
qed

text \<open>\<open>url.Parse\<close> gives the URL of a Service, with its host, and reads it back as itself.\<close>

definition url_stable :: "url_parse \<Rightarrow> bool" where
  "url_stable up \<longleftrightarrow>
     (\<forall>s port u h. service_named s \<and> up (service_url s port) = Some (u, h) \<longrightarrow> h \<noteq> [] \<and> up u = Some (u, h))"

text \<open>
  What the controller renders the data plane reads.  After a reconcile without an error, the
  file that the data plane mounts reads back as the translation of the attached routes, at the
  Gateway's generation, and the router accepts it; only the claim headers of a route come in the
  order of their names.  Hostnames and paths are those the API server admits, all text is UTF-8,
  and \<open>url.Parse\<close> reads back the URL of a Service.
\<close>

lemma url_stable_service:
  assumes "url_stable up" "list_all service_named ss"
    and "service_map ss k = Some s" "up (service_url s port) = Some (u, h)"
  shows "h \<noteq> [] \<and> up u = Some (u, h)"
  using assms service_map_Some [OF assms(3)] unfolding url_stable_def list_all_iff by blast

lemma rendered_table_is_read:
  assumes "Reconcile (\<lambda>_. None) q up ul fl cfg tenants now req cl = (cl', None)"
    and "map_of (cl_Gateways cl) req = Some g"
    and "map_of (cl_Classes cl) (go_Class g) = Some gc" "gc_ControllerName gc = ControllerName"
    and "\<And>r. r \<in> set (map ht_Route (cl_Routes cl)) \<Longrightarrow> list_all good_host (ro_Hostnames r)"
    and "\<And>l h. l \<in> set (gw_Listeners (go_Gateway g)) \<Longrightarrow> ls_Hostname l = Some h \<Longrightarrow> good_host h"
    and "\<And>r rule m pm p. r \<in> set (map ht_Route (cl_Routes cl)) \<Longrightarrow> rule \<in> set (ro_Rules r) \<Longrightarrow> m \<in> set (ru_Matches rule) \<Longrightarrow>
       rm_Path m = Some pm \<Longrightarrow> prefix_match pm \<Longrightarrow> pm_Value pm = Some p \<Longrightarrow> HasPrefix p ''/''"
    and "\<And>f. Render (gw_Namespace (go_Gateway g) @ ''/'' @ gw_Name (go_Gateway g)) (gw_Generation (go_Gateway g))
       (fst (Translate q up ul (go_Gateway g) (map ht_Route (cl_Routes cl)) (list_services cl))) = Inr f \<Longrightarrow> file_ok f"
    and "url_stable up" "list_all service_named (list_services cl)"
  shows "\<exists>ob b f. map_of (cl_Objects cl') (KConfigMap, gw_Namespace (go_Gateway g), n_routes (go_Gateway g)) = Some ob
    \<and> ko_Spec ob = ConfigMapSpec [(''routes.json'', b)]
    \<and> ReadRouteFile up (Inr b) = Inr (f, map (\<lambda>r. r\<lparr>rt_ClaimHeaders := sort_key fst (rt_ClaimHeaders r)\<rparr>)
        (fst (Translate q up ul (go_Gateway g) (map ht_Route (cl_Routes cl)) (list_services cl))))
    \<and> rf_Revision f = gw_Generation (go_Gateway g)"
proof -
  let ?gw = "go_Gateway g" and ?api = "\<lambda>_. None" and ?rs = "map ht_Route (cl_Routes cl)"
  from assms(1-4) have "provision ?api q up ul fl cfg tenants now g cl = (cl', None)"
    by (simp add: Reconcile_served)
  then obtain table errs f want obs ws obs' ws' sts where p:
      "Translate q up ul ?gw ?rs (list_services cl) = (table, errs)"
      "Render (gw_Namespace ?gw @ ''/'' @ gw_Name ?gw) (gw_Generation ?gw) table = Inr f"
      "apply_all ?api (gw_Name ?gw) (base_steps ?gw (file_bytes f)) (cl_Objects cl) = (obs, ws, None)"
      "apply_obj ?api (gw_Name ?gw) (sts_step ?gw want) obs = (obs', ws', Inr sts)"
      "cl_Objects cl' = obs'"
    by (rule provision_success) simp
  let ?k = "(KConfigMap, gw_Namespace ?gw, n_routes ?gw)"
  have "settled_step (gw_Name ?gw) obs (hd (base_steps ?gw (file_bytes f)))"
    using apply_all_settled [OF p(3) base_steps_settle] by (simp add: base_steps_def Let_def)
  then obtain ob where ob: "map_of obs ?k = Some ob" "ko_Spec ob = ConfigMapSpec [(''routes.json'', file_bytes f)]"
    by (auto simp: settled_step_def base_steps_def Let_def set_spec_eq split: option.splits)
  have "map_of obs' ?k = map_of obs ?k"
    using apply_obj_others [of ?k "sts_step ?gw want" ?api "gw_Name ?gw" obs] p(4) by (simp add: sts_step_def)
  moreover have "\<exists>h. h \<noteq> [] \<and> up u = Some (u, h)" if "r \<in> set table" "rt_Upstream r = Some u" for r u
  proof (rule Translate_routes [of r q up ul ?gw ?rs "list_services cl"], goal_cases)
    case 1
    with that p(1) show ?case by simp
  next
    case (2 r' n built hs)
    then show ?case
      by (elim translateRule_Inr)
        (use url_stable_service [OF assms(9,10)] that(2) in \<open>auto simp: build_routes_set\<close>)
  qed
  moreover have "route_Valid r = None" if "r \<in> set table" for r
  proof -
    have x: "r \<in> set (fst (Translate q up ul ?gw ?rs (list_services cl)))"
      using that p(1) by simp
    have "route_Valid r = None \<and> rt_Name r \<noteq> []"
      by (rule Translate_valid [OF _ _ _ x]) (fact assms)+
    then show ?thesis by simp
  qed
  ultimately show ?thesis
    using ReadRouteFile_rendered [OF p(2), of up] assms(8) [of f] ob p(1,2,5) by auto
qed

text \<open>The two conditions of the status and their transition times.\<close>

definition transition_time :: "gotime \<Rightarrow> condition list \<Rightarrow> condition \<Rightarrow> gotime" where
  "transition_time now old c =
     (case find (\<lambda>x. co_Type x = co_Type c) old of
        None \<Rightarrow> now | Some x \<Rightarrow> if co_Status x = co_Status c then co_LastTransitionTime x else now)"

lemma gateway_status_conditions:
  assumes "gateway_status now ready n g = g'" "\<not> IsZero now"
  shows "\<exists>p a. find (\<lambda>c. co_Type c = ''Programmed'') (go_Conditions g') = Some p
    \<and> find (\<lambda>c. co_Type c = ''Accepted'') (go_Conditions g') = Some a
    \<and> co_Status a = ''True'' \<and> (co_Status p = ''True'' \<longleftrightarrow> 0 < ready)
    \<and> co_ObservedGeneration p = gw_Generation (go_Gateway g) \<and> co_ObservedGeneration a = gw_Generation (go_Gateway g)
    \<and> co_LastTransitionTime p = transition_time now (go_Conditions g) p
    \<and> co_LastTransitionTime a = transition_time now (go_Conditions g) a
    \<and> filter (\<lambda>c. co_Type c \<notin> {''Programmed'', ''Accepted''}) (go_Conditions g')
        = filter (\<lambda>c. co_Type c \<notin> {''Programmed'', ''Accepted''}) (go_Conditions g)"
proof -
  have loop: "find (\<lambda>x. co_Type x = co_Type c) (set_condition_loop c xs) =
      Some (case find (\<lambda>x. co_Type x = co_Type c) xs of
        None \<Rightarrow> c | Some x \<Rightarrow> if co_Status x = co_Status c then c\<lparr>co_LastTransitionTime := co_LastTransitionTime x\<rparr> else c)" for c xs
    by (induction xs) auto
  have keep: "filter (\<lambda>c. co_Type c \<notin> {''Programmed'', ''Accepted''}) (set_condition_loop c xs)
      = filter (\<lambda>c. co_Type c \<notin> {''Programmed'', ''Accepted''}) xs" if "co_Type c \<in> {''Programmed'', ''Accepted''}" for c xs
    using that by (induction xs) auto
  let ?P = "(programmed_condition (go_Gateway g) ready n)\<lparr>co_LastTransitionTime := now\<rparr>"
  let ?A = "(accepted_condition (gw_Generation (go_Gateway g)))\<lparr>co_LastTransitionTime := now\<rparr>"
  have g': "go_Conditions g' = set_condition_loop ?P (set_condition_loop ?A (go_Conditions g))"
    unfolding assms(1) [symmetric] gateway_status_def setCondition_def Let_def
    by (simp add: programmed_condition_def accepted_condition_def IsZero_def zero_time_def)
  have ty: "co_Type ?P = ''Programmed''" "co_Type ?A = ''Accepted''"
    by (simp_all add: programmed_condition_def accepted_condition_def)
  have p: "find (\<lambda>c. co_Type c = ''Programmed'') (go_Conditions g')
      = Some (case find (\<lambda>c. co_Type c = ''Programmed'') (go_Conditions g) of None \<Rightarrow> ?P
          | Some x \<Rightarrow> if co_Status x = co_Status ?P then ?P\<lparr>co_LastTransitionTime := co_LastTransitionTime x\<rparr> else ?P)"
    using loop [of ?P "set_condition_loop ?A (go_Conditions g)"] set_condition_loop_find [of ?A "''Programmed''" "go_Conditions g"] ty
    by (simp add: g')
  have a: "find (\<lambda>c. co_Type c = ''Accepted'') (go_Conditions g')
      = Some (case find (\<lambda>c. co_Type c = ''Accepted'') (go_Conditions g) of None \<Rightarrow> ?A
          | Some x \<Rightarrow> if co_Status x = co_Status ?A then ?A\<lparr>co_LastTransitionTime := co_LastTransitionTime x\<rparr> else ?A)"
    using loop [of ?A "go_Conditions g"] set_condition_loop_find [of ?P "''Accepted''" "set_condition_loop ?A (go_Conditions g)"] ty
    by (simp add: g')
  have "filter (\<lambda>c. co_Type c \<notin> {''Programmed'', ''Accepted''}) (go_Conditions g')
      = filter (\<lambda>c. co_Type c \<notin> {''Programmed'', ''Accepted''}) (go_Conditions g)"
    unfolding g' by (rule trans [OF keep keep]) (simp_all add: programmed_condition_def accepted_condition_def)
  then show ?thesis
    unfolding p a by (auto simp: programmed_condition_def accepted_condition_def transition_time_def split: option.splits)
qed

text \<open>A StatefulSet keeps the count of its ready replicas through a reconcile; a new one has none.\<close>

lemma apply_sts_ready:
  assumes "apply_obj api gw (sts_step g want) obs = (obs', ws, Inr sts)"
  shows "map_of obs' (KStatefulSet, gw_Namespace g, n_statefulSet g) = Some sts
    \<and> ready_replicas sts = (case map_of obs (KStatefulSet, gw_Namespace g, n_statefulSet g) of
         None \<Rightarrow> 0 | Some old \<Rightarrow> ready_replicas old)"
proof -
  have m: "ready_replicas (mutate_sts want ob) = ready_replicas ob" for ob
    by (auto simp: mutate_sts_def ready_replicas_def split: k8s_spec.splits)
  have o: "set_owner gw ob = Inr ob' \<Longrightarrow> ready_replicas ob' = ready_replicas ob" for ob ob'
    by (auto simp: set_owner_def ready_replicas_def split: if_splits)
  show ?thesis
    using assms
    by (auto simp: apply_obj_def sts_step_def Let_def update_conv' m dest!: o split: option.splits sum.splits if_splits)
      (simp_all add: ready_replicas_def)
qed

text \<open>
  C37 (the status is honest).  After a reconcile that ends without an error, whatever status writes to
  routes were refused on the way, the Gateway is \<open>Accepted\<close>, and \<open>Programmed\<close> exactly when its
  StatefulSet counts a ready replica: the count is the one the StatefulSet had before, and none if it
  was created.  Either condition keeps the time of its last transition if its status is the same as
  before, and has the time of this reconcile if not; both are about the Gateway's generation,
  conditions of other types are kept, and the address is set once a replica is ready.
\<close>

theorem gateway_status_honest:
  assumes "Reconcile api q up ul fl cfg tenants now req cl = (cl', None)" "\<not> IsZero now"
    and "map_of (cl_Gateways cl) req = Some g" "req = (gw_Namespace (go_Gateway g), gw_Name (go_Gateway g))"
    and "map_of (cl_Classes cl) (go_Class g) = Some gc" "gc_ControllerName gc = ControllerName"
  shows "\<exists>g' sts p a. map_of (cl_Gateways cl') req = Some g'
    \<and> map_of (cl_Objects cl') (KStatefulSet, fst req, n_statefulSet (go_Gateway g)) = Some sts
    \<and> ready_replicas sts = (case map_of (cl_Objects cl) (KStatefulSet, fst req, n_statefulSet (go_Gateway g)) of
         None \<Rightarrow> 0 | Some old \<Rightarrow> ready_replicas old)
    \<and> find (\<lambda>c. co_Type c = ''Programmed'') (go_Conditions g') = Some p
    \<and> find (\<lambda>c. co_Type c = ''Accepted'') (go_Conditions g') = Some a
    \<and> co_Status a = ''True'' \<and> (co_Status p = ''True'' \<longleftrightarrow> 0 < ready_replicas sts)
    \<and> co_ObservedGeneration p = gw_Generation (go_Gateway g) \<and> co_ObservedGeneration a = gw_Generation (go_Gateway g)
    \<and> co_LastTransitionTime p = transition_time now (go_Conditions g) p
    \<and> co_LastTransitionTime a = transition_time now (go_Conditions g) a
    \<and> filter (\<lambda>c. co_Type c \<notin> {''Programmed'', ''Accepted''}) (go_Conditions g')
        = filter (\<lambda>c. co_Type c \<notin> {''Programmed'', ''Accepted''}) (go_Conditions g)
    \<and> go_Addresses g' = (if 0 < ready_replicas sts then [node_hostname (go_Gateway g)] else go_Addresses g)"
proof -
  let ?gw = "go_Gateway g"
  have "provision api q up ul fl cfg tenants now g cl = (cl', None)"
    using assms by (auto simp: Reconcile_def split: option.splits)
  then show ?thesis
  proof (rule provision_success)
    fix table errs f want obs ws obs' ws' sts
    assume p: "apply_all api (gw_Name ?gw) (base_steps ?gw (file_bytes f)) (cl_Objects cl) = (obs, ws, None)"
      "apply_obj api (gw_Name ?gw) (sts_step ?gw want) obs = (obs', ws', Inr sts)"
      "cl' = cl\<lparr>cl_Routes := map (status_route api now ?gw errs) (cl_Routes cl), cl_Objects := obs',
         cl_Writes := cl_Writes cl @ status_writes api now ?gw errs (cl_Routes cl) @ ws @ ws' @ [UpdateGatewayStatus],
         cl_Gateways := AList.update (gw_Namespace ?gw, gw_Name ?gw) (gateway_status now (ready_replicas sts) (length table) g) (cl_Gateways cl)\<rparr>"
    let ?k = "(KStatefulSet, gw_Namespace ?gw, n_statefulSet ?gw)"
    have "map_of obs ?k = map_of (cl_Objects cl) ?k"
      using apply_all_others [where api = api and gw = "gw_Name ?gw" and obs = "cl_Objects cl",
          OF sts_key_new [of "gw_Namespace ?gw" "n_statefulSet ?gw" ?gw "file_bytes f"]] p(1) by simp
    with apply_sts_ready [OF p(2)] have sts: "map_of obs' ?k = Some sts"
        "ready_replicas sts = (case map_of (cl_Objects cl) ?k of None \<Rightarrow> 0 | Some old \<Rightarrow> ready_replicas old)"
      by simp_all
    let ?g' = "gateway_status now (ready_replicas sts) (length table) g"
    have "map_of (cl_Gateways cl') req = Some ?g'" "map_of (cl_Objects cl') (KStatefulSet, fst req, n_statefulSet ?gw) = Some sts"
      using sts(1) assms(4) by (simp_all add: p(3) update_conv')
    moreover have "go_Addresses ?g' = (if 0 < ready_replicas sts then [node_hostname ?gw] else go_Addresses g)"
      by (simp add: gateway_status_def Let_def)
    moreover note sts(2) gateway_status_conditions [OF refl assms(2), of "ready_replicas sts" "length table" g]
    ultimately show ?thesis
      using assms(4) by (intro exI [of _ ?g'] exI [of _ sts]) simp
  qed
qed

section \<open>The properties on a concrete cluster\<close>

definition example_class :: class_obj where
  "example_class = \<lparr>gc_ControllerName = ControllerName, gc_Generation = 1, gc_Conditions = []\<rparr>"

definition example_gateway :: gateway_obj where
  "example_gateway = \<lparr>go_Gateway = example_gw, go_Class = ''tsjwt'', go_Conditions = [], go_Addresses = []\<rparr>"

definition example_cluster :: cluster where
  "example_cluster =
     \<lparr>cl_Gateways = [((''ns'', ''gw''), example_gateway)], cl_Classes = [(''tsjwt'', example_class)],
      cl_Routes = [\<lparr>ht_Route = example_http_route ''a'', ht_Parents = []\<rparr>],
      cl_Objects =
        [((KService, ''ns'', ''app''), \<lparr>ko_Labels = [], ko_Owner = None, ko_Spec = ServiceSpec []
            [\<lparr>sp_Name = ''http'', sp_Port = 80, sp_TargetPort = ''http''\<rparr>]\<rparr>),
         ((KService, ''ns'', ''tsjwt-gw''), \<lparr>ko_Labels = n_labels example_gw, ko_Owner = Some ''gw'',
            ko_Spec = ServiceSpec [] (svo_Ports (Service example_gw))\<rparr>)],
      cl_Writes = []\<rparr>"

definition example_provision_cfg :: provision_cfg where
  "example_provision_cfg = \<lparr>pc_Image = ''img'', pc_ServiceAccount = [], pc_CredentialSecret = ''oauth'', pc_Tag = ''tag:gw'',
     pc_StorageClass = [], pc_Zone = [], pc_JWKSOverTLS = False, pc_Capability = []\<rparr>"

abbreviation example_reconcile :: "api \<Rightarrow> gotime \<Rightarrow> cluster \<Rightarrow> cluster \<times> error option" where
  "example_reconcile api now \<equiv> Reconcile api id toy_url id fl_exact example_provision_cfg ''tenants'' now (''ns'', ''gw'')"

lemma example_cluster_sel:
  "map_of (cl_Gateways example_cluster) (''ns'', ''gw'') = Some example_gateway" "go_Gateway example_gateway = example_gw"
  "gw_Namespace example_gw = ''ns''" "gw_Name example_gw = ''gw''" "gw_Generation example_gw = 3"
  "map_of (cl_Classes example_cluster) (go_Class example_gateway) = Some example_class" "gc_ControllerName example_class = ControllerName"
  "map ht_Route (cl_Routes example_cluster) = [example_http_route ''a'']"
  by (simp_all add: example_cluster_def example_gateway_def example_class_def example_gw_def)

lemma example_reconciled:
  "snd (example_reconcile (\<lambda>_. None) (GoTime 1 0) example_cluster) = None"
  "list_services (fst (example_reconcile (\<lambda>_. None) (GoTime 1 0) example_cluster)) = list_services example_cluster"
  by code_simp+

lemma example_table_translated:
  "fst (Translate id toy_url id example_gw [example_http_route ''a''] (list_services example_cluster)) = [translated ''ns/a#0.0'']"
  by code_simp


theorem reconcile_keeps_to_its_own_witness:
  "map_of (cl_Objects (fst (example_reconcile (\<lambda>c. if c = WriteObject KRole then Some (Error Plain ''forbidden'') else None)
      (GoTime 1 0) example_cluster))) (KService, ''ns'', ''app'') = map_of (cl_Objects example_cluster) (KService, ''ns'', ''app'')"
proof -
  let ?api = "\<lambda>c. if c = WriteObject KRole then Some (Error Plain ''forbidden'') else None"
  obtain cl' err where r: "example_reconcile ?api (GoTime 1 0) example_cluster = (cl', err)"
    by fastforce
  have "(KService, ''ns'', ''app'') \<notin> set (provisioned_keys example_gw)"
    by code_simp
  with reconcile_keeps_to_its_own [OF r example_cluster_sel(1), of "(KService, ''ns'', ''app'')"] r show ?thesis
    by (simp add: example_cluster_sel)
qed

theorem gateway_status_honest_witness:
  "\<exists>cl' g' p. example_reconcile (\<lambda>_. None) (GoTime 5 0) example_cluster = (cl', None)
     \<and> map_of (cl_Gateways cl') (''ns'', ''gw'') = Some g'
     \<and> find (\<lambda>c. co_Type c = ''Programmed'') (go_Conditions g') = Some p
     \<and> co_Status p \<noteq> ''True'' \<and> co_LastTransitionTime p = GoTime 5 0"
proof -
  have "snd (example_reconcile (\<lambda>_. None) (GoTime 5 0) example_cluster) = None"
    by code_simp
  then obtain cl' where cl': "example_reconcile (\<lambda>_. None) (GoTime 5 0) example_cluster = (cl', None)"
    by (cases "example_reconcile (\<lambda>_. None) (GoTime 5 0) example_cluster") simp
  have "\<not> IsZero (GoTime 5 0)" "map_of (cl_Objects example_cluster) (KStatefulSet, ''ns'', n_statefulSet example_gw) = None"
    by (simp_all add: IsZero_def example_cluster_def)
  with gateway_status_honest [OF cl' this(1) example_cluster_sel(1) _ example_cluster_sel(6,7)] cl' show ?thesis
    by (auto simp: example_cluster_sel example_gateway_def transition_time_def)
qed

end
