(* ===== verification/AuthKey.thy ===== *)
theory AuthKey
  imports Decode Http
begin

text \<open>
  \<open>tsnetid/authkey.go\<close>: exchanging an OAuth client for a tailnet auth key, and the health check
  that fails before the key expires.  The HTTP client is the parameter \<open>http\<close>: a status and
  a body, or the error of building or sending the request.  \<open>rfc\<close> reads the text of a time,
  \<open>secs d\<close> is \<open>int64(d.Seconds())\<close>, a \<open>float64\<close> truncated.
\<close>

record minter =
  mi_ClientID :: string
  mi_ClientSecret :: string
  mi_Tags :: "string list"
  mi_Ephemeral :: bool
  mi_Validity :: duration
  mi_BaseURL :: string

record auth_key =
  ak_Key :: string
  ak_Expires :: gotime

record http_request =
  hq_Method :: string
  hq_URL :: string
  hq_Header :: "(string \<times> string) list"
  hq_Body :: string

type_synonym http_client = "http_request \<Rightarrow> (int \<times> string) result"

definition defaultBaseURL :: string where
  "defaultBaseURL = ''https://api.tailscale.com''"

definition minter_base :: "minter \<Rightarrow> string" where
  "minter_base m = (if mi_BaseURL m \<noteq> [] then mi_BaseURL m else defaultBaseURL)"

section \<open>url.Values\<close>

definition upper_hex :: "nat \<Rightarrow> char" where
  "upper_hex n = (if n < 10 then char_of (48 + n) else char_of (55 + n))"

text \<open>\<open>url.QueryEscape\<close>, byte by byte.\<close>

definition escape_byte :: "char \<Rightarrow> string" where
  "escape_byte c =
     (if is_upper c \<or> is_lower c \<or> is_decimal c \<or> c \<in> set ''-_.~'' then [c]
      else if c = CHR '' '' then ''+''
      else [CHR ''%'', upper_hex (of_char c div 16), upper_hex (of_char c mod 16)])"

definition QueryEscape :: "string \<Rightarrow> string" where
  "QueryEscape s = concat (map escape_byte s)"

text \<open>\<open>Encode\<close> of values whose keys come in order, each with one value.\<close>

definition values_Encode :: "(string \<times> string) list \<Rightarrow> string" where
  "values_Encode kvs = Join (map (\<lambda>kv. QueryEscape (fst kv) @ ''='' @ QueryEscape (snd kv)) kvs) ''&''"

section \<open>The two requests\<close>

definition key_body_limit :: nat where
  "key_body_limit = 1048576"

definition token_request :: "minter \<Rightarrow> http_request" where
  "token_request m =
     \<lparr>hq_Method = ''POST'', hq_URL = minter_base m @ ''/api/v2/oauth/token'',
      hq_Header = [(''Content-Type'', ''application/x-www-form-urlencoded'')],
      hq_Body = values_Encode [(''client_id'', mi_ClientID m), (''client_secret'', mi_ClientSecret m),
        (''grant_type'', ''client_credentials'')]\<rparr>"

definition token_fields :: "string fields" where
  "token_fields = [fld ''access_token'' dec_string id (\<lambda>x _. x)]"

text \<open>\<open>token\<close>: what the answer to the request gives.\<close>

definition read_token :: "(int \<times> string) result \<Rightarrow> string result" where
  "read_token resp =
     (case resp of
        Inl e \<Rightarrow> Inl (Error (err_sentinel e) ''tsnetid: token request'')
      | Inr (status, body) \<Rightarrow>
          if status \<noteq> 200 then Inl (Error Plain ''tsnetid: token request returned'')
          else
            (case Option.bind (json_Decode (take key_body_limit body)) (\<lambda>j. dec_struct False token_fields j []) of
               None \<Rightarrow> Inl (Error Plain ''tsnetid: decode token'')
             | Some t \<Rightarrow>
                 if t = [] then Inl (Error Plain ''tsnetid: token response carried no access token'') else Inr t))"

text \<open>A map is marshalled with its keys in order.\<close>

definition key_body :: "(duration \<Rightarrow> int) \<Rightarrow> minter \<Rightarrow> duration \<Rightarrow> json" where
  "key_body secs m validity =
     JObj [(''capabilities'', JObj [(''devices'', JObj [(''create'',
              JObj [(''ephemeral'', JBool (mi_Ephemeral m)), (''preauthorized'', JBool True), (''reusable'', JBool True),
                    (''tags'', JArr (map JStr (mi_Tags m)))])])]),
           (''description'', JStr ''minted at startup by tsjwtd''),
           (''expirySeconds'', JNum (NInt (secs validity)))]"

definition key_request :: "(duration \<Rightarrow> int) \<Rightarrow> minter \<Rightarrow> string \<Rightarrow> duration \<Rightarrow> http_request" where
  "key_request secs m token validity =
     \<lparr>hq_Method = ''POST'', hq_URL = minter_base m @ ''/api/v2/tailnet/-/keys'',
      hq_Header = [(''Authorization'', ''Bearer '' @ token), (''Content-Type'', ''application/json'')],
      hq_Body = json_Marshal (key_body secs m validity)\<rparr>"

definition auth_key_fields :: "(string \<Rightarrow> gotime option) \<Rightarrow> auth_key fields" where
  "auth_key_fields rfc =
     [fld ''key'' dec_string ak_Key (\<lambda>x. ak_Key_update (\<lambda>_. x)),
      fld ''expires'' (dec_time rfc) ak_Expires (\<lambda>x. ak_Expires_update (\<lambda>_. x))]"

text \<open>\<open>createKey\<close>: what the answer gives; \<open>now\<close> is the clock.\<close>

definition read_key :: "(string \<Rightarrow> gotime option) \<Rightarrow> gotime \<Rightarrow> duration \<Rightarrow> (int \<times> string) result \<Rightarrow> auth_key result" where
  "read_key rfc now validity resp =
     (case resp of
        Inl e \<Rightarrow> Inl (Error (err_sentinel e) ''tsnetid: create key'')
      | Inr (status, body) \<Rightarrow>
          if status \<noteq> 200 \<and> status \<noteq> 201 then Inl (Error Plain ''tsnetid: create key returned'')
          else
            (case Option.bind (json_Decode (take key_body_limit body))
                    (\<lambda>j. dec_struct False (auth_key_fields rfc) j \<lparr>ak_Key = [], ak_Expires = zero_time\<rparr>) of
               None \<Rightarrow> Inl (Error Plain ''tsnetid: decode key'')
             | Some k \<Rightarrow>
                 if ak_Key k = [] then Inl (Error Plain ''tsnetid: key response carried no key'')
                 else if IsZero (ak_Expires k) then Inr (k\<lparr>ak_Expires := time_Add now validity\<rparr>)
                 else Inr k))"

text \<open>\<open>Mint\<close>: the requests it sends, in order, and the key.\<close>

definition minter_Mint :: "(string \<Rightarrow> gotime option) \<Rightarrow> (duration \<Rightarrow> int) \<Rightarrow> http_client \<Rightarrow> gotime \<Rightarrow> minter
    \<Rightarrow> http_request list \<times> auth_key result" where
  "minter_Mint rfc secs http now m =
     (if mi_ClientID m = [] \<or> mi_ClientSecret m = []
      then ([], Inl (Error Plain ''tsnetid: OAuth client id and secret are both required''))
      else if mi_Tags m = [] then ([], Inl (Error Plain ''tsnetid: at least one tag is required''))
      else
        (let validity = (if mi_Validity m \<le> 0 then 90 * 24 * Hour else mi_Validity m);
             q1 = token_request m
         in case read_token (http q1) of
              Inl e \<Rightarrow> ([q1], Inl e)
            | Inr token \<Rightarrow>
                (let q2 = key_request secs m token validity in ([q1, q2], read_key rfc now validity (http q2)))))"

section \<open>Expiry\<close>

record expiry =
  ex_expires :: gotime
  ex_buffer :: duration
  ex_splay :: duration

text \<open>\<open>r d\<close> is what \<open>rand.Int64N(d)\<close> draws.  Sums of durations wrap.\<close>

definition NewExpiry :: "(int \<Rightarrow> int) \<Rightarrow> gotime \<Rightarrow> duration \<Rightarrow> duration \<Rightarrow> duration \<Rightarrow> expiry" where
  "NewExpiry r expires buffer minSplay0 maxSplay0 =
     (let (minSplay, maxSplay) = (if maxSplay0 < minSplay0 then (maxSplay0, minSplay0) else (minSplay0, maxSplay0));
          d = s64 (maxSplay - minSplay);
          splay = (if d > 0 then s64 (minSplay + r d) else minSplay)
      in \<lparr>ex_expires = expires, ex_buffer = buffer, ex_splay = splay\<rparr>)"

definition DeadlineAt :: "expiry \<Rightarrow> gotime" where
  "DeadlineAt e = time_Add (ex_expires e) (s64 (- s64 (ex_buffer e + ex_splay e)))"

definition Healthy :: "expiry \<Rightarrow> gotime \<Rightarrow> bool" where
  "Healthy e now =
     (if IsZero (ex_expires e) then True
      else time_Before now (time_Add (ex_expires e) (s64 (- s64 (ex_buffer e + ex_splay e)))))"

definition expiry_Set :: "expiry \<Rightarrow> gotime \<Rightarrow> expiry" where
  "expiry_Set e t = e\<lparr>ex_expires := t\<rparr>"

section \<open>Lemmas\<close>

text \<open>A failed health check does not recover by itself: only a new key ends it.\<close>

lemma unhealthy_stays: "\<not> Healthy e now \<Longrightarrow> now \<le> later \<Longrightarrow> \<not> Healthy e later"
  by (auto simp: Healthy_def time_Before_less split: if_split_asm)

lemma read_key_Inr: "read_key rfc now validity resp = Inr k \<Longrightarrow> ak_Key k \<noteq> []"
  by (auto simp: read_key_def split: sum.splits prod.splits option.splits if_splits)

lemma read_token_Inr: "read_token resp = Inr t \<Longrightarrow> t \<noteq> []"
  by (auto simp: read_token_def split: sum.splits prod.splits option.splits if_splits)

lemma key_body_wf:
  assumes "list_all valid_utf8 (mi_Tags m)" "in_s64 (secs validity)"
  shows "wf_json max_depth (key_body secs m validity)"
  using assms by (auto simp: key_body_def max_depth_def list_all_iff valid_utf8_ascii bv_def)

lemma NewExpiry_splay:
  assumes "0 \<le> lo" "lo \<le> hi" "hi < 2 ^ 62" "\<And>d. 0 < d \<Longrightarrow> 0 \<le> r d \<and> r d < d"
  shows "lo \<le> ex_splay (NewExpiry r t b lo hi) \<and> (ex_splay (NewExpiry r t b lo hi) < hi \<or> lo = hi)
    \<and> ex_splay (NewExpiry r t b lo hi) \<le> hi"
proof -
  have d: "s64 (hi - lo) = hi - lo"
    using assms by (intro s64_id) (simp add: in_s64_def)
  have "s64 (lo + r (hi - lo)) = lo + r (hi - lo)" if "lo < hi"
    using assms(1-3) assms(4) [of "hi - lo"] that by (intro s64_id) (simp add: in_s64_def)
  then show ?thesis
    using assms(2) assms(4) [of "hi - lo"] by (auto simp: NewExpiry_def Let_def d)
qed

section \<open>Properties\<close>

text \<open>
  What leaves the process.  Without a client id, a secret and a tag nothing is sent.  Otherwise
  the first request goes to the token endpoint and alone carries the secret; a second one is only
  sent with the token it gave, asks for a key that joins nodes with exactly the configured tags,
  for the configured lifetime or ninety days, and neither its body nor its headers depend on
  the secret; a key is only returned from that second answer, and is never empty.
\<close>

theorem minter_requests:
  assumes "list_all valid_utf8 (mi_Tags m)" and "in_s64 (secs (if mi_Validity m \<le> 0 then 90 * 24 * Hour else mi_Validity m))"
    and "minter_Mint rfc secs http now m = (sent, res)"
  shows "(if mi_ClientID m = [] \<or> mi_ClientSecret m = [] \<or> mi_Tags m = [] then sent = [] \<and> (\<exists>e. res = Inl e)
     else hd sent = token_request m \<and> length sent \<le> 2
       \<and> (length sent = 1 \<longrightarrow> (\<exists>e. res = Inl e))
       \<and> (length sent = 2 \<longrightarrow>
            (\<exists>token. read_token (http (hd sent)) = Inr token \<and> token \<noteq> [] \<and> hq_Header (sent ! 1) ! 0 = (''Authorization'', ''Bearer '' @ token)
              \<and> json_Parse (hq_Body (sent ! 1)) = Some (key_body secs m (if mi_Validity m \<le> 0 then 90 * 24 * Hour else mi_Validity m))
              \<and> (\<forall>secret. key_request secs (m\<lparr>mi_ClientSecret := secret\<rparr>) token (if mi_Validity m \<le> 0 then 90 * 24 * Hour else mi_Validity m) = sent ! 1)))
       \<and> (\<forall>k. res = Inr k \<longrightarrow> length sent = 2 \<and> ak_Key k \<noteq> []))"
proof (cases "mi_ClientID m = [] \<or> mi_ClientSecret m = [] \<or> mi_Tags m = []")
  case True
  with assms(3) show ?thesis
    by (auto simp: minter_Mint_def split: if_splits)
next
  case False
  let ?v = "if mi_Validity m \<le> 0 then 90 * 24 * Hour else mi_Validity m"
  have p: "json_Parse (json_Marshal (key_body secs m ?v)) = Some (key_body secs m ?v)"
    by (rule json_Parse_Marshal [OF key_body_wf]) (use assms(1,2) in auto)
  have s: "key_request secs (m\<lparr>mi_ClientSecret := secret\<rparr>) token ?v = key_request secs m token ?v" for secret token
    by (simp add: key_request_def key_body_def minter_base_def)
  show ?thesis
  proof (cases "read_token (http (token_request m))")
    case (Inl e)
    with False assms(3) show ?thesis
      by (auto simp: minter_Mint_def Let_def)
  next
    case (Inr token)
    have "sent = [token_request m, key_request secs m token ?v]" "res = read_key rfc now ?v (http (key_request secs m token ?v))"
      using False assms(3) Inr by (auto simp: minter_Mint_def Let_def)
    moreover have "hq_Body (key_request secs m token ?v) = json_Marshal (key_body secs m ?v)"
        "hq_Header (key_request secs m token ?v) ! 0 = (''Authorization'', ''Bearer '' @ token)"
      by (simp_all add: key_request_def)
    ultimately show ?thesis
      using False read_token_Inr [OF Inr] read_key_Inr [of rfc now ?v _] p s Inr
      by simp
  qed
qed

text \<open>
  C40 (unhealthy before the key expires).  With a known expiry the process is healthy exactly until
  the deadline it reports, which lies the buffer and the splay before the expiry; the splay is
  the process's own draw between the two bounds, so replicas with one expiry turn unhealthy
  spread over that window, and each at least the buffer and the lower bound early.
\<close>

theorem healthy_until_deadline:
  assumes "sane_time t" "\<not> IsZero t" "sane_time now" and "0 \<le> buffer" "buffer < 2 ^ 62"
    and "0 \<le> lo" "lo \<le> hi" "hi < 2 ^ 62" and "\<And>d. 0 < d \<Longrightarrow> 0 \<le> r d \<and> r d < d"
  shows "let e = expiry_Set (NewExpiry r zero_time buffer lo hi) t in
    Healthy (NewExpiry r zero_time buffer lo hi) now
    \<and> (Healthy e now \<longleftrightarrow> time_Before now (DeadlineAt e))
    \<and> (Healthy e now \<longleftrightarrow> tns now < tns t - (buffer + ex_splay e))
    \<and> lo \<le> ex_splay e \<and> ex_splay e \<le> hi \<and> (ex_splay e = hi \<longrightarrow> lo = hi)"
proof -
  let ?n = "NewExpiry r zero_time buffer lo hi"
  note s = NewExpiry_splay [OF assms(6-9), where t = zero_time and b = buffer]
  have e: "ex_expires ?n = zero_time" "ex_buffer ?n = buffer"
    by (auto simp: NewExpiry_def Let_def)
  have "in_s64 (buffer + ex_splay ?n)" "in_s64 (- (buffer + ex_splay ?n))"
    using s assms(4-8) by (auto simp: in_s64_def)
  then have d: "s64 (- s64 (buffer + ex_splay ?n)) = - (buffer + ex_splay ?n)" "in_s64 (- (buffer + ex_splay ?n))"
    by (simp_all add: s64_id)
  have "tns (time_Add t (- (buffer + ex_splay ?n))) = tns t - (buffer + ex_splay ?n)"
    using time_Add_sane [OF assms(1) d(2)] by simp
  moreover have "valid_time (time_Add t (- (buffer + ex_splay ?n)))"
    by (rule time_Add_valid) (use assms(1) d(2) in simp_all)
  ultimately have b: "time_Before now (time_Add t (- (buffer + ex_splay ?n))) \<longleftrightarrow> tns now < tns t - (buffer + ex_splay ?n)"
    using assms(3) by (simp add: time_Before_ns)
  have f: "ex_expires (expiry_Set ?n t) = t" "ex_buffer (expiry_Set ?n t) = buffer" "ex_splay (expiry_Set ?n t) = ex_splay ?n"
    by (simp_all add: expiry_Set_def e)
  have n: "Healthy ?n now"
    unfolding Healthy_def e by (simp add: IsZero_def zero_time_def)
  have D: "DeadlineAt (expiry_Set ?n t) = time_Add t (- (buffer + ex_splay ?n))"
    unfolding DeadlineAt_def f d(1) ..
  have H: "Healthy (expiry_Set ?n t) now \<longleftrightarrow> time_Before now (time_Add t (- (buffer + ex_splay ?n)))"
    unfolding Healthy_def f d(1) using assms(2) by simp
  show ?thesis
    unfolding Let_def f D H b using s n by auto
qed

section \<open>The properties on concrete values\<close>

definition example_minter :: minter where
  "example_minter = \<lparr>mi_ClientID = ''id'', mi_ClientSecret = ''s&cret'', mi_Tags = [''tag:gw''], mi_Ephemeral = False,
     mi_Validity = 0, mi_BaseURL = []\<rparr>"

definition example_http :: http_client where
  "example_http rq =
     (if hq_URL rq = ''https://api.tailscale.com/api/v2/oauth/token'' then Inr (200, json_Marshal (JObj [(''access_token'', JStr ''t'')]))
      else Inr (200, json_Marshal (JObj [(''key'', JStr ''tskey'')])))"

lemma example_bodies:
  "json_Marshal (JObj [(''access_token'', JStr ''t'')]) = [CHR ''{'', CHR 0x22] @ ''access_token'' @ [CHR 0x22, CHR '':'', CHR 0x22, CHR ''t'', CHR 0x22, CHR ''}'']"
  "json_Marshal (JObj [(''key'', JStr ''tskey'')]) = [CHR ''{'', CHR 0x22] @ ''key'' @ [CHR 0x22, CHR '':'', CHR 0x22] @ ''tskey'' @ [CHR 0x22, CHR ''}'']"
  by code_simp+

lemma example_limits:
  "take key_body_limit (json_Marshal (JObj [(''access_token'', JStr ''t'')])) = json_Marshal (JObj [(''access_token'', JStr ''t'')])"
  "take key_body_limit (json_Marshal (JObj [(''key'', JStr ''tskey'')])) = json_Marshal (JObj [(''key'', JStr ''tskey'')])"
  unfolding example_bodies by (simp_all add: key_body_limit_def)

lemma example_decoded:
  "json_Decode (json_Marshal (JObj [(''access_token'', JStr ''t'')])) = Some (JObj [(''access_token'', JStr ''t'')])"
  "json_Decode (json_Marshal (JObj [(''key'', JStr ''tskey'')])) = Some (JObj [(''key'', JStr ''tskey'')])"
  by code_simp+

lemma example_answers:
  "read_token (Inr (200, json_Marshal (JObj [(''access_token'', JStr ''t'')]))) = Inr ''t''"
  "read_key (\<lambda>_. None) (GoTime 5 0) (90 * 24 * Hour) (Inr (200, json_Marshal (JObj [(''key'', JStr ''tskey'')])))
     = Inr \<lparr>ak_Key = ''tskey'', ak_Expires = GoTime 7776005 0\<rparr>"
proof -
  show "read_token (Inr (200, json_Marshal (JObj [(''access_token'', JStr ''t'')]))) = Inr ''t''"
    by (simp add: read_token_def example_limits example_decoded token_fields_def field_of_def fld_def)
  have "time_Add (GoTime 5 0) (90 * 24 * Hour) = GoTime 7776005 0"
    by code_simp
  then show "read_key (\<lambda>_. None) (GoTime 5 0) (90 * 24 * Hour) (Inr (200, json_Marshal (JObj [(''key'', JStr ''tskey'')])))
      = Inr \<lparr>ak_Key = ''tskey'', ak_Expires = GoTime 7776005 0\<rparr>"
    by (simp add: read_key_def example_limits example_decoded auth_key_fields_def field_of_def fld_def IsZero_def zero_time_def)
qed

lemma example_minted:
  "minter_Mint (\<lambda>_. None) (\<lambda>d. quo d Second) example_http (GoTime 5 0) example_minter
     = ([token_request example_minter, key_request (\<lambda>d. quo d Second) example_minter ''t'' (90 * 24 * Hour)],
        Inr \<lparr>ak_Key = ''tskey'', ak_Expires = GoTime 7776005 0\<rparr>)"
proof -
  have "example_http (token_request example_minter) = Inr (200, json_Marshal (JObj [(''access_token'', JStr ''t'')]))"
    by (simp add: example_http_def token_request_def minter_base_def example_minter_def defaultBaseURL_def)
  moreover have "example_http (key_request s example_minter t v) = Inr (200, json_Marshal (JObj [(''key'', JStr ''tskey'')]))" for s t v
    by (simp add: example_http_def key_request_def minter_base_def example_minter_def defaultBaseURL_def)
  moreover have "mi_ClientID example_minter \<noteq> []" "mi_ClientSecret example_minter \<noteq> []" "mi_Tags example_minter \<noteq> []"
      "mi_Validity example_minter = 0"
    by (simp_all add: example_minter_def)
  ultimately show ?thesis
    using example_answers by (simp add: minter_Mint_def Let_def)
qed

lemma example_token_body: "hq_Body (token_request example_minter) = ''client_id=id&client_secret=s%26cret&grant_type=client_credentials''"
  by code_simp

theorem minter_requests_witness:
  "json_Parse (hq_Body (key_request (\<lambda>d. quo d Second) example_minter ''t'' (90 * 24 * Hour)))
     = Some (key_body (\<lambda>d. quo d Second) example_minter (90 * 24 * Hour))"
proof -
  have h: "list_all valid_utf8 (mi_Tags example_minter)"
      "in_s64 (quo (if mi_Validity example_minter \<le> 0 then 90 * 24 * Hour else mi_Validity example_minter) Second)"
      "\<not> (mi_ClientID example_minter = [] \<or> mi_ClientSecret example_minter = [] \<or> mi_Tags example_minter = [])"
      "mi_Validity example_minter \<le> 0"
    by code_simp+
  from minter_requests [where secs = "\<lambda>d. quo d Second", OF h(1,2) example_minted] h(3,4) show ?thesis
    by (simp add: numeral_2_eq_2) blast
qed

theorem healthy_until_deadline_witness:
  "let e = expiry_Set (NewExpiry (\<lambda>d. d - 1) zero_time Hour 180000000000 420000000000) (GoTime 100000 0) in
     Healthy e (GoTime 90000 0) \<and> \<not> Healthy e (GoTime 96000 0)"
proof -
  have s: "sane_time (GoTime 100000 0)" "\<not> IsZero (GoTime 100000 0)" "sane_time (GoTime 90000 0)" "sane_time (GoTime 96000 0)"
    by (simp_all add: sane_time_def IsZero_def)
  have sp: "ex_splay (expiry_Set (NewExpiry (\<lambda>d. d - 1) zero_time Hour 180000000000 420000000000) (GoTime 100000 0)) = 419999999999"
    by code_simp
  from healthy_until_deadline [OF s(1,2,3), of Hour 180000000000 420000000000 "\<lambda>d. d - 1"]
    healthy_until_deadline [OF s(1,2,4), of Hour 180000000000 420000000000 "\<lambda>d. d - 1"]
  show ?thesis
    unfolding Let_def sp by (simp add: tns_def) blast
qed

end
