(* ===== verification/Daemon.thy ===== *)
theory Daemon
  imports Verifier K8sStore RouteFile Tsnet AuthKey Flags
begin

text \<open>
  What \<open>tsjwtd\<close> and \<open>tsjwt-dataplane\<close> have in common: the world they start in, the startup
  auth key, the keys they sign with and publish, the rotation loop, and the request multiplexer of
  \<open>net/http\<close>.  The tailnet library, the operating system and the clock are the record
  \<open>host\<close>.  Logging is left out.
\<close>

section \<open>Sequencing\<close>

text \<open>\<open>if err != nil { return err }\<close>, and a check that returns an error of its own.\<close>

definition andThen :: "'a result \<Rightarrow> ('a \<Rightarrow> 'b result) \<Rightarrow> 'b result" where
  "andThen r f = (case r of Inl e \<Rightarrow> Inl e | Inr x \<Rightarrow> f x)"

definition failIf :: "bool \<Rightarrow> string \<Rightarrow> 'b result \<Rightarrow> 'b result" where
  "failIf b msg r = (if b then Inl (Error Plain msg) else r)"

definition unless :: "error option \<Rightarrow> 'b result \<Rightarrow> 'b result" where
  "unless err r = (case err of Some e \<Rightarrow> Inl e | None \<Rightarrow> r)"

lemma andThen_simps [simp]: "andThen (Inl e) f = Inl e" "andThen (Inr x) f = f x"
  by (simp_all add: andThen_def)

lemma andThen_Inr [simp]: "andThen r f = Inr y \<longleftrightarrow> (\<exists>x. r = Inr x \<and> f x = Inr y)"
  by (simp add: andThen_def split: sum.split)

lemma failIf_Inr [simp]: "failIf b m r = Inr y \<longleftrightarrow> \<not> b \<and> r = Inr y"
  by (simp add: failIf_def)

lemma unless_Inr [simp]: "unless err r = Inr y \<longleftrightarrow> err = None \<and> r = Inr y"
  by (simp add: unless_def split: option.split)

section \<open>The world a command starts in\<close>

text \<open>
  The environment, the file system, whether bytes hold a PEM certificate, the process id, the
  clock, the key \<open>ecdsa.GenerateKey\<close> draws, the random draw, the HTTP client, the reader of times,
  \<open>int64(d.Seconds())\<close>, \<open>url.Parse\<close>; then \<open>tsnet\<close>: joining the tailnet under a hostname
  with a state directory and an auth key gives the DNS name, the local client, and listening with
  or without TLS.
\<close>

record host =
  ho_Getenv :: "string \<Rightarrow> string"
  ho_ReadFile :: "string \<Rightarrow> bytes option"
  ho_PEM :: "bytes \<Rightarrow> bool"
  ho_Pid :: int
  ho_Now :: gotime
  ho_Key :: "privkey option"
  ho_Rand :: "int \<Rightarrow> int"
  ho_HTTP :: http_client
  ho_Time :: "string \<Rightarrow> gotime option"
  ho_Seconds :: "duration \<Rightarrow> int"
  ho_ParseURL :: url_parse
  ho_Up :: "string \<Rightarrow> string \<Rightarrow> string \<Rightarrow> string result"
  ho_LocalClient :: "error option"
  ho_Listen :: "bool \<Rightarrow> string \<Rightarrow> error option"

text \<open>The auth key: from the environment, or minted with the credentials there.\<close>

definition startup_key :: "string \<Rightarrow> duration \<Rightarrow> host \<Rightarrow> string \<Rightarrow> expiry \<Rightarrow> (string \<times> expiry) result" where
  "startup_key missing validity ho keyTags ex =
     (if keyTags \<noteq> [] then
        (let ident = ho_Getenv ho ''TS_OAUTH_CLIENT_ID''; secret = ho_Getenv ho ''TS_OAUTH_CLIENT_SECRET''
         in failIf (ident = [] \<or> secret = []) missing
              (case snd (minter_Mint (ho_Time ho) (ho_Seconds ho) (ho_HTTP ho) (ho_Now ho)
                     \<lparr>mi_ClientID = ident, mi_ClientSecret = secret, mi_Tags = Split keyTags CHR '','',
                      mi_Ephemeral = False, mi_Validity = validity, mi_BaseURL = []\<rparr>) of
                 Inl e \<Rightarrow> Inl (Error (err_sentinel e) ''mint auth key'')
               | Inr minted \<Rightarrow> Inr (ak_Key minted, expiry_Set ex (ak_Expires minted))))
      else Inr (ho_Getenv ho ''TS_AUTHKEY'', ex))"

section \<open>The daemon's keys\<close>

text \<open>
  \<open>dk_Set\<close> is \<open>keySet\<close>.  A \<open>Published\<close> holds a pointer to the same set, so its local
  set is \<open>dk_Set\<close> at every moment; \<open>keySource\<close> is the one when there is one, else the set.
\<close>

record daemon_keys =
  dk_Set :: keyset
  dk_Pub :: "(k8s_store \<times> published) option"

definition source_Current :: "daemon_keys \<Rightarrow> (privkey \<times> string) result" where
  "source_Current dk =
     (case dk_Pub dk of
        None \<Rightarrow> set_Current (dk_Set dk)
      | Some (_, p) \<Rightarrow> pub_Current (p\<lparr>p_local := dk_Set dk\<rparr>))"

definition source_JWKS :: "crypto \<Rightarrow> daemon_keys \<Rightarrow> gotime \<Rightarrow> jwk list result" where
  "source_JWKS cr dk now =
     (case dk_Pub dk of
        None \<Rightarrow> set_JWKS now (dk_Set dk)
      | Some (_, p) \<Rightarrow> pub_JWKS cr (p\<lparr>p_local := dk_Set dk\<rparr>) now)"

definition replica_name :: "host \<Rightarrow> string \<Rightarrow> string" where
  "replica_name ho hostname =
     (let replica = ho_Getenv ho ''POD_NAME''
      in if replica = [] then hostname @ ''-'' @ Itoa (ho_Pid ho) else replica)"

definition share_keys :: "host \<Rightarrow> string \<Rightarrow> string \<Rightarrow> duration \<Rightarrow> duration \<Rightarrow> keyset \<Rightarrow> daemon_keys result" where
  "share_keys ho hostname shareCM lease grace s =
     andThen (k8s_New (ho_ReadFile ho) (ho_Getenv ho) (ho_PEM ho) shareCM) (\<lambda>store.
     andThen (NewPublished (Some s) True (replica_name ho hostname) lease grace) (\<lambda>p.
     Inr \<lparr>dk_Set = s, dk_Pub = Some (store, p)\<rparr>))"

text \<open>One tick of \<open>rotateLoop\<close>: a failed rotation keeps the set.\<close>

definition rotate_tick :: "crypto \<Rightarrow> privkey option \<times> gotime \<Rightarrow> keyset \<Rightarrow> keyset" where
  "rotate_tick cr tick s = (case Rotate cr (fst tick) (snd tick) s of Inl _ \<Rightarrow> s | Inr s' \<Rightarrow> s')"

definition rotateLoop :: "crypto \<Rightarrow> duration \<Rightarrow> (privkey option \<times> gotime) list \<Rightarrow> keyset \<Rightarrow> keyset" where
  "rotateLoop cr every ticks s = (if every \<le> 0 then s else fold (rotate_tick cr) ticks s)"

text \<open>
  What happens to the keys while the daemon runs: a tick of the loop, and a publication that leaves
  the entries \<open>es\<close> as the last ones seen in the store.
\<close>

datatype key_event = Tick "privkey option" gotime | Merged "entry list"

definition key_step :: "crypto \<Rightarrow> duration \<Rightarrow> key_event \<Rightarrow> daemon_keys \<Rightarrow> daemon_keys" where
  "key_step cr every ev dk =
     (case ev of
        Tick gen now \<Rightarrow> dk\<lparr>dk_Set := rotateLoop cr every [(gen, now)] (dk_Set dk)\<rparr>
      | Merged es \<Rightarrow> dk\<lparr>dk_Pub := map_option (\<lambda>(st, p). (st, p\<lparr>p_merged := es\<rparr>)) (dk_Pub dk)\<rparr>)"

definition key_run :: "crypto \<Rightarrow> duration \<Rightarrow> key_event list \<Rightarrow> daemon_keys \<Rightarrow> daemon_keys" where
  "key_run cr every evs dk = fold (key_step cr every) evs dk"

fun ticks_of :: "key_event list \<Rightarrow> (privkey option \<times> gotime) list" where
  "ticks_of [] = []"
| "ticks_of (Tick gen now # evs) = (gen, now) # ticks_of evs"
| "ticks_of (Merged es # evs) = ticks_of evs"

lemma source_Current_eq: "source_Current dk = set_Current (dk_Set dk)"
  by (simp add: source_Current_def pub_Current_def split: option.split prod.split)

interpretation daemon: signing_keys cr source_Current "source_JWKS cr" "\<lambda>dk. keyset_ok cr (dk_Set dk)" for cr
proof
  fix dk priv kid now
  assume a: "keyset_ok cr (dk_Set dk)" "source_Current dk = Inr (priv, kid)"
  note c = set_current_published [OF a(1) a(2) [unfolded source_Current_eq]]
  show "valid_pub (sk_Public priv)" "thumbprint cr (sk_Public priv) = Inr kid"
    using c by simp_all
  show "\<exists>js. source_JWKS cr dk now = Inr js \<and>
      (\<exists>j \<in> set js. j_Kid j = kid \<and> PublicFromXY (j_X j) (j_Y j) = Inr (sk_Public priv))"
    using set_keys.current_published [OF a(1), of priv kid now] a
      published_keys.current_published [of cr "p\<lparr>p_local := dk_Set dk\<rparr>" for p, of _ priv kid now]
    by (auto simp: source_JWKS_def source_Current_eq pub_Current_def split: option.split prod.split)
qed

section \<open>A key outlives the tokens it signed\<close>

lemma key_run_set: "dk_Set (key_run cr every evs dk) = rotateLoop cr every (ticks_of evs) (dk_Set dk)"
  unfolding key_run_def
  by (induction evs arbitrary: dk) (auto simp: key_step_def rotateLoop_def split: key_event.split)

lemma rotateLoop_rotations:
  "\<exists>ev. set ev \<subseteq> set ticks \<and> rotations cr ev s = Inr (rotateLoop cr every ticks s)"
proof (induction ticks arbitrary: s)
  case Nil
  show ?case
    by (intro exI [of _ "[]"]) (simp add: rotateLoop_def)
next
  case (Cons t ts)
  then obtain ev where ev: "set ev \<subseteq> set ts"
      "rotations cr ev (rotate_tick cr t s) = Inr (rotateLoop cr every ts (rotate_tick cr t s))"
    by blast
  show ?case
  proof (cases "every \<le> 0")
    case True
    then show ?thesis
      by (intro exI [of _ "[]"]) (simp add: rotateLoop_def)
  next
    case False
    then have l: "rotateLoop cr every (t # ts) s = rotateLoop cr every ts (rotate_tick cr t s)"
      by (simp add: rotateLoop_def)
    show ?thesis
    proof (cases "Rotate cr (fst t) (snd t) s")
      case (Inl e)
      with ev show ?thesis
        unfolding l by (intro exI [of _ ev]) (auto simp: rotate_tick_def)
    next
      case (Inr s')
      with ev show ?thesis
        unfolding l by (intro exI [of _ "t # ev"]) (cases t; auto simp: rotate_tick_def)
    qed
  qed
qed

definition public_keys :: "keyset \<Rightarrow> pubkey list" where
  "public_keys s = map (sk_Public \<circ> k_priv) ((case ks_current s of None \<Rightarrow> [] | Some c \<Rightarrow> [c]) @ ks_retired s)"

definition drawn_keys :: "(privkey option \<times> gotime) list \<Rightarrow> pubkey list" where
  "drawn_keys ticks = concat (map (\<lambda>t. case fst t of None \<Rightarrow> [] | Some k \<Rightarrow> [sk_Public k]) ticks)"

lemma set_public_keys: "set (public_keys s) = (sk_Public \<circ> k_priv) ` (set_option (ks_current s) \<union> set (ks_retired s))"
  by (auto simp: public_keys_def split: option.splits)

lemma set_drawn_keys: "set (drawn_keys ticks) = {sk_Public k | k. Some k \<in> fst ` set ticks}"
  by (force simp: drawn_keys_def split: option.splits)

lemma Rotate_public_keys:
  assumes "Rotate cr gen now s = Inr s'"
  shows "set (public_keys s') \<subseteq> set (public_keys s) \<union> set (drawn_keys [(gen, now)])"
  by (rule Rotate_Inr [OF assms])
    (auto simp: set_public_keys set_drawn_keys image_iff split: option.splits)

lemma rotations_public_keys:
  "rotations cr ev s = Inr s' \<Longrightarrow> set (public_keys s') \<subseteq> set (public_keys s) \<union> set (drawn_keys ev)"
proof (induction ev arbitrary: s)
  case (Cons e ev)
  then obtain s1 where "Rotate cr (fst e) (snd e) s = Inr s1" "rotations cr ev s1 = Inr s'"
    by (cases e) (auto split: sum.splits)
  with Cons.IH Rotate_public_keys [OF this(1)] show ?case
    by (fastforce simp: drawn_keys_def)
qed simp

lemma set_PublicKey_in: "set_PublicKey now s kid = Some pk \<Longrightarrow> pk \<in> set (public_keys s)"
proof -
  assume "set_PublicKey now s kid = Some pk"
  then obtain k where "find (\<lambda>k. k_kid k = kid) (live_keys now s) = Some k" and pk: "pk = sk_Public (k_priv k)"
    by (auto simp: set_PublicKey_live)
  then have "k \<in> set (live_keys now s)"
    by (auto dest: find_first_Some)
  with pk show ?thesis
    by (auto simp: live_keys_def set_public_keys split: option.splits)
qed

text \<open>
  Whatever the loop does between \<open>t0\<close> and \<open>now\<close>, and whatever is merged from the store, the
  key that was current at \<open>t0\<close> is found and served at \<open>now\<close> when that is within the overlap,
  unless another key has the same thumbprint.
\<close>

definition tick_ok :: "gotime \<Rightarrow> gotime \<Rightarrow> privkey option \<times> gotime \<Rightarrow> bool" where
  "tick_ok t0 now t \<longleftrightarrow> gen_ok (fst t) \<and> sane_time (snd t) \<and> tns t0 \<le> tns (snd t) \<and> tns (snd t) \<le> tns now"

lemma current_key_survives:
  assumes s: "keyset_ok cr s" "set_Current s = Inr (priv, kid)"
    and ticks: "list_all (tick_ok t0 now) ticks" "sane_time now"
    and ov: "in_s64 (ks_overlap s)" "0 < ks_overlap s" "tns now < tns t0 + ks_overlap s"
    and hash: "list_all (\<lambda>pk. thumbprint cr pk = Inr kid \<longrightarrow> pk = sk_Public priv) (public_keys s @ drawn_keys ticks)"
  shows "set_PublicKey now (rotateLoop cr every ticks s) kid = Some (sk_Public priv)
    \<and> keyset_ok cr (rotateLoop cr every ticks s)"
proof -
  obtain ev where ev: "set ev \<subseteq> set ticks" "rotations cr ev s = Inr (rotateLoop cr every ticks s)"
    using rotateLoop_rotations by blast
  have gens: "\<forall>e \<in> set ev. gen_ok (fst e)"
    using ticks(1) ev(1) by (auto simp: list_all_iff tick_ok_def)
  note ok = rotations_keyset_ok [OF ev(2) s(1) gens]
  obtain c where c: "ks_current s = Some c" "k_priv c = priv" "k_kid c = kid"
    using s(2) by (auto simp: set_Current_def split: option.splits)
  show ?thesis
  proof (cases ev)
    case Nil
    with ev(2) c ok show ?thesis
      by (simp add: set_PublicKey_def)
  next
    case (Cons e ev')
    then obtain s1 where s1: "Rotate cr (fst e) (snd e) s = Inr s1" "rotations cr ev' s1 = Inr (rotateLoop cr every ticks s)"
      using ev(2) by (cases e) (auto split: sum.splits)
    have t: "sane_time (snd x) \<and> tns t0 \<le> tns (snd x) \<and> tns (snd x) \<le> tns now" if "x \<in> set ev" for x
      using that ticks(1) ev(1) by (auto simp: list_all_iff tick_ok_def)
    have v: "valid_time (time_Add (snd e) (ks_overlap s))" "tns (time_Add (snd e) (ks_overlap s)) = tns (snd e) + ks_overlap s"
      using t [of e] Cons ov(1) by (simp_all add: time_Add_sane)
    have after: "time_After (time_Add (snd e) (ks_overlap s)) x"
      if "sane_time x" "tns x \<le> tns now" for x
      using that v t [of e] Cons ov(3) by (simp add: time_After_ns)
    have "\<exists>pk. set_PublicKey now (rotateLoop cr every ticks s) (k_kid c) = Some pk
        \<and> valid_pub pk \<and> thumbprint cr pk = thumbprint cr (sk_Public (k_priv c))"
      using s(1) c(1) s1 gens Cons t after ticks(2)
      by (intro retired_key_found [where s = s and ev = ev' and ?t0.0 = "snd e" and gen = "fst e"]) auto
    then obtain pk where pk: "set_PublicKey now (rotateLoop cr every ticks s) kid = Some pk"
        "thumbprint cr pk = thumbprint cr (sk_Public priv)"
      using c by auto
    have "pk \<in> set (public_keys s @ drawn_keys ticks)"
      using set_PublicKey_in [OF pk(1)] rotations_public_keys [OF ev(2)] ev(1)
      by (auto simp: set_drawn_keys)
    moreover have "thumbprint cr pk = Inr kid"
      using pk(2) set_current_published [OF s] by simp
    ultimately have "pk = sk_Public priv"
      using hash by (auto simp: list_all_iff)
    with pk(1) ok show ?thesis
      by simp
  qed
qed

lemma daemon_key_survives:
  assumes "keyset_ok cr (dk_Set dk)" "source_Current dk = Inr (priv, kid)"
    and "list_all (tick_ok t0 now) (ticks_of evs)" "sane_time now"
    and "in_s64 (ks_overlap (dk_Set dk))" "0 < ks_overlap (dk_Set dk)" "tns now < tns t0 + ks_overlap (dk_Set dk)"
    and "list_all (\<lambda>pk. thumbprint cr pk = Inr kid \<longrightarrow> pk = sk_Public priv)
      (public_keys (dk_Set dk) @ drawn_keys (ticks_of evs))"
  shows "\<exists>js. source_JWKS cr (key_run cr every evs dk) now = Inr js
    \<and> (\<exists>j \<in> set js. j_Kid j = kid \<and> PublicFromXY (j_X j) (j_Y j) = Inr (sk_Public priv))"
proof -
  let ?s = "dk_Set (key_run cr every evs dk)"
  have k: "set_PublicKey now ?s kid = Some (sk_Public priv)" "keyset_ok cr ?s"
    using current_key_survives [OF assms(1) assms(2) [unfolded source_Current_eq] assms(3-8)]
    by (simp_all add: key_run_set)
  show ?thesis
  proof (cases "dk_Pub (key_run cr every evs dk)")
    case None
    with set_JWKS_spec [OF k(2), of now] k(1) show ?thesis
      by (auto simp: source_JWKS_def)
  next
    case (Some sp)
    with pub_JWKS_spec [of cr "snd sp\<lparr>p_local := ?s\<rparr>" now] k show ?thesis
      by (cases sp) (auto simp: source_JWKS_def)
  qed
qed

text \<open>What a running daemon keeps: the overlap it was started with, and well-formed keys.\<close>

lemma rotateLoop_keeps:
  assumes "list_all (\<lambda>t. gen_ok (fst t)) ticks" "keyset_ok cr s"
  shows "keyset_ok cr (rotateLoop cr every ticks s) \<and> ks_overlap (rotateLoop cr every ticks s) = ks_overlap s"
proof -
  obtain ev where ev: "set ev \<subseteq> set ticks" "rotations cr ev s = Inr (rotateLoop cr every ticks s)"
    using rotateLoop_rotations by blast
  have "rotations cr ev s = Inr s' \<Longrightarrow> ks_overlap s' = ks_overlap s" for s s'
  proof (induction ev arbitrary: s)
    case (Cons e ev)
    then obtain s1 where s1: "Rotate cr (fst e) (snd e) s = Inr s1" "rotations cr ev s1 = Inr s'"
      by (cases e) (auto split: sum.splits)
    have "ks_overlap s1 = ks_overlap s"
      by (rule Rotate_Inr [OF s1(1)])
    with Cons.IH [OF s1(2)] show ?case
      by simp
  qed simp
  with ev assms rotations_keyset_ok [OF ev(2) assms(2)] show ?thesis
    by (auto simp: list_all_iff)
qed

lemma key_run_keeps:
  assumes "list_all (\<lambda>t. gen_ok (fst t)) (ticks_of evs)" "keyset_ok cr (dk_Set dk)"
  shows "keyset_ok cr (dk_Set (key_run cr every evs dk)) \<and> ks_overlap (dk_Set (key_run cr every evs dk)) = ks_overlap (dk_Set dk)"
  unfolding key_run_set using rotateLoop_keeps [OF assms] .

lemma NewSet_overlap: "NewSet cr ov gen now = Inr s \<Longrightarrow> ks_overlap s = ov"
  unfolding NewSet_def by (erule Rotate_Inr) simp

lemma share_keys_Inr: "share_keys ho hn cm lease grace s = Inr dk \<Longrightarrow> dk_Set dk = s"
  by (auto simp: share_keys_def)

text \<open>
  A verifier of these tokens: the issuer, the audience, and the bounds on its leeway and on the
  lifetime it accepts.
\<close>

definition verifier_for :: "string \<Rightarrow> string \<Rightarrow> verifier_cfg \<Rightarrow> bool" where
  "verifier_for iss aud v \<longleftrightarrow> v_Issuer v = iss \<and> v_Audience v = aud \<and> 0 < v_Leeway v \<and> v_Leeway v < 2 ^ 61
     \<and> MaxTTL \<le> v_MaxLifetime v \<and> v_MaxLifetime v < 2 ^ 61"

text \<open>A verifier that knows one served key.\<close>

definition served_Key :: "jwk \<Rightarrow> string \<Rightarrow> pubkey result" where
  "served_Key j kid = (if kid = j_Kid j then PublicFromXY (j_X j) (j_Y j) else Inl (Error ErrNoKey ''kid''))"

text \<open>With no two keys of one thumbprint, the current key's id names only that key.\<close>

lemma current_thumbprint_unique:
  assumes "keyset_ok cr s" "set_Current s = Inr (priv, kid)"
    and hash: "inj_on (thumbprint cr) (set (public_keys s @ drawn_keys ticks))"
  shows "list_all (\<lambda>pk. thumbprint cr pk = Inr kid \<longrightarrow> pk = sk_Public priv) (public_keys s @ drawn_keys ticks)"
proof -
  have p: "thumbprint cr (sk_Public priv) = Inr kid" "sk_Public priv \<in> set (public_keys s)"
    using set_current_published [OF assms(1,2)] set_PublicKey_in [of zero_time s kid] by blast+
  have "pk = sk_Public priv"
    if "pk \<in> set (public_keys s @ drawn_keys ticks)" "thumbprint cr pk = Inr kid" for pk
    by (rule inj_onD [OF hash _ that(1)]) (use that(2) p in simp_all)
  then show ?thesis
    unfolding list_all_iff by blast
qed

text \<open>
  A token outlives no key: with an overlap longer than the lifetime, the set the daemon serves
  until the token expires lists a key that verifies it, whatever was rotated or merged meanwhile.
\<close>

lemma daemon_token_verifies:
  assumes "crypto_ok cr" "keyset_ok cr (dk_Set dk)" "signer_New iss True True True ttl 0 = Inr cfg"
    and mint: "Mint cr fp cfg identify resolve (source_Current dk) t0 idb rnd aud ten = Inr (tok, c)"
    and "claims_ok c" "idb \<noteq> Some []" "sane_time t0" "Second \<le> sg_TTL cfg" "c_IssuedAt c \<noteq> 0" "c_Expiry c \<noteq> 0"
    and "verifier_for iss aud vcfg"
    and ov: "in_s64 (ks_overlap (dk_Set dk))" "sg_TTL cfg < ks_overlap (dk_Set dk)"
    and ticks: "list_all (tick_ok t0 t) (ticks_of evs)"
    and hash: "inj_on (thumbprint cr) (set (public_keys (dk_Set dk) @ drawn_keys (ticks_of evs)))"
    and t: "sane_time t" "tns t0 \<le> tns t" "tns t \<le> (c_Expiry c + unixToInternal) * Second"
  shows "\<exists>js. source_JWKS cr (key_run cr every evs dk) t = Inr js
    \<and> (\<exists>j \<in> set js. fst (Verify cr fp vcfg (served_Key j) t seen None tok) = Inr c)"
proof -
  obtain priv kid where cur: "source_Current dk = Inr (priv, kid)"
    using mint by (rule Mint_Inr) (auto simp: signClaims_def split: sum.splits)
  have "tns t \<le> tns t0 + sg_TTL cfg"
    using minted_lifetime [OF assms(3) mint assms(7)] t(3) by simp
  moreover have "0 < sg_TTL cfg"
    using signer_New_Inr [OF assms(3)] by simp
  ultimately have "0 < ks_overlap (dk_Set dk)" "tns t < tns t0 + ks_overlap (dk_Set dk)"
    using ov(2) by simp_all
  moreover note current_thumbprint_unique [OF assms(2) cur [unfolded source_Current_eq] hash]
  ultimately obtain js j where j: "source_JWKS cr (key_run cr every evs dk) t = Inr js" "j \<in> set js" "j_Kid j = kid"
      "PublicFromXY (j_X j) (j_Y j) = Inr (sk_Public priv)"
    using daemon_key_survives [OF assms(2) cur ticks t(1) ov(1)] by blast
  have sub: "c_Subject c \<noteq> []"
    by (rule Mint_Inr [OF mint]) (auto simp: mint_claims_def identity_Valid_def split: if_splits)
  have "verify_token cr fp vcfg (served_Key j) t tok = Inr c"
  proof (rule minted_accepted [OF assms(1-3) _ mint [unfolded source_Current_eq] assms(5) _ assms(6-10)])
    show "served_Key j k = Inr (sk_Public p)" if "set_Current (dk_Set dk) = Inr (p, k)" for p k
      using that cur j(3,4) by (simp add: source_Current_eq served_Key_def)
    show "tns t \<le> (c_Expiry c + unixToInternal) * Second + v_Leeway vcfg"
      using t(3) assms(11) by (simp add: verifier_for_def)
  qed (use assms(11) t sub in \<open>simp_all add: verifier_for_def\<close>)
  then have "fst (Verify cr fp vcfg (served_Key j) t seen None tok) = Inr c"
    by (simp add: Verify_def)
  with j(1,2) show ?thesis
    by blast
qed

section \<open>The request multiplexer and the query\<close>

text \<open>Percent-decoding; \<open>None\<close> is a malformed escape.  In a query a plus sign is a space.\<close>

fun unescape :: "bool \<Rightarrow> string \<Rightarrow> string option" where
  "unescape q [] = Some []"
| "unescape q (c # cs) =
     (if c = CHR ''%'' then
        (case cs of
           a # b # r \<Rightarrow>
             (case (hex_digit a, hex_digit b) of
                (Some x, Some y) \<Rightarrow> map_option (Cons (char_of (nat (16 * x + y)))) (unescape q r)
              | _ \<Rightarrow> None)
         | _ \<Rightarrow> None)
      else map_option (Cons (if q \<and> c = CHR ''+'' then CHR '' '' else c)) (unescape q cs))"

text \<open>\<open>url.ParseQuery\<close>: a setting with a semicolon or a malformed escape is skipped.\<close>

definition parse_setting :: "string \<Rightarrow> (string \<times> string) option" where
  "parse_setting s =
     (if s = [] \<or> CHR '';'' \<in> set s then None
      else
        (case (case Cut s CHR ''='' of None \<Rightarrow> (s, []) | Some kv \<Rightarrow> kv) of
           (k, v) \<Rightarrow>
             (case (unescape True k, unescape True v) of (Some k', Some v') \<Rightarrow> Some (k', v') | _ \<Rightarrow> None)))"

definition query_Get :: "string \<Rightarrow> string \<Rightarrow> string" where
  "query_Get raw key =
     (case find (\<lambda>p. map_option fst p = Some key) (map parse_setting (Split raw CHR ''&'')) of
        Some (Some kv) \<Rightarrow> snd kv
      | _ \<Rightarrow> [])"

text \<open>\<open>path.Clean\<close> of a rooted path, and the path a \<open>ServeMux\<close> redirects to when it differs.\<close>

fun clean_segments :: "string list \<Rightarrow> string list \<Rightarrow> string list" where
  "clean_segments acc [] = rev acc"
| "clean_segments acc (s # ss) =
     (if s = [] \<or> s = ''.'' then clean_segments acc ss
      else if s = ''..'' then clean_segments (tl acc) ss
      else clean_segments (s # acc) ss)"

definition cleanPath :: "string \<Rightarrow> string" where
  "cleanPath p =
     (if p = [] then ''/''
      else
        (let p' = (if hd p = CHR ''/'' then p else CHR ''/'' # p);
             np = CHR ''/'' # Join (clean_segments [] (Split p' CHR ''/'')) ''/''
         in if last p' = CHR ''/'' \<and> np \<noteq> ''/'' then np @ ''/'' else np))"

text \<open>
  A \<open>ServeMux\<close> with the exact patterns \<open>pats\<close> and the handler of \<open>/\<close>, if any, on an escaped
  path.  \<open>connect\<close> is whether the method is \<open>CONNECT\<close>, whose path is not cleaned.
\<close>

datatype 'h mux_hit = MuxRedirect string | MuxHandler 'h | MuxNotFound

definition unescaped_segments :: "string \<Rightarrow> string list" where
  "unescaped_segments path = map (\<lambda>s. case unescape False s of None \<Rightarrow> s | Some u \<Rightarrow> u) (Split path CHR ''/'')"

definition mux_Handler :: "(string \<times> 'h) list \<Rightarrow> 'h option \<Rightarrow> bool \<Rightarrow> string \<Rightarrow> 'h mux_hit" where
  "mux_Handler pats root connect path =
     (if \<not> connect \<and> cleanPath path \<noteq> path then MuxRedirect (cleanPath path)
      else
        (case find (\<lambda>(pat, _). unescaped_segments path = Split pat CHR ''/'') pats of
           Some (_, h) \<Rightarrow> MuxHandler h
         | None \<Rightarrow> (case root of Some h \<Rightarrow> MuxHandler h | None \<Rightarrow> MuxNotFound)))"

lemma mux_exact_only:
  "mux_Handler pats None connect path = MuxHandler h \<Longrightarrow> h \<in> snd ` set pats"
  by (auto simp: mux_Handler_def split: if_splits option.splits dest!: find_first_Some intro: rev_image_eqI)

lemma query_examples:
  "query_Get ''a=1&tenant=ac%6De+x&tenant=b'' ''tenant'' = ''acme x''" "query_Get ''tenant=%zz;x'' ''tenant'' = []"
  by code_simp+

lemma mux_examples:
  "mux_Handler [(''/healthz'', True)] (Some False) False ''/%68ealthz'' = MuxHandler True"
  "mux_Handler [(''/healthz'', True)] (Some False) False ''/a/../healthz'' = MuxRedirect ''/healthz''"
  "mux_Handler [(''/healthz'', True)] (Some False) False ''/healthz/'' = MuxHandler False"
  by code_simp+

text \<open>The answer of \<open>/healthz\<close>, a line of text; the headers the server adds are left out.\<close>

definition text_answer :: "int \<Rightarrow> string \<Rightarrow> response" where
  "text_answer status msg = \<lparr>rs_Status = status, rs_Header = [], rs_Body = msg @ [CHR 0x0A]\<rparr>"

section \<open>A concrete world\<close>

definition example_policy_doc :: json where
  "example_policy_doc =
     JObj [(''tenants'', JArr [JObj [(''id'', JStr ''acme''), (''groups'', JObj [(''eng'', JStr ''dev'')])]])]"

definition example_policy_text :: string where
  "example_policy_text = json_Marshal example_policy_doc"

definition one_tenant :: policy_file where
  "one_tenant = \<lparr>pf_Tenants = [\<lparr>pt_ID = ''acme'', pt_Name = [], pt_Groups = [''eng'' \<mapsto> ''dev''], pt_Default = False\<rparr>],
     pf_DefaultRole = []\<rparr>"

definition example_host :: host where
  "example_host =
     \<lparr>ho_Getenv = (\<lambda>_. []), ho_ReadFile = (\<lambda>p. if p = ''tenants.json'' then Some example_policy_text else None),
      ho_PEM = (\<lambda>_. True), ho_Pid = 7, ho_Now = time_Unix 1700000000, ho_Key = Some toy_key, ho_Rand = (\<lambda>_. 0),
      ho_HTTP = (\<lambda>_. Inl (Error Plain [])), ho_Time = (\<lambda>_. None), ho_Seconds = (\<lambda>d. d div Second),
      ho_ParseURL = (\<lambda>u. Some (u, ''svc'')), ho_Up = (\<lambda>h _ _. Inr (h @ ''.ts.net.'')), ho_LocalClient = None,
      ho_Listen = (\<lambda>_ _. None)\<rparr>"

definition example_whois :: "duration \<Rightarrow> string \<Rightarrow> unit whois option result" where
  "example_whois _ _ =
     Inr (Some \<lparr>wi_Node = Some \<lparr>wn_Name = ''n.'', wn_Tagged = False\<rparr>,
       wi_UserProfile = Some \<lparr>wu_ID = 7, wu_LoginName = ''a@x'', wu_DisplayName = ''A''\<rparr>, wi_CapMap = ()\<rparr>)"

definition example_caps :: "unit \<Rightarrow> string \<Rightarrow> cap_rule list option" where
  "example_caps _ _ = Some [\<lparr>cap_Groups = [''eng''], cap_Tenants = []\<rparr>]"

definition example_caller :: identity where
  "example_caller = \<lparr>id_Subject = ''tailnet:7'', id_Login = ''a@x'', id_DisplayName = ''A'', id_Groups = [''eng''],
     id_Node = ''n'', id_Attributes = Map.empty\<rparr>"

definition caller_tenant :: tenant where
  "caller_tenant = \<lparr>t_ID = ''acme'', t_Name = [], t_Roles = [''dev'']\<rparr>"

definition caller_grant :: grant where
  "caller_grant = \<lparr>g_Tenants = [caller_tenant], g_Default = ''acme''\<rparr>"

definition caller_claims :: "signer_cfg \<Rightarrow> gotime \<Rightarrow> claims" where
  "caller_claims cfg now = mint_claims cfg now example_caller caller_grant caller_tenant ''svc'' (b64 (replicate 16 CHR 0x01))"

lemma example_policy_loads: "LoadPolicyFile (Some example_policy_text) = Inr (policy_resolve one_tenant)"
proof -
  have "json_Decode example_policy_text = Some example_policy_doc"
    by code_simp
  moreover have "dec_struct True policy_file_fields example_policy_doc \<lparr>pf_Tenants = [], pf_DefaultRole = []\<rparr> = Some one_tenant"
    by (simp add: policy_file_fields_def policy_tenant_fields_def zero_policy_tenant_def example_policy_doc_def
        one_tenant_def fld_def field_of_def)
  moreover have "tenant_Valid \<lparr>t_ID = ''acme'', t_Name = [], t_Roles = []\<rparr> = None"
    by (simp add: tenant_Valid_None tenantIDPattern_def lower_alnum_def id_inner_def)
  then have "policy_check one_tenant = None"
    by (simp add: policy_check_def one_tenant_def)
  ultimately show ?thesis
    by (simp add: LoadPolicyFile_def parse_policy_def policy_Resolver_def)
qed

lemma caller_resolves: "policy_resolve one_tenant example_caller = Inr caller_grant"
  by (simp add: one_tenant_def example_caller_def policy_resolve_def policy_step_def policy_roles_def Let_def
      empty_grant_def caller_grant_def caller_tenant_def)

lemma caller_identified:
  assumes "ts_Local s"
  shows "Identify example_caps s example_whois ''100.64.0.1:1'' = Inr example_caller"
proof -
  have "isTailnetAddr ''100.64.0.1:1''" "Itoa 7 = ''7''" "TrimSuffix ''n.'' ''.'' = ''n''"
    by code_simp+
  with assms show ?thesis
    by (simp add: Identify_def ts_identity_def example_whois_def example_caps_def example_caller_def sortedKeys_def)
qed

lemma toy_NewSet: "NewSet toy_crypto Hour (Some toy_key) now = Inr toy_set"
  by (simp add: NewSet_def Rotate_def toy_kid Let_def pruneLocked_def toy_set_def)

lemma minted_for_caller:
  assumes "\<not> blank aud"
  shows "\<exists>tok. Mint toy_crypto (\<lambda>_. None) cfg (Inr example_caller) (policy_resolve one_tenant) (set_Current toy_set) now
     (Some (replicate 16 CHR 0x01)) 0 aud []
     = Inr (tok, mint_claims cfg now example_caller caller_grant caller_tenant aud (b64 (replicate 16 CHR 0x01)))"
proof -
  have nb: "\<not> blank (id_Subject example_caller)" "\<not> blank ''dev''"
    by code_simp+
  have v: "grant_Valid caller_grant = None"
    using nb(2) by (simp add: caller_grant_def caller_tenant_def grant_Valid_None tenant_Valid_None tenantIDPattern_def
        lower_alnum_def id_inner_def)
  obtain tok where "signClaims toy_crypto (\<lambda>_. None) 0 (set_Current toy_set)
      (mint_claims cfg now example_caller caller_grant caller_tenant aud (b64 (replicate 16 CHR 0x01))) = Inr tok"
    using toy_signs [of toy_key 0 toy_kid]
    by (auto simp: signClaims_def set_Current_def toy_set_def claims_MarshalJSON_def mint_claims_def toy_key_def)
  then show ?thesis
    using assms nb v unfolding Mint_def
    by (simp add: identity_Valid_def caller_resolves newID_def grant_Tenant_def caller_grant_def caller_tenant_def Let_def)
qed

lemma caller_minted:
  "\<exists>tok. Mint toy_crypto (\<lambda>_. None) cfg (Inr example_caller) (policy_resolve one_tenant) (set_Current toy_set) now
     (Some (replicate 16 CHR 0x01)) 0 ''svc'' [] = Inr (tok, caller_claims cfg now)"
proof -
  have "\<not> blank ''svc''"
    by code_simp
  from minted_for_caller [OF this] show ?thesis
    by (simp add: caller_claims_def)
qed

end
