(* ===== verification/Tsjwtd.thy ===== *)
theory Tsjwtd
  imports Daemon Proxy
begin

text \<open>
  \<open>tsnetid/cmd/tsjwtd/main.go\<close>: the identity-aware proxy.  The flags, the checks and the
  wiring of \<open>run\<close> up to the listeners, in the order of the code and with each error on the way;
  then what the two listeners answer.  How the process waits and shuts down is left out, its servers are \<open>tsjwtd_servers\<close>.
\<close>

section \<open>Flags\<close>

record tsjwtd_flags =
  tf_hostname :: string
  tf_stateDir :: string
  tf_upstream :: string
  tf_audience :: string
  tf_issuer :: string
  tf_header :: string
  tf_bearer :: bool
  tf_ttl :: duration
  tf_rotate :: duration
  tf_overlap :: duration
  tf_tenantCfg :: string
  tf_listen :: string
  tf_allowTags :: bool
  tf_jwksLocal :: string
  tf_capName :: string
  tf_plaintext :: bool
  tf_redirect :: string
  tf_keyTags :: string
  tf_keyValid :: duration
  tf_keyBuffer :: duration
  tf_splayMin :: duration
  tf_splayMax :: duration
  tf_shareCM :: string
  tf_shareLease :: duration
  tf_shareGrace :: duration

definition tsjwtd_defaults :: tsjwtd_flags where
  "tsjwtd_defaults =
     \<lparr>tf_hostname = ''tsjwt'', tf_stateDir = ''/var/lib/tsjwt'', tf_upstream = [], tf_audience = [], tf_issuer = [],
      tf_header = DefaultHeader, tf_bearer = False, tf_ttl = DefaultTTL, tf_rotate = 24 * Hour, tf_overlap = Hour,
      tf_tenantCfg = [], tf_listen = '':443'', tf_allowTags = False, tf_jwksLocal = [], tf_capName = CapGroups,
      tf_plaintext = False, tf_redirect = [], tf_keyTags = [], tf_keyValid = 90 * 24 * Hour, tf_keyBuffer = Hour,
      tf_splayMin = 3 * Minute, tf_splayMax = 7 * Minute, tf_shareCM = [], tf_shareLease = 2 * Minute,
      tf_shareGrace = 30 * Minute\<rparr>"

definition tsjwtd_flagset :: "float_mul \<Rightarrow> tsjwtd_flags flags" where
  "tsjwtd_flagset fl =
     [string_flag ''hostname'' (\<lambda>v. tf_hostname_update (\<lambda>_. v)),
      string_flag ''state-dir'' (\<lambda>v. tf_stateDir_update (\<lambda>_. v)),
      string_flag ''upstream'' (\<lambda>v. tf_upstream_update (\<lambda>_. v)),
      string_flag ''audience'' (\<lambda>v. tf_audience_update (\<lambda>_. v)),
      string_flag ''issuer'' (\<lambda>v. tf_issuer_update (\<lambda>_. v)),
      string_flag ''header'' (\<lambda>v. tf_header_update (\<lambda>_. v)),
      bool_flag ''bearer'' (\<lambda>v. tf_bearer_update (\<lambda>_. v)),
      duration_flag fl ''ttl'' (\<lambda>v. tf_ttl_update (\<lambda>_. v)),
      duration_flag fl ''rotate'' (\<lambda>v. tf_rotate_update (\<lambda>_. v)),
      duration_flag fl ''overlap'' (\<lambda>v. tf_overlap_update (\<lambda>_. v)),
      string_flag ''tenants'' (\<lambda>v. tf_tenantCfg_update (\<lambda>_. v)),
      string_flag ''listen'' (\<lambda>v. tf_listen_update (\<lambda>_. v)),
      bool_flag ''allow-tagged'' (\<lambda>v. tf_allowTags_update (\<lambda>_. v)),
      string_flag ''jwks-listen'' (\<lambda>v. tf_jwksLocal_update (\<lambda>_. v)),
      string_flag ''cap'' (\<lambda>v. tf_capName_update (\<lambda>_. v)),
      bool_flag ''plaintext'' (\<lambda>v. tf_plaintext_update (\<lambda>_. v)),
      string_flag ''redirect-listen'' (\<lambda>v. tf_redirect_update (\<lambda>_. v)),
      string_flag ''key-tags'' (\<lambda>v. tf_keyTags_update (\<lambda>_. v)),
      duration_flag fl ''key-validity'' (\<lambda>v. tf_keyValid_update (\<lambda>_. v)),
      duration_flag fl ''key-buffer'' (\<lambda>v. tf_keyBuffer_update (\<lambda>_. v)),
      duration_flag fl ''key-splay-min'' (\<lambda>v. tf_splayMin_update (\<lambda>_. v)),
      duration_flag fl ''key-splay-max'' (\<lambda>v. tf_splayMax_update (\<lambda>_. v)),
      string_flag ''share-keys'' (\<lambda>v. tf_shareCM_update (\<lambda>_. v)),
      duration_flag fl ''share-lease'' (\<lambda>v. tf_shareLease_update (\<lambda>_. v)),
      duration_flag fl ''share-grace'' (\<lambda>v. tf_shareGrace_update (\<lambda>_. v))]"

text \<open>The checks before anything is read, and the default of the issuer.\<close>

definition tsjwtd_check :: "tsjwtd_flags \<Rightarrow> tsjwtd_flags result" where
  "tsjwtd_check fl =
     (if tf_upstream fl = [] then Inl (Error Plain ''-upstream is required'')
      else if tf_audience fl = [] then Inl (Error Plain ''-audience is required'')
      else if tf_tenantCfg fl = [] then Inl (Error Plain ''-tenants is required'')
      else
        (let fl' = (if tf_issuer fl = [] then fl\<lparr>tf_issuer := ''https://'' @ tf_hostname fl\<rparr> else fl)
         in if tf_overlap fl' \<le> tf_ttl fl' then Inl (Error Plain ''-overlap must exceed -ttl'') else Inr fl'))"

section \<open>Start\<close>

text \<open>\<open>tenantFromRequest\<close>\<close>

definition tenantFromRequest :: "http_req \<Rightarrow> string" where
  "tenantFromRequest r =
     (let t = hdr_Get (hr_Header r) ''X-Tsjwt-Tenant''
      in if t \<noteq> [] then t else query_Get (hr_RawQuery r) ''tenant'')"

definition tsjwtd_keys :: "host \<Rightarrow> tsjwtd_flags \<Rightarrow> keyset \<Rightarrow> daemon_keys result" where
  "tsjwtd_keys ho fl s =
     (if tf_shareCM fl \<noteq> [] then
        failIf (tf_shareGrace fl \<le> tf_ttl fl) ''-share-grace must exceed -ttl''
          (share_keys ho (tf_hostname fl) (tf_shareCM fl) (tf_shareLease fl) (tf_shareGrace fl) s)
      else Inr \<lparr>dk_Set = s, dk_Pub = None\<rparr>)"

definition tsjwtd_source :: "tsjwtd_flags \<Rightarrow> ts_source" where
  "tsjwtd_source fl = \<lparr>ts_Local = True, ts_Cap = tf_capName fl, ts_AllowTagged = tf_allowTags fl, ts_Timeout = 0\<rparr>"

definition tsjwtd_proxy_cfg :: "tsjwtd_flags \<Rightarrow> string \<Rightarrow> proxy_cfg" where
  "tsjwtd_proxy_cfg fl up =
     \<lparr>px_Router = None, px_Upstream = Some up, px_Signer = True, px_Audience = tf_audience fl, px_Header = tf_header fl,
      px_Bearer = tf_bearer fl, px_TenantFrom = Some tenantFromRequest, px_Gate = False\<rparr>"

text \<open>The running daemon: what the handlers and the goroutines share.\<close>

record tsjwtd =
  td_Flags :: tsjwtd_flags
  td_Keys :: daemon_keys
  td_Signer :: signer_cfg
  td_Tenants :: "identity \<Rightarrow> grant result"
  td_Proxy :: proxy
  td_Expiry :: expiry
  td_DNSName :: string

definition wrap_error :: "string \<Rightarrow> 'a result \<Rightarrow> 'a result" where
  "wrap_error msg r = (case r of Inl e \<Rightarrow> Inl (Error (err_sentinel e) msg) | Inr x \<Rightarrow> Inr x)"

text \<open>\<open>run\<close>, up to serving.\<close>

definition tsjwtd_run :: "crypto \<Rightarrow> host \<Rightarrow> tsjwtd_flags \<Rightarrow> tsjwtd result" where
  "tsjwtd_run cr ho fl0 =
     andThen (tsjwtd_check fl0) (\<lambda>fl.
     andThen (case ho_ParseURL ho (tf_upstream fl) of
                None \<Rightarrow> Inl (Error Plain ''parse -upstream'') | Some (u, _) \<Rightarrow> Inr u) (\<lambda>up.
     andThen (LoadPolicyFile (ho_ReadFile ho (tf_tenantCfg fl))) (\<lambda>policy.
     andThen (wrap_error ''key set'' (NewSet cr (tf_overlap fl) (ho_Key ho) (ho_Now ho))) (\<lambda>keySet.
     andThen (startup_key ''-key-tags is set, so TS_OAUTH_CLIENT_ID and TS_OAUTH_CLIENT_SECRET must both be set''
                (tf_keyValid fl) ho (tf_keyTags fl)
                (NewExpiry (ho_Rand ho) zero_time (tf_keyBuffer fl) (tf_splayMin fl) (tf_splayMax fl))) (\<lambda>(authKey, ex).
     andThen (wrap_error ''tailnet join'' (ho_Up ho (tf_hostname fl) (tf_stateDir fl) authKey)) (\<lambda>name.
     unless (map_option (\<lambda>e. Error (err_sentinel e) ''local client'') (ho_LocalClient ho))
     (andThen (tsjwtd_keys ho fl keySet) (\<lambda>keySource.
     andThen (signer_New (tf_issuer fl) True True True (tf_ttl fl) 0) (\<lambda>sg.
     andThen (proxy_New (tsjwtd_proxy_cfg fl up)) (\<lambda>px.
     unless (map_option (\<lambda>e. Error (err_sentinel e) ''listen'') (ho_Listen ho (\<not> tf_plaintext fl) (tf_listen fl)))
     (unless (if tf_redirect fl \<noteq> [] \<and> \<not> tf_plaintext fl
              then map_option (\<lambda>e. Error (err_sentinel e) ''listen for redirects'') (ho_Listen ho False (tf_redirect fl))
              else None)
     (Inr \<lparr>td_Flags = fl, td_Keys = keySource, td_Signer = sg, td_Tenants = policy, td_Proxy = px, td_Expiry = ex,
           td_DNSName = name\<rparr>))))))))))))"

section \<open>Serving\<close>

datatype tsjwtd_route = ServeKeys | ServeHealth | ServeProxy

definition tsjwtd_mux :: "bool \<Rightarrow> string \<Rightarrow> tsjwtd_route mux_hit" where
  "tsjwtd_mux =
     mux_Handler [(''/.well-known/jwks.json'', ServeKeys), (''/healthz'', ServeHealth)] (Some ServeProxy)"

text \<open>The ordinary listener hands \<open>/healthz\<close> to the first multiplexer, whole.\<close>

datatype ops_route = OpsKeys | OpsMux

definition tsjwtd_ops :: "bool \<Rightarrow> string \<Rightarrow> tsjwtd_route mux_hit" where
  "tsjwtd_ops connect path =
     (case mux_Handler [(''/.well-known/jwks.json'', OpsKeys), (''/healthz'', OpsMux)] None connect path of
        MuxHandler OpsKeys \<Rightarrow> MuxHandler ServeKeys
      | MuxHandler OpsMux \<Rightarrow> tsjwtd_mux connect path
      | MuxRedirect p \<Rightarrow> MuxRedirect p
      | MuxNotFound \<Rightarrow> MuxNotFound)"

text \<open>\<open>fmt\<close> formats a time in RFC 3339.\<close>

definition tsjwtd_health :: "(gotime \<Rightarrow> string) \<Rightarrow> tsjwtd \<Rightarrow> gotime \<Rightarrow> response" where
  "tsjwtd_health fmt d now =
     (if \<not> Healthy (td_Expiry d) now
      then text_answer 503 (''auth key expires '' @ fmt (DeadlineAt (td_Expiry d)) @ ''; replace this process'')
      else text_answer 200 ''ok'')"

text \<open>The key set at a moment; \<open>None\<close> is a panic.\<close>

definition tsjwtd_jwks :: "crypto \<Rightarrow> tsjwtd \<Rightarrow> daemon_keys \<Rightarrow> gotime \<Rightarrow> string \<Rightarrow> response option" where
  "tsjwtd_jwks cr d dk now method =
     (case source_JWKS cr dk now of
        Inl _ \<Rightarrow> None
      | Inr js \<Rightarrow> Some (JWKSHandler (quo (tf_overlap (td_Flags d)) 2) method js))"

text \<open>
  A request to the backend: the caller is established by \<open>tsnetid\<close>, the tenants by the policy,
  and the token is signed with the keys of the moment.
\<close>

definition tsjwtd_world :: "('m \<Rightarrow> string \<Rightarrow> cap_rule list option) \<Rightarrow> (duration \<Rightarrow> string \<Rightarrow> 'm whois option result)
    \<Rightarrow> tsjwtd \<Rightarrow> daemon_keys \<Rightarrow> gotime \<Rightarrow> bytes option \<Rightarrow> nat \<Rightarrow> signer_world" where
  "tsjwtd_world unm whois d dk now idb rnd =
     \<lparr>sw_Identify = Identify unm (tsjwtd_source (td_Flags d)) whois, sw_Resolve = td_Tenants d,
      sw_Current = source_Current dk, sw_Now = now, sw_ID = idb, sw_Rnd = rnd\<rparr>"

definition tsjwtd_serve :: "crypto \<Rightarrow> (jnum \<Rightarrow> jnum option) \<Rightarrow> (string \<Rightarrow> string) \<Rightarrow> tsjwtd \<Rightarrow> signer_world \<Rightarrow> http_req
    \<Rightarrow> call list \<times> ending" where
  "tsjwtd_serve cr fp ul d w req =
     (let mint = mint_at cr fp (td_Signer d) w in serve ul (td_Proxy d) mint (\<lambda>_. None) True mint req)"

text \<open>
  The servers, in the order they start.  The one of the proxy streams, so only its headers and its
  idle connections are bounded; the others bound whole requests.
\<close>

datatype tsjwtd_handler = Redirects | OpsHandler | MainHandler

definition tsjwtd_servers :: "tsjwtd_flags \<Rightarrow> tsjwtd_handler http_server list" where
  "tsjwtd_servers fl =
     (if tf_redirect fl \<noteq> [] \<and> \<not> tf_plaintext fl
      then [\<lparr>sr_Tailnet = True, sr_TLS = False, sr_Addr = tf_redirect fl, sr_Handler = Redirects,
             sr_ReadTimeout = 15 * Second, sr_ReadHeaderTimeout = 10 * Second, sr_WriteTimeout = 15 * Second,
             sr_IdleTimeout = 120 * Second, sr_Grace = Some (5 * Second)\<rparr>] else [])
     @ (if tf_jwksLocal fl \<noteq> []
        then [\<lparr>sr_Tailnet = False, sr_TLS = False, sr_Addr = tf_jwksLocal fl, sr_Handler = OpsHandler,
               sr_ReadTimeout = 15 * Second, sr_ReadHeaderTimeout = 10 * Second, sr_WriteTimeout = 15 * Second,
               sr_IdleTimeout = 120 * Second, sr_Grace = Some (5 * Second)\<rparr>] else [])
     @ [\<lparr>sr_Tailnet = True, sr_TLS = \<not> tf_plaintext fl, sr_Addr = tf_listen fl, sr_Handler = MainHandler,
          sr_ReadTimeout = 0, sr_ReadHeaderTimeout = 10 * Second, sr_WriteTimeout = 0,
          sr_IdleTimeout = 120 * Second, sr_Grace = Some (10 * Second)\<rparr>]"

text \<open>What a server does with a path: the redirects have no multiplexer.\<close>

definition tsjwtd_dispatch :: "tsjwtd_handler \<Rightarrow> bool \<Rightarrow> string \<Rightarrow> tsjwtd_route mux_hit option" where
  "tsjwtd_dispatch h connect path =
     (case h of Redirects \<Rightarrow> None | OpsHandler \<Rightarrow> Some (tsjwtd_ops connect path) | MainHandler \<Rightarrow> Some (tsjwtd_mux connect path))"

text \<open>The redirect listener; \<open>epath\<close> is the escaped path.\<close>

definition tsjwtd_redirect :: "tsjwtd \<Rightarrow> string \<Rightarrow> string \<Rightarrow> string" where
  "tsjwtd_redirect d epath query =
     ''https://'' @ TrimSuffix (td_DNSName d) ''.'' @ epath @ (if query = [] then [] else ''?'' @ query)"

section \<open>Lemmas\<close>

lemma tsjwtd_check_Inr:
  "tsjwtd_check fl0 = Inr fl \<Longrightarrow>
     tf_upstream fl0 \<noteq> [] \<and> tf_audience fl0 \<noteq> [] \<and> tf_tenantCfg fl0 \<noteq> [] \<and> tf_ttl fl0 < tf_overlap fl0
     \<and> fl = fl0\<lparr>tf_issuer := (if tf_issuer fl0 = [] then ''https://'' @ tf_hostname fl0 else tf_issuer fl0)\<rparr>"
  by (auto simp: tsjwtd_check_def Let_def split: if_splits)

lemma wrap_error_Inr [simp]: "wrap_error msg r = Inr x \<longleftrightarrow> r = Inr x"
  by (simp add: wrap_error_def split: sum.split)

lemma tsjwtd_keys_Inr:
  "tsjwtd_keys ho fl s = Inr dk \<Longrightarrow> dk_Set dk = s \<and> (tf_shareCM fl \<noteq> [] \<longrightarrow> tf_ttl fl < tf_shareGrace fl)"
  by (auto simp: tsjwtd_keys_def dest: share_keys_Inr split: if_splits)

lemma tsjwtd_run_Inr:
  assumes "tsjwtd_run cr ho fl0 = Inr d"
  obtains up s where "tsjwtd_check fl0 = Inr (td_Flags d)" "NewSet cr (tf_overlap (td_Flags d)) (ho_Key ho) (ho_Now ho) = Inr s"
    "tsjwtd_keys ho (td_Flags d) s = Inr (td_Keys d)"
    "signer_New (tf_issuer (td_Flags d)) True True True (tf_ttl (td_Flags d)) 0 = Inr (td_Signer d)"
    "ho_ParseURL ho (tf_upstream (td_Flags d)) = Some up" "proxy_New (tsjwtd_proxy_cfg (td_Flags d) (fst up)) = Inr (td_Proxy d)"
    "LoadPolicyFile (ho_ReadFile ho (tf_tenantCfg (td_Flags d))) = Inr (td_Tenants d)"
  using assms
  by (auto simp: tsjwtd_run_def split: option.splits prod.splits)

lemma tsjwtd_running:
  assumes "tsjwtd_run cr ho fl0 = Inr d" "gen_ok (ho_Key ho)" "list_all (\<lambda>t. gen_ok (fst t)) (ticks_of evs)"
  shows "keyset_ok cr (dk_Set (key_run cr every evs (td_Keys d)))
    \<and> ks_overlap (dk_Set (key_run cr every evs (td_Keys d))) = tf_overlap fl0"
proof (rule tsjwtd_run_Inr [OF assms(1)])
  fix up s
  assume r: "tsjwtd_check fl0 = Inr (td_Flags d)" "NewSet cr (tf_overlap (td_Flags d)) (ho_Key ho) (ho_Now ho) = Inr s"
    "tsjwtd_keys ho (td_Flags d) s = Inr (td_Keys d)"
  have "dk_Set (td_Keys d) = s" "keyset_ok cr s" "ks_overlap s = tf_overlap fl0"
    using tsjwtd_keys_Inr [OF r(3)] NewSet_keyset_ok [OF r(2) assms(2)] NewSet_overlap [OF r(2)] tsjwtd_check_Inr [OF r(1)]
    by simp_all
  then show ?thesis
    using key_run_keeps [OF assms(3), of cr "td_Keys d" every] by simp
qed

text \<open>The proxy has the one route of its flags.\<close>

lemma tsjwtd_proxy_route:
  assumes "proxy_New (tsjwtd_proxy_cfg fl up) = Inr p" "r \<in> set (pr_router p)"
  shows "rt_Upstream r = Some up \<and> rt_Audience r = tf_audience fl \<and> rt_ClaimHeaders r = [] \<and> \<not> px_Gate (pr_cfg p)"
  using assms
  by (auto simp: proxy_New_def proxy_router_def tsjwtd_proxy_cfg_def NewRouter_def single_route_def
      split: if_splits sum.splits option.splits)

text \<open>Whom a token is minted for, when callers are established by \<open>tsnetid\<close>.\<close>

lemma minted_for_peer:
  assumes "mint_at cr fp sg w remote aud ten = Inr (tok, c)"
    and "sw_Identify w = Identify unm src whois" "ts_Timeout src = 0"
  obtains who node user where "isTailnetAddr remote" "whois (5 * Second) remote = Inr (Some who)" "wi_Node who = Some node"
    "\<not> wn_Tagged node \<or> ts_AllowTagged src" "wi_UserProfile who = Some user"
    "c_Subject c = ''tailnet:'' @ Itoa (wu_ID user)" "signClaims cr fp (sw_Rnd w) (sw_Current w) c = Inr tok"
proof -
  obtain i where i: "Identify unm src whois remote = Inr i"
      "c_Subject c = id_Subject i" "signClaims cr fp (sw_Rnd w) (sw_Current w) c = Inr tok"
    using assms(1) unfolding mint_at_def assms(2) by (rule Mint_Inr) (simp add: mint_claims_def)
  obtain who node where w: "isTailnetAddr remote" "whois (5 * Second) remote = Inr (Some who)"
      "wi_Node who = Some node" "ts_identity unm src node who = Inr i"
    by (rule Identify_Inr [OF i(1)]) (simp add: whois_timeout_def assms(3))
  obtain user where "wi_UserProfile who = Some user" "\<not> wn_Tagged node \<or> ts_AllowTagged src"
      "id_Subject i = ''tailnet:'' @ Itoa (wu_ID user)"
    by (rule ts_identity_Inr [OF w(4)]) simp
  with w i show thesis
    by (intro that) simp_all
qed

text \<open>The lifetime check is made on the flag, the signer mints with its own default.\<close>

lemma tsjwtd_zero_ttl_accepted:
  "\<exists>fl cfg. tsjwtd_check (tsjwtd_defaults\<lparr>tf_upstream := ''u'', tf_audience := ''a'', tf_tenantCfg := ''t'', tf_ttl := 0,
        tf_overlap := Minute\<rparr>) = Inr fl
     \<and> signer_New (tf_issuer fl) True True True (tf_ttl fl) 0 = Inr cfg \<and> tf_overlap fl < sg_TTL cfg"
proof -
  have "\<not> blank ''https://tsjwt''"
    by code_simp
  then show ?thesis
    by (simp add: tsjwtd_check_def tsjwtd_defaults_def Let_def signer_New_def DefaultTTL_def MaxTTL_def)
qed

text \<open>The key set and the health of the process are all the ordinary listener gives.\<close>

lemma tsjwtd_mux_ServeProxy:
  "tsjwtd_ops connect path \<noteq> MuxHandler ServeProxy"
  "tsjwtd_mux connect ''/x'' = MuxHandler ServeProxy"
proof -
  show "tsjwtd_ops connect path \<noteq> MuxHandler ServeProxy"
    by (auto simp: tsjwtd_ops_def tsjwtd_mux_def mux_Handler_def split: if_splits mux_hit.splits ops_route.splits)
  have "tsjwtd_mux True ''/x'' = MuxHandler ServeProxy" "tsjwtd_mux False ''/x'' = MuxHandler ServeProxy"
    by code_simp+
  then show "tsjwtd_mux connect ''/x'' = MuxHandler ServeProxy"
    by (cases connect) simp_all
qed

text \<open>
  The backend is only reachable through the tailnet, and over TLS unless that is turned off; every
  server bounds the time a client may take over its headers.
\<close>

lemma tsjwtd_proxy_on_tailnet:
  assumes "sv \<in> set (tsjwtd_servers fl)"
  shows "tsjwtd_dispatch (sr_Handler sv) connect path = Some (MuxHandler ServeProxy) \<Longrightarrow>
      sr_Tailnet sv \<and> sr_Addr sv = tf_listen fl \<and> (sr_TLS sv \<longleftrightarrow> \<not> tf_plaintext fl)"
    "0 < sr_ReadHeaderTimeout sv \<and> 0 < sr_IdleTimeout sv \<and> (\<not> sr_Tailnet sv \<longrightarrow> 0 < sr_WriteTimeout sv)"
  using assms tsjwtd_mux_ServeProxy(1) [of connect path]
  by (auto simp: tsjwtd_servers_def tsjwtd_dispatch_def split: if_split_asm)

section \<open>Properties\<close>

text \<open>
  C8 (tokens outlive rotations).  A daemon that starts with a positive lifetime serves, at every
  moment until a token it minted expires, a key set that lists a key which verifies the token:
  whatever keys it rotated to since, however many times, and whatever other replicas published.
\<close>

theorem tsjwtd_tokens_outlive_rotations:
  assumes "crypto_ok cr" "tsjwtd_run cr ho fl0 = Inr d" "gen_ok (ho_Key ho)"
    and "Second \<le> tf_ttl fl0" "in_s64 (tf_overlap fl0)"
    and "list_all (\<lambda>t. gen_ok (fst t)) (ticks_of past)" "dk = key_run cr (tf_rotate (td_Flags d)) past (td_Keys d)"
    and mint: "mint_at cr fp (td_Signer d) (tsjwtd_world unm whois d dk t0 idb rnd) remote aud ten = Inr (tok, c)"
    and "claims_ok c" "idb \<noteq> Some []" "sane_time t0" "c_IssuedAt c \<noteq> 0" "c_Expiry c \<noteq> 0"
    and "verifier_for (tf_issuer (td_Flags d)) aud vcfg"
    and "list_all (tick_ok t0 t) (ticks_of since)"
    and "inj_on (thumbprint cr) (set (public_keys (dk_Set dk) @ drawn_keys (ticks_of since)))"
    and "sane_time t" "tns t0 \<le> tns t" "tns t \<le> (c_Expiry c + unixToInternal) * Second"
  shows "\<exists>js. source_JWKS cr (key_run cr (tf_rotate (td_Flags d)) since dk) t = Inr js
    \<and> (\<exists>j \<in> set js. fst (Verify cr fp vcfg (served_Key j) t seen None tok) = Inr c)"
proof (rule tsjwtd_run_Inr [OF assms(2)])
  fix up s
  assume r: "tsjwtd_check fl0 = Inr (td_Flags d)"
    "signer_New (tf_issuer (td_Flags d)) True True True (tf_ttl (td_Flags d)) 0 = Inr (td_Signer d)"
  have k: "keyset_ok cr (dk_Set dk)" "ks_overlap (dk_Set dk) = tf_overlap fl0"
    using tsjwtd_running [OF assms(2,3,6)] assms(7) by simp_all
  have "sg_TTL (td_Signer d) = min (tf_ttl fl0) MaxTTL" "tf_ttl fl0 < tf_overlap fl0"
    using signer_New_TTL [OF r(2)] tsjwtd_check_Inr [OF r(1)] assms(4) by simp_all
  then have ttl: "Second \<le> sg_TTL (td_Signer d)" "sg_TTL (td_Signer d) < tf_overlap fl0"
    using assms(4) by (simp_all add: MaxTTL_def)
  show ?thesis
    using daemon_token_verifies [OF assms(1) k(1) r(2) mint [unfolded mint_at_def tsjwtd_world_def signer_world.simps]
        assms(9-11) ttl(1) assms(12-14) _ _ assms(15-19)] assms(5) ttl(2) k(2)
    by simp
qed

text \<open>
  C4 (only the tailnet gets through).  A request reaches the upstream only from a tailnet address
  that \<open>WhoIs\<close> attributes to a user, on a node that is no tagged one unless tagged nodes are
  allowed; it goes to the upstream of the flags with an assertion for the audience of the flags,
  minted for that caller.
\<close>

theorem tsjwtd_forwards_tailnet_only:
  assumes "tsjwtd_run cr ho fl0 = Inr d"
    and "tsjwtd_serve cr fp ul d (tsjwtd_world unm whois d dk now idb rnd) req = (calls, Forwarded u out)"
  shows "isTailnetAddr (hr_RemoteAddr req)
    \<and> (\<exists>who node user. whois (5 * Second) (hr_RemoteAddr req) = Inr (Some who) \<and> wi_Node who = Some node
         \<and> (\<not> wn_Tagged node \<or> tf_allowTags fl0) \<and> wi_UserProfile who = Some user
         \<and> (\<exists>tok c. c_Subject c = ''tailnet:'' @ Itoa (wu_ID user) \<and> c_Audience c = tf_audience fl0
              \<and> signClaims cr fp rnd (source_Current dk) c = Inr tok
              \<and> hdr_Values (hr_Header out) (px_Header (pr_cfg (td_Proxy d))) = [assertion_value (pr_cfg (td_Proxy d)) tok]))
    \<and> map_option fst (ho_ParseURL ho (tf_upstream fl0)) = Some u"
proof (rule tsjwtd_run_Inr [OF assms(1)])
  fix up s
  assume r: "tsjwtd_check fl0 = Inr (td_Flags d)" "ho_ParseURL ho (tf_upstream (td_Flags d)) = Some up"
    "proxy_New (tsjwtd_proxy_cfg (td_Flags d) (fst up)) = Inr (td_Proxy d)"
  let ?p = "td_Proxy d" and ?w = "tsjwtd_world unm whois d dk now idb rnd"
  have sv: "serve ul ?p (mint_at cr fp (td_Signer d) ?w) (\<lambda>_. None) True (mint_at cr fp (td_Signer d) ?w) req = (calls, Forwarded u out)"
    using assms(2) by (simp add: tsjwtd_serve_def Let_def)
  obtain rt ten tok c where f: "rt \<in> set (pr_router ?p)" "rt_Upstream rt = Some u"
      "out = inject (pr_cfg ?p) tok c rt (strip_request ?p req)" "c_Audience c = rt_Audience rt"
      "mint_at cr fp (td_Signer d) ?w (hr_RemoteAddr req) (rt_Audience rt) ten = Inr (tok, c)"
    by (rule signer_minting.forwarded [OF r(3) sv])
      (use tsjwtd_proxy_route [OF r(3)] router_Match_in in \<open>fastforce split: if_splits\<close>)
  note rt = tsjwtd_proxy_route [OF r(3) f(1)]
  note fl = tsjwtd_check_Inr [OF r(1)]
  obtain who node user where w: "isTailnetAddr (hr_RemoteAddr req)" "whois (5 * Second) (hr_RemoteAddr req) = Inr (Some who)"
      "wi_Node who = Some node" "\<not> wn_Tagged node \<or> tf_allowTags fl0" "wi_UserProfile who = Some user"
      "c_Subject c = ''tailnet:'' @ Itoa (wu_ID user)" "signClaims cr fp rnd (source_Current dk) c = Inr tok"
    by (rule minted_for_peer [OF f(5), of unm "tsjwtd_source (td_Flags d)" whois])
      (use fl in \<open>simp_all add: tsjwtd_world_def tsjwtd_source_def\<close>)
  have "hdr_Values (hr_Header out) (px_Header (pr_cfg ?p)) = [assertion_value (pr_cfg ?p) tok]"
    using rt by (simp add: f(3) inject_Values claim_header_for_def)
  then show ?thesis
    using w f(2,4) rt fl r(2) by auto
qed

section \<open>The properties on a concrete daemon\<close>

definition example_flags :: tsjwtd_flags where
  "example_flags = tsjwtd_defaults\<lparr>tf_upstream := ''http://svc'', tf_audience := ''svc'', tf_tenantCfg := ''tenants.json''\<rparr>"

definition example_signer :: signer_cfg where
  "example_signer = \<lparr>sg_Issuer = ''https://tsjwt'', sg_TTL = 5 * Minute, sg_Leeway = 30 * Second\<rparr>"

definition example_tsjwtd :: tsjwtd where
  "example_tsjwtd =
     \<lparr>td_Flags = example_flags\<lparr>tf_issuer := ''https://tsjwt''\<rparr>, td_Keys = \<lparr>dk_Set = toy_set, dk_Pub = None\<rparr>,
      td_Signer = example_signer, td_Tenants = policy_resolve one_tenant,
      td_Proxy = \<lparr>pr_cfg = tsjwtd_proxy_cfg example_flags ''http://svc'',
        pr_router = [single_route ''default'' (Some ''http://svc'') ''svc''], pr_rps = [''http://svc''], pr_claimHeaders = []\<rparr>,
      td_Expiry = NewExpiry (\<lambda>_. 0) zero_time Hour (3 * Minute) (7 * Minute), td_DNSName = ''tsjwt.ts.net.''\<rparr>"

lemma example_tsjwtd_run: "tsjwtd_run toy_crypto example_host example_flags = Inr example_tsjwtd"
proof -
  have b: "\<not> blank ''https://tsjwt''" "\<not> blank ''svc''" "DefaultHeader \<noteq> []"
    by code_simp+
  then have "proxy_New (tsjwtd_proxy_cfg (example_flags\<lparr>tf_issuer := ''https://tsjwt''\<rparr>) ''http://svc'') = Inr (td_Proxy example_tsjwtd)"
    by (simp add: proxy_New_def proxy_router_def tsjwtd_proxy_cfg_def example_flags_def tsjwtd_defaults_def NewRouter_def
        single_route_def route_Valid_def upstream_keys_def example_tsjwtd_def)
  moreover have "signer_New ''https://tsjwt'' True True True DefaultTTL 0 = Inr example_signer"
    using b(1) by (simp add: signer_New_def example_signer_def DefaultTTL_def MaxTTL_def Let_def)
  ultimately show ?thesis
    by (simp add: tsjwtd_run_def tsjwtd_check_def example_flags_def tsjwtd_defaults_def DefaultTTL_def example_host_def
        example_policy_loads toy_NewSet startup_key_def tsjwtd_keys_def example_tsjwtd_def unless_def)
qed

abbreviation example_wd :: "daemon_keys \<Rightarrow> signer_world" where
  "example_wd dk \<equiv> tsjwtd_world example_caps example_whois example_tsjwtd dk (time_Unix 1700000000) (Some (replicate 16 CHR 0x01)) 0"

lemma example_tsjwtd_mint:
  assumes "source_Current dk = set_Current toy_set"
  shows "\<exists>tok. mint_at toy_crypto (\<lambda>_. None) example_signer (example_wd dk) ''100.64.0.1:1'' ''svc'' []
    = Inr (tok, caller_claims example_signer (time_Unix 1700000000))"
  using caller_minted [of example_signer "time_Unix 1700000000"] assms
    caller_identified [of "tsjwtd_source (td_Flags example_tsjwtd)"]
  by (simp add: mint_at_def tsjwtd_world_def tsjwtd_source_def example_tsjwtd_def)

lemma example_claims:
  "claims_ok (caller_claims example_signer (time_Unix 1700000000))"
  "c_IssuedAt (caller_claims example_signer (time_Unix 1700000000)) = 1700000000"
  "c_Expiry (caller_claims example_signer (time_Unix 1700000000)) = 1700000300"
  by code_simp+

lemma example_times:
  "sane_time (time_Unix 1700000000)" "sane_time (time_Unix 1700000200)"
  "tns (time_Unix 1700000000) \<le> tns (time_Unix 1700000200)"
  "tns (time_Unix 1700000200) \<le> (1700000300 + unixToInternal) * Second"
  by code_simp+

theorem tsjwtd_tokens_outlive_rotations_witness:
  "\<exists>tok js j c. source_JWKS toy_crypto (key_run toy_crypto (24 * Hour) [Tick (Some toy_key) (time_Unix 1700000200)] (td_Keys example_tsjwtd))
       (time_Unix 1700000200) = Inr js \<and> j \<in> set js
     \<and> fst (Verify toy_crypto (\<lambda>_. None) (example_vcfg\<lparr>v_Issuer := ''https://tsjwt''\<rparr>) (served_Key j) (time_Unix 1700000200)
         (guard_Seen zero_time) None tok) = Inr c"
proof -
  let ?dk = "td_Keys example_tsjwtd" and ?c = "caller_claims example_signer (time_Unix 1700000000)"
  have dk: "dk_Set ?dk = toy_set" "source_Current ?dk = set_Current toy_set" "key_run toy_crypto e [] ?dk = ?dk" for e
    by (simp_all add: example_tsjwtd_def source_Current_eq key_run_def)
  obtain tok where m: "mint_at toy_crypto (\<lambda>_. None) (td_Signer example_tsjwtd) (example_wd ?dk) ''100.64.0.1:1'' ''svc'' [] = Inr (tok, ?c)"
    using example_tsjwtd_mint [OF dk(2)] by (auto simp: example_tsjwtd_def)
  have g: "gen_ok (Some toy_key)"
    by (simp add: gen_ok_def toy_key_valid)
  have keys: "set (public_keys toy_set @ drawn_keys [(Some toy_key, time_Unix 1700000200)]) = {sk_Public toy_key}"
    by (simp add: public_keys_def drawn_keys_def toy_set_def)
  have sub: "replicate 16 (CHR 0x01) \<noteq> []" and tick: "tick_ok (time_Unix 1700000000) (time_Unix 1700000200) (Some toy_key, time_Unix 1700000200)"
    using g example_times by (simp_all add: tick_ok_def)
  have x: "tf_rotate (td_Flags example_tsjwtd) = 24 * Hour" "tf_issuer (td_Flags example_tsjwtd) = ''https://tsjwt''"
    by (simp_all add: example_tsjwtd_def example_flags_def tsjwtd_defaults_def)
  have "\<exists>js. source_JWKS toy_crypto (key_run toy_crypto (tf_rotate (td_Flags example_tsjwtd))
        [Tick (Some toy_key) (time_Unix 1700000200)] ?dk) (time_Unix 1700000200) = Inr js
    \<and> (\<exists>j \<in> set js. fst (Verify toy_crypto (\<lambda>_. None) (example_vcfg\<lparr>v_Issuer := ''https://tsjwt''\<rparr>) (served_Key j)
          (time_Unix 1700000200) (guard_Seen zero_time) None tok) = Inr ?c)"
  proof (rule tsjwtd_tokens_outlive_rotations [OF toy_crypto_ok example_tsjwtd_run, where past = "[]" and dk = ?dk, OF _ _ _ _ _ m], goal_cases)
    case 1 show ?case using g by (simp add: example_host_def)
  next
    case 13 show ?case unfolding ticks_of.simps dk(1) keys by simp
  qed (use example_claims example_times sub in
        \<open>simp_all add: tick g dk x example_flags_def tsjwtd_defaults_def DefaultTTL_def in_s64_def verifier_for_def example_vcfg_def MaxTTL_def\<close>)
  then show ?thesis
    unfolding x by blast
qed

lemma example_no_tenant: "tenantFromRequest (strip_request (td_Proxy example_tsjwtd) example_req) = []"
proof -
  have "canonical_key ''X-Tsjwt-Tenant'' = ''X-Tsjwt-Tenant''" "query_Get [] ''tenant'' = []"
    by code_simp+
  moreover have "px_Header (pr_cfg (td_Proxy example_tsjwtd)) \<noteq> []"
    by (simp add: example_tsjwtd_def tsjwtd_proxy_cfg_def example_flags_def tsjwtd_defaults_def DefaultHeader_def)
  moreover have "hdr_Values (hr_Header example_req) ''X-Tsjwt-Tenant'' = []" "hr_RawQuery (strip_request p example_req) = []" for p
    using calculation(1) by (simp_all add: hdr_Values_def example_req_def strip_request_def)
  ultimately show ?thesis
    by (simp add: tenantFromRequest_def hdr_Get_def strip_Values)
qed

lemma example_tsjwtd_served:
  "\<exists>calls out. tsjwtd_serve toy_crypto (\<lambda>_. None) id example_tsjwtd (example_wd (td_Keys example_tsjwtd)) example_req
       = (calls, Forwarded ''http://svc'' out)"
proof -
  let ?p = "td_Proxy example_tsjwtd" and ?r = "single_route ''default'' (Some ''http://svc'') ''svc''"
  have "source_Current (td_Keys example_tsjwtd) = set_Current toy_set"
    by (simp add: example_tsjwtd_def source_Current_eq)
  from example_tsjwtd_mint [OF this] obtain tok c where
    m: "mint_at toy_crypto (\<lambda>_. None) (td_Signer example_tsjwtd) (example_wd (td_Keys example_tsjwtd)) ''100.64.0.1:1'' ''svc'' [] = Inr (tok, c)"
    by (auto simp: example_tsjwtd_def)
  have r: "pr_router ?p = [?r]" "pr_rps ?p = [''http://svc'']" "\<not> px_Gate (pr_cfg ?p)"
      "router_Match id [?r] q = Some ?r" "hr_RemoteAddr example_req = ''100.64.0.1:1''" for q
    by (simp_all add: example_tsjwtd_def tsjwtd_proxy_cfg_def router_Match_def score_key_def route_matches_def
        single_route_def example_req_def)
  moreover have "request_tenant (pr_cfg ?p) ?r (strip_request ?p example_req) = []"
    using example_no_tenant by (simp add: request_tenant_def single_route_def example_tsjwtd_def tsjwtd_proxy_cfg_def)
  ultimately show ?thesis
    using m by (simp add: tsjwtd_serve_def serve_def Let_def forward_def single_route_def)
qed

theorem tsjwtd_forwards_tailnet_only_witness:
  "\<exists>calls out tok. tsjwtd_serve toy_crypto (\<lambda>_. None) id example_tsjwtd (example_wd (td_Keys example_tsjwtd)) example_req
       = (calls, Forwarded ''http://svc'' out)
     \<and> hdr_Values (hr_Header out) DefaultHeader = [tok]"
proof -
  obtain calls out where s: "tsjwtd_serve toy_crypto (\<lambda>_. None) id example_tsjwtd (example_wd (td_Keys example_tsjwtd)) example_req
       = (calls, Forwarded ''http://svc'' out)"
    using example_tsjwtd_served by blast
  have c: "px_Header (pr_cfg (td_Proxy example_tsjwtd)) = DefaultHeader" "assertion_value (pr_cfg (td_Proxy example_tsjwtd)) t = t" for t
    by (simp_all add: example_tsjwtd_def tsjwtd_proxy_cfg_def example_flags_def tsjwtd_defaults_def assertion_value_def)
  from tsjwtd_forwards_tailnet_only [OF example_tsjwtd_run s] s show ?thesis
    unfolding c by blast
qed

end
