(* ===== verification/Echo.thy ===== *)
theory Echo
  imports Tsjwtd Delivery
begin

text \<open>
  \<open>cmd/tsjwt-echo/main.go\<close>: the reference backend, which verifies the assertion and reports the
  claims it read; and the path of a request through \<open>tsjwtd\<close> to it.  What \<open>whoami\<close> writes is the
  document, before its indentation.
\<close>

record echo_flags =
  ef_listen :: string
  ef_issuer :: string
  ef_audience :: string
  ef_jwksURL :: string
  ef_header :: string
  ef_replay :: bool

definition echo_defaults :: echo_flags where
  "echo_defaults = \<lparr>ef_listen = '':8080'', ef_issuer = [], ef_audience = [], ef_jwksURL = [], ef_header = DefaultHeader,
     ef_replay = False\<rparr>"

definition echo_flagset :: "echo_flags flags" where
  "echo_flagset =
     [string_flag ''listen'' (\<lambda>v. ef_listen_update (\<lambda>_. v)),
      string_flag ''issuer'' (\<lambda>v. ef_issuer_update (\<lambda>_. v)),
      string_flag ''audience'' (\<lambda>v. ef_audience_update (\<lambda>_. v)),
      string_flag ''jwks'' (\<lambda>v. ef_jwksURL_update (\<lambda>_. v)),
      string_flag ''header'' (\<lambda>v. ef_header_update (\<lambda>_. v)),
      bool_flag ''replay-guard'' (\<lambda>v. ef_replay_update (\<lambda>_. v))]"

text \<open>\<open>main\<close> up to serving: the verifier's configuration, or the error it exits with.\<close>

definition echo_start :: "echo_flags \<Rightarrow> verifier_cfg result" where
  "echo_start ef =
     (if ef_issuer ef = [] \<or> ef_audience ef = [] \<or> ef_jwksURL ef = []
      then Inl (Error Plain ''-issuer, -audience and -jwks are all required'')
      else verifier_New (ef_issuer ef) (ef_audience ef) True 0 0)"

text \<open>\<open>bearerToken\<close>\<close>

definition bearerToken :: "string \<Rightarrow> string" where
  "bearerToken v = (case CutPrefix v ''Bearer '' of Some rest \<Rightarrow> rest | None \<Rightarrow> v)"

text \<open>
  The parts of the document, keys in order.  \<open>fmt\<close> formats a time, \<open>dur\<close> a rounded duration; a
  claim that the token does not have is a nil slice, written as \<open>null\<close>.
\<close>

definition strings_doc :: "string list \<Rightarrow> json" where
  "strings_doc xs = (if xs = [] then JNull else JArr (map JStr xs))"

definition identity_doc :: "claims \<Rightarrow> json" where
  "identity_doc c = JObj [(''email'', JStr (c_Email c)), (''name'', JStr (c_Name c)), (''node'', JStr (c_Node c)),
     (''subject'', JStr (c_Subject c))]"

definition authorization_doc :: "claims \<Rightarrow> json" where
  "authorization_doc c = JObj [(''groups'', strings_doc (c_Groups c)), (''roles'', strings_doc (c_Roles c)),
     (''tenant'', JStr (c_Tenant c)), (''tenants'', strings_doc (c_Tenants c))]"

definition token_doc :: "(gotime \<Rightarrow> string) \<Rightarrow> (duration \<Rightarrow> string) \<Rightarrow> gotime \<Rightarrow> claims \<Rightarrow> json" where
  "token_doc fmt dur now c =
     JObj [(''audience'', JStr (c_Audience c)), (''expiresAt'', JStr (fmt (time_Unix (c_Expiry c)))), (''id'', JStr (c_ID c)),
       (''issuedAt'', JStr (fmt (time_Unix (c_IssuedAt c)))), (''issuer'', JStr (c_Issuer c)),
       (''notBefore'', JStr (fmt (time_Unix (c_NotBefore c)))),
       (''validFor'', JStr (dur (time_Sub (time_Unix (c_Expiry c)) now)))]"

definition signature_doc :: "string \<Rightarrow> (string \<times> json) list" where
  "signature_doc raw =
     (if raw = [] then []
      else
        (case jwt_Parse raw of
           Inl _ \<Rightarrow> []
         | Inr (hdr, _) \<Rightarrow>
             [(''signature'', JObj [(''alg'', JStr (h_Alg hdr)), (''kid'', JStr (h_Kid hdr)), (''typ'', JStr (h_Typ hdr))])]))"

text \<open>\<open>whoami\<close> on a request with its method and protocol.\<close>

definition whoami :: "(gotime \<Rightarrow> string) \<Rightarrow> (duration \<Rightarrow> string) \<Rightarrow> string \<Rightarrow> gotime \<Rightarrow> string \<Rightarrow> string \<Rightarrow> http_req \<Rightarrow> go_ctx
    \<Rightarrow> response + json" where
  "whoami fmt dur assertionHeader now method proto r ctx =
     (case ClaimsFrom ctx of
        (c, ok) \<Rightarrow>
          if \<not> ok then Inl (http_Error ''unauthorized'' 401)
          else Inr (JObj
            ([(''authorization'', authorization_doc c)]
             @ (if length (c_Extra c) > 0 then [(''extra'', JObj (c_Extra c))] else [])
             @ [(''identity'', identity_doc c),
                (''request'', JObj [(''host'', JStr (hr_Host r)), (''method'', JStr method), (''path'', JStr (hr_Path r)),
                  (''proto'', JStr proto)])]
             @ signature_doc (bearerToken (hdr_Get (hr_Header r) assertionHeader))
             @ [(''token'', token_doc fmt dur now c)])))"

text \<open>The multiplexer: only the health check is outside the middleware.\<close>

datatype echo_route = EchoHealth | EchoWhoami

definition echo_mux :: "bool \<Rightarrow> string \<Rightarrow> echo_route mux_hit" where
  "echo_mux = mux_Handler [(''/healthz'', EchoHealth), (''/whoami'', EchoWhoami)] (Some EchoWhoami)"

definition echo_server :: "echo_flags \<Rightarrow> (bool \<Rightarrow> string \<Rightarrow> echo_route mux_hit) http_server" where
  "echo_server ef =
     \<lparr>sr_Tailnet = False, sr_TLS = False, sr_Addr = ef_listen ef, sr_Handler = echo_mux,
      sr_ReadTimeout = 15 * Second, sr_ReadHeaderTimeout = 10 * Second, sr_WriteTimeout = 15 * Second,
      sr_IdleTimeout = 120 * Second, sr_Grace = None\<rparr>"

definition echo_whoami :: "(gotime \<Rightarrow> string) \<Rightarrow> (duration \<Rightarrow> string) \<Rightarrow> echo_flags \<Rightarrow> (string \<Rightarrow> claims result \<times> 'g) \<Rightarrow> gotime
    \<Rightarrow> string \<Rightarrow> string \<Rightarrow> http_req \<Rightarrow> response + json" where
  "echo_whoami fmt dur ef verify now method proto r =
     Middleware (ef_header ef) verify (whoami fmt dur (ef_header ef) now method proto r) Inl (hr_Header r)"

section \<open>Properties\<close>

lemma whoami_claims [simp]: "whoami fmt dur h now method proto r (Some c) \<noteq> Inl e"
  by (simp add: whoami_def ClaimsFrom_def)

text \<open>Whatever is reported comes from claims the verifier accepted.\<close>

lemma echo_reports_verified:
  "case echo_whoami fmt dur ef verify now method proto r of
     Inl e \<Rightarrow> e = http_Error ''unauthorized'' 401
   | Inr doc \<Rightarrow> \<exists>tok c. fst (verify tok) = Inr c \<and> Inr doc = whoami fmt dur (ef_header ef) now method proto r (Some c)"
proof (cases "echo_whoami fmt dur ef verify now method proto r")
  case (Inl e)
  then show ?thesis
    by (auto simp: echo_whoami_def Middleware_def Let_def WithClaims_def split: sum.split_asm if_split_asm)
next
  case (Inr doc)
  then show ?thesis
    by (auto simp: echo_whoami_def Middleware_def Let_def WithClaims_def split: sum.split_asm if_split_asm) metis+
qed

lemma echo_start_Inr:
  "echo_start ef = Inr v \<Longrightarrow> verifier_for (ef_issuer ef) (ef_audience ef) v"
  by (auto simp: echo_start_def verifier_New_def verifier_for_def MaxTTL_def split: if_split_asm)

text \<open>
  C9 (the caller as the backend sees it).  A request that \<open>tsjwtd\<close> forwards to the reference backend,
  configured with the daemon's issuer, audience and header, is answered while its token lives, on what
  the reverse proxy sends, with a report of that very caller: the subject is the user id \<open>WhoIs\<close> gave
  for the connection.  Only a caller that names the assertion header in a \<open>Connection\<close> header is
  answered 401 instead, and one that asks for a protocol with an unprintable name is answered 502 by
  the daemon.  The assertion header is not one the reverse proxy writes itself.
\<close>

theorem caller_reaches_echo:
  assumes "crypto_ok cr" "tsjwtd_run cr ho fl0 = Inr d" "gen_ok (ho_Key ho)" "Second \<le> tf_ttl fl0"
    and "list_all (\<lambda>t. gen_ok (fst t)) (ticks_of past)" "dk = key_run cr (tf_rotate (td_Flags d)) past (td_Keys d)"
    and "w = tsjwtd_world unm whois d dk now idb rnd" "sane_time now" "idb \<noteq> Some []"
    and "tsjwtd_serve cr fp ul d w req = (calls, Forwarded u out)"
    and "\<And>ten tok c. mint_at cr fp (td_Signer d) w (hr_RemoteAddr req) (tf_audience fl0) ten = Inr (tok, c) \<Longrightarrow>
       claims_ok c \<and> c_IssuedAt c \<noteq> 0 \<and> c_Expiry c \<noteq> 0"
    and "echo_start ef = Inr v" "ef_issuer ef = tf_issuer (td_Flags d)" "ef_audience ef = tf_audience fl0"
      "ef_header ef = px_Header (pr_cfg (td_Proxy d))"
    and "\<And>priv kid. source_Current dk = Inr (priv, kid) \<Longrightarrow> key kid = Inr (sk_Public priv)"
    and "sane_time t" "tns now \<le> tns t" "tns t \<le> tns now + sg_TTL (td_Signer d) - Second"
    and "\<not> reserved_header (ef_header ef)"
  shows "\<exists>who user c. whois (5 * Second) (hr_RemoteAddr req) = Inr (Some who) \<and> wi_UserProfile who = Some user
    \<and> c_Subject c = ''tailnet:'' @ Itoa (wu_ID user)
    \<and> (case reverse_proxy base out of
         Inl e \<Rightarrow> e = bad_gateway \<and> HeaderValuesContainsToken (hdr_Values (hr_Header req) ''Connection'') ''Upgrade''
       | Inr sent \<Rightarrow>
           echo_whoami fmt dur ef (Verify cr fp v key t (guard_Seen g) None) t method proto sent
           = (if connection_drops (hr_Header req) (ef_header ef) then Inl (http_Error ''unauthorized'' 401)
              else whoami fmt dur (ef_header ef) t method proto sent (Some c)))"
proof (rule tsjwtd_run_Inr [OF assms(2)])
  fix up s
  assume r: "tsjwtd_check fl0 = Inr (td_Flags d)" "signer_New (tf_issuer (td_Flags d)) True True True (tf_ttl (td_Flags d)) 0 = Inr (td_Signer d)"
    "proxy_New (tsjwtd_proxy_cfg (td_Flags d) (fst up)) = Inr (td_Proxy d)"
  let ?p = "td_Proxy d" and ?m = "mint_at cr fp (td_Signer d) w"
  note fl = tsjwtd_check_Inr [OF r(1)] and rt = tsjwtd_proxy_route [OF r(3)]
  have k: "keyset_ok cr (dk_Set dk)"
    using tsjwtd_running [OF assms(2,3,5)] assms(6) by simp
  have w: "sw_Current w = set_Current (dk_Set dk)" "sw_Now w = now" "sw_ID w = idb" "sw_Identify w = Identify unm (tsjwtd_source (td_Flags d)) whois"
    by (simp_all add: assms(7) tsjwtd_world_def source_Current_eq)
  have sv: "serve ul ?p ?m (\<lambda>_. None) True ?m req = (calls, Forwarded u out)"
    using assms(10) by (simp add: tsjwtd_serve_def Let_def)
  have ttl: "Second \<le> sg_TTL (td_Signer d)"
    using signer_New_TTL [OF r(2)] fl assms(4) by (simp add: MaxTTL_def)
  note v = echo_start_Inr [OF assms(12), unfolded verifier_for_def]
  define sent where "sent = (case reverse_proxy base out of Inl _ \<Rightarrow> out | Inr sent \<Rightarrow> sent)"
  let ?next = "whoami fmt dur (ef_header ef) t method proto sent"
  have "\<exists>rr tok c. router_Match ul (pr_router ?p) (strip_request ?p req) = Some rr \<and> rt_Upstream rr = Some u
    \<and> (\<exists>ten. ?m (hr_RemoteAddr req) (rt_Audience rr) ten = Inr (tok, c))
    \<and> c_Audience c = rt_Audience rr \<and> (rt_Tenant rr \<noteq> [] \<longrightarrow> c_Tenant c = rt_Tenant rr)
    \<and> (case reverse_proxy base out of
         Inl e \<Rightarrow> e = bad_gateway \<and> HeaderValuesContainsToken (hdr_Values (hr_Header req) ''Connection'') ''Upgrade''
           \<and> \<not> ascii_IsPrint (hdr_Get (hr_Header out) ''Upgrade'')
       | Inr sent \<Rightarrow>
           Middleware (px_Header (pr_cfg ?p)) (Verify cr fp v key t (guard_Seen g) None) ?next Inl (hr_Header sent)
           = (if v_Audience v = rt_Audience rr \<and> \<not> connection_drops (hr_Header req) (px_Header (pr_cfg ?p))
              then ?next (WithClaims None c) else Inl (http_Error ''unauthorized'' 401)))"
    by (rule sent_reaches_handler [OF assms(1) k r(2) _ r(3) sv _ w(1)])
      (use assms(8,9,11,13-20) w v rt fl ttl source_Current_eq [of dk] in \<open>auto\<close>)
  then obtain rr tok c ten where f: "router_Match ul (pr_router ?p) (strip_request ?p req) = Some rr"
      "?m (hr_RemoteAddr req) (rt_Audience rr) ten = Inr (tok, c)"
      "case reverse_proxy base out of
         Inl e \<Rightarrow> e = bad_gateway \<and> HeaderValuesContainsToken (hdr_Values (hr_Header req) ''Connection'') ''Upgrade''
           \<and> \<not> ascii_IsPrint (hdr_Get (hr_Header out) ''Upgrade'')
       | Inr sent \<Rightarrow>
           Middleware (px_Header (pr_cfg ?p)) (Verify cr fp v key t (guard_Seen g) None) ?next Inl (hr_Header sent)
           = (if v_Audience v = rt_Audience rr \<and> \<not> connection_drops (hr_Header req) (px_Header (pr_cfg ?p))
              then ?next (WithClaims None c) else Inl (http_Error ''unauthorized'' 401))"
    by blast
  obtain who user where p: "whois (5 * Second) (hr_RemoteAddr req) = Inr (Some who)" "wi_UserProfile who = Some user"
      "c_Subject c = ''tailnet:'' @ Itoa (wu_ID user)"
    by (rule minted_for_peer [OF f(2) w(4)]) (simp_all add: tsjwtd_source_def)
  have "v_Audience v = rt_Audience rr"
    using v assms(14) rt [OF router_Match_in [OF f(1)]] fl by simp
  then have "case reverse_proxy base out of
         Inl e \<Rightarrow> e = bad_gateway \<and> HeaderValuesContainsToken (hdr_Values (hr_Header req) ''Connection'') ''Upgrade''
       | Inr sent \<Rightarrow>
           echo_whoami fmt dur ef (Verify cr fp v key t (guard_Seen g) None) t method proto sent
           = (if connection_drops (hr_Header req) (ef_header ef) then Inl (http_Error ''unauthorized'' 401)
              else whoami fmt dur (ef_header ef) t method proto sent (Some c))"
    using f(3) assms(15) by (cases "reverse_proxy base out") (auto simp: sent_def echo_whoami_def WithClaims_def)
  with p show ?thesis
    by blast
qed

section \<open>The property on a concrete backend\<close>

definition example_echo :: echo_flags where
  "example_echo = echo_defaults\<lparr>ef_issuer := ''https://tsjwt'', ef_audience := ''svc'', ef_jwksURL := ''http://tsjwt/jwks''\<rparr>"

theorem caller_reaches_echo_witness:
  "\<exists>v calls out sent doc. echo_start example_echo = Inr v
     \<and> tsjwtd_serve toy_crypto (\<lambda>_. None) id example_tsjwtd (example_wd (td_Keys example_tsjwtd)) example_req
         = (calls, Forwarded ''http://svc'' out)
     \<and> reverse_proxy [] out = Inr sent
     \<and> echo_whoami (\<lambda>_. []) (\<lambda>_. []) example_echo
         (Verify toy_crypto (\<lambda>_. None) v (local_Key toy_set (time_Unix 1700000200)) (time_Unix 1700000200) (guard_Seen (time_Unix 0)) None)
         (time_Unix 1700000200) ''GET'' ''HTTP/1.1'' sent = Inr doc"
proof -
  let ?t = "time_Unix 1700000200" and ?w = "example_wd (td_Keys example_tsjwtd)"
  obtain v where v: "echo_start example_echo = Inr v"
  proof -
    have "\<not> blank ''https://tsjwt''" "\<not> blank ''svc''"
      by code_simp+
    then show thesis
      using that by (simp add: echo_start_def example_echo_def verifier_New_def)
  qed
  obtain calls out where s: "tsjwtd_serve toy_crypto (\<lambda>_. None) id example_tsjwtd ?w example_req = (calls, Forwarded ''http://svc'' out)"
    using example_tsjwtd_served by blast
  have dk: "source_Current (td_Keys example_tsjwtd) = set_Current toy_set" "key_run toy_crypto e [] (td_Keys example_tsjwtd) = td_Keys example_tsjwtd" for e
    by (simp_all add: example_tsjwtd_def source_Current_eq key_run_def)
  have k: "local_Key toy_set t kid = Inr (sk_Public priv)" if "source_Current (td_Keys example_tsjwtd) = Inr (priv, kid)" for priv kid t
    using set_current_published [OF toy_set_ok that [unfolded dk]] by (simp add: local_Key_def)
  have x: "tf_issuer (td_Flags example_tsjwtd) = ''https://tsjwt''" "px_Header (pr_cfg (td_Proxy example_tsjwtd)) = DefaultHeader"
      "hr_RemoteAddr example_req = ''100.64.0.1:1''" "td_Signer example_tsjwtd = example_signer"
    by (simp_all add: example_tsjwtd_def tsjwtd_proxy_cfg_def example_flags_def tsjwtd_defaults_def example_req_def)
  have claims: "claims_ok c \<and> c_IssuedAt c \<noteq> 0 \<and> c_Expiry c \<noteq> 0"
    if m: "mint_at toy_crypto (\<lambda>_. None) (td_Signer example_tsjwtd) ?w (hr_RemoteAddr example_req) (tf_audience example_flags) ten = Inr (tok, c)"
    for ten tok c
  proof -
    have id: "sw_Identify ?w ''100.64.0.1:1'' = Inr example_caller" "sw_Resolve ?w = policy_resolve one_tenant"
        "sw_Now ?w = time_Unix 1700000000" "sw_ID ?w = Some (replicate 16 CHR 0x01)"
      using caller_identified [of "tsjwtd_source (td_Flags example_tsjwtd)"]
      by (simp_all add: tsjwtd_world_def tsjwtd_source_def example_tsjwtd_def)
    have aud: "tf_audience example_flags = ''svc''"
      by (simp add: example_flags_def)
    obtain tn where "grant_Tenant caller_grant (if ten = [] then g_Default caller_grant else ten) = Some tn"
        "c = mint_claims example_signer (time_Unix 1700000000) example_caller caller_grant tn ''svc'' (b64 (replicate 16 CHR 0x01))"
      using m unfolding mint_at_def x id aud
      by (rule Mint_Inr) (auto simp: caller_resolves)
    moreover from this have "tn = caller_tenant"
      by (auto simp: caller_grant_def dest!: grant_Tenant_Some)
    ultimately have "c = caller_claims example_signer (time_Unix 1700000000)"
      by (simp add: caller_claims_def)
    then show ?thesis
      using example_claims by simp
  qed
  have g: "gen_ok (ho_Key example_host)"
    by (simp add: gen_ok_def toy_key_valid example_host_def)
  have "\<exists>who user c. example_whois (5 * Second) (hr_RemoteAddr example_req) = Inr (Some who) \<and> wi_UserProfile who = Some user
    \<and> c_Subject c = ''tailnet:'' @ Itoa (wu_ID user)
    \<and> (case reverse_proxy [] out of
         Inl e \<Rightarrow> e = bad_gateway \<and> HeaderValuesContainsToken (hdr_Values (hr_Header example_req) ''Connection'') ''Upgrade''
       | Inr sent \<Rightarrow>
           echo_whoami (\<lambda>_. []) (\<lambda>_. []) example_echo (Verify toy_crypto (\<lambda>_. None) v (local_Key toy_set ?t) ?t (guard_Seen (time_Unix 0)) None)
             ?t ''GET'' ''HTTP/1.1'' sent
           = (if connection_drops (hr_Header example_req) (ef_header example_echo) then Inl (http_Error ''unauthorized'' 401)
              else whoami (\<lambda>_. []) (\<lambda>_. []) (ef_header example_echo) ?t ''GET'' ''HTTP/1.1'' sent (Some c)))"
    by (rule caller_reaches_echo [OF toy_crypto_ok example_tsjwtd_run g, where past = "[]" and dk = "td_Keys example_tsjwtd",
          OF _ _ _ refl _ _ s claims v _ _ _ k])
      (use example_times in \<open>simp_all add: dk x example_flags_def tsjwtd_defaults_def DefaultTTL_def example_echo_def echo_defaults_def
        example_signer_def time_Unix_ns in_s64_def unixToInternal_def default_not_reserved\<close>)
  moreover have "hdr_Values (hr_Header example_req) ''Connection'' = []"
    by code_simp
  ultimately obtain c sent where "reverse_proxy [] out = Inr sent"
      "echo_whoami (\<lambda>_. []) (\<lambda>_. []) example_echo
        (Verify toy_crypto (\<lambda>_. None) v (local_Key toy_set ?t) ?t (guard_Seen (time_Unix 0)) None) ?t ''GET'' ''HTTP/1.1'' sent
      = whoami (\<lambda>_. []) (\<lambda>_. []) (ef_header example_echo) ?t ''GET'' ''HTTP/1.1'' sent (Some c)"
    by (cases "reverse_proxy [] out") (auto simp: HeaderValuesContainsToken_def connection_drops_def connection_names_def)
  then show ?thesis
    using v s by (intro exI conjI) (auto simp: whoami_def ClaimsFrom_def)
qed

end
