(* ===== verification/Dataplane.thy ===== *)
theory Dataplane
  imports Tsjwtd Dynamic Watcher Gate Reconcile
begin

text \<open>
  \<open>gateway/cmd/tsjwt-dataplane/main.go\<close>: the Gateway API data plane.  The flags, the checks
  and the wiring of \<open>run\<close> up to the listeners, the startup assertion, the route source driving
  the dynamic proxy, and what the operations listener answers.
\<close>

section \<open>Flags\<close>

record dp_flags =
  df_waitTimeout :: duration
  df_waitPending :: int
  df_gatewayRef :: string
  df_routesPath :: string
  df_routeCache :: string
  df_hostname :: string
  df_stateDir :: string
  df_issuer :: string
  df_tenants :: string
  df_listen :: string
  df_jwksListen :: string
  df_header :: string
  df_bearer :: bool
  df_capName :: string
  df_ttl :: duration
  df_rotate :: duration
  df_overlap :: duration
  df_resync :: duration
  df_keyTags :: string
  df_shareCM :: string
  df_plaintext :: bool
  df_jwksTLS :: bool

definition dp_defaults :: dp_flags where
  "dp_defaults =
     \<lparr>df_waitTimeout = 0, df_waitPending = 128, df_gatewayRef = [], df_routesPath = ''/etc/tsjwt/routes.json'',
      df_routeCache = [], df_hostname = [], df_stateDir = ''/var/lib/tsjwt'', df_issuer = [], df_tenants = [],
      df_listen = '':443'', df_jwksListen = ''0.0.0.0:9100'', df_header = DefaultHeader, df_bearer = False,
      df_capName = CapGroups, df_ttl = DefaultTTL, df_rotate = 24 * Hour, df_overlap = Hour, df_resync = 5 * Second,
      df_keyTags = [], df_shareCM = [], df_plaintext = False, df_jwksTLS = False\<rparr>"

text \<open>\<open>num\<close> reads an integer flag.\<close>

definition dp_flagset :: "float_mul \<Rightarrow> (string \<Rightarrow> int option) \<Rightarrow> dp_flags flags" where
  "dp_flagset fl num =
     [duration_flag fl ''backend-wait-timeout'' (\<lambda>v. df_waitTimeout_update (\<lambda>_. v)),
      int_flag num ''backend-wait-max-pending'' (\<lambda>v. df_waitPending_update (\<lambda>_. v)),
      string_flag ''gateway'' (\<lambda>v. df_gatewayRef_update (\<lambda>_. v)),
      string_flag ''routes'' (\<lambda>v. df_routesPath_update (\<lambda>_. v)),
      string_flag ''route-cache'' (\<lambda>v. df_routeCache_update (\<lambda>_. v)),
      string_flag ''hostname'' (\<lambda>v. df_hostname_update (\<lambda>_. v)),
      string_flag ''state-dir'' (\<lambda>v. df_stateDir_update (\<lambda>_. v)),
      string_flag ''issuer'' (\<lambda>v. df_issuer_update (\<lambda>_. v)),
      string_flag ''tenants'' (\<lambda>v. df_tenants_update (\<lambda>_. v)),
      string_flag ''listen'' (\<lambda>v. df_listen_update (\<lambda>_. v)),
      string_flag ''jwks-listen'' (\<lambda>v. df_jwksListen_update (\<lambda>_. v)),
      string_flag ''header'' (\<lambda>v. df_header_update (\<lambda>_. v)),
      bool_flag ''bearer'' (\<lambda>v. df_bearer_update (\<lambda>_. v)),
      string_flag ''cap'' (\<lambda>v. df_capName_update (\<lambda>_. v)),
      duration_flag fl ''ttl'' (\<lambda>v. df_ttl_update (\<lambda>_. v)),
      duration_flag fl ''rotate'' (\<lambda>v. df_rotate_update (\<lambda>_. v)),
      duration_flag fl ''overlap'' (\<lambda>v. df_overlap_update (\<lambda>_. v)),
      duration_flag fl ''resync'' (\<lambda>v. df_resync_update (\<lambda>_. v)),
      string_flag ''key-tags'' (\<lambda>v. df_keyTags_update (\<lambda>_. v)),
      string_flag ''share-keys'' (\<lambda>v. df_shareCM_update (\<lambda>_. v)),
      bool_flag ''plaintext'' (\<lambda>v. df_plaintext_update (\<lambda>_. v)),
      bool_flag ''jwks-tls'' (\<lambda>v. df_jwksTLS_update (\<lambda>_. v))]"

text \<open>The checks before anything is read, and the defaults of the hostname and the issuer.\<close>

definition dp_check :: "dp_flags \<Rightarrow> dp_flags result" where
  "dp_check fl =
     (if df_waitTimeout fl < 0 \<or> df_waitTimeout fl > 2 * Minute \<or> df_waitPending fl \<le> 0
      then Inl (Error Plain ''backend waiting requires a timeout between 0 and 2m and a positive pending limit'')
      else
        (case Cut (df_gatewayRef fl) CHR ''/'' of
           None \<Rightarrow> Inl (Error Plain ''-gateway must be namespace/name'')
         | Some (ns, name) \<Rightarrow>
             if ns = [] \<or> name = [] then Inl (Error Plain ''-gateway must be namespace/name'')
             else if df_tenants fl = [] then Inl (Error Plain ''-tenants is required'')
             else
               (let fl1 = (if df_hostname fl = [] then fl\<lparr>df_hostname := name\<rparr> else fl);
                    fl2 = (if df_issuer fl1 = [] then fl1\<lparr>df_issuer := ''https://'' @ df_hostname fl1\<rparr> else fl1)
                in if df_overlap fl2 \<le> df_ttl fl2 then Inl (Error Plain ''-overlap must exceed -ttl'') else Inr fl2)))"

section \<open>Start\<close>

text \<open>\<open>assertRejectsNonTailnet\<close>, over any \<open>identifier\<close>.\<close>

definition assertRejectsNonTailnet :: "(string \<Rightarrow> identity result) \<Rightarrow> error option" where
  "assertRejectsNonTailnet src =
     (if list_ex (\<lambda>addr. case src addr of Inr _ \<Rightarrow> True | Inl e \<Rightarrow> \<not> errors_Is e ErrNoIdentity)
           [''127.0.0.1:1'', ''[::1]:1'', ''203.0.113.1:443'']
      then Some (Error Plain ''startup identity-guard check failed: refusing to serve'') else None)"

text \<open>The grace is three lifetimes, a product that wraps.\<close>

definition dp_keys :: "host \<Rightarrow> dp_flags \<Rightarrow> keyset \<Rightarrow> daemon_keys result" where
  "dp_keys ho fl s =
     (if df_shareCM fl \<noteq> []
      then share_keys ho (df_hostname fl) (df_shareCM fl) (2 * Minute) (s64 (3 * df_ttl fl)) s
      else Inr \<lparr>dk_Set = s, dk_Pub = None\<rparr>)"

definition dp_source :: "dp_flags \<Rightarrow> ts_source" where
  "dp_source fl = \<lparr>ts_Local = True, ts_Cap = df_capName fl, ts_AllowTagged = False, ts_Timeout = 0\<rparr>"

text \<open>The gate, when waiting is enabled.\<close>

definition dp_gate :: "dp_flags \<Rightarrow> wait_cfg option result" where
  "dp_gate fl =
     (if df_waitTimeout fl < 0 then Inl (Error Plain ''-backend-wait-timeout must not be negative'')
      else if df_waitTimeout fl > 0 then
        (let cfg = \<lparr>wc_Timeout = df_waitTimeout fl, wc_Interval = 250 * Millisecond, wc_MaxPending = df_waitPending fl,
                    wc_MaxBackends = 256\<rparr>
         in failIf (\<not> NewWaitGate_ok cfg) ''wait gate: every limit must be positive'' (Inr (Some cfg)))
      else Inr None)"

definition dp_proxy_cfg :: "dp_flags \<Rightarrow> wait_cfg option \<Rightarrow> proxy_cfg" where
  "dp_proxy_cfg fl g =
     \<lparr>px_Router = None, px_Upstream = None, px_Signer = True, px_Audience = [], px_Header = df_header fl,
      px_Bearer = df_bearer fl, px_TenantFrom = None, px_Gate = g \<noteq> None\<rparr>"

text \<open>\<open>filepath.Join\<close> of two paths is the parameter \<open>join\<close>.\<close>

definition dp_source_cfg :: "(string \<Rightarrow> string \<Rightarrow> string) \<Rightarrow> dp_flags \<Rightarrow> source_cfg" where
  "dp_source_cfg join fl =
     \<lparr>so_Path = df_routesPath fl,
      so_CachePath = (if df_routeCache fl = [] then join (df_stateDir fl) ''routes.cache.json'' else df_routeCache fl),
      so_Interval = df_resync fl\<rparr>"

text \<open>\<open>OnChange\<close>: a refused table leaves the previous one serving.\<close>

definition on_change :: "route list \<Rightarrow> dynamic \<Rightarrow> dynamic" where
  "on_change routes dyn = snd (dynamic_Set dyn routes)"

text \<open>The cache is loaded and served before the first read; what it holds is \<open>cached\<close>.\<close>

definition load_cached :: "url_parse \<Rightarrow> source_cfg \<Rightarrow> string result \<Rightarrow> dynamic \<Rightarrow> source \<times> dynamic" where
  "load_cached up cfg cached dyn =
     (let source = fst (LoadCache up cfg cached empty_source); routes = so_current source
      in (source, if routes \<noteq> [] then snd (dynamic_Set dyn routes) else dyn))"

text \<open>The command's own copy of \<open>rotateLoop\<close>.\<close>

definition dp_rotateLoop :: "crypto \<Rightarrow> duration \<Rightarrow> (privkey option \<times> gotime) list \<Rightarrow> keyset \<Rightarrow> keyset" where
  "dp_rotateLoop cr every ticks s = (if every \<le> 0 then s else fold (rotate_tick cr) ticks s)"

lemma dp_rotateLoop_same: "dp_rotateLoop = rotateLoop"
  by (simp add: dp_rotateLoop_def rotateLoop_def fun_eq_iff)

record dataplane =
  dp_Flags :: dp_flags
  dp_Keys :: daemon_keys
  dp_Signer :: signer_cfg
  dp_Tenants :: "identity \<Rightarrow> grant result"
  dp_Gate :: "wait_cfg option"
  dp_SourceCfg :: source_cfg
  dp_Source :: source
  dp_Dynamic :: dynamic
  dp_Expiry :: expiry
  dp_DNSName :: string

text \<open>\<open>run\<close>, up to serving.\<close>

definition dataplane_run :: "crypto \<Rightarrow> ('m \<Rightarrow> string \<Rightarrow> cap_rule list option)
    \<Rightarrow> (duration \<Rightarrow> string \<Rightarrow> 'm whois option result) \<Rightarrow> (string \<Rightarrow> string \<Rightarrow> string) \<Rightarrow> host \<Rightarrow> string result \<Rightarrow> dp_flags
    \<Rightarrow> dataplane result" where
  "dataplane_run cr unm whois join ho cached fl0 =
     andThen (dp_check fl0) (\<lambda>fl.
     andThen (LoadPolicyFile (ho_ReadFile ho (df_tenants fl))) (\<lambda>policy.
     andThen (wrap_error ''key set'' (NewSet cr (df_overlap fl) (ho_Key ho) (ho_Now ho))) (\<lambda>keySet.
     andThen (startup_key ''-key-tags needs TS_OAUTH_CLIENT_ID and TS_OAUTH_CLIENT_SECRET'' 0 ho (df_keyTags fl)
                (NewExpiry (ho_Rand ho) zero_time Hour (3 * Minute) (7 * Minute))) (\<lambda>(authKey, ex).
     andThen (wrap_error ''tailnet join'' (ho_Up ho (df_hostname fl) (df_stateDir fl) authKey)) (\<lambda>name.
     unless (map_option (\<lambda>e. Error (err_sentinel e) ''local client'') (ho_LocalClient ho))
     (andThen (dp_keys ho fl keySet) (\<lambda>keySource.
     unless (assertRejectsNonTailnet (Identify unm (dp_source fl) whois))
     (andThen (signer_New (df_issuer fl) True True True (df_ttl fl) 0) (\<lambda>sg.
     andThen (dp_gate fl) (\<lambda>g.
     andThen (NewDynamic (dp_proxy_cfg fl g) []) (\<lambda>dyn0.
       (case load_cached (ho_ParseURL ho) (dp_source_cfg join fl) cached dyn0 of
          (source, dyn) \<Rightarrow>
            unless (map_option (\<lambda>e. Error (err_sentinel e) ''listen'') (ho_Listen ho (\<not> df_plaintext fl) (df_listen fl)))
            (Inr \<lparr>dp_Flags = fl, dp_Keys = keySource, dp_Signer = sg, dp_Tenants = policy, dp_Gate = g,
                  dp_SourceCfg = dp_source_cfg join fl, dp_Source = source, dp_Dynamic = dyn, dp_Expiry = ex,
                  dp_DNSName = name\<rparr>)))))))))))))"

section \<open>Serving\<close>

text \<open>One read of the route file, with \<open>OnChange\<close> on the dynamic proxy.\<close>

definition dp_poll :: "url_parse \<Rightarrow> source_cfg \<Rightarrow> string result \<times> cache_io \<Rightarrow> (source \<times> file_sys) \<times> dynamic
    \<Rightarrow> (source \<times> file_sys) \<times> dynamic" where
  "dp_poll up cfg x st =
     (case source_step up cfg x (fst st) of
        (sf, changed) \<Rightarrow> (sf, case changed of None \<Rightarrow> snd st | Some routes \<Rightarrow> on_change routes (snd st)))"

definition dp_polls :: "url_parse \<Rightarrow> source_cfg \<Rightarrow> (string result \<times> cache_io) list \<Rightarrow> (source \<times> file_sys) \<times> dynamic
    \<Rightarrow> (source \<times> file_sys) \<times> dynamic" where
  "dp_polls up cfg xs st = fold (dp_poll up cfg) xs st"

definition dp_world :: "('m \<Rightarrow> string \<Rightarrow> cap_rule list option) \<Rightarrow> (duration \<Rightarrow> string \<Rightarrow> 'm whois option result)
    \<Rightarrow> dataplane \<Rightarrow> daemon_keys \<Rightarrow> gotime \<Rightarrow> bytes option \<Rightarrow> nat \<Rightarrow> signer_world" where
  "dp_world unm whois d dk now idb rnd =
     \<lparr>sw_Identify = Identify unm (dp_source (dp_Flags d)) whois, sw_Resolve = dp_Tenants d,
      sw_Current = source_Current dk, sw_Now = now, sw_ID = idb, sw_Rnd = rnd\<rparr>"

text \<open>The operations listener; \<open>/metrics\<close> is there when the gate is.\<close>

datatype dp_ops = OpsJWKS | OpsHealth | OpsReady | OpsMetrics

definition dp_ops_mux :: "dataplane \<Rightarrow> bool \<Rightarrow> string \<Rightarrow> dp_ops mux_hit" where
  "dp_ops_mux d =
     mux_Handler ([(''/.well-known/jwks.json'', OpsJWKS), (''/healthz'', OpsHealth), (''/readyz'', OpsReady)]
       @ (if dp_Gate d \<noteq> None then [(''/metrics'', OpsMetrics)] else [])) None"

text \<open>The servers; \<open>None\<close> handles with the dynamic proxy, which streams.\<close>

definition dp_servers :: "dataplane \<Rightarrow> (bool \<Rightarrow> string \<Rightarrow> dp_ops mux_hit) option http_server list" where
  "dp_servers d =
     [\<lparr>sr_Tailnet = False, sr_TLS = df_jwksTLS (dp_Flags d), sr_Addr = df_jwksListen (dp_Flags d), sr_Handler = Some (dp_ops_mux d),
       sr_ReadTimeout = 15 * Second, sr_ReadHeaderTimeout = 10 * Second, sr_WriteTimeout = 15 * Second,
       sr_IdleTimeout = 120 * Second, sr_Grace = Some (10 * Second)\<rparr>,
      \<lparr>sr_Tailnet = True, sr_TLS = \<not> df_plaintext (dp_Flags d), sr_Addr = df_listen (dp_Flags d), sr_Handler = None,
       sr_ReadTimeout = 0, sr_ReadHeaderTimeout = 10 * Second, sr_WriteTimeout = 0,
       sr_IdleTimeout = 120 * Second, sr_Grace = Some (10 * Second)\<rparr>]"

text \<open>
  The certificate of the operations listener: \<open>pair\<close> is the local client's \<open>CertPair\<close> for a name,
  \<open>load\<close> is \<open>tls.X509KeyPair\<close>.
\<close>

definition dp_certificate :: "(string \<Rightarrow> (bytes \<times> bytes) result) \<Rightarrow> (bytes \<Rightarrow> bytes \<Rightarrow> 'c result) \<Rightarrow> dataplane \<Rightarrow> 'c result" where
  "dp_certificate pair load d =
     (let name = TrimSuffix (dp_DNSName d) ''.''
      in case pair name of
           Inl e \<Rightarrow> Inl (Error (err_sentinel e) (''certificate for '' @ name))
         | Inr (cert, key) \<Rightarrow> load cert key)"

definition dp_jwks :: "crypto \<Rightarrow> dataplane \<Rightarrow> daemon_keys \<Rightarrow> gotime \<Rightarrow> string \<Rightarrow> response option" where
  "dp_jwks cr d dk now method =
     (case source_JWKS cr dk now of
        Inl _ \<Rightarrow> None
      | Inr js \<Rightarrow> Some (JWKSHandler (quo (df_overlap (dp_Flags d)) 2) method js))"

definition dp_healthz :: "dataplane \<Rightarrow> gotime \<Rightarrow> response" where
  "dp_healthz d now =
     (if \<not> Healthy (dp_Expiry d) now then text_answer 503 ''auth key is close to expiry; replace this process''
      else text_answer 200 ''ok'')"

text \<open>\<open>q\<close> is the quoting of \<open>%q\<close>.\<close>

definition granted_name :: "string \<Rightarrow> string" where
  "granted_name dns =
     (let n = TrimSuffix dns ''.'' in case Cut n CHR ''.'' of None \<Rightarrow> n | Some (got, _) \<Rightarrow> got)"

definition dp_readyz :: "(string \<Rightarrow> string) \<Rightarrow> dataplane \<Rightarrow> source \<Rightarrow> dynamic \<Rightarrow> response" where
  "dp_readyz q d s dyn =
     (let got = granted_name (dp_DNSName d)
      in if got \<noteq> df_hostname (dp_Flags d)
         then text_answer 503 (''tailnet assigned '' @ q got @ '', not the requested '' @ q (df_hostname (dp_Flags d))
                @ '': a name collision or rename needs attention'')
         else if \<not> so_loaded s then text_answer 503 ''no route table yet''
         else text_answer 200 (''ok: '' @ Itoa (int (length (dynamic_Routes dyn))) @ '' routes at revision '' @ Itoa (so_rev s)
                @ (if so_fromCach s then '' (from cache: the rendered table is unreadable)'' else [])))"

section \<open>Lemmas\<close>

lemma dp_check_Inr:
  assumes "dp_check fl0 = Inr fl"
  obtains ns name where "Cut (df_gatewayRef fl0) CHR ''/'' = Some (ns, name)" "ns \<noteq> []" "name \<noteq> []" "df_tenants fl0 \<noteq> []"
    "df_ttl fl0 < df_overlap fl0" "0 \<le> df_waitTimeout fl0" "df_waitTimeout fl0 \<le> 2 * Minute" "0 < df_waitPending fl0"
    "fl = fl0\<lparr>df_hostname := (if df_hostname fl0 = [] then name else df_hostname fl0),
           df_issuer := (if df_issuer fl0 = [] then ''https://'' @ (if df_hostname fl0 = [] then name else df_hostname fl0)
                         else df_issuer fl0)\<rparr>"
proof (cases "Cut (df_gatewayRef fl0) CHR ''/''")
  case None
  with assms show thesis
    by (simp add: dp_check_def split: if_split_asm)
next
  case (Some nn)
  show thesis
  proof (cases nn)
    case (Pair ns name)
    with Some assms have c: "\<not> (df_waitTimeout fl0 < 0 \<or> df_waitTimeout fl0 > 2 * Minute \<or> df_waitPending fl0 \<le> 0)"
        "ns \<noteq> []" "name \<noteq> []" "df_tenants fl0 \<noteq> []" "\<not> df_overlap fl0 \<le> df_ttl fl0"
      by (auto simp: dp_check_def Let_def split: if_split_asm)
    with Some Pair assms show thesis
      by (intro that [of ns name]) (auto simp: dp_check_def Let_def)
  qed
qed

lemma dp_keys_Inr: "dp_keys ho fl s = Inr dk \<Longrightarrow> dk_Set dk = s"
  by (auto simp: dp_keys_def dest: share_keys_Inr split: if_splits)

lemma dataplane_run_Inr:
  assumes "dataplane_run cr unm whois join ho cached fl0 = Inr d"
  obtains s dyn0 where "dp_check fl0 = Inr (dp_Flags d)"
    "NewSet cr (df_overlap (dp_Flags d)) (ho_Key ho) (ho_Now ho) = Inr s" "dp_keys ho (dp_Flags d) s = Inr (dp_Keys d)"
    "signer_New (df_issuer (dp_Flags d)) True True True (df_ttl (dp_Flags d)) 0 = Inr (dp_Signer d)"
    "dp_gate (dp_Flags d) = Inr (dp_Gate d)" "NewDynamic (dp_proxy_cfg (dp_Flags d) (dp_Gate d)) [] = Inr dyn0"
    "load_cached (ho_ParseURL ho) (dp_SourceCfg d) cached dyn0 = (dp_Source d, dp_Dynamic d)"
    "LoadPolicyFile (ho_ReadFile ho (df_tenants (dp_Flags d))) = Inr (dp_Tenants d)"
  using assms by (auto simp: dataplane_run_def case_prod_beta)

text \<open>The assertion at startup holds for the tailnet's identity source, whatever \<open>WhoIs\<close> says.\<close>

lemma Identify_passes_assertion: "assertRejectsNonTailnet (Identify unm s whois) = None"
  using isTailnetAddr_examples(4-6) by (simp add: assertRejectsNonTailnet_def Identify_def)

lemma assertRejectsNonTailnet_None:
  "assertRejectsNonTailnet src = None \<longleftrightarrow>
     list_all (\<lambda>addr. \<exists>e. src addr = Inl e \<and> errors_Is e ErrNoIdentity) [''127.0.0.1:1'', ''[::1]:1'', ''203.0.113.1:443'']"
  by (auto simp: assertRejectsNonTailnet_def split: sum.splits)

text \<open>A table that was read is one the router takes.\<close>

lemma parse_entries_valid: "parse_entries up es = Inr rs \<Longrightarrow> \<forall>r \<in> set rs. route_Valid r = None"
  by (induction es arbitrary: rs) (auto split: option.splits prod.splits if_splits sum.splits)

lemma name_routes_total: "\<forall>r \<in> set rs. route_Valid r = None \<Longrightarrow> \<exists>rs'. name_routes i rs = Inr rs'"
  by (induction i rs rule: name_routes.induct) auto

lemma ReadRouteFile_accepted:
  assumes "ReadRouteFile up contents = Inr (f, rs)" "rs \<noteq> []"
  shows "\<exists>rs'. NewRouter rs = Inr rs'"
  using assms name_routes_total [of rs 0] parse_entries_valid [of up "rf_Routes f" rs]
  by (auto simp: ReadRouteFile_def file_Parse_def NewRouter_def split: sum.splits option.splits)

text \<open>What ties the source to the proxy: the proxy serves the source's table.\<close>

definition in_step :: "(source \<times> file_sys) \<times> dynamic \<Rightarrow> bool" where
  "in_step st \<longleftrightarrow> dynamic_ok (snd st) \<and> dynamic_Routes (snd st) = set_table [] (so_current (fst (fst st)))
     \<and> (so_current (fst (fst st)) \<noteq> [] \<longrightarrow> (\<exists>rs. NewRouter (so_current (fst (fst st))) = Inr rs))"

lemma set_table_any: "rs = [] \<or> (\<exists>rs'. NewRouter rs = Inr rs') \<Longrightarrow> set_table t rs = set_table [] rs"
  by (auto simp: set_table_def)

lemma dynamic_Set_in_step:
  assumes "dynamic_ok dyn" "rs = [] \<or> (\<exists>rs'. NewRouter rs = Inr rs')"
  shows "dynamic_ok (snd (dynamic_Set dyn rs)) \<and> dynamic_Routes (snd (dynamic_Set dyn rs)) = set_table [] rs"
  using dynamic_Set_ok [OF assms(1), of rs] dynamic_Set_abs(1) [OF dynamic_ok_signer [OF assms(1)], of rs]
    set_table_any [OF assms(2)] by simp

lemma dp_poll_in_step:
  assumes "in_step st"
  shows "in_step (dp_poll up cfg x st)"
proof -
  obtain sf changed where c: "source_step up cfg x (fst st) = (sf, changed)"
    by (cases "source_step up cfg x (fst st)")
  show ?thesis
  proof (cases changed)
    case None
    then have "so_current (fst sf) = so_current (fst (fst st))"
      using filed.step_current(2) [OF c] by simp
    with None c assms show ?thesis
      by (simp add: dp_poll_def in_step_def)
  next
    case (Some rs)
    then have rs: "so_current (fst sf) = rs" "found_file up x = Some rs"
      using filed.step_current(2) [OF c] c
      by (auto simp: source_step_def Refresh_def found_file_def Let_def split: sum.splits prod.splits if_splits)
    then have "rs = [] \<or> (\<exists>rs'. NewRouter rs = Inr rs')"
      using ReadRouteFile_accepted [of up "fst x" _ rs] by (auto simp: found_file_def split: sum.splits prod.splits)
    with dynamic_Set_in_step [of "snd st" rs] Some c rs assms show ?thesis
      by (auto simp: dp_poll_def in_step_def on_change_def)
  qed
qed

lemma dp_polls_in_step: "in_step st \<Longrightarrow> in_step (dp_polls up cfg xs st)"
  unfolding dp_polls_def by (induction xs arbitrary: st) (simp_all add: dp_poll_in_step)

lemma dp_polls_source: "fst (dp_polls up cfg xs st) = run_source up cfg xs (fst st)"
  unfolding dp_polls_def run_source_def
  by (induction xs arbitrary: st) (auto simp: dp_poll_def source_step_read_once [symmetric] split: prod.splits)

lemma load_cached_in_step:
  assumes "load_cached up cfg cached dyn0 = (s, dyn)" "dynamic_ok dyn0" "dynamic_Routes dyn0 = []"
  shows "in_step ((s, fs), dyn)"
proof -
  have "so_current s = [] \<or> (\<exists>rs'. NewRouter (so_current s) = Inr rs')"
    using assms(1) ReadRouteFile_accepted [of up cached]
    by (auto simp: load_cached_def Let_def LoadCache_def empty_source_def split: if_splits sum.splits prod.splits)
  with dynamic_Set_in_step [OF assms(2), of "so_current s"] assms show ?thesis
    by (auto simp: load_cached_def Let_def in_step_def set_table_def split: if_splits)
qed

lemma proxy_New_gate: "proxy_New cfg = Inr p \<Longrightarrow> px_Gate (pr_cfg p) = px_Gate cfg"
  by (auto simp: proxy_New_def split: if_split_asm sum.split_asm)

lemma dataplane_started:
  assumes "dataplane_run cr unm whois join ho cached fl0 = Inr d"
  shows "in_step ((dp_Source d, fs), dp_Dynamic d)
    \<and> dy_cfg (dp_Dynamic d) = dp_proxy_cfg (dp_Flags d) (dp_Gate d)"
proof (rule dataplane_run_Inr [OF assms])
  fix dyn0
  assume n: "NewDynamic (dp_proxy_cfg (dp_Flags d) (dp_Gate d)) [] = Inr dyn0"
    and l: "load_cached (ho_ParseURL ho) (dp_SourceCfg d) cached dyn0 = (dp_Source d, dp_Dynamic d)"
  have "dynamic_ok dyn0 \<and> dynamic_Routes dyn0 = []"
    using NewDynamic_ok [OF n] by (simp add: dp_proxy_cfg_def set_table_def)
  moreover have "dy_cfg dyn0 = dp_proxy_cfg (dp_Flags d) (dp_Gate d)"
    using n by (auto simp: NewDynamic_def dynamic_Set_def)
  moreover have "dp_Dynamic d = dyn0 \<or> (\<exists>rs. dp_Dynamic d = snd (dynamic_Set dyn0 rs))"
  proof -
    have "dp_Dynamic d = snd (load_cached (ho_ParseURL ho) (dp_SourceCfg d) cached dyn0)"
      by (simp add: l)
    then show ?thesis
      by (auto simp: load_cached_def Let_def)
  qed
  ultimately show ?thesis
    using load_cached_in_step [OF l] dynamic_Set_abs(3) [OF dynamic_ok_signer, of dyn0] by auto
qed

lemma dp_polls_cfg:
  assumes "in_step st"
  shows "dy_cfg (snd (dp_polls up cfg xs st)) = dy_cfg (snd st)"
  using assms unfolding dp_polls_def
proof (induction xs arbitrary: st)
  case (Cons x xs)
  have "dy_cfg (snd (dp_poll up cfg x st)) = dy_cfg (snd st)"
    using Cons.prems dynamic_Set_abs(3) [of "snd st"]
    by (auto simp: dp_poll_def on_change_def in_step_def dynamic_ok_signer split: prod.split option.split)
  with Cons.IH [OF dp_poll_in_step [OF Cons.prems]] show ?case
    by simp
qed simp

lemma dataplane_running:
  assumes "dataplane_run cr unm whois join ho cached fl0 = Inr d" "gen_ok (ho_Key ho)"
    and "list_all (\<lambda>t. gen_ok (fst t)) (ticks_of evs)"
  shows "keyset_ok cr (dk_Set (key_run cr every evs (dp_Keys d)))
    \<and> ks_overlap (dk_Set (key_run cr every evs (dp_Keys d))) = df_overlap fl0"
proof (rule dataplane_run_Inr [OF assms(1)])
  fix s
  assume r: "dp_check fl0 = Inr (dp_Flags d)" "NewSet cr (df_overlap (dp_Flags d)) (ho_Key ho) (ho_Now ho) = Inr s"
    "dp_keys ho (dp_Flags d) s = Inr (dp_Keys d)"
  have "df_overlap (dp_Flags d) = df_overlap fl0"
    by (rule dp_check_Inr [OF r(1)]) simp
  then have "dk_Set (dp_Keys d) = s" "keyset_ok cr s" "ks_overlap s = df_overlap fl0"
    using dp_keys_Inr [OF r(3)] NewSet_keyset_ok [OF r(2) assms(2)] NewSet_overlap [OF r(2)] by simp_all
  then show ?thesis
    using key_run_keeps [OF assms(3), of cr "dp_Keys d" every] by simp
qed

text \<open>As for \<open>tsjwtd\<close>: a zero lifetime passes the check; and the grace is then zero as well.\<close>

lemma dp_zero_ttl_accepted:
  "\<exists>fl cfg. dp_check (dp_defaults\<lparr>df_gatewayRef := ''ns/gw'', df_tenants := ''t'', df_ttl := 0, df_overlap := Minute\<rparr>) = Inr fl
     \<and> signer_New (df_issuer fl) True True True (df_ttl fl) 0 = Inr cfg
     \<and> df_overlap fl < sg_TTL cfg \<and> s64 (3 * df_ttl fl) < sg_TTL cfg"
proof -
  have "\<not> blank ''https://gw''" "s64 0 = 0"
    by code_simp+
  then show ?thesis
    by (simp add: dp_check_def dp_defaults_def Let_def signer_New_def DefaultTTL_def MaxTTL_def)
qed

section \<open>The arguments the controller renders\<close>

text \<open>How each of them is read.\<close>

abbreviation dp_parse :: "float_mul \<Rightarrow> (string \<Rightarrow> int option) \<Rightarrow> string list \<Rightarrow> dp_flags \<Rightarrow> dp_flags option" where
  "dp_parse fl num \<equiv> parse_flags (dp_flagset fl num)"

lemma dp_lookup:
  "map_of (dp_flagset fl num) ''gateway'' = Some (False, \<lambda>v r. Some (r\<lparr>df_gatewayRef := v\<rparr>))"
  "map_of (dp_flagset fl num) ''hostname'' = Some (False, \<lambda>v r. Some (r\<lparr>df_hostname := v\<rparr>))"
  "map_of (dp_flagset fl num) ''routes'' = Some (False, \<lambda>v r. Some (r\<lparr>df_routesPath := v\<rparr>))"
  "map_of (dp_flagset fl num) ''state-dir'' = Some (False, \<lambda>v r. Some (r\<lparr>df_stateDir := v\<rparr>))"
  "map_of (dp_flagset fl num) ''tenants'' = Some (False, \<lambda>v r. Some (r\<lparr>df_tenants := v\<rparr>))"
  "map_of (dp_flagset fl num) ''issuer'' = Some (False, \<lambda>v r. Some (r\<lparr>df_issuer := v\<rparr>))"
  "map_of (dp_flagset fl num) ''listen'' = Some (False, \<lambda>v r. Some (r\<lparr>df_listen := v\<rparr>))"
  "map_of (dp_flagset fl num) ''jwks-listen'' = Some (False, \<lambda>v r. Some (r\<lparr>df_jwksListen := v\<rparr>))"
  "map_of (dp_flagset fl num) ''key-tags'' = Some (False, \<lambda>v r. Some (r\<lparr>df_keyTags := v\<rparr>))"
  "map_of (dp_flagset fl num) ''share-keys'' = Some (False, \<lambda>v r. Some (r\<lparr>df_shareCM := v\<rparr>))"
  "map_of (dp_flagset fl num) ''cap'' = Some (False, \<lambda>v r. Some (r\<lparr>df_capName := v\<rparr>))"
  "map_of (dp_flagset fl num) ''backend-wait-timeout'' =
     Some (False, \<lambda>v r. map_option (\<lambda>d. r\<lparr>df_waitTimeout := d\<rparr>) (ParseDuration fl v))"
  "map_of (dp_flagset fl num) ''jwks-tls'' = Some (True, \<lambda>v r. map_option (\<lambda>b. r\<lparr>df_jwksTLS := b\<rparr>) (ParseBool v))"
  by (simp_all add: dp_flagset_def string_flag_def duration_flag_def bool_flag_def int_flag_def)

lemmas dp_args [simp] =
  dp_lookup [THEN parse_flag_value, simplified]
  dp_lookup(13) [THEN parse_flag_bool, simplified]

text \<open>The arguments, with the kubelet's substitution of the pod name, which is \<open>pod\<close>.\<close>

definition pod_args :: "string \<Rightarrow> gw_gateway \<Rightarrow> provision_cfg \<Rightarrow> string list" where
  "pod_args pod gw cfg = map (\<lambda>a. if a = ''-hostname=$(POD_NAME)'' then ''-hostname='' @ pod else a) (dataplane_args gw cfg)"

definition pod_hostname :: "string \<Rightarrow> gw_gateway \<Rightarrow> string" where
  "pod_hostname pod gw = (case declaredHostname gw of Some h \<Rightarrow> h | None \<Rightarrow> pod)"

lemma pod_args_eq:
  assumes "declaredHostname gw \<noteq> Some ''$(POD_NAME)''"
  shows "pod_args pod gw cfg =
    (let wait = annotation (gw_Annotations gw) BackendWaitAnnotation
     in [''-gateway='' @ gw_Namespace gw @ ''/'' @ gw_Name gw, ''-hostname='' @ pod_hostname pod gw,
         ''-routes=/etc/tsjwt/routes.json'', ''-state-dir=/var/lib/tsjwt'', ''-tenants=/etc/tsjwt-tenants/tenants.json'',
         ''-issuer=https://'' @ node_hostname gw, ''-listen=:443'', ''-jwks-listen=0.0.0.0:9100'',
         ''-key-tags='' @ pc_Tag cfg, ''-share-keys='' @ n_keys gw]
        @ (if wait \<noteq> [] then [''-backend-wait-timeout='' @ wait] else [])
        @ (if jwks_tls gw cfg then [''-jwks-tls''] else [])
        @ (if pc_Capability cfg \<noteq> [] then [''-cap='' @ pc_Capability cfg] else []))"
  using assms
  by (auto simp: pod_args_def dataplane_args_def Let_def hostnameArg_def pod_hostname_def split: option.split)

definition rendered_flags :: "float_mul \<Rightarrow> string \<Rightarrow> gw_gateway \<Rightarrow> provision_cfg \<Rightarrow> dp_flags" where
  "rendered_flags fl pod gw cfg =
     (let wait = annotation (gw_Annotations gw) BackendWaitAnnotation
      in dp_defaults
        \<lparr>df_gatewayRef := gw_Namespace gw @ ''/'' @ gw_Name gw, df_hostname := pod_hostname pod gw,
         df_issuer := ''https://'' @ node_hostname gw, df_tenants := ''/etc/tsjwt-tenants/tenants.json'',
         df_keyTags := pc_Tag cfg, df_shareCM := n_keys gw,
         df_waitTimeout := (if wait = [] then 0 else the (ParseDuration fl wait)), df_jwksTLS := jwks_tls gw cfg,
         df_capName := (if pc_Capability cfg = [] then CapGroups else pc_Capability cfg)\<rparr>)"

lemma pod_args_parsed:
  assumes "declaredHostname gw \<noteq> Some ''$(POD_NAME)''" "\<not> wait_error fl gw"
  shows "dp_parse fl num (pod_args pod gw cfg) dp_defaults = Some (rendered_flags fl pod gw cfg)"
  using assms(2) unfolding pod_args_eq [OF assms(1)]
  by (auto simp: Let_def rendered_flags_def wait_error_def dp_defaults_def ParseBool_def split: option.splits)

section \<open>Properties\<close>

text \<open>
  C14 (the served table follows the file).  Whatever the route file held at each read, and whatever
  the cache held at the start, the proxy serves the source's table, and that is the last one that
  parsed and differed from the one in use in more than its claim headers: \<open>keep_table\<close> passes over a
  file that does not parse and an edit of claim headers alone, and takes every other table whole.  So
  up to claim headers it is the last table that parsed.  The process is ready exactly when it got the
  name it asked for and some table has parsed.
\<close>

theorem dataplane_serves_last_table:
  assumes "dataplane_run cr unm whois join ho cached fl0 = Inr d"
    and "dp_polls (ho_ParseURL ho) (dp_SourceCfg d) xs ((dp_Source d, fs), dp_Dynamic d) = ((s, fs'), dyn)"
  shows "dynamic_Routes dyn = set_table [] (so_current s)
    \<and> so_current s = foldl (keep_table (ho_ParseURL ho)) (so_current (dp_Source d)) (map fst xs)
    \<and> sans_headers (so_current s) = sans_headers (foldl (last_table (ho_ParseURL ho)) (so_current (dp_Source d)) (map fst xs))
    \<and> (rs_Status (dp_readyz q d s dyn) = 200 \<longleftrightarrow>
         granted_name (dp_DNSName d) = df_hostname (dp_Flags d)
         \<and> (so_loaded (dp_Source d) \<or> list_ex (readable (ho_ParseURL ho)) (map fst xs)))"
proof -
  have src: "run_source (ho_ParseURL ho) (dp_SourceCfg d) xs (dp_Source d, fs) = (s, fs')"
    using dp_polls_source [of "ho_ParseURL ho" "dp_SourceCfg d" xs] assms(2) by (metis fst_conv)
  have "in_step ((s, fs'), dyn)"
    using dp_polls_in_step [of "((dp_Source d, fs), dp_Dynamic d)"] dataplane_started [OF assms(1)] assms(2) by metis
  moreover have "rs_Status (dp_readyz q d s dyn) = 200 \<longleftrightarrow> granted_name (dp_DNSName d) = df_hostname (dp_Flags d) \<and> so_loaded s"
    by (simp add: dp_readyz_def Let_def text_answer_def)
  ultimately show ?thesis
    using run_source_abs [of "ho_ParseURL ho" "dp_SourceCfg d" xs "(dp_Source d, fs)"]
      run_source_table [of "ho_ParseURL ho" "dp_SourceCfg d" xs "(dp_Source d, fs)"] src by (simp add: in_step_def)
qed

text \<open>
  C39 (the data plane accepts every table).  For objects as the API server admits them (ASCII
  hostnames with at most a leading wildcard, and a leading slash in the paths of prefix matches; other
  paths are free), the proxy of a data plane takes the table the translation gives, the empty one
  included, without an error, and serves it as it is: a route that could not be served was already
  rejected, with a reason.
\<close>

theorem translate_table_loads:
  assumes "\<And>r. r \<in> set routes \<Longrightarrow> list_all good_host (ro_Hostnames r)"
    and "\<And>l h. l \<in> set (gw_Listeners gw) \<Longrightarrow> ls_Hostname l = Some h \<Longrightarrow> good_host h"
    and "\<And>r rule m pm p. r \<in> set routes \<Longrightarrow> rule \<in> set (ro_Rules r) \<Longrightarrow> m \<in> set (ru_Matches rule) \<Longrightarrow>
       rm_Path m = Some pm \<Longrightarrow> prefix_match pm \<Longrightarrow> pm_Value pm = Some p \<Longrightarrow> HasPrefix p ''/''"
    and "px_Signer (dy_cfg dyn)"
  shows "case dynamic_Set dyn (fst (Translate q up ul gw routes services)) of (err, dyn') \<Rightarrow>
    err = None \<and> dynamic_Routes dyn' = fst (Translate q up ul gw routes services)"
proof (cases "fst (Translate q up ul gw routes services) = []")
  case True
  then show ?thesis
    by (simp add: dynamic_Set_def dynamic_Routes_def Let_def)
next
  case False
  have n: "NewRouter (fst (Translate q up ul gw routes services)) = Inr (fst (Translate q up ul gw routes services))"
    by (rule Translate_loads) (fact assms False)+
  obtain p where "proxy_New ((dy_cfg dyn)\<lparr>px_Upstream := None, px_Router := Some (fst (Translate q up ul gw routes services))\<rparr>) = Inr p"
      "pr_router p = fst (Translate q up ul gw routes services)"
    using proxy_New_routed [OF n assms(4)] by blast
  then show ?thesis
    using n False by (simp add: dynamic_Set_def dynamic_Routes_def Let_def)
qed

text \<open>
  Tokens outlive rotations, at the data plane.  As for \<open>tsjwtd\<close>, with the flags of the data
  plane: the key set it serves verifies every token it minted until the token expires.
\<close>

theorem dataplane_tokens_outlive_rotations:
  assumes "crypto_ok cr" "dataplane_run cr unm0 whois0 join ho cached fl0 = Inr d" "gen_ok (ho_Key ho)"
    and "Second \<le> df_ttl fl0" "in_s64 (df_overlap fl0)"
    and "list_all (\<lambda>t. gen_ok (fst t)) (ticks_of past)" "dk = key_run cr (df_rotate (dp_Flags d)) past (dp_Keys d)"
    and mint: "mint_at cr fp (dp_Signer d) (dp_world unm whois d dk t0 idb rnd) remote aud ten = Inr (tok, c)"
    and "claims_ok c" "idb \<noteq> Some []" "sane_time t0" "c_IssuedAt c \<noteq> 0" "c_Expiry c \<noteq> 0"
    and "verifier_for (df_issuer (dp_Flags d)) aud vcfg"
    and "list_all (tick_ok t0 t) (ticks_of since)"
    and "inj_on (thumbprint cr) (set (public_keys (dk_Set dk) @ drawn_keys (ticks_of since)))"
    and "sane_time t" "tns t0 \<le> tns t" "tns t \<le> (c_Expiry c + unixToInternal) * Second"
  shows "\<exists>js. source_JWKS cr (key_run cr (df_rotate (dp_Flags d)) since dk) t = Inr js
    \<and> (\<exists>j \<in> set js. fst (Verify cr fp vcfg (served_Key j) t seen None tok) = Inr c)"
proof (rule dataplane_run_Inr [OF assms(2)])
  assume r: "dp_check fl0 = Inr (dp_Flags d)"
    "signer_New (df_issuer (dp_Flags d)) True True True (df_ttl (dp_Flags d)) 0 = Inr (dp_Signer d)"
  have k: "keyset_ok cr (dk_Set dk)" "ks_overlap (dk_Set dk) = df_overlap fl0"
    using dataplane_running [OF assms(2,3,6)] assms(7) by simp_all
  have "df_ttl (dp_Flags d) = df_ttl fl0" "df_ttl fl0 < df_overlap fl0"
    by (rule dp_check_Inr [OF r(1)]; simp)+
  then have ttl: "Second \<le> sg_TTL (dp_Signer d)" "sg_TTL (dp_Signer d) < df_overlap fl0"
    using assms(4) signer_New_TTL [OF r(2)] by (simp_all add: MaxTTL_def)
  show ?thesis
    using daemon_token_verifies [OF assms(1) k(1) r(2) mint [unfolded mint_at_def dp_world_def signer_world.simps]
        assms(9-11) ttl(1) assms(12-14) _ _ assms(15-19)] assms(5) ttl(2) k(2)
    by simp
qed

text \<open>What a request that is forwarded tells, in any state the polling can lead to.\<close>

lemma dynamic_forwards:
  assumes "dataplane_run cr unm0 whois0 join ho cached fl0 = Inr d"
    and st: "in_step (st, dyn)" "dy_cfg dyn = dp_proxy_cfg (dp_Flags d) (dp_Gate d)"
    and "dynamic_serve ul dyn (mint_at cr fp (dp_Signer d) (dp_world unm whois d dk now1 idb1 rnd1)) acquire live
      (mint_at cr fp (dp_Signer d) (dp_world unm whois d dk now2 idb2 rnd2)) req = (calls, Forwarded u out)"
  shows "isTailnetAddr (hr_RemoteAddr req)
    \<and> (\<exists>p r. dy_current dyn = Some p \<and> router_Match ul (dynamic_Routes dyn) (strip_request p req) = Some r
      \<and> rt_Upstream r = Some u
      \<and> (\<exists>who node user ten tok c. whois (5 * Second) (hr_RemoteAddr req) = Inr (Some who) \<and> wi_Node who = Some node
         \<and> \<not> wn_Tagged node \<and> wi_UserProfile who = Some user \<and> c_Subject c = ''tailnet:'' @ Itoa (wu_ID user)
         \<and> c_Audience c = rt_Audience r \<and> (rt_Tenant r \<noteq> [] \<longrightarrow> c_Tenant c = rt_Tenant r)
         \<and> out = inject (pr_cfg p) tok c r (strip_request p req)
         \<and> mint_at cr fp (dp_Signer d) (if df_waitTimeout fl0 > 0 then dp_world unm whois d dk now2 idb2 rnd2
              else dp_world unm whois d dk now1 idb1 rnd1) (hr_RemoteAddr req) (rt_Audience r) ten = Inr (tok, c)))"
proof -
  obtain p where p: "dy_current dyn = Some p"
      "serve ul p (mint_at cr fp (dp_Signer d) (dp_world unm whois d dk now1 idb1 rnd1)) acquire live
        (mint_at cr fp (dp_Signer d) (dp_world unm whois d dk now2 idb2 rnd2)) req = (calls, Forwarded u out)"
    using assms(4) by (auto simp: dynamic_serve_def split: option.splits)
  from st have new: "proxy_New ((dp_proxy_cfg (dp_Flags d) (dp_Gate d))\<lparr>px_Upstream := None, px_Router := Some (pr_router p)\<rparr>) = Inr p"
    and routes: "dynamic_Routes dyn = pr_router p"
    using p(1) by (auto simp: in_step_def dynamic_ok_def dynamic_Routes_def)
  have gate: "px_Gate (pr_cfg p) \<longleftrightarrow> df_waitTimeout fl0 > 0"
  proof -
    have "dp_gate (dp_Flags d) = Inr (dp_Gate d)" "df_waitTimeout (dp_Flags d) = df_waitTimeout fl0"
      by (rule dataplane_run_Inr [OF assms(1)]; auto elim: dp_check_Inr)+
    moreover have "px_Gate (pr_cfg p) \<longleftrightarrow> dp_Gate d \<noteq> None"
      using proxy_New_gate [OF new] by (simp add: dp_proxy_cfg_def)
    ultimately show ?thesis
      by (auto simp: dp_gate_def Let_def split: if_split_asm)
  qed
  let ?w = "if df_waitTimeout fl0 > 0 then dp_world unm whois d dk now2 idb2 rnd2 else dp_world unm whois d dk now1 idb1 rnd1"
  obtain r ten tok c where f: "router_Match ul (pr_router p) (strip_request p req) = Some r" "rt_Upstream r = Some u" "c_Audience c = rt_Audience r"
      "rt_Tenant r \<noteq> [] \<longrightarrow> c_Tenant c = rt_Tenant r"
      "mint_at cr fp (dp_Signer d) ?w (hr_RemoteAddr req) (rt_Audience r) ten = Inr (tok, c)"
      "out = inject (pr_cfg p) tok c r (strip_request p req)"
    by (rule signer_minting.forwarded [OF new p(2)])
      (use gate in \<open>fastforce simp: request_tenant_def split: if_split_asm\<close>)
  obtain who node user where "isTailnetAddr (hr_RemoteAddr req)" "whois (5 * Second) (hr_RemoteAddr req) = Inr (Some who)"
      "wi_Node who = Some node" "\<not> wn_Tagged node" "wi_UserProfile who = Some user"
      "c_Subject c = ''tailnet:'' @ Itoa (wu_ID user)"
    by (rule minted_for_peer [OF f(5), of unm "dp_source (dp_Flags d)" whois])
      (simp_all add: dp_world_def dp_source_def)
  then show ?thesis
    unfolding routes by (intro conjI exI [of _ p] exI [of _ r] exI [of _ who] exI [of _ node] exI [of _ user] exI [of _ ten]
        exI [of _ tok] exI [of _ c]) (use f p in simp_all)
qed

text \<open>
  C5 (only the tailnet gets through the Gateway).  Whatever table it serves, the data plane forwards
  a request only from a tailnet address that \<open>WhoIs\<close> attributes to a user on an untagged node, to
  the upstream of the route of that table that matches it best; what it sends carries a token for
  that route's audience and for the tenant the route pins, minted for that caller.
\<close>

theorem dataplane_forwards_tailnet_only:
  assumes "dataplane_run cr unm0 whois0 join ho cached fl0 = Inr d"
    and "dp_polls (ho_ParseURL ho) (dp_SourceCfg d) xs ((dp_Source d, fs), dp_Dynamic d) = ((s, fs'), dyn)"
    and "dynamic_serve ul dyn (mint_at cr fp (dp_Signer d) (dp_world unm whois d dk now1 idb1 rnd1)) acquire live
      (mint_at cr fp (dp_Signer d) (dp_world unm whois d dk now2 idb2 rnd2)) req = (calls, Forwarded u out)"
  shows "isTailnetAddr (hr_RemoteAddr req)
    \<and> (\<exists>p r. dy_current dyn = Some p \<and> router_Match ul (dynamic_Routes dyn) (strip_request p req) = Some r
      \<and> rt_Upstream r = Some u
      \<and> (\<exists>who node user ten tok c. whois (5 * Second) (hr_RemoteAddr req) = Inr (Some who) \<and> wi_Node who = Some node
         \<and> \<not> wn_Tagged node \<and> wi_UserProfile who = Some user \<and> c_Subject c = ''tailnet:'' @ Itoa (wu_ID user)
         \<and> c_Audience c = rt_Audience r \<and> (rt_Tenant r \<noteq> [] \<longrightarrow> c_Tenant c = rt_Tenant r)
         \<and> out = inject (pr_cfg p) tok c r (strip_request p req)
         \<and> mint_at cr fp (dp_Signer d) (if df_waitTimeout fl0 > 0 then dp_world unm whois d dk now2 idb2 rnd2
              else dp_world unm whois d dk now1 idb1 rnd1) (hr_RemoteAddr req) (rt_Audience r) ten = Inr (tok, c)))"
proof -
  have "in_step ((s, fs'), dyn)" "dy_cfg dyn = dp_proxy_cfg (dp_Flags d) (dp_Gate d)"
    using dp_polls_in_step [of "((dp_Source d, fs), dp_Dynamic d)" "ho_ParseURL ho" "dp_SourceCfg d" xs]
      dp_polls_cfg [of "((dp_Source d, fs), dp_Dynamic d)" "ho_ParseURL ho" "dp_SourceCfg d" xs]
      dataplane_started [OF assms(1)] assms(2) by simp_all
  from dynamic_forwards [OF assms(1) this assms(3)] show ?thesis .
qed

lemma declared_loop_nonempty: "declared_loop ls = Some h \<Longrightarrow> h \<noteq> []"
  by (induction ls) (auto split: option.splits if_splits prod.splits)

text \<open>
  C15 (the controller's pod starts).  For a Gateway whose StatefulSet the controller builds, the data
  plane parses the arguments of its container and accepts them: it serves under the declared
  hostname or the pod's name, issues under the Gateway's, reads the mounted route table, publishes
  to the one ConfigMap its role lets it update, mints its auth key under the configured tag, and
  serves its probes with the scheme they ask for.
\<close>

theorem dataplane_accepts_rendered_args:
  assumes "StatefulSet fl gw cfg tenantsConfigMap = Inr ss"
    and "gw_Namespace gw \<noteq> []" "CHR ''/'' \<notin> set (gw_Namespace gw)" "gw_Name gw \<noteq> []" "pod \<noteq> []"
    and "declaredHostname gw \<noteq> Some ''$(POD_NAME)''"
  shows "\<exists>c f0 f. pt_Containers (ss_Template ss) = [c] \<and> ct_Args c = dataplane_args gw cfg
    \<and> parse_flags (dp_flagset fl num) (pod_args pod gw cfg) dp_defaults = Some f0 \<and> dp_check f0 = Inr f
    \<and> df_hostname f = pod_hostname pod gw \<and> df_issuer f = ''https://'' @ node_hostname gw
    \<and> (df_issuer f = ''https://'' @ df_hostname f \<longleftrightarrow> declaredHostname gw \<noteq> None \<or> pod = gw_Name gw)
    \<and> (\<exists>m \<in> set (ct_Mounts c). vm_Name m = ''routes''
         \<and> df_routesPath f = vm_Path m @ ''/'' @ fst (hd (cmo_Data (RoutesConfigMap gw rendered))))
    \<and> role_allows (KeysRole gw) ''update'' (Some (df_shareCM f))
    \<and> df_keyTags f = pc_Tag cfg \<and> df_keyTags f \<noteq> []
    \<and> hp_Scheme (ct_Readiness c) = (if df_jwksTLS f then SchemeHTTPS else SchemeHTTP)
    \<and> (df_waitTimeout f > 0 \<longleftrightarrow> annotation (gw_Annotations gw) BackendWaitAnnotation \<noteq> [])"
proof -
  have ss: "\<not> wait_error fl gw" "pc_Tag cfg \<noteq> []"
      "ss_Template ss = dataplane_template gw cfg tenantsConfigMap"
    using assms(1) by (auto simp: StatefulSet_def split: if_split_asm)
  note p = pod_args_parsed [OF assms(6) ss(1), of num pod cfg]
  let ?f = "rendered_flags fl pod gw cfg"
  have host: "pod_hostname pod gw \<noteq> []"
    using assms(5) declared_loop_nonempty by (auto simp: pod_hostname_def declaredHostname_def split: option.split)
  have cut: "Cut (gw_Namespace gw @ ''/'' @ gw_Name gw) CHR ''/'' = Some (gw_Namespace gw, gw_Name gw)"
    using assms(3) by simp
  have wait: "0 \<le> df_waitTimeout ?f \<and> df_waitTimeout ?f \<le> 2 * Minute
      \<and> (df_waitTimeout ?f > 0 \<longleftrightarrow> annotation (gw_Annotations gw) BackendWaitAnnotation \<noteq> [])"
    using ss(1) by (auto simp: wait_error_def rendered_flags_def Let_def dp_defaults_def split: option.splits)
  have "dp_check ?f = Inr ?f"
    using wait cut host assms(2,4) by (simp add: dp_check_def Let_def) (simp add: rendered_flags_def Let_def dp_defaults_def DefaultTTL_def)
  moreover have "df_hostname ?f = pod_hostname pod gw" "df_issuer ?f = ''https://'' @ node_hostname gw"
      "df_routesPath ?f = ''/etc/tsjwt/routes.json''" "df_shareCM ?f = n_keys gw" "df_keyTags ?f = pc_Tag cfg"
      "df_jwksTLS ?f = jwks_tls gw cfg"
    by (simp_all add: rendered_flags_def Let_def dp_defaults_def)
  moreover have "node_hostname gw = pod_hostname pod gw \<longleftrightarrow> declaredHostname gw \<noteq> None \<or> pod = gw_Name gw"
    by (auto simp: node_hostname_def pod_hostname_def split: option.split)
  ultimately show ?thesis
    using p wait ss
    by (intro exI [of _ "dataplane_container gw cfg"] exI [of _ ?f])
      (simp add: dataplane_template_def dataplane_container_def Let_def RoutesConfigMap_def role_allows_keys)
qed

section \<open>The properties on a concrete data plane\<close>

theorem dataplane_accepts_rendered_args_witness:
  "\<exists>f0 f. parse_flags (dp_flagset fl_exact (\<lambda>_. None)) (pod_args ''gw-0'' example_gw example_provision_cfg) dp_defaults = Some f0
     \<and> dp_check f0 = Inr f \<and> df_hostname f = ''gw-0'' \<and> df_issuer f = ''https://gw''"
proof -
  have g: "declaredHostname example_gw = None" "gw_Namespace example_gw = ''ns''" "gw_Name example_gw = ''gw''"
      "gw_Annotations example_gw = Map.empty"
    by (simp_all add: declaredHostname_def example_gw_def HasPrefix_def)
  then have "\<exists>ss. StatefulSet fl_exact example_gw example_provision_cfg ''tenants'' = Inr ss"
    by (simp add: StatefulSet_def example_provision_cfg_def wait_error_def Let_def annotation_def)
  then obtain ss where ss: "StatefulSet fl_exact example_gw example_provision_cfg ''tenants'' = Inr ss"
    by blast
  have h: "pod_hostname ''gw-0'' example_gw = ''gw-0''" "node_hostname example_gw = ''gw''"
    using g by (simp_all add: pod_hostname_def node_hostname_def)
  have "gw_Namespace example_gw \<noteq> []" "CHR ''/'' \<notin> set (gw_Namespace example_gw)" "gw_Name example_gw \<noteq> []" "''gw-0'' \<noteq> []"
      "declaredHostname example_gw \<noteq> Some ''$(POD_NAME)''"
    using g by simp_all
  from dataplane_accepts_rendered_args [OF ss this, where num = "\<lambda>_. None" and rendered = "[]"] show ?thesis
    unfolding h by (elim exE conjE) (intro exI conjI; simp)
qed

definition example_dp_host :: host where
  "example_dp_host = example_host\<lparr>ho_ParseURL := toy_url\<rparr>"

definition example_dp_flags :: dp_flags where
  "example_dp_flags = dp_defaults\<lparr>df_gatewayRef := ''ns/gw'', df_tenants := ''tenants.json''\<rparr>"

definition svc_route :: route where
  "svc_route = \<lparr>rt_Name = ''a'', rt_Hostnames = [], rt_PathPrefix = [], rt_Upstream = Some ''http://svc'', rt_Audience = ''svc'',
     rt_Tenant = [], rt_ClaimHeaders = []\<rparr>"

definition svc_file :: route_file where
  "svc_file = \<lparr>rf_Revision = 7, rf_Gateway = ''gw'',
     rf_Routes = [\<lparr>re_Name = ''a'', re_Hostnames = [], re_PathPrefix = [], re_Upstream = ''http://svc'', re_Audience = ''svc'',
       re_Tenant = [], re_ClaimHeaders = []\<rparr>]\<rparr>"

definition svc_source :: source where
  "svc_source = \<lparr>so_current = [svc_route], so_rev = 7, so_loaded = True, so_fromCach = True, so_lastErr = None\<rparr>"

definition svc_proxy :: proxy where
  "svc_proxy =
     \<lparr>pr_cfg = (dp_proxy_cfg example_dp_flags None)\<lparr>px_Router := Some [svc_route]\<rparr>, pr_router = [svc_route], pr_rps = [''http://svc''],
      pr_claimHeaders = []\<rparr>"

definition svc_dynamic :: dynamic where
  "svc_dynamic = \<lparr>dy_cfg = dp_proxy_cfg example_dp_flags None, dy_current = Some svc_proxy\<rparr>"

definition gw_signer :: signer_cfg where
  "gw_signer = \<lparr>sg_Issuer = ''https://gw'', sg_TTL = 5 * Minute, sg_Leeway = 30 * Second\<rparr>"

abbreviation example_join :: "string \<Rightarrow> string \<Rightarrow> string" where
  "example_join a b \<equiv> a @ CHR ''/'' # b"

definition example_dp :: dataplane where
  "example_dp =
     \<lparr>dp_Flags = example_dp_flags\<lparr>df_hostname := ''gw'', df_issuer := ''https://gw''\<rparr>,
      dp_Keys = \<lparr>dk_Set = toy_set, dk_Pub = None\<rparr>, dp_Signer = gw_signer, dp_Tenants = policy_resolve one_tenant,
      dp_Gate = None, dp_SourceCfg = dp_source_cfg example_join example_dp_flags, dp_Source = svc_source, dp_Dynamic = svc_dynamic,
      dp_Expiry = NewExpiry (\<lambda>_. 0) zero_time Hour (3 * Minute) (7 * Minute), dp_DNSName = ''gw.ts.net.''\<rparr>"

lemma svc_read: "ReadRouteFile toy_url (Inr (file_bytes svc_file)) = Inr (svc_file, [svc_route])"
proof -
  have "file_ok svc_file"
    by (simp add: file_ok_def svc_file_def entry_ok_def in_s64_def valid_utf8_ascii bv_def)
  moreover have "svc_file\<lparr>rf_Routes := map sorted_entry (rf_Routes svc_file)\<rparr> = svc_file"
    by (simp add: svc_file_def sorted_entry_def)
  moreover have "\<not> blank ''svc''" "toy_url ''http://svc'' = Some (''http://svc'', ''svc'')"
    by code_simp+
  ultimately show ?thesis
    by (simp add: ReadRouteFile_def file_roundtrip file_Parse_def)
      (simp add: svc_file_def route_of_def route_Valid_def svc_route_def)
qed

lemma svc_served: "load_cached toy_url (dp_source_cfg example_join example_dp_flags) (Inr (file_bytes svc_file))
    \<lparr>dy_cfg = dp_proxy_cfg example_dp_flags None, dy_current = None\<rparr> = (svc_source, svc_dynamic)"
proof -
  have "NewRouter [svc_route] = Inr [svc_route]"
  proof -
    have "\<not> blank ''svc''" by code_simp
    then show ?thesis
      by (simp add: NewRouter_def svc_route_def route_Valid_def)
  qed
  moreover have "df_header example_dp_flags \<noteq> []"
    by (simp add: example_dp_flags_def dp_defaults_def DefaultHeader_def)
  then have "proxy_New ((dp_proxy_cfg example_dp_flags None)\<lparr>px_Router := Some [svc_route]\<rparr>) = Inr svc_proxy"
    by (simp add: proxy_New_def dp_proxy_cfg_def proxy_router_def upstream_keys_def svc_route_def svc_proxy_def)
  moreover have "(dp_proxy_cfg example_dp_flags None)\<lparr>px_Router := None, px_Upstream := None, px_Router := Some [svc_route]\<rparr>
      = (dp_proxy_cfg example_dp_flags None)\<lparr>px_Router := Some [svc_route]\<rparr>"
    by (simp add: dp_proxy_cfg_def)
  moreover have "so_CachePath (dp_source_cfg example_join example_dp_flags) \<noteq> []" "rf_Revision svc_file = 7"
    by (simp_all add: dp_source_cfg_def svc_file_def)
  then have "fst (LoadCache toy_url (dp_source_cfg example_join example_dp_flags) (Inr (file_bytes svc_file)) empty_source) = svc_source"
    by (simp add: LoadCache_def svc_read empty_source_def svc_source_def)
  ultimately show ?thesis
    by (simp add: load_cached_def Let_def dynamic_Set_def svc_dynamic_def) (simp add: svc_source_def)
qed

text \<open>A start on any cache.\<close>

lemma example_dp_starts:
  assumes "load_cached toy_url (dp_source_cfg example_join example_dp_flags) cached
      \<lparr>dy_cfg = dp_proxy_cfg example_dp_flags None, dy_current = None\<rparr> = (src, dyn)"
  shows "dataplane_run toy_crypto example_caps example_whois example_join example_dp_host cached example_dp_flags
     = Inr (example_dp\<lparr>dp_Source := src, dp_Dynamic := dyn\<rparr>)"
proof -
  have b: "\<not> blank ''https://gw''"
    by code_simp
  have fl: "dp_check example_dp_flags = Inr (dp_Flags example_dp)"
    by (simp add: dp_check_def example_dp_flags_def dp_defaults_def DefaultTTL_def example_dp_def)
  have same: "dp_source_cfg j (dp_Flags example_dp) = dp_source_cfg j example_dp_flags"
      "dp_proxy_cfg (dp_Flags example_dp) g = dp_proxy_cfg example_dp_flags g" for j g
    by (simp_all add: dp_source_cfg_def dp_proxy_cfg_def example_dp_def)
  have sel: "df_tenants (dp_Flags example_dp) = ''tenants.json''" "df_overlap (dp_Flags example_dp) = Hour"
      "df_keyTags (dp_Flags example_dp) = []" "df_hostname (dp_Flags example_dp) = ''gw''" "df_issuer (dp_Flags example_dp) = ''https://gw''"
      "df_ttl (dp_Flags example_dp) = DefaultTTL" "df_waitTimeout (dp_Flags example_dp) = 0" "df_shareCM (dp_Flags example_dp) = []"
    by (simp_all add: example_dp_def example_dp_flags_def dp_defaults_def)
  have "signer_New ''https://gw'' True True True DefaultTTL 0 = Inr gw_signer"
    using b by (simp add: signer_New_def gw_signer_def DefaultTTL_def MaxTTL_def Let_def)
  moreover have "NewDynamic (dp_proxy_cfg example_dp_flags None) [] = Inr \<lparr>dy_cfg = dp_proxy_cfg example_dp_flags None, dy_current = None\<rparr>"
    by (simp add: NewDynamic_def dynamic_Set_def)
  moreover have "ho_ReadFile example_dp_host ''tenants.json'' = Some example_policy_text" "ho_ParseURL example_dp_host = toy_url"
      "ho_Key example_dp_host = Some toy_key" "ho_LocalClient example_dp_host = None" "ho_Listen example_dp_host t a = None"
      "ho_Up example_dp_host h s k = Inr (h @ ''.ts.net.'')" "ho_Getenv example_dp_host v = []" "ho_Rand example_dp_host = (\<lambda>_. 0)" for t a h s k v
    by (simp_all add: example_dp_host_def example_host_def)
  ultimately show ?thesis
    unfolding dataplane_run_def
    by (simp add: fl same sel example_policy_loads toy_NewSet startup_key_def dp_keys_def Identify_passes_assertion dp_gate_def
        assms unless_def wrap_error_def) (simp add: example_dp_def)
qed

lemma example_dp_run:
  "dataplane_run toy_crypto example_caps example_whois example_join example_dp_host (Inr (file_bytes svc_file)) example_dp_flags
     = Inr example_dp"
  using example_dp_starts [OF svc_served] by (simp add: example_dp_def)

lemma example_dp_polled:
  "\<exists>s fs. dp_polls (ho_ParseURL example_dp_host) (dp_SourceCfg example_dp) [(Inr ''not json'', good_io)]
       ((dp_Source example_dp, Map.empty), dp_Dynamic example_dp) = ((s, fs), svc_dynamic)"
proof -
  have "ReadRouteFile toy_url (Inr ''not json'') = Inl (Error Plain ''parse'')"
    by code_simp
  then show ?thesis
    by (simp add: dp_polls_def dp_poll_def source_step_def Refresh_def example_dp_host_def example_dp_def)
qed

theorem translate_table_loads_witness:
  "dynamic_Routes (snd (dynamic_Set (dp_Dynamic example_dp) (fst (example_translate example_routes))))
     = [translated ''ns/a#0.0'', translated ''ns/b.v2#0.0'']"
proof -
  have g: "good_host ''App.ts.net''" "good_host ''*.ts.net''"
    by code_simp+
  have "case dynamic_Set (dp_Dynamic example_dp) (fst (example_translate example_routes)) of (err, dyn') \<Rightarrow>
      err = None \<and> dynamic_Routes dyn' = fst (example_translate example_routes)"
  proof (rule translate_table_loads)
    show "px_Signer (dy_cfg (dp_Dynamic example_dp))"
      by (simp add: example_dp_def svc_dynamic_def dp_proxy_cfg_def)
  qed (use g in \<open>auto simp: example_http_route_def example_rule_def example_gw_def HasPrefix_def\<close>)
  then show ?thesis
    by (simp add: example_translated case_prod_beta)
qed

theorem dataplane_serves_last_table_witness:
  "\<exists>s fs. dp_polls (ho_ParseURL example_dp_host) (dp_SourceCfg example_dp) [(Inr ''not json'', good_io)]
       ((dp_Source example_dp, Map.empty), dp_Dynamic example_dp) = ((s, fs), svc_dynamic)
     \<and> dynamic_Routes svc_dynamic = set_table [] (so_current s) \<and> rs_Status (dp_readyz id example_dp s svc_dynamic) = 200"
proof -
  obtain s fs where p: "dp_polls (ho_ParseURL example_dp_host) (dp_SourceCfg example_dp) [(Inr ''not json'', good_io)]
       ((dp_Source example_dp, Map.empty), dp_Dynamic example_dp) = ((s, fs), svc_dynamic)"
    using example_dp_polled by blast
  have "granted_name (dp_DNSName example_dp) = df_hostname (dp_Flags example_dp)" "so_loaded (dp_Source example_dp)"
  proof -
    have "granted_name ''gw.ts.net.'' = ''gw''"
      by code_simp
    then show "granted_name (dp_DNSName example_dp) = df_hostname (dp_Flags example_dp)" "so_loaded (dp_Source example_dp)"
      by (simp_all add: example_dp_def svc_source_def)
  qed
  with dataplane_serves_last_table [OF example_dp_run p, of id] p show ?thesis
    by blast
qed

abbreviation example_dpw :: signer_world where
  "example_dpw \<equiv> dp_world example_caps example_whois example_dp (dp_Keys example_dp) (time_Unix 1700000000) (Some (replicate 16 CHR 0x01)) 0"

lemma example_dp_mint:
  "\<exists>tok. mint_at toy_crypto (\<lambda>_. None) (dp_Signer example_dp) example_dpw ''100.64.0.1:1'' ''svc'' []
    = Inr (tok, caller_claims gw_signer (time_Unix 1700000000))"
  using caller_minted [of gw_signer "time_Unix 1700000000"] caller_identified [of "dp_source (dp_Flags example_dp)"]
  by (simp add: mint_at_def dp_world_def dp_source_def example_dp_def source_Current_eq)

lemma gw_claims:
  "claims_ok (caller_claims gw_signer (time_Unix 1700000000))"
  "c_IssuedAt (caller_claims gw_signer (time_Unix 1700000000)) = 1700000000"
  "c_Expiry (caller_claims gw_signer (time_Unix 1700000000)) = 1700000300"
  by code_simp+

theorem dataplane_tokens_outlive_rotations_witness:
  "\<exists>tok js j c. source_JWKS toy_crypto (key_run toy_crypto (24 * Hour) [Tick (Some toy_key) (time_Unix 1700000200)] (dp_Keys example_dp))
       (time_Unix 1700000200) = Inr js \<and> j \<in> set js
     \<and> fst (Verify toy_crypto (\<lambda>_. None) (example_vcfg\<lparr>v_Issuer := ''https://gw''\<rparr>) (served_Key j) (time_Unix 1700000200)
         (guard_Seen zero_time) None tok) = Inr c"
proof -
  let ?dk = "dp_Keys example_dp" and ?c = "caller_claims gw_signer (time_Unix 1700000000)"
  have dk: "dk_Set ?dk = toy_set" "key_run toy_crypto e [] ?dk = ?dk" for e
    by (simp_all add: example_dp_def key_run_def)
  obtain tok where m: "mint_at toy_crypto (\<lambda>_. None) (dp_Signer example_dp) example_dpw ''100.64.0.1:1'' ''svc'' [] = Inr (tok, ?c)"
    using example_dp_mint by blast
  have g: "gen_ok (Some toy_key)"
    by (simp add: gen_ok_def toy_key_valid)
  have keys: "set (public_keys toy_set @ drawn_keys [(Some toy_key, time_Unix 1700000200)]) = {sk_Public toy_key}"
    by (simp add: public_keys_def drawn_keys_def toy_set_def)
  have sub: "replicate 16 (CHR 0x01) \<noteq> []" and tick: "tick_ok (time_Unix 1700000000) (time_Unix 1700000200) (Some toy_key, time_Unix 1700000200)"
    using g example_times by (simp_all add: tick_ok_def)
  have x: "df_rotate (dp_Flags example_dp) = 24 * Hour" "df_issuer (dp_Flags example_dp) = ''https://gw''"
    by (simp_all add: example_dp_def example_dp_flags_def dp_defaults_def)
  have "\<exists>js. source_JWKS toy_crypto (key_run toy_crypto (df_rotate (dp_Flags example_dp))
        [Tick (Some toy_key) (time_Unix 1700000200)] ?dk) (time_Unix 1700000200) = Inr js
    \<and> (\<exists>j \<in> set js. fst (Verify toy_crypto (\<lambda>_. None) (example_vcfg\<lparr>v_Issuer := ''https://gw''\<rparr>) (served_Key j)
          (time_Unix 1700000200) (guard_Seen zero_time) None tok) = Inr ?c)"
  proof (rule dataplane_tokens_outlive_rotations [OF toy_crypto_ok example_dp_run, where past = "[]" and dk = ?dk, OF _ _ _ _ _ m], goal_cases)
    case 1 show ?case using g by (simp add: example_dp_host_def example_host_def)
  next
    case 13 show ?case unfolding ticks_of.simps dk(1) keys by simp
  qed (use gw_claims example_times sub in
        \<open>simp_all add: tick g dk x example_dp_flags_def dp_defaults_def DefaultTTL_def in_s64_def verifier_for_def example_vcfg_def MaxTTL_def\<close>)
  then show ?thesis
    unfolding x by blast
qed

theorem dataplane_forwards_tailnet_only_witness:
  "\<exists>calls out. dynamic_serve id svc_dynamic (mint_at toy_crypto (\<lambda>_. None) (dp_Signer example_dp) example_dpw) (\<lambda>_. None) True
       (mint_at toy_crypto (\<lambda>_. None) (dp_Signer example_dp) example_dpw) example_req = (calls, Forwarded ''http://svc'' out)
     \<and> isTailnetAddr (hr_RemoteAddr example_req)"
proof -
  obtain s fs where p: "dp_polls (ho_ParseURL example_dp_host) (dp_SourceCfg example_dp) [(Inr ''not json'', good_io)]
       ((dp_Source example_dp, Map.empty), dp_Dynamic example_dp) = ((s, fs), svc_dynamic)"
    using example_dp_polled by blast
  obtain tok c where
    m: "mint_at toy_crypto (\<lambda>_. None) (dp_Signer example_dp) example_dpw ''100.64.0.1:1'' ''svc'' [] = Inr (tok, c)"
    using example_dp_mint by blast
  have r: "pr_router svc_proxy = [svc_route]" "pr_rps svc_proxy = [''http://svc'']" "\<not> px_Gate (pr_cfg svc_proxy)"
      "router_Match id [svc_route] q = Some svc_route" "hr_RemoteAddr example_req = ''100.64.0.1:1''"
      "rt_Audience svc_route = ''svc''" "rt_Upstream svc_route = Some ''http://svc''" "request_tenant (pr_cfg svc_proxy) svc_route q = []" for q
    by (simp_all add: svc_proxy_def dp_proxy_cfg_def router_Match_def score_key_def route_matches_def svc_route_def
        request_tenant_def example_req_def)
  then have "\<exists>calls out. dynamic_serve id svc_dynamic (mint_at toy_crypto (\<lambda>_. None) (dp_Signer example_dp) example_dpw) (\<lambda>_. None) True
       (mint_at toy_crypto (\<lambda>_. None) (dp_Signer example_dp) example_dpw) example_req = (calls, Forwarded ''http://svc'' out)"
    using m by (simp add: dynamic_serve_def svc_dynamic_def serve_def Let_def forward_def)
  then show ?thesis
    using dataplane_forwards_tailnet_only [OF example_dp_run p] by blast
qed

end
