(* ===== verification/Controller.thy ===== *)
theory Controller
  imports Dataplane
begin

text \<open>
  \<open>gateway/cmd/tsjwt-controller/main.go\<close>: the flags of the controller, the configuration it gives
  its reconcilers, the manager it sets up and its exits; and the watches that
  \<open>gateway/reconcile.go\<close> registers: which changes of the cluster have which Gateways reconciled.
  What the manager does with them, its caches, queues, leader election and probes, is
  \<open>controller-runtime\<close>'s; \<open>Reconcile\<close> is what it calls.
\<close>

record controller_flags =
  kf_image :: string
  kf_secret :: string
  kf_tag :: string
  kf_tenants :: string
  kf_storage :: string
  kf_zone :: string
  kf_capability :: string
  kf_jwksTLS :: bool
  kf_metricsRef :: string
  kf_probeAddr :: string
  kf_leader :: bool

definition controller_defaults :: controller_flags where
  "controller_defaults =
     \<lparr>kf_image = [], kf_secret = ''tsjwt-credentials'', kf_tag = [], kf_tenants = ''tsjwt-tenants'', kf_storage = [],
      kf_zone = [], kf_capability = [], kf_jwksTLS = False, kf_metricsRef = '':8080'', kf_probeAddr = '':8081'',
      kf_leader = True\<rparr>"

definition controller_flagset :: "controller_flags flags" where
  "controller_flagset =
     [string_flag ''dataplane-image'' (\<lambda>v. kf_image_update (\<lambda>_. v)),
      string_flag ''credential-secret'' (\<lambda>v. kf_secret_update (\<lambda>_. v)),
      string_flag ''tag'' (\<lambda>v. kf_tag_update (\<lambda>_. v)),
      string_flag ''tenants-configmap'' (\<lambda>v. kf_tenants_update (\<lambda>_. v)),
      string_flag ''storage-class'' (\<lambda>v. kf_storage_update (\<lambda>_. v)),
      string_flag ''zone'' (\<lambda>v. kf_zone_update (\<lambda>_. v)),
      string_flag ''capability'' (\<lambda>v. kf_capability_update (\<lambda>_. v)),
      bool_flag ''jwks-tls'' (\<lambda>v. kf_jwksTLS_update (\<lambda>_. v)),
      string_flag ''metrics-bind-address'' (\<lambda>v. kf_metricsRef_update (\<lambda>_. v)),
      string_flag ''health-probe-bind-address'' (\<lambda>v. kf_probeAddr_update (\<lambda>_. v)),
      bool_flag ''leader-elect'' (\<lambda>v. kf_leader_update (\<lambda>_. v))]"

text \<open>The reconciler's configuration, with the name of the tenants' ConfigMap, or the exit.\<close>

definition controller_provision :: "controller_flags \<Rightarrow> provision_cfg \<times> string" where
  "controller_provision kf =
     (\<lparr>pc_Image = kf_image kf, pc_ServiceAccount = [], pc_CredentialSecret = kf_secret kf, pc_Tag = kf_tag kf,
       pc_StorageClass = kf_storage kf, pc_Zone = kf_zone kf, pc_JWKSOverTLS = kf_jwksTLS kf,
       pc_Capability = kf_capability kf\<rparr>,
      kf_tenants kf)"

definition controller_config :: "controller_flags \<Rightarrow> (provision_cfg \<times> string) result" where
  "controller_config kf =
     (if kf_image kf = [] \<or> kf_tag kf = [] then Inl (Error Plain ''-dataplane-image and -tag are both required'')
      else Inr (controller_provision kf))"

text \<open>
  With a credential secret, which the default has, the controller builds a StatefulSet for every
  Gateway whose wait annotation is well-formed; without one, for none.
\<close>

lemma controller_builds:
  assumes "controller_config kf = Inr (cfg, tenants)"
  shows "(\<exists>ss. StatefulSet fl gw cfg tenants = Inr ss) \<longleftrightarrow> kf_secret kf \<noteq> [] \<and> \<not> wait_error fl gw"
  using assms by (auto simp: controller_config_def controller_provision_def StatefulSet_def split: if_split_asm)

lemma controller_needs_image_and_tag:
  "(\<exists>r. controller_config kf = Inr r) \<longleftrightarrow> kf_image kf \<noteq> [] \<and> kf_tag kf \<noteq> []"
  by (auto simp: controller_config_def)

section \<open>The manager\<close>

datatype api_group = CoreV1 | AppsV1 | RbacV1 | GatewayV1

record manager_options =
  mo_Scheme :: "api_group list"
  mo_MetricsBind :: string
  mo_ProbeBind :: string
  mo_LeaderElection :: bool
  mo_LeaderElectionID :: string

record manager =
  mg_Options :: manager_options
  mg_Class :: bool
  mg_Gateway :: "(provision_cfg \<times> string) option"
  mg_Healthz :: "string list"
  mg_Readyz :: "string list"

text \<open>The calls of the setup that may fail; \<open>refused\<close> says which do.\<close>

datatype setup_call =
    AddToScheme api_group | GetConfig | NewManager | SetupClass | SetupGateway
  | AddHealthzCheck string | AddReadyzCheck string | StartManager

definition controller_scheme :: "api_group list" where
  "controller_scheme = [CoreV1, AppsV1, RbacV1, GatewayV1]"

definition controller_options :: "controller_flags \<Rightarrow> manager_options" where
  "controller_options kf =
     \<lparr>mo_Scheme = controller_scheme, mo_MetricsBind = kf_metricsRef kf, mo_ProbeBind = kf_probeAddr kf,
      mo_LeaderElection = kf_leader kf, mo_LeaderElectionID = ''tsjwt-gateway-controller.tsjwt.dev''\<rparr>"

text \<open>\<open>main\<close> after the flags were parsed: the exit code, and the manager if one was started.\<close>

definition controller_main :: "(setup_call \<Rightarrow> bool) \<Rightarrow> controller_flags \<Rightarrow> int \<times> manager option" where
  "controller_main refused kf =
     (case controller_config kf of
        Inl _ \<Rightarrow> (2, None)
      | Inr cfg \<Rightarrow>
          if list_ex (\<lambda>g. refused (AddToScheme g)) controller_scheme then (1, None)
          else if refused GetConfig \<or> refused NewManager then (1, None)
          else
            (let m0 = \<lparr>mg_Options = controller_options kf, mg_Class = False, mg_Gateway = None, mg_Healthz = [], mg_Readyz = []\<rparr>
             in if refused SetupClass then (1, None)
                else let m1 = m0\<lparr>mg_Class := True\<rparr> in
                if refused SetupGateway then (1, None)
                else let m2 = m1\<lparr>mg_Gateway := Some cfg\<rparr> in
                if refused (AddHealthzCheck ''ping'') then (1, None)
                else let m3 = m2\<lparr>mg_Healthz := [''ping'']\<rparr> in
                if refused (AddReadyzCheck ''ping'') then (1, None)
                else let m4 = m3\<lparr>mg_Readyz := [''ping'']\<rparr> in
                (if refused StartManager then 1 else 0, Some m4)))"

text \<open>A manager is started only complete: both reconcilers, with the flags' configuration, and both probes.\<close>

definition setup_calls :: "setup_call list" where
  "setup_calls = map AddToScheme controller_scheme
     @ [GetConfig, NewManager, SetupClass, SetupGateway, AddHealthzCheck ''ping'', AddReadyzCheck ''ping'']"

lemma controller_main_eq:
  "controller_main refused kf =
     (if kf_image kf = [] \<or> kf_tag kf = [] then (2, None)
      else if list_ex refused setup_calls then (1, None)
      else (if refused StartManager then 1 else 0,
        Some \<lparr>mg_Options = controller_options kf, mg_Class = True, mg_Gateway = Some (controller_provision kf),
          mg_Healthz = [''ping''], mg_Readyz = [''ping'']\<rparr>))"
  by (simp add: controller_main_def controller_config_def setup_calls_def controller_scheme_def Let_def)

lemma controller_starts_complete:
  assumes "snd (controller_main refused kf) = Some m"
  shows "mg_Options m = controller_options kf \<and> mg_Class m \<and> mg_Gateway m = Some (controller_provision kf)
    \<and> mg_Healthz m \<noteq> [] \<and> mg_Readyz m \<noteq> [] \<and> (fst (controller_main refused kf) = 0 \<longleftrightarrow> \<not> refused StartManager)"
  using assms by (auto simp: controller_main_eq split: if_splits)

section \<open>The watches\<close>

text \<open>
  What happens to an object of the cluster: it is created, changed or deleted.  For a change the
  runtime asks for the object as it was and as it is.
\<close>

datatype watch_event =
    GatewayChanged "string \<times> string"
  | ClassChanged string
  | RouteChanged http_route
  | ObjectChanged object_key k8s_obj

definition owned_kinds :: "object_kind list" where
  "owned_kinds = [KStatefulSet, KConfigMap, KService, KServiceAccount, KRole, KRoleBinding]"

text \<open>The requests for the reconciler of the Gateways, and for that of the classes.\<close>

fun gateway_requests :: "watch_event \<Rightarrow> (string \<times> string) list" where
  "gateway_requests (GatewayChanged req) = [req]"
| "gateway_requests (ClassChanged name) = []"
| "gateway_requests (RouteChanged r) = route_gateways r (ro_ParentRefs r)"
| "gateway_requests (ObjectChanged (kind, ns, name) ob) =
     (if kind \<in> set owned_kinds then (case ko_Owner ob of None \<Rightarrow> [] | Some gw \<Rightarrow> [(ns, gw)]) else [])"

fun class_requests :: "watch_event \<Rightarrow> string list" where
  "class_requests (ClassChanged name) = [name]"
| "class_requests _ = []"

lemma attached_loop_noticed: "attached_loop gw r ps \<Longrightarrow> (gw_Namespace gw, gw_Name gw) \<in> set (route_gateways r ps)"
  by (induction gw r ps rule: attached_loop.induct) (auto simp: Let_def split: if_splits)

lemma attached_noticed: "attachedTo gw r \<Longrightarrow> (gw_Namespace gw, gw_Name gw) \<in> set (gateway_requests (RouteChanged r))"
  by (simp add: attachedTo_def attached_loop_noticed)

lemma unattached_translated: "\<not> attachedTo gw r \<Longrightarrow> translate_route q up ul gw svc allowed r = ([], [])"
  by (simp add: translate_route_def)

lemma unattached_parts:
  assumes "\<forall>r \<in> set rs. \<not> attachedTo gw r"
  shows "concat (map (fst \<circ> translate_route q up ul gw svc allowed) rs) = []"
    "concat (map (snd \<circ> translate_route q up ul gw svc allowed) rs) = []"
  using assms by (auto simp: unattached_translated)

text \<open>
  A change of routes that changes the table or the errors of a Gateway has that Gateway reconciled.
\<close>

theorem route_changes_noticed:
  assumes "Translate q up ul gw (before @ olds @ after) services \<noteq> Translate q up ul gw (before @ news @ after) services"
  shows "\<exists>r \<in> set (olds @ news). (gw_Namespace gw, gw_Name gw) \<in> set (gateway_requests (RouteChanged r))"
proof (rule ccontr)
  assume "\<not> ?thesis"
  then have "\<forall>r \<in> set olds. \<not> attachedTo gw r" "\<forall>r \<in> set news. \<not> attachedTo gw r"
    using attached_noticed by fastforce+
  with assms show False
    by (simp add: Translate_def Let_def unattached_parts)
qed

text \<open>Whatever happens to an object a reconcile wrote, its Gateway is reconciled.\<close>

lemma provisioned_noticed:
  assumes "key \<in> set (provisioned_keys gw)" "ko_Owner ob = Some (gw_Name gw)"
  shows "gateway_requests (ObjectChanged key ob) = [(gw_Namespace gw, gw_Name gw)]"
  using assms by (auto simp: provisioned_keys_def owned_kinds_def Let_def)

text \<open>
  A Service that no Gateway owns is not noticed, though the table depends on it; nor is the class
  of a Gateway by the Gateway's reconciler, though nothing is provisioned without it.
\<close>

lemma service_unnoticed:
  "Translate id toy_url id example_gw [example_http_route ''a''] [] \<noteq> Translate id toy_url id example_gw [example_http_route ''a''] example_services
   \<and> gateway_requests (ObjectChanged (KService, ''ns'', ''app'') \<lparr>ko_Labels = [], ko_Owner = None, ko_Spec = ServiceSpec [] []\<rparr>) = []"
  by code_simp

lemma class_unnoticed:
  "map_of (cl_Classes cl) (go_Class g) = None \<Longrightarrow> map_of (cl_Gateways cl) req = Some g \<Longrightarrow>
     Reconcile (\<lambda>_. None) q up ul fl cfg tenants now req cl = (cl, None) \<and> gateway_requests (ClassChanged name) = []"
  by (simp add: Reconcile_def)

theorem route_changes_noticed_witness:
  "(''ns'', ''gw'') \<in> set (gateway_requests (RouteChanged (example_http_route ''a'')))"
proof -
  have "Translate id toy_url id example_gw ([] @ [] @ []) example_services
      \<noteq> Translate id toy_url id example_gw ([] @ [example_http_route ''a''] @ []) example_services"
    by code_simp
  from route_changes_noticed [OF this] show ?thesis
    by (simp add: example_gw_def)
qed

end
