(* ===== verification/Loadtarget.thy ===== *)
theory Loadtarget
  imports Daemon Delivery
begin

text \<open>
  \<open>internal/loadtarget/main.go\<close>: the target of the load tests, which runs a signer, a proxy and a
  backend behind the verifier over one key set that may rotate while requests are in flight.  The
  URL of the test backend is the parameter \<open>up\<close>.
\<close>

section \<open>Flags and start\<close>

record load_flags =
  lf_addr :: string
  lf_ttl :: duration
  lf_rotate :: duration
  lf_replay :: bool
  lf_tenants :: int

definition load_defaults :: load_flags where
  "load_defaults = \<lparr>lf_addr = ''127.0.0.1:8099'', lf_ttl = 5 * Minute, lf_rotate = 0, lf_replay = False, lf_tenants = 1\<rparr>"

definition load_flagset :: "float_mul \<Rightarrow> (string \<Rightarrow> int option) \<Rightarrow> load_flags flags" where
  "load_flagset fl num =
     [string_flag ''listen'' (\<lambda>v. lf_addr_update (\<lambda>_. v)),
      duration_flag fl ''ttl'' (\<lambda>v. lf_ttl_update (\<lambda>_. v)),
      duration_flag fl ''rotate'' (\<lambda>v. lf_rotate_update (\<lambda>_. v)),
      bool_flag ''replay-guard'' (\<lambda>v. lf_replay_update (\<lambda>_. v)),
      int_flag num ''tenants'' (\<lambda>v. lf_tenants_update (\<lambda>_. v))]"

definition load_identity :: identity where
  "load_identity = \<lparr>id_Subject = ''tailnet:1'', id_Login = ''load@example.com'', id_DisplayName = [],
     id_Groups = [''group:admin''], id_Node = [], id_Attributes = Map.empty\<rparr>"

definition load_tenants :: "int \<Rightarrow> tenant list" where
  "load_tenants n = map (\<lambda>i. \<lparr>t_ID = ''tenant-'' @ Itoa (int i), t_Name = [], t_Roles = [''admin'']\<rparr>) [0..<nat n]"

text \<open>The first of no tenants is a panic.\<close>

definition load_grant :: "int \<Rightarrow> grant result" where
  "load_grant n =
     (case load_tenants n of
        [] \<Rightarrow> Inl (Error Panic ''index out of range'')
      | t # ts \<Rightarrow> Inr \<lparr>g_Tenants = t # ts, g_Default = t_ID t\<rparr>)"

definition load_proxy_cfg :: "route list \<Rightarrow> proxy_cfg" where
  "load_proxy_cfg rs =
     \<lparr>px_Router = Some rs, px_Upstream = None, px_Signer = True, px_Audience = [], px_Header = [], px_Bearer = False,
      px_TenantFrom = None, px_Gate = False\<rparr>"

record loadtarget =
  ld_Set :: keyset
  ld_Verifier :: verifier_cfg
  ld_Guard :: "memory_guard option"
  ld_Grant :: grant
  ld_Signer :: signer_cfg
  ld_Proxy :: proxy

definition load_start :: "crypto \<Rightarrow> privkey option \<Rightarrow> gotime \<Rightarrow> string \<Rightarrow> load_flags \<Rightarrow> loadtarget result" where
  "load_start cr gen now up lf =
     andThen (NewSet cr (s64 (2 * lf_ttl lf)) gen now) (\<lambda>s.
     andThen (verifier_New ''https://loadtarget'' ''loadtarget'' True 0 0) (\<lambda>v.
     andThen (load_grant (lf_tenants lf)) (\<lambda>g.
     andThen (signer_New ''https://loadtarget'' True True True (lf_ttl lf) 0) (\<lambda>sg.
     andThen (NewRouter [single_route ''root'' (Some up) ''loadtarget'']) (\<lambda>rs.
     andThen (proxy_New (load_proxy_cfg rs)) (\<lambda>p.
     Inr \<lparr>ld_Set = s, ld_Verifier = v, ld_Guard = (if lf_replay lf then Some Map.empty else None), ld_Grant = g,
          ld_Signer = sg, ld_Proxy = p\<rparr>))))))"

section \<open>Serving\<close>

text \<open>The backend's handler; the headers the server adds are left out.\<close>

definition load_handler :: "go_ctx \<Rightarrow> response" where
  "load_handler ctx =
     (case ClaimsFrom ctx of
        (c, ok) \<Rightarrow>
          if \<not> ok then http_Error ''no claims'' 500
          else text_answer 200 (c_Subject c @ '' '' @ c_Tenant c))"

text \<open>The key set of the moment verifies as well as signs.\<close>

definition load_backend :: "crypto \<Rightarrow> (jnum \<Rightarrow> jnum option) \<Rightarrow> loadtarget \<Rightarrow> keyset \<Rightarrow> gotime \<Rightarrow> memory_guard option \<Rightarrow> headers
    \<Rightarrow> response" where
  "load_backend cr fp d s now guard =
     Middleware [] (Verify cr fp (ld_Verifier d) (local_Key s now) now (guard_Seen now) guard) load_handler id"

definition load_world :: "loadtarget \<Rightarrow> keyset \<Rightarrow> gotime \<Rightarrow> bytes option \<Rightarrow> nat \<Rightarrow> signer_world" where
  "load_world d s now idb rnd =
     \<lparr>sw_Identify = (\<lambda>_. Inr load_identity), sw_Resolve = StaticGrant (ld_Grant d), sw_Current = set_Current s,
      sw_Now = now, sw_ID = idb, sw_Rnd = rnd\<rparr>"

definition load_serve :: "crypto \<Rightarrow> (jnum \<Rightarrow> jnum option) \<Rightarrow> (string \<Rightarrow> string) \<Rightarrow> loadtarget \<Rightarrow> signer_world \<Rightarrow> http_req
    \<Rightarrow> call list \<times> ending" where
  "load_serve cr fp ul d w req =
     (let mint = mint_at cr fp (ld_Signer d) w in serve ul (ld_Proxy d) mint (\<lambda>_. None) True mint req)"

definition load_jwks :: "crypto \<Rightarrow> keyset \<Rightarrow> gotime \<Rightarrow> string \<Rightarrow> response option" where
  "load_jwks cr s now method =
     (case set_JWKS now s of Inl _ \<Rightarrow> None | Inr js \<Rightarrow> Some (JWKSHandler Minute method js))"

datatype load_route = LoadKeys | LoadProxy

definition load_mux :: "bool \<Rightarrow> string \<Rightarrow> load_route mux_hit" where
  "load_mux = mux_Handler [(''/.well-known/jwks.json'', LoadKeys)] (Some LoadProxy)"

section \<open>Lemmas\<close>

lemma load_tenants_panic: "(\<exists>g. load_grant n = Inr g) \<longleftrightarrow> 0 < n"
  by (cases "0 < n") (auto simp: load_grant_def load_tenants_def upt_conv_Cons)

lemma load_grant_Inr: "load_grant n = Inr g \<Longrightarrow> g_Tenants g = load_tenants n"
  by (auto simp: load_grant_def split: list.splits)

lemma load_start_Inr:
  assumes "load_start cr gen now up lf = Inr d"
  obtains rs where "NewSet cr (s64 (2 * lf_ttl lf)) gen now = Inr (ld_Set d)"
    "verifier_for ''https://loadtarget'' ''loadtarget'' (ld_Verifier d)" "load_grant (lf_tenants lf) = Inr (ld_Grant d)"
    "signer_New ''https://loadtarget'' True True True (lf_ttl lf) 0 = Inr (ld_Signer d)"
    "NewRouter [single_route ''root'' (Some up) ''loadtarget''] = Inr rs" "proxy_New (load_proxy_cfg rs) = Inr (ld_Proxy d)"
    "ld_Guard d = (if lf_replay lf then Some Map.empty else None)"
  using assms
  by (auto simp: load_start_def verifier_New_def verifier_for_def MaxTTL_def split: if_split_asm)

lemma load_route:
  assumes "NewRouter [single_route ''root'' (Some up) ''loadtarget''] = Inr rs" "proxy_New (load_proxy_cfg rs) = Inr p"
  shows "pr_router p = [single_route ''root'' (Some up) ''loadtarget'']" "\<not> px_Gate (pr_cfg p)"
    "px_Header (pr_cfg p) = DefaultHeader"
  using assms
  by (auto simp: proxy_New_def proxy_router_def load_proxy_cfg_def NewRouter_def single_route_def
      split: if_splits sum.splits option.splits)

text \<open>
  Rotating under load: a request that the proxy has forwarded and the reverse proxy sends is answered
  with the caller and one of its tenants however often the keys rotate before the backend sees it, as
  long as the token lives, the replay guard is off, no two keys have one thumbprint and the caller has
  not named the assertion header in a \<open>Connection\<close> header.
\<close>

lemma load_answers:
  assumes "crypto_ok cr" "load_start cr gen now0 up lf = Inr d" "gen_ok gen"
    and ttl: "Second \<le> lf_ttl lf" "2 * lf_ttl lf < 2 ^ 63"
    and past: "list_all (\<lambda>t. gen_ok (fst t)) past" "s = rotateLoop cr (lf_rotate lf) past (ld_Set d)"
    and w: "w = load_world d s now idb rnd" "sane_time now" "idb \<noteq> Some []"
    and "load_serve cr fp ul d w req = (calls, Forwarded u out)"
    and sent: "reverse_proxy base out = Inr sent" "\<not> connection_drops (hr_Header req) DefaultHeader"
    and "\<And>ten tok c. mint_at cr fp (ld_Signer d) w (hr_RemoteAddr req) ''loadtarget'' ten = Inr (tok, c) \<Longrightarrow>
       claims_ok c \<and> c_IssuedAt c \<noteq> 0 \<and> c_Expiry c \<noteq> 0"
    and since: "list_all (tick_ok now t) since"
      "inj_on (thumbprint cr) (set (public_keys s @ drawn_keys since))"
    and t: "sane_time t" "tns now \<le> tns t" "tns t \<le> tns now + sg_TTL (ld_Signer d) - Second"
  shows "\<exists>i < nat (lf_tenants lf). load_backend cr fp d (rotateLoop cr (lf_rotate lf) since s) t None (hr_Header sent)
    = text_answer 200 (''tailnet:1 tenant-'' @ Itoa (int i))"
proof (rule load_start_Inr [OF assms(2)])
  fix rs
  assume d: "NewSet cr (s64 (2 * lf_ttl lf)) gen now0 = Inr (ld_Set d)"
    "verifier_for ''https://loadtarget'' ''loadtarget'' (ld_Verifier d)" "load_grant (lf_tenants lf) = Inr (ld_Grant d)"
    "signer_New ''https://loadtarget'' True True True (lf_ttl lf) 0 = Inr (ld_Signer d)"
    "NewRouter [single_route ''root'' (Some up) ''loadtarget''] = Inr rs" "proxy_New (load_proxy_cfg rs) = Inr (ld_Proxy d)"
  note p = load_route [OF d(5,6)]
  have s: "keyset_ok cr s" "ks_overlap s = 2 * lf_ttl lf"
    using rotateLoop_keeps [OF past(1) NewSet_keyset_ok [OF d(1) assms(3)]] NewSet_overlap [OF d(1)] ttl
    by (simp_all add: past(2) s64_id in_s64_def)
  have lt: "Second \<le> sg_TTL (ld_Signer d)" "sg_TTL (ld_Signer d) \<le> lf_ttl lf"
    using signer_New_TTL [OF d(4)] ttl(1) by (simp_all add: MaxTTL_def)
  have key: "local_Key (rotateLoop cr (lf_rotate lf) since s) t kid = Inr (sk_Public priv)"
    if c: "set_Current s = Inr (priv, kid)" for priv kid
  proof -
    have "set_PublicKey t (rotateLoop cr (lf_rotate lf) since s) kid = Some (sk_Public priv)"
      using current_key_survives [OF s(1) c since(1) t(1) _ _ _ current_thumbprint_unique [OF s(1) c since(2)]]
        s(2) t lt ttl by (simp add: in_s64_def)
    then show ?thesis
      by (simp add: local_Key_def)
  qed
  let ?v = "Verify cr fp (ld_Verifier d) (local_Key (rotateLoop cr (lf_rotate lf) since s) t) t (guard_Seen t) None"
  have sv: "serve ul (ld_Proxy d) (mint_at cr fp (ld_Signer d) w) (\<lambda>_. None) True (mint_at cr fp (ld_Signer d) w) req
      = (calls, Forwarded u out)"
    using assms(11) by (simp add: load_serve_def Let_def)
  have "\<exists>r tok c. router_Match ul (pr_router (ld_Proxy d)) (strip_request (ld_Proxy d) req) = Some r \<and> rt_Upstream r = Some u
    \<and> (\<exists>ten. mint_at cr fp (ld_Signer d) w (hr_RemoteAddr req) (rt_Audience r) ten = Inr (tok, c))
    \<and> c_Audience c = rt_Audience r \<and> (rt_Tenant r \<noteq> [] \<longrightarrow> c_Tenant c = rt_Tenant r)
    \<and> (case reverse_proxy base out of
         Inl e \<Rightarrow> e = bad_gateway \<and> HeaderValuesContainsToken (hdr_Values (hr_Header req) ''Connection'') ''Upgrade''
           \<and> \<not> ascii_IsPrint (hdr_Get (hr_Header out) ''Upgrade'')
       | Inr sent \<Rightarrow>
           Middleware (px_Header (pr_cfg (ld_Proxy d))) ?v load_handler id (hr_Header sent)
           = (if v_Audience (ld_Verifier d) = rt_Audience r \<and> \<not> connection_drops (hr_Header req) (px_Header (pr_cfg (ld_Proxy d)))
              then load_handler (WithClaims None c) else id (http_Error ''unauthorized'' 401)))"
    by (rule sent_reaches_handler [OF assms(1) s(1) d(4) _ d(6) sv])
      (use p assms(14) default_not_reserved d(2) w key t lt in \<open>simp_all add: single_route_def load_world_def verifier_for_def\<close>)
  then obtain r tok c ten where m: "router_Match ul (pr_router (ld_Proxy d)) (strip_request (ld_Proxy d) req) = Some r"
    "mint_at cr fp (ld_Signer d) w (hr_RemoteAddr req) (rt_Audience r) ten = Inr (tok, c)"
    "Middleware (px_Header (pr_cfg (ld_Proxy d))) ?v load_handler id (hr_Header sent)
        = (if v_Audience (ld_Verifier d) = rt_Audience r then load_handler (WithClaims None c)
           else id (http_Error ''unauthorized'' 401))"
    unfolding sent(1) sum.case p(3) using sent(2) by auto
  have r: "rt_Audience r = ''loadtarget''"
    using router_Match_in [OF m(1)] p(1) by (simp add: single_route_def)
  obtain i where "i < nat (lf_tenants lf)" "c_Tenant c = ''tenant-'' @ Itoa (int i)" "c_Subject c = ''tailnet:1''"
    using m(2) unfolding mint_at_def
    by (rule Mint_Inr) (auto simp: w(1) load_world_def StaticGrant_def load_identity_def mint_claims_def
        load_grant_Inr [OF d(3)] load_tenants_def dest!: grant_Tenant_Some)
  moreover have "load_backend cr fp d (rotateLoop cr (lf_rotate lf) since s) t None (hr_Header sent) = load_handler (Some c)"
    using m(3) d(2) by (simp add: load_backend_def Middleware_def verifier_for_def p(3) r WithClaims_def)
  ultimately show ?thesis
    by (auto simp: load_handler_def ClaimsFrom_def)
qed

end
