(* ===== verification/GatewaySystem.thy ===== *)
theory GatewaySystem
  imports Dataplane
begin

text \<open>
  The Gateway as it is deployed: the controller that reconciles it, the ConfigMap it renders, the
  kubelet that mounts the ConfigMap in the pod, and the data plane that polls the mounted file,
  keeps a cache of it and is restarted now and then.  The parts run at their own pace; the system
  is the step relation \<open>sys_step\<close>, in which any of them may move and any of their calls may fail.
  The state records, for the proofs only, the worlds the controller has rendered a table from.
\<close>

section \<open>What the controller has seen\<close>

type_synonym world = "gw_gateway \<times> http_route list \<times> service list"

definition world_of :: "gateway_obj \<Rightarrow> cluster \<Rightarrow> world" where
  "world_of g cl = (go_Gateway g, map ht_Route (cl_Routes cl), list_services cl)"

definition world_table :: "(string \<Rightarrow> string) \<Rightarrow> url_parse \<Rightarrow> (string \<Rightarrow> string) \<Rightarrow> world \<Rightarrow> route list" where
  "world_table q up ul w = (case w of (gw, rs, ss) \<Rightarrow> fst (Translate q up ul gw rs ss))"

text \<open>
  What the API server admits: a DNS label for a namespace and a Service, a DNS subdomain for an
  HTTPRoute, hostnames with at most a leading wildcard, a leading slash in the path of a prefix match;
  and text that is UTF-8, in a table whose numbers fit the file's.
\<close>

definition admitted :: "(string \<Rightarrow> string) \<Rightarrow> url_parse \<Rightarrow> (string \<Rightarrow> string) \<Rightarrow> world \<Rightarrow> bool" where
  "admitted q up ul w \<longleftrightarrow> (case w of (gw, rs, ss) \<Rightarrow>
     list_all (\<lambda>r. route_named r \<and> list_all good_host (ro_Hostnames r)
       \<and> list_all (\<lambda>rule. list_all (\<lambda>m. case rm_Path m of None \<Rightarrow> True
           | Some pm \<Rightarrow> (case pm_Value pm of None \<Rightarrow> True | Some p \<Rightarrow> prefix_match pm \<longrightarrow> HasPrefix p ''/'')) (ru_Matches rule))
           (ro_Rules r)) rs
     \<and> list_all service_named ss
     \<and> list_all (\<lambda>l. case ls_Hostname l of None \<Rightarrow> True | Some h \<Rightarrow> good_host h) (gw_Listeners gw)
     \<and> (case Render (gw_Namespace gw @ ''/'' @ gw_Name gw) (gw_Generation gw) (world_table q up ul w) of
          Inl _ \<Rightarrow> True | Inr f \<Rightarrow> file_ok f))"

text \<open>The file holds the table of that world.\<close>

definition reads_as :: "(string \<Rightarrow> string) \<Rightarrow> url_parse \<Rightarrow> (string \<Rightarrow> string) \<Rightarrow> world \<Rightarrow> string \<Rightarrow> bool" where
  "reads_as q up ul w b \<longleftrightarrow>
     (\<exists>f. ReadRouteFile up (Inr b) = Inr (f, map sorted_route (world_table q up ul w)) \<and> file_ok f)"

section \<open>The system\<close>

record 'm deployment =
  dl_cr :: crypto
  dl_q :: "string \<Rightarrow> string"
  dl_up :: url_parse
  dl_ul :: "string \<Rightarrow> string"
  dl_fl :: float_mul
  dl_cfg :: provision_cfg
  dl_tenants :: string
  dl_unm :: "'m \<Rightarrow> string \<Rightarrow> cap_rule list option"
  dl_join :: "string \<Rightarrow> string \<Rightarrow> string"
  dl_flags :: dp_flags
  dl_req :: "string \<times> string"

record gw_system =
  gs_Cluster :: cluster
  gs_Mounted :: "string result"
  gs_Plane :: dataplane
  gs_Source :: source
  gs_Files :: file_sys
  gs_Dynamic :: dynamic
  gs_Worlds :: "world list"

definition routes_key :: "string \<times> string \<Rightarrow> object_key" where
  "routes_key req = (KConfigMap, fst req, ''tsjwt-'' @ snd req @ ''-routes'')"

text \<open>What the ConfigMap of a Gateway has for the route file.\<close>

definition rendered_file :: "cluster \<Rightarrow> string \<times> string \<Rightarrow> string option" where
  "rendered_file cl req =
     Option.bind (map_of (cl_Objects cl) (routes_key req))
       (\<lambda>ob. case ko_Spec ob of ConfigMapSpec data \<Rightarrow> map_of data ''routes.json'' | _ \<Rightarrow> None)"

abbreviation cache_path :: "gw_system \<Rightarrow> string" where
  "cache_path s \<equiv> so_CachePath (dp_SourceCfg (gs_Plane s))"

text \<open>
  The steps: everybody else edits the cluster, all but the controller's ConfigMap, which they may
  delete (a reconcile of another Gateway is such an edit, and one of a Gateway that is gone changes
  nothing); a reconcile, with any of its calls failing; the kubelet mounts what the ConfigMap holds,
  or the mount breaks; the data plane reads the file, with any fate of the cache; the process is
  restarted on the files of its volume.
\<close>

inductive sys_step :: "'m deployment \<Rightarrow> gw_system \<Rightarrow> gw_system \<Rightarrow> bool" for D where
  edited: "map_of (cl_Objects cl') (routes_key (dl_req D)) \<in> {None, map_of (cl_Objects (gs_Cluster s)) (routes_key (dl_req D))} \<Longrightarrow>
     sys_step D s (s\<lparr>gs_Cluster := cl'\<rparr>)"
| reconciled: "Reconcile api (dl_q D) (dl_up D) (dl_ul D) (dl_fl D) (dl_cfg D) (dl_tenants D) now (dl_req D) (gs_Cluster s) = (cl', err) \<Longrightarrow>
     map_of (cl_Gateways (gs_Cluster s)) (dl_req D) = Some g \<Longrightarrow>
     (gw_Namespace (go_Gateway g), gw_Name (go_Gateway g)) = dl_req D \<Longrightarrow>
     admitted (dl_q D) (dl_up D) (dl_ul D) (world_of g (gs_Cluster s)) \<Longrightarrow>
     sys_step D s (s\<lparr>gs_Cluster := cl', gs_Worlds := gs_Worlds s @ [world_of g (gs_Cluster s)]\<rparr>)"
| mounted: "rendered_file (gs_Cluster s) (dl_req D) = Some b \<Longrightarrow> sys_step D s (s\<lparr>gs_Mounted := Inr b\<rparr>)"
| unmounted: "sys_step D s (s\<lparr>gs_Mounted := Inl e\<rparr>)"
| polled: "dp_poll (dl_up D) (dp_SourceCfg (gs_Plane s)) (gs_Mounted s, io) ((gs_Source s, gs_Files s), gs_Dynamic s) = ((src, fs), dyn) \<Longrightarrow>
     sys_step D s (s\<lparr>gs_Source := src, gs_Files := fs, gs_Dynamic := dyn\<rparr>)"
| restarted: "dataplane_run (dl_cr D) (dl_unm D) whois (dl_join D) ho (stored (gs_Files s) (cache_path s)) (dl_flags D) = Inr d \<Longrightarrow>
     ho_ParseURL ho = dl_up D \<Longrightarrow>
     sys_step D s (s\<lparr>gs_Plane := d, gs_Source := dp_Source d, gs_Dynamic := dp_Dynamic d\<rparr>)"

text \<open>At first there is no ConfigMap, no mounted file and no cache.\<close>

inductive sys_reach :: "'m deployment \<Rightarrow> gw_system \<Rightarrow> bool" for D where
  deployed: "dataplane_run (dl_cr D) (dl_unm D) whois (dl_join D) ho (stored fs (so_CachePath (dp_SourceCfg d))) (dl_flags D) = Inr d \<Longrightarrow>
     ho_ParseURL ho = dl_up D \<Longrightarrow> fs (so_CachePath (dp_SourceCfg d)) = None \<Longrightarrow>
     map_of (cl_Objects cl) (routes_key (dl_req D)) = None \<Longrightarrow>
     sys_reach D \<lparr>gs_Cluster = cl, gs_Mounted = Inl e, gs_Plane = d, gs_Source = dp_Source d, gs_Files = fs,
       gs_Dynamic = dp_Dynamic d, gs_Worlds = []\<rparr>"
| moved: "sys_reach D s \<Longrightarrow> sys_step D s s' \<Longrightarrow> sys_reach D s'"

inductive_cases sys_step_cases: "sys_step D s s'"

section \<open>Tables of admitted worlds\<close>

lemma admitted_table:
  assumes "admitted q up ul w" "r \<in> set (world_table q up ul w)"
  shows "route_Valid r = None \<and> rt_Name r \<noteq> []"
proof -
  obtain gw rs ss where w: "w = (gw, rs, ss)"
    by (cases w)
  show ?thesis
  proof (rule Translate_valid [of rs gw r q up ul ss])
    show "r \<in> set (fst (Translate q up ul gw rs ss))"
      using assms(2) by (simp add: w world_table_def)
  next
    fix r' rule m pm p
    assume "r' \<in> set rs" "rule \<in> set (ro_Rules r')" "m \<in> set (ru_Matches rule)" "rm_Path m = Some pm" "prefix_match pm"
      "pm_Value pm = Some p"
    then show "HasPrefix p ''/''"
      using assms(1) unfolding admitted_def w by (fastforce simp: list_all_iff split: option.splits)
  qed (use assms(1) in \<open>fastforce simp: admitted_def w list_all_iff split: option.splits\<close>)+
qed

lemma world_upstream:
  assumes "url_stable up" "admitted q up ul w" "r \<in> set (world_table q up ul w)" "rt_Upstream r = Some u"
  shows "\<exists>h. h \<noteq> [] \<and> up u = Some (u, h)"
proof -
  obtain gw rs ss where w: "w = (gw, rs, ss)"
    by (cases w)
  have "list_all service_named ss"
    using assms(2) by (simp add: admitted_def w)
  note url = url_stable_service [OF assms(1) this]
  have "r \<in> set (fst (Translate q up ul gw rs ss))"
    using assms(3) by (simp add: w world_table_def)
  then show ?thesis
  proof (rule Translate_routes, elim translateRule_Inr, goal_cases)
    case (1 r' n built hs ref s port u' host audience chs)
    with url assms(4) show ?case
      by (auto simp: build_routes_set)
  qed
qed

lemma file_ok_sorted: "file_ok f \<Longrightarrow> file_ok (f\<lparr>rf_Routes := map sorted_entry (rf_Routes f)\<rparr>)"
  by (auto simp: file_ok_def entry_ok_def sorted_entry_def list_all_iff distinct_map_sort_key)

lemma rendered_reads_as:
  assumes "Render (gw_Namespace gw @ ''/'' @ gw_Name gw) (gw_Generation gw) (world_table q up ul w) = Inr f"
    and "w = (gw, rs, ss)" "admitted q up ul w" "url_stable up"
  shows "reads_as q up ul w (file_bytes f)"
proof -
  have ok: "file_ok f"
    using assms by (simp add: admitted_def)
  have "ReadRouteFile up (Inr (file_bytes f))
      = Inr (f\<lparr>rf_Routes := map sorted_entry (rf_Routes f)\<rparr>, map sorted_route (world_table q up ul w))"
  proof -
    have "\<exists>h. h \<noteq> [] \<and> up u = Some (u, h)" if "r \<in> set (world_table q up ul w)" "rt_Upstream r = Some u" for r u
      using world_upstream [OF assms(4,3) that] .
    moreover have "route_Valid r = None" if "r \<in> set (world_table q up ul w)" for r
      using admitted_table [OF assms(3) that] by simp
    ultimately obtain f' where "ReadRouteFile up (Inr (file_bytes f)) = Inr (f', map sorted_route (world_table q up ul w))"
      using ReadRouteFile_rendered [OF assms(1) ok] unfolding sorted_route_def by blast
    with file_roundtrip [OF ok] show ?thesis
      by (auto simp: ReadRouteFile_def split: sum.splits)
  qed
  with file_ok_sorted [OF ok] show ?thesis
    unfolding reads_as_def by blast
qed

text \<open>What the cache holds after a read is what the file held.\<close>

lemma sorted_route_idem [simp]: "sorted_route (sorted_route r) = sorted_route r"
  by (simp add: sorted_route_def sort_key_id_if_sorted)

lemma reads_as_again:
  assumes "reads_as q up ul w b" "ReadRouteFile up (Inr b) = Inr (f, rs)"
  shows "rs = map sorted_route (world_table q up ul w) \<and> reads_as q up ul w (file_bytes f)"
proof -
  have f: "file_ok f" "rs = map sorted_route (world_table q up ul w)"
    using assms by (auto simp: reads_as_def)
  obtain f' where "ReadRouteFile up (Inr (file_bytes f)) = Inr (f', map sorted_route rs)"
    using ReadRouteFile_again [OF assms(2) f(1)] by blast
  moreover from this have "f' = f\<lparr>rf_Routes := map sorted_entry (rf_Routes f)\<rparr>"
    using file_roundtrip [OF f(1)] by (simp add: ReadRouteFile_def split: sum.splits)
  ultimately show ?thesis
    using f file_ok_sorted [OF f(1)] by (auto simp: reads_as_def)
qed

section \<open>The ConfigMap\<close>

lemma apply_obj_key:
  "map_of (fst (apply_obj api gw (key, b, m) obs)) key = map_of obs key
   \<or> (\<exists>old ob. set_owner gw (m old) = Inr ob \<and> map_of (fst (apply_obj api gw (key, b, m) obs)) key = Some ob)"
  by (auto simp: apply_obj_def Let_def update_conv' split: option.splits sum.splits)

lemma apply_all_first:
  assumes "key \<notin> fst ` set ss"
  shows "map_of (fst (apply_all api gw ((key, b, m) # ss) obs)) key = map_of (fst (apply_obj api gw (key, b, m) obs)) key"
proof -
  obtain obs1 ws r where s: "apply_obj api gw (key, b, m) obs = (obs1, ws, r)"
    by (metis prod_cases3)
  then show ?thesis
    using apply_all_others [OF assms, of api gw obs1] by (auto split: prod.splits sum.splits)
qed

text \<open>A reconcile, however it ends, leaves the ConfigMap alone or writes the table of its world.\<close>

lemma provision_configmap:
  fixes g cl
  defines "key \<equiv> (KConfigMap, gw_Namespace (go_Gateway g), n_routes (go_Gateway g))"
  assumes "provision api q up ul fl cfg tenants now g cl = (cl', err)"
  shows "map_of (cl_Objects cl') key = map_of (cl_Objects cl) key
    \<or> (\<exists>f ob. Render (gw_Namespace (go_Gateway g) @ ''/'' @ gw_Name (go_Gateway g)) (gw_Generation (go_Gateway g))
             (world_table q up ul (world_of g cl)) = Inr f
          \<and> map_of (cl_Objects cl') key = Some ob \<and> ko_Spec ob = ConfigMapSpec [(''routes.json'', file_bytes f)])"
proof -
  let ?gw = "go_Gateway g"
  obtain cl1 r where r: "render api q up ul now ?gw cl = (cl1, r)"
    by fastforce
  show ?thesis
  proof (cases r)
    case (Inl e)
    with assms(2) r render_frame [OF r] show ?thesis
      by (simp add: provision_def Let_def)
  next
    case (Inr x)
    then obtain f n where f: "Render (gw_Namespace ?gw @ ''/'' @ gw_Name ?gw) (gw_Generation ?gw)
        (world_table q up ul (world_of g cl)) = Inr f" "x = (file_bytes f, n)"
      using r by (auto simp: render_def world_table_def world_of_def Let_def split: option.splits prod.splits sum.splits)
    obtain obs ws e where a: "apply_all api (gw_Name ?gw) (base_steps ?gw (file_bytes f)) (cl_Objects cl) = (obs, ws, e)"
      by (metis prod_cases3)
    have "map_of o2 key = map_of obs key" if "apply_obj api (gw_Name ?gw) (sts_step ?gw want) obs = (o2, ws2, res)" for want o2 ws2 res
      using that apply_obj_others [of key "sts_step ?gw want" api "gw_Name ?gw" obs] by (simp add: sts_step_def key_def)
    then have "map_of (cl_Objects cl') key = map_of obs key"
      using assms(2) r Inr f a render_frame [OF r]
      by (auto simp: provision_def Let_def split: option.splits sum.splits prod.splits)
    moreover obtain b ss where st: "base_steps ?gw (file_bytes f) = (key, b, set_spec (ConfigMapSpec [(''routes.json'', file_bytes f)])) # ss"
        "key \<notin> fst ` set ss"
      using base_steps_settle(1) [of ?gw "file_bytes f"] by (auto simp: base_steps_def Let_def key_def)
    have "map_of obs key = map_of (cl_Objects cl) key
        \<or> (\<exists>ob. map_of obs key = Some ob \<and> ko_Spec ob = ConfigMapSpec [(''routes.json'', file_bytes f)])"
      using apply_obj_key [of api "gw_Name ?gw" key b "set_spec (ConfigMapSpec [(''routes.json'', file_bytes f)])" "cl_Objects cl"]
        apply_all_first [OF st(2), of api "gw_Name ?gw" b "set_spec (ConfigMapSpec [(''routes.json'', file_bytes f)])" "cl_Objects cl"] a
      by (auto simp: st(1) set_owner_def set_spec_def split: if_splits)
    ultimately show ?thesis
      using f(1) by auto
  qed
qed

lemma Reconcile_configmap:
  assumes "Reconcile api q up ul fl cfg tenants now req cl = (cl', err)" "map_of (cl_Gateways cl) req = Some g"
    and "(gw_Namespace (go_Gateway g), gw_Name (go_Gateway g)) = req"
  shows "rendered_file cl' req = rendered_file cl req
    \<or> (\<exists>f. Render (gw_Namespace (go_Gateway g) @ ''/'' @ gw_Name (go_Gateway g)) (gw_Generation (go_Gateway g))
             (world_table q up ul (world_of g cl)) = Inr f \<and> rendered_file cl' req = Some (file_bytes f))"
  using assms provision_configmap [of api q up ul fl cfg tenants now g cl cl' err]
  by (auto simp: Reconcile_def routes_key_def rendered_file_def n_routes_def split: option.splits if_splits)

section \<open>The invariant\<close>

definition sys_cfg :: "'m deployment \<Rightarrow> source_cfg \<Rightarrow> bool" where
  "sys_cfg D cfg \<longleftrightarrow> (\<exists>fl. dp_check (dl_flags D) = Inr fl \<and> cfg = dp_source_cfg (dl_join D) fl)"

definition seen :: "'m deployment \<Rightarrow> world list \<Rightarrow> string \<Rightarrow> bool" where
  "seen D ws b \<longleftrightarrow> (\<exists>w \<in> set ws. reads_as (dl_q D) (dl_up D) (dl_ul D) w b)"

definition seen_table :: "'m deployment \<Rightarrow> world list \<Rightarrow> route list \<Rightarrow> bool" where
  "seen_table D ws rs \<longleftrightarrow> rs = [] \<or> (\<exists>w \<in> set ws. rs = map sorted_route (world_table (dl_q D) (dl_up D) (dl_ul D) w))"

definition running_plane :: "'m deployment \<Rightarrow> dataplane \<Rightarrow> bool" where
  "running_plane D d \<longleftrightarrow> (\<exists>whois ho cached. dataplane_run (dl_cr D) (dl_unm D) whois (dl_join D) ho cached (dl_flags D) = Inr d)"

text \<open>
  The ConfigMap, the mounted file, the cache and the table in use each hold the table of some world
  the controller has seen, and every such world was admitted.
\<close>

definition sys_inv :: "'m deployment \<Rightarrow> gw_system \<Rightarrow> bool" where
  "sys_inv D s \<longleftrightarrow>
     (\<forall>b. rendered_file (gs_Cluster s) (dl_req D) = Some b \<longrightarrow> seen D (gs_Worlds s) b)
     \<and> (\<forall>b. gs_Mounted s = Inr b \<longrightarrow> seen D (gs_Worlds s) b)
     \<and> (\<forall>b. gs_Files s (cache_path s) = Some b \<longrightarrow> seen D (gs_Worlds s) b)
     \<and> seen_table D (gs_Worlds s) (so_current (gs_Source s))
     \<and> list_all (admitted (dl_q D) (dl_up D) (dl_ul D)) (gs_Worlds s)
     \<and> in_step ((gs_Source s, gs_Files s), gs_Dynamic s)
     \<and> dy_cfg (gs_Dynamic s) = dp_proxy_cfg (dp_Flags (gs_Plane s)) (dp_Gate (gs_Plane s))
     \<and> running_plane D (gs_Plane s) \<and> sys_cfg D (dp_SourceCfg (gs_Plane s))"

lemma seen_mono: "seen D ws b \<Longrightarrow> seen D (ws @ us) b"
  by (auto simp: seen_def)

lemma seen_table_mono: "seen_table D ws rs \<Longrightarrow> seen_table D (ws @ us) rs"
  by (auto simp: seen_table_def)

lemma sys_cfg_unique: "sys_cfg D c \<Longrightarrow> sys_cfg D c' \<Longrightarrow> c = c'"
  by (auto simp: sys_cfg_def)

lemma dataplane_run_cfg:
  assumes "dataplane_run (dl_cr D) (dl_unm D) whois (dl_join D) ho cached (dl_flags D) = Inr d"
  shows "sys_cfg D (dp_SourceCfg d)" "running_plane D d"
    "dp_Source d = fst (LoadCache (ho_ParseURL ho) (dp_SourceCfg d) cached empty_source)"
proof -
  show "sys_cfg D (dp_SourceCfg d)" "dp_Source d = fst (LoadCache (ho_ParseURL ho) (dp_SourceCfg d) cached empty_source)"
    using assms by (auto simp: sys_cfg_def dataplane_run_def load_cached_def Let_def)
  show "running_plane D d"
    using assms unfolding running_plane_def by blast
qed

lemma in_step_files: "in_step ((s, fs), dyn) \<longleftrightarrow> in_step ((s, fs'), dyn)"
  by (simp add: in_step_def)

text \<open>A start on a cache that holds a table of a seen world, or on none.\<close>

lemma started_inv:
  assumes "dataplane_run (dl_cr D) (dl_unm D) whois (dl_join D) ho (stored fs (so_CachePath (dp_SourceCfg d))) (dl_flags D) = Inr d"
    and "ho_ParseURL ho = dl_up D" "\<And>b. fs (so_CachePath (dp_SourceCfg d)) = Some b \<Longrightarrow> seen D ws b"
  shows "seen_table D ws (so_current (dp_Source d))"
proof (cases "fs (so_CachePath (dp_SourceCfg d))")
  case None
  then show ?thesis
    by (simp add: dataplane_run_cfg(3) [OF assms(1)] LoadCache_def stored_def ReadRouteFile_def empty_source_def seen_table_def)
next
  case (Some b)
  with assms(3) obtain w where w: "w \<in> set ws" "reads_as (dl_q D) (dl_up D) (dl_ul D) w b"
    by (auto simp: seen_def)
  then show ?thesis
    using Some assms(2)
    by (auto simp: dataplane_run_cfg(3) [OF assms(1)] LoadCache_def stored_def empty_source_def seen_table_def reads_as_def)
qed

lemma polled_inv:
  assumes "dp_poll (dl_up D) cfg (contents, io) ((src, fs), dyn) = ((src', fs'), dyn')"
    and "\<And>b. contents = Inr b \<Longrightarrow> seen D ws b" "\<And>b. fs (so_CachePath cfg) = Some b \<Longrightarrow> seen D ws b"
    and "seen_table D ws (so_current src)"
  shows "seen_table D ws (so_current src')" "fs' (so_CachePath cfg) = Some b \<Longrightarrow> seen D ws b"
proof -
  have st: "run_source (dl_up D) cfg [(contents, io)] (src, fs) = (src', fs')"
    using assms(1) dp_polls_source [of "dl_up D" cfg "[(contents, io)]" "((src, fs), dyn)"] by (simp add: dp_polls_def)
  have found: "\<exists>w \<in> set ws. rs = map sorted_route (world_table (dl_q D) (dl_up D) (dl_ul D) w)
      \<and> reads_as (dl_q D) (dl_up D) (dl_ul D) w (file_bytes f)" if r: "ReadRouteFile (dl_up D) contents = Inr (f, rs)" for f rs
  proof -
    obtain b where b: "contents = Inr b"
      by (cases contents) (use r in \<open>auto simp: ReadRouteFile_def\<close>)
    with assms(2) obtain w where w: "w \<in> set ws" "reads_as (dl_q D) (dl_up D) (dl_ul D) w b"
      by (auto simp: seen_def)
    from reads_as_again [OF w(2) r [unfolded b]] w(1) show ?thesis
      by blast
  qed
  show "seen_table D ws (so_current src')"
    using st assms(4) found read_once_source [of "dl_up D" cfg "(contents, io)" src fs]
    by (auto simp: run_source_def seen_table_def split: sum.splits prod.splits if_splits)
  show "fs' (so_CachePath cfg) = Some b \<Longrightarrow> seen D ws b"
    using run_source_cache [of "dl_up D" cfg "[(contents, io)]" "(src, fs)"] st assms(3) found
    by (auto simp: seen_def)
qed

text \<open>The ConfigMap after a reconcile, in a world that counts as seen.\<close>

lemma reconciled_seen:
  assumes "Reconcile api (dl_q D) (dl_up D) (dl_ul D) (dl_fl D) (dl_cfg D) (dl_tenants D) now (dl_req D) cl = (cl', err)"
    and "map_of (cl_Gateways cl) (dl_req D) = Some g" "(gw_Namespace (go_Gateway g), gw_Name (go_Gateway g)) = dl_req D"
    and "admitted (dl_q D) (dl_up D) (dl_ul D) (world_of g cl)" "url_stable (dl_up D)"
    and "\<And>b. rendered_file cl (dl_req D) = Some b \<Longrightarrow> seen D ws b" "rendered_file cl' (dl_req D) = Some b"
  shows "seen D (ws @ [world_of g cl]) b"
proof (rule disjE [OF Reconcile_configmap [OF assms(1-3)]])
  assume "rendered_file cl' (dl_req D) = rendered_file cl (dl_req D)"
  with assms(6,7) show ?thesis
    by (auto intro!: seen_mono)
next
  assume "\<exists>f. Render (gw_Namespace (go_Gateway g) @ ''/'' @ gw_Name (go_Gateway g)) (gw_Generation (go_Gateway g))
        (world_table (dl_q D) (dl_up D) (dl_ul D) (world_of g cl)) = Inr f \<and> rendered_file cl' (dl_req D) = Some (file_bytes f)"
  then obtain f where f: "Render (gw_Namespace (go_Gateway g) @ ''/'' @ gw_Name (go_Gateway g)) (gw_Generation (go_Gateway g))
        (world_table (dl_q D) (dl_up D) (dl_ul D) (world_of g cl)) = Inr f" "b = file_bytes f"
    using assms(7) by auto
  have "reads_as (dl_q D) (dl_up D) (dl_ul D) (world_of g cl) b"
    unfolding f(2) by (rule rendered_reads_as [OF f(1) _ assms(4,5)]) (simp add: world_of_def)
  then show ?thesis
    by (simp add: seen_def)
qed

lemma sys_inv_step:
  assumes "sys_step D s s'" "sys_inv D s" "url_stable (dl_up D)"
  shows "sys_inv D s'"
  using assms(1)
proof cases
  case (edited cl')
  with assms(2) show ?thesis
    by (auto simp: sys_inv_def rendered_file_def)
next
  case (reconciled api now cl' err g)
  let ?w = "world_of g (gs_Cluster s)"
  have "seen D (gs_Worlds s @ [?w]) b" if "rendered_file cl' (dl_req D) = Some b" for b
    by (rule reconciled_seen [OF reconciled(2-5) assms(3) _ that]) (use assms(2) in \<open>simp add: sys_inv_def\<close>)
  with assms(2) reconciled show ?thesis
    by (auto simp: sys_inv_def intro!: seen_mono seen_table_mono)
next
  case (mounted b)
  with assms(2) show ?thesis
    by (auto simp: sys_inv_def)
next
  case (unmounted e)
  with assms(2) show ?thesis
    by (auto simp: sys_inv_def)
next
  case (polled io src fs dyn)
  have i: "in_step ((gs_Source s, gs_Files s), gs_Dynamic s)"
    using assms(2) by (simp add: sys_inv_def)
  have p: "dp_polls (dl_up D) (dp_SourceCfg (gs_Plane s)) [(gs_Mounted s, io)] ((gs_Source s, gs_Files s), gs_Dynamic s) = ((src, fs), dyn)"
    using polled by (simp add: dp_polls_def)
  have "in_step ((src, fs), dyn)" "dy_cfg dyn = dy_cfg (gs_Dynamic s)"
    using dp_polls_in_step [OF i] dp_polls_cfg [OF i] p by (metis snd_conv)+
  moreover have "seen_table D (gs_Worlds s) (so_current src)" "\<And>b. fs (cache_path s) = Some b \<Longrightarrow> seen D (gs_Worlds s) b"
    by (rule polled_inv [OF polled(2)]; use assms(2) in \<open>simp add: sys_inv_def\<close>)+
  ultimately show ?thesis
    using assms(2) polled(1) by (simp add: sys_inv_def)
next
  case (restarted whois ho d)
  have path: "dp_SourceCfg d = dp_SourceCfg (gs_Plane s)"
    using sys_cfg_unique dataplane_run_cfg(1) [OF restarted(2)] assms(2) by (auto simp: sys_inv_def)
  with started_inv [OF restarted(2) [folded path] restarted(3)] dataplane_run_cfg [OF restarted(2)]
    dataplane_started [OF restarted(2)] assms(2) restarted(1)
  show ?thesis
    by (simp add: sys_inv_def)
qed

lemma sys_inv_reach:
  assumes "sys_reach D s" "url_stable (dl_up D)"
  shows "sys_inv D s"
  using assms(1)
proof induction
  case (deployed whois ho fs d cl e)
  then show ?case
    using started_inv [OF deployed(1,2), of "[]"] dataplane_run_cfg [OF deployed(1)] dataplane_started [OF deployed(1)]
    by (simp add: sys_inv_def rendered_file_def)
next
  case (moved s s')
  then show ?case
    by (auto intro: sys_inv_step [OF _ _ assms(2)])
qed

section \<open>What admits a request\<close>

definition path_under :: "string \<Rightarrow> string \<Rightarrow> bool" where
  "path_under pfx path \<longleftrightarrow>
     pfx = [] \<or> path = TrimSuffix pfx ''/'' \<or> HasPrefix path (TrimSuffix pfx ''/'' @ ''/'')"

text \<open>
  In this world an HTTPRoute sends such a request to the upstream \<open>u\<close> with the claims \<open>c\<close>: it is
  attached and admitted, its hosts and the listeners' cover the request's, the path is under one of
  a rule's matches, and \<open>u\<close> is the port and the Service of its own namespace that the rule names.
\<close>

definition world_routes :: "(string \<Rightarrow> string) \<Rightarrow> url_parse \<Rightarrow> world \<Rightarrow> http_req \<Rightarrow> string \<Rightarrow> claims \<Rightarrow> bool" where
  "world_routes ul up w req u c \<longleftrightarrow> (case w of (gw, rs, ss) \<Rightarrow>
     \<exists>r \<in> set rs. attachedTo gw r
       \<and> (\<exists>l \<in> set (gw_Listeners gw). listenerAdmits l (gw_Namespace gw) (ro_Namespace r))
       \<and> covers_any ul (ro_Hostnames r) (request_host ul req) \<and> covers_any ul (listener_names gw r) (request_host ul req)
       \<and> (annotation (ro_Annotations r) TenantAnnotation \<noteq> [] \<longrightarrow> c_Tenant c = annotation (ro_Annotations r) TenantAnnotation)
       \<and> (\<exists>rule \<in> set (ro_Rules r). \<exists>ref. ru_BackendRefs rule = [ref]
            \<and> (\<exists>pfx \<in> set (pathPrefixes rule). path_under pfx (hr_Path req))
            \<and> (\<exists>sv \<in> set ss. \<exists>port. sv_Namespace sv = ro_Namespace r \<and> sv_Name sv = br_Name ref
                 \<and> br_Port ref = Some port \<and> port \<in> set (sv_Ports sv) \<and> map_option fst (up (service_url sv port)) = Some u
                 \<and> (c_Audience c = derived_audience sv \<or> c_Audience c \<in> set (allowed_audiences gw))
                 \<and> (\<forall>other \<in> set ss. c_Audience c = derived_audience other \<longrightarrow>
                      (sv_Namespace other = sv_Namespace sv \<and> sv_Name other = sv_Name sv) \<or> c_Audience c \<in> set (allowed_audiences gw)))))"

lemma covers_iff:
  "covers p host \<longleftrightarrow> p = host \<or> (\<exists>suffix. p = ''*.'' @ suffix \<and> HasSuffix host (CHR ''.'' # suffix))"
  by (auto simp: covers_def CutPrefix_def HasPrefix_iff)

lemma route_matches_covers:
  assumes "route_matches ul r req = Some hp"
  shows "covers_any ul (rt_Hostnames r) (request_host ul req)" "path_under (rt_PathPrefix r) (hr_Path req)"
proof -
  show "path_under (rt_PathPrefix r) (hr_Path req)"
    using assms by (auto simp: route_matches_def path_under_def Let_def split: if_splits)
  have "rt_Hostnames r = [] \<or> host_loop ul (request_host ul req) 0 (rt_Hostnames r) \<noteq> 0"
    using assms by (auto simp: route_matches_def Let_def split: if_splits)
  then show "covers_any ul (rt_Hostnames r) (request_host ul req)"
    by (auto simp: host_loop_iff covers_any_def list_ex_iff covers_iff split: if_splits)
qed

lemma table_routes_world:
  assumes "admitted q up ul w" "x \<in> set (world_table q up ul w)" "route_matches ul x req = Some hp"
    and "rt_Upstream x = Some u" "c_Audience c = rt_Audience x" "rt_Tenant x \<noteq> [] \<longrightarrow> c_Tenant c = rt_Tenant x"
  shows "world_routes ul up w req u c"
proof -
  obtain gw rs ss where w: "w = (gw, rs, ss)"
    by (cases w)
  have named: "list_all (\<lambda>r. dns_label (ro_Namespace r)) rs" "list_all service_named ss"
    and ascii: "\<And>r. r \<in> set rs \<Longrightarrow> list_all is_ascii (ro_Hostnames r)" "\<And>r. list_all is_ascii (listener_names gw r)"
    using assms(1) by (fastforce simp: admitted_def w list_all_iff route_named_def good_host_def listener_names_def admittingListeners_def
        split: option.splits)+
  have "x \<in> set (fst (Translate q up ul gw rs ss))"
    using assms(2) by (simp add: w world_table_def)
  from translated_backend [OF this named] show ?thesis
  proof (elim exE conjE, goal_cases)
    case (1 r rule ref sv port)
    have "covers_any ul (ro_Hostnames r) (request_host ul req)" "covers_any ul (listener_names gw r) (request_host ul req)"
      using hostnamesFor_covers [OF 1(7) ascii(1) [OF 1(1)] ascii(2), of "request_host ul req"] route_matches_covers(1) [OF assms(3)]
      by simp_all
    with 1 route_matches_covers(2) [OF assms(3)] assms(4-6) show ?case
      unfolding world_routes_def w prod.case by metis
  qed
qed

lemma sorted_route_same:
  "route_matches ul (sorted_route r) req = route_matches ul r req" "route_Valid (sorted_route r) = route_Valid r"
  "rt_Name (sorted_route r) = rt_Name r"
  by (simp_all add: sorted_route_def route_matches_def route_Valid_def Let_def)

text \<open>The router takes such a table as it is.\<close>

lemma seen_table_served:
  assumes "seen_table D ws rs" "list_all (admitted (dl_q D) (dl_up D) (dl_ul D)) ws"
  shows "set_table [] rs = rs"
proof -
  have "\<forall>r \<in> set rs. route_Valid r = None \<and> rt_Name r \<noteq> []"
    using assms admitted_table by (fastforce simp: seen_table_def list_all_iff sorted_route_same)
  from name_routes_named [OF this, of 0] show ?thesis
    by (simp add: set_table_def NewRouter_def)
qed

text \<open>A table the data plane serves routes along a world the controller has seen.\<close>

lemma served_routes_world:
  assumes "sys_inv D s" "router_Match ul (dynamic_Routes (gs_Dynamic s)) req = Some x" "ul = dl_ul D"
    and "rt_Upstream x = Some u" "c_Audience c = rt_Audience x" "rt_Tenant x \<noteq> [] \<longrightarrow> c_Tenant c = rt_Tenant x"
  shows "\<exists>w \<in> set (gs_Worlds s). world_routes ul (dl_up D) w req u c"
proof -
  obtain hp where x: "x \<in> set (dynamic_Routes (gs_Dynamic s))" "route_matches ul x req = Some hp"
    by (rule router_Match_Some [OF assms(2)]) auto
  have seen: "seen_table D (gs_Worlds s) (so_current (gs_Source s))"
    and adm: "list_all (admitted (dl_q D) (dl_up D) (dl_ul D)) (gs_Worlds s)"
    using assms(1) by (simp_all add: sys_inv_def)
  with assms(1) have "dynamic_Routes (gs_Dynamic s) = so_current (gs_Source s)"
    using seen_table_served by (simp add: sys_inv_def in_step_def)
  with x(1) seen obtain w y where w: "w \<in> set (gs_Worlds s)" "y \<in> set (world_table (dl_q D) (dl_up D) ul w)" "x = sorted_route y"
    by (auto simp: seen_table_def assms(3))
  have "admitted (dl_q D) (dl_up D) ul w"
    using adm w(1) by (simp add: assms(3) list_all_iff)
  moreover have "route_matches ul y req = Some hp"
    using x(2) by (simp add: w(3) sorted_route_same)
  ultimately show ?thesis
    using table_routes_world w assms(4-6) by (fastforce simp: sorted_route_def)
qed

lemma strip_request_routes: "world_routes ul up w (strip_request p req) u c \<longleftrightarrow> world_routes ul up w req u c"
  by (simp add: world_routes_def strip_request_def request_host_def)

section \<open>Properties\<close>

text \<open>
  C3 (requests follow the routes).  Whatever the order in which the cluster is edited, the
  controller reconciles, the kubelet mounts the file or breaks the mount, the data plane polls,
  loses its cache or is restarted, and whichever of their calls fail: a request that the Gateway
  forwards comes from a tailnet peer that \<open>WhoIs\<close> attributes to a user on an untagged node, and an
  HTTPRoute the controller has seen attached to the Gateway sends it where it goes: its hosts, the
  listeners' and a rule's path cover the request, and the upstream is the Service and the port the
  rule names in the route's own namespace.  It carries a token minted for that user, for that
  Service's audience or one the Gateway's owner allows, in the tenant the route pins.
\<close>

theorem gateway_requests_follow_routes:
  fixes s :: gw_system
  defines "d \<equiv> gs_Plane s"
  assumes "sys_reach D s" "url_stable (dl_up D)"
    and "dynamic_serve (dl_ul D) (gs_Dynamic s) (mint_at (dl_cr D) fp (dp_Signer d) (dp_world unm whois d dk now1 idb1 rnd1)) acquire live
      (mint_at (dl_cr D) fp (dp_Signer d) (dp_world unm whois d dk now2 idb2 rnd2)) req = (calls, Forwarded u out)"
  shows "isTailnetAddr (hr_RemoteAddr req)
    \<and> (\<exists>who node user. whois (5 * Second) (hr_RemoteAddr req) = Inr (Some who) \<and> wi_Node who = Some node
         \<and> \<not> wn_Tagged node \<and> wi_UserProfile who = Some user
      \<and> (\<exists>p r ten tok c. c_Subject c = ''tailnet:'' @ Itoa (wu_ID user)
         \<and> (\<exists>w \<in> set (gs_Worlds s). world_routes (dl_ul D) (dl_up D) w req u c)
         \<and> dy_current (gs_Dynamic s) = Some p \<and> out = inject (pr_cfg p) tok c r (strip_request p req)
         \<and> mint_at (dl_cr D) fp (dp_Signer d) (if df_waitTimeout (dl_flags D) > 0 then dp_world unm whois d dk now2 idb2 rnd2
              else dp_world unm whois d dk now1 idb1 rnd1) (hr_RemoteAddr req) (c_Audience c) ten = Inr (tok, c)))"
proof -
  have inv: "sys_inv D s"
    by (rule sys_inv_reach) fact+
  then obtain whois0 ho cached where run: "dataplane_run (dl_cr D) (dl_unm D) whois0 (dl_join D) ho cached (dl_flags D) = Inr d"
    by (auto simp: sys_inv_def running_plane_def d_def)
  have st: "in_step ((gs_Source s, gs_Files s), gs_Dynamic s)" "dy_cfg (gs_Dynamic s) = dp_proxy_cfg (dp_Flags d) (dp_Gate d)"
    using inv by (simp_all add: sys_inv_def d_def)
  from dynamic_forwards [OF run st assms(4)] show ?thesis
  proof (elim exE conjE, goal_cases)
    case (1 p r who node user ten tok c)
    have "\<exists>w \<in> set (gs_Worlds s). world_routes (dl_ul D) (dl_up D) w (strip_request p req) u c"
      using served_routes_world [OF inv 1(3) refl 1(4)] 1 by blast
    with 1 show ?case
      unfolding strip_request_routes by metis
  qed
qed

text \<open>What a reconcile without an error has rendered.\<close>

lemma reconciled_file:
  assumes "Reconcile (\<lambda>_. None) q up ul fl cfg tenants now req cl = (cl', None)"
    and "map_of (cl_Gateways cl) req = Some g" "(gw_Namespace (go_Gateway g), gw_Name (go_Gateway g)) = req"
    and "map_of (cl_Classes cl) (go_Class g) = Some gc" "gc_ControllerName gc = ControllerName"
    and "admitted q up ul (world_of g cl)" "url_stable up"
  shows "\<exists>b f. rendered_file cl' req = Some b
    \<and> ReadRouteFile up (Inr b) = Inr (f, map sorted_route (world_table q up ul (world_of g cl)))
    \<and> rf_Revision f = gw_Generation (go_Gateway g)"
proof -
  have "\<exists>ob b f. map_of (cl_Objects cl') (KConfigMap, gw_Namespace (go_Gateway g), n_routes (go_Gateway g)) = Some ob
      \<and> ko_Spec ob = ConfigMapSpec [(''routes.json'', b)]
      \<and> ReadRouteFile up (Inr b) = Inr (f, map (\<lambda>r. r\<lparr>rt_ClaimHeaders := sort_key fst (rt_ClaimHeaders r)\<rparr>)
          (fst (Translate q up ul (go_Gateway g) (map ht_Route (cl_Routes cl)) (list_services cl))))
      \<and> rf_Revision f = gw_Generation (go_Gateway g)"
    by (rule rendered_table_is_read [OF assms(1,2,4,5) _ _ _ _ assms(7)]; use assms(6) in
        \<open>fastforce simp: admitted_def world_of_def world_table_def list_all_iff split: option.splits\<close>)
  then show ?thesis
    using assms(3) by (auto simp: rendered_file_def routes_key_def n_routes_def world_table_def world_of_def sorted_route_def [abs_def])
qed

text \<open>The first poll that finds it.\<close>

lemma reconciled_is_served:
  assumes "Reconcile (\<lambda>_. None) (dl_q D) (dl_up D) (dl_ul D) (dl_fl D) (dl_cfg D) (dl_tenants D) now (dl_req D) cl = (cl', None)"
    and "map_of (cl_Gateways cl) (dl_req D) = Some g" "(gw_Namespace (go_Gateway g), gw_Name (go_Gateway g)) = dl_req D"
    and "map_of (cl_Classes cl) (go_Class g) = Some gc" "gc_ControllerName gc = ControllerName"
    and "admitted (dl_q D) (dl_up D) (dl_ul D) (world_of g cl)" "url_stable (dl_up D)"
    and "sys_inv D s" "rs = map sorted_route (world_table (dl_q D) (dl_up D) (dl_ul D) (world_of g cl))"
  obtains b src fs dyn where "rendered_file cl' (dl_req D) = Some b"
    "dp_poll (dl_up D) (dp_SourceCfg (gs_Plane s)) (Inr b, io) ((gs_Source s, gs_Files s), gs_Dynamic s) = ((src, fs), dyn)"
    "src = (gs_Source s)\<lparr>so_current := (if sameRoutes (so_current (gs_Source s)) rs then so_current (gs_Source s) else rs),
      so_rev := gw_Generation (go_Gateway g), so_loaded := True, so_fromCach := False, so_lastErr := None\<rparr>"
    "dynamic_Routes dyn = so_current src"
proof -
  let ?w = "world_of g cl" and ?cfg = "dp_SourceCfg (gs_Plane s)"
  obtain b f where b: "rendered_file cl' (dl_req D) = Some b" "rf_Revision f = gw_Generation (go_Gateway g)"
    and f: "ReadRouteFile (dl_up D) (Inr b) = Inr (f, rs)"
    using reconciled_file [OF assms(1-7)] assms(9) by blast
  obtain src fs dyn where p: "dp_poll (dl_up D) ?cfg (Inr b, io) ((gs_Source s, gs_Files s), gs_Dynamic s) = ((src, fs), dyn)"
    by (metis surj_pair)
  have "fst (read_once (dl_up D) ?cfg (Inr b, io) (gs_Source s, gs_Files s)) = src"
    using p dp_polls_source [of "dl_up D" ?cfg "[(Inr b, io)]" "((gs_Source s, gs_Files s), gs_Dynamic s)"]
    by (simp add: dp_polls_def run_source_def) (metis fst_conv)
  then have src: "src = (gs_Source s)\<lparr>so_current := (if sameRoutes (so_current (gs_Source s)) rs then so_current (gs_Source s) else rs),
      so_rev := gw_Generation (go_Gateway g), so_loaded := True, so_fromCach := False, so_lastErr := None\<rparr>"
    using read_once_source [of "dl_up D" ?cfg "(Inr b, io)" "gs_Source s" "gs_Files s"] f b(2) by simp
  have "seen_table D (gs_Worlds s @ [?w]) (so_current src)"
    using assms(8,9) by (auto simp: src seen_table_def sys_inv_def)
  from seen_table_served [OF this] have "set_table [] (so_current src) = so_current src"
    using assms(6,8) by (simp add: sys_inv_def)
  moreover have "in_step ((src, fs), dyn)"
    using dp_poll_in_step [of "((gs_Source s, gs_Files s), gs_Dynamic s)" "dl_up D" ?cfg "(Inr b, io)"] assms(8) p
    by (simp add: sys_inv_def)
  ultimately show thesis
    by (intro that [OF b(1) p src]) (simp add: in_step_def)
qed

text \<open>
  C7 (a change takes effect).  After a reconcile without an error of a Gateway of this controller,
  the ConfigMap has a file; whatever the data plane has been through before, the first time it
  finds that file mounted it serves the table of the Gateway, its listeners, the routes and the
  Services as they were at that reconcile, claim headers in the order of their names; only if that
  table differs from the one it serves in claim headers alone does it keep the one it serves.  It does
  so at the Gateway's generation, with no error and not from the cache, whether or not the cache can
  be written; and it is ready if it has its name.
\<close>

theorem gateway_change_takes_effect:
  assumes "Reconcile (\<lambda>_. None) (dl_q D) (dl_up D) (dl_ul D) (dl_fl D) (dl_cfg D) (dl_tenants D) now (dl_req D) cl = (cl', None)"
    and "map_of (cl_Gateways cl) (dl_req D) = Some g" "(gw_Namespace (go_Gateway g), gw_Name (go_Gateway g)) = dl_req D"
    and "map_of (cl_Classes cl) (go_Class g) = Some gc" "gc_ControllerName gc = ControllerName"
    and "admitted (dl_q D) (dl_up D) (dl_ul D) (world_of g cl)" "url_stable (dl_up D)"
    and "sys_reach D s"
  shows "\<exists>b. rendered_file cl' (dl_req D) = Some b
    \<and> (case dp_poll (dl_up D) (dp_SourceCfg (gs_Plane s)) (Inr b, io) ((gs_Source s, gs_Files s), gs_Dynamic s) of
         ((src, fs), dyn) \<Rightarrow>
           dynamic_Routes dyn =
             (let table = map (\<lambda>r. r\<lparr>rt_ClaimHeaders := sort_key fst (rt_ClaimHeaders r)\<rparr>)
                  (world_table (dl_q D) (dl_up D) (dl_ul D) (world_of g cl))
              in if sans_headers table = sans_headers (dynamic_Routes (gs_Dynamic s)) then dynamic_Routes (gs_Dynamic s) else table)
           \<and> so_rev src = gw_Generation (go_Gateway g) \<and> so_lastErr src = None \<and> \<not> so_fromCach src
           \<and> (rs_Status (dp_readyz quoted (gs_Plane s) src dyn) = 200
                \<longleftrightarrow> granted_name (dp_DNSName (gs_Plane s)) = df_hostname (dp_Flags (gs_Plane s))))"
proof (rule reconciled_is_served [OF assms(1-7) sys_inv_reach [OF assms(8,7)] refl, of io], goal_cases)
  case (1 b src fs dyn)
  have sorted: "(\<lambda>r. r\<lparr>rt_ClaimHeaders := sort_key fst (rt_ClaimHeaders r)\<rparr>) = sorted_route"
    by (simp add: sorted_route_def fun_eq_iff)
  have "dynamic_Routes (gs_Dynamic s) = so_current (gs_Source s)"
    using seen_table_served [of D "gs_Worlds s" "so_current (gs_Source s)"] sys_inv_reach [OF assms(8,7)]
    by (simp add: sys_inv_def in_step_def)
  then have table: "dynamic_Routes dyn =
      (let table = map sorted_route (world_table (dl_q D) (dl_up D) (dl_ul D) (world_of g cl))
       in if sans_headers table = sans_headers (dynamic_Routes (gs_Dynamic s)) then dynamic_Routes (gs_Dynamic s) else table)"
    unfolding 1(4) by (auto simp: 1(3) sameRoutes_iff Let_def)
  show ?case
    unfolding sorted table [symmetric]
    by (intro exI [of _ b]) (simp add: 1(1,2), simp add: 1(3) dp_readyz_def Let_def text_answer_def)
qed

section \<open>The properties on a concrete Gateway\<close>

definition example_deployment :: "unit deployment" where
  "example_deployment =
     \<lparr>dl_cr = toy_crypto, dl_q = id, dl_up = toy_url, dl_ul = id, dl_fl = fl_exact, dl_cfg = example_provision_cfg,
      dl_tenants = ''tenants'', dl_unm = example_caps, dl_join = example_join, dl_flags = example_dp_flags, dl_req = (''ns'', ''gw'')\<rparr>"

definition fresh_dp :: dataplane where
  "fresh_dp = example_dp\<lparr>dp_Source := empty_source, dp_Dynamic := \<lparr>dy_cfg = dp_proxy_cfg example_dp_flags None, dy_current = None\<rparr>\<rparr>"

definition fresh_system :: gw_system where
  "fresh_system =
     \<lparr>gs_Cluster = example_cluster, gs_Mounted = Inl (Error ErrNotExist ''open''), gs_Plane = fresh_dp, gs_Source = dp_Source fresh_dp,
      gs_Files = Map.empty, gs_Dynamic = dp_Dynamic fresh_dp, gs_Worlds = []\<rparr>"

lemma example_deployment_sel:
  "dl_cr example_deployment = toy_crypto" "dl_q example_deployment = id" "dl_up example_deployment = toy_url"
  "dl_ul example_deployment = id" "dl_fl example_deployment = fl_exact" "dl_cfg example_deployment = example_provision_cfg"
  "dl_tenants example_deployment = ''tenants''" "dl_unm example_deployment = example_caps" "dl_join example_deployment = example_join"
  "dl_flags example_deployment = example_dp_flags" "dl_req example_deployment = (''ns'', ''gw'')"
  by (simp_all add: example_deployment_def)

lemma fresh_system_reached: "sys_reach example_deployment fresh_system"
proof -
  have "load_cached toy_url (dp_source_cfg example_join example_dp_flags) (stored Map.empty p)
      \<lparr>dy_cfg = dp_proxy_cfg example_dp_flags None, dy_current = None\<rparr> = (dp_Source fresh_dp, dp_Dynamic fresh_dp)" for p
    by (simp add: load_cached_def LoadCache_def stored_def ReadRouteFile_def empty_source_def fresh_dp_def)
  from example_dp_starts [OF this]
  have run: "dataplane_run (dl_cr example_deployment) (dl_unm example_deployment) example_whois (dl_join example_deployment)
      example_dp_host (stored Map.empty p) (dl_flags example_deployment) = Inr fresh_dp" for p
    by (simp add: example_deployment_sel fresh_dp_def)
  have "map_of (cl_Objects example_cluster) (routes_key (''ns'', ''gw'')) = None"
    by (simp add: example_cluster_def routes_key_def)
  then show ?thesis
    unfolding fresh_system_def
    by (intro deployed [OF run]) (simp_all add: example_deployment_sel example_dp_host_def)
qed

lemma toy_url_stable: "url_stable toy_url"
  by (auto simp: url_stable_def toy_url_def service_url_def CutPrefix_def HasPrefix_def)

lemma example_world:
  "world_of example_gateway example_cluster = (example_gw, [example_http_route ''a''], list_services example_cluster)"
  "world_table id toy_url id (world_of example_gateway example_cluster) = [translated ''ns/a#0.0'']"
  by (simp_all add: world_of_def world_table_def example_cluster_sel example_table_translated)

lemma example_admitted: "admitted id toy_url id (world_of example_gateway example_cluster)"
proof -
  have names: "dns_label ''ns''" "dns_subdomain ''a''" "good_host ''App.ts.net''" "good_host ''*.ts.net''"
      "list_all service_named (list_services example_cluster)"
    by code_simp+
  have "file_ok f" if "Render (''ns'' @ ''/'' @ ''gw'') 3 [translated ''ns/a#0.0''] = Inr f" for f
    using that by (auto simp: Render_def translated_def entry_of_def file_ok_def entry_ok_def in_s64_def valid_utf8_ascii bv_def)
  then have "case Render (''ns'' @ ''/'' @ ''gw'') 3 [translated ''ns/a#0.0''] of Inl _ \<Rightarrow> True | Inr f \<Rightarrow> file_ok f"
    by (simp split: sum.split)
  moreover have "gw_Listeners example_gw = [\<lparr>ls_Hostname = Some ''*.ts.net'', ls_From = None\<rparr>]"
    by (simp add: example_gw_def)
  ultimately show ?thesis
    unfolding admitted_def example_world(2) unfolding example_world(1)
    by (simp add: names example_cluster_sel)
      (simp add: names route_named_def example_http_route_def example_rule_def HasPrefix_def)
qed

lemma example_cluster_reconciled:
  obtains cl' where "Reconcile (\<lambda>_. None) (dl_q example_deployment) (dl_up example_deployment) (dl_ul example_deployment)
      (dl_fl example_deployment) (dl_cfg example_deployment) (dl_tenants example_deployment) (GoTime 1 0) (dl_req example_deployment)
      example_cluster = (cl', None)"
  using example_reconciled(1) by (cases "example_reconcile (\<lambda>_. None) (GoTime 1 0) example_cluster") (simp add: example_deployment_sel)

lemma example_gateway_named:
  "map_of (cl_Gateways example_cluster) (dl_req example_deployment) = Some example_gateway"
  "(gw_Namespace (go_Gateway example_gateway), gw_Name (go_Gateway example_gateway)) = dl_req example_deployment"
  "admitted (dl_q example_deployment) (dl_up example_deployment) (dl_ul example_deployment) (world_of example_gateway example_cluster)"
  "url_stable (dl_up example_deployment)"
  by (simp_all add: example_cluster_sel example_deployment_sel example_admitted toy_url_stable)

lemmas example_reconcilable = example_gateway_named(1,2) example_cluster_sel(6,7) example_gateway_named(3,4)

theorem gateway_change_takes_effect_witness:
  "\<exists>cl' b src fs dyn. rendered_file cl' (''ns'', ''gw'') = Some b
     \<and> dp_poll toy_url (dp_SourceCfg fresh_dp) (Inr b, good_io) ((empty_source, Map.empty), gs_Dynamic fresh_system) = ((src, fs), dyn)
     \<and> dynamic_Routes dyn = [translated ''ns/a#0.0''] \<and> so_rev src = 3"
proof -
  obtain cl' where cl': "Reconcile (\<lambda>_. None) (dl_q example_deployment) (dl_up example_deployment) (dl_ul example_deployment)
      (dl_fl example_deployment) (dl_cfg example_deployment) (dl_tenants example_deployment) (GoTime 1 0) (dl_req example_deployment)
      example_cluster = (cl', None)"
    using example_cluster_reconciled .
  have sel: "gs_Plane fresh_system = fresh_dp" "gs_Source fresh_system = empty_source" "gs_Files fresh_system = Map.empty"
    "dynamic_Routes (gs_Dynamic fresh_system) = []"
    "map (\<lambda>r. r\<lparr>rt_ClaimHeaders := sort_key fst (rt_ClaimHeaders r)\<rparr>) [translated ''ns/a#0.0''] = [translated ''ns/a#0.0'']"
    "sans_headers [translated ''ns/a#0.0''] \<noteq> sans_headers []"
    by (simp_all add: fresh_system_def fresh_dp_def sans_headers_def translated_def dynamic_Routes_def)
  from gateway_change_takes_effect [OF cl' example_reconcilable fresh_system_reached, where io = good_io and quoted = id]
  obtain b where b: "rendered_file cl' (''ns'', ''gw'') = Some b"
      "case dp_poll toy_url (dp_SourceCfg fresh_dp) (Inr b, good_io) ((empty_source, Map.empty), gs_Dynamic fresh_system) of
         ((src, fs), dyn) \<Rightarrow> dynamic_Routes dyn = [translated ''ns/a#0.0''] \<and> so_rev src = 3"
    unfolding example_deployment_sel example_world(2) sel Let_def if_not_P [OF sel(6)] by (auto simp: example_cluster_sel case_prod_beta)
  obtain src fs dyn where
    "dp_poll toy_url (dp_SourceCfg fresh_dp) (Inr b, good_io) ((empty_source, Map.empty), gs_Dynamic fresh_system) = ((src, fs), dyn)"
    by (metis surj_pair)
  with b show ?thesis
    by (intro exI [of _ cl'] exI [of _ b] exI [of _ src] exI [of _ fs] exI [of _ dyn]) simp
qed

definition gateway_req :: http_req where
  "gateway_req = example_req\<lparr>hr_Host := ''app.ts.net'', hr_Path := ''/api''\<rparr>"

abbreviation fresh_mint :: mint_fun where
  "fresh_mint \<equiv> mint_at toy_crypto (\<lambda>_. None) (dp_Signer fresh_dp)
     (dp_world example_caps example_whois fresh_dp (dp_Keys fresh_dp) (time_Unix 1700000000) (Some (replicate 16 CHR 0x01)) 0)"

text \<open>The Gateway reconciled, its file mounted and read: it serves the one route.\<close>

lemma example_system:
  obtains s p where "sys_reach example_deployment s" "gs_Plane s = fresh_dp" "dy_current (gs_Dynamic s) = Some p"
    "pr_router p = [translated ''ns/a#0.0'']" "proxy_New ((dp_proxy_cfg (dp_Flags fresh_dp) None)\<lparr>px_Router := Some (pr_router p)\<rparr>) = Inr p"
proof -
  obtain cl' where cl': "Reconcile (\<lambda>_. None) (dl_q example_deployment) (dl_up example_deployment) (dl_ul example_deployment)
      (dl_fl example_deployment) (dl_cfg example_deployment) (dl_tenants example_deployment) (GoTime 1 0) (dl_req example_deployment)
      example_cluster = (cl', None)"
    using example_cluster_reconciled .
  have inv: "sys_inv example_deployment fresh_system"
    by (rule sys_inv_reach [OF fresh_system_reached example_gateway_named(4)])
  let ?t = "[translated ''ns/a#0.0'']"
  have t: "map sorted_route ?t = ?t" "\<not> sameRoutes [] ?t"
    by (simp_all add: sorted_route_def translated_def sameRoutes_def)
  obtain b src fs dyn where p: "rendered_file cl' (dl_req example_deployment) = Some b"
      "dp_poll (dl_up example_deployment) (dp_SourceCfg (gs_Plane fresh_system)) (Inr b, good_io)
        ((gs_Source fresh_system, gs_Files fresh_system), gs_Dynamic fresh_system) = ((src, fs), dyn)"
      "dynamic_Routes dyn = ?t"
    by (rule reconciled_is_served [OF cl' example_reconcilable inv refl, of good_io])
      (use t in \<open>simp add: example_deployment_sel example_world(2) fresh_system_def fresh_dp_def empty_source_def\<close>)
  define s1 where "s1 = fresh_system\<lparr>gs_Cluster := cl', gs_Worlds := gs_Worlds fresh_system @ [world_of example_gateway example_cluster]\<rparr>"
  have c: "gs_Cluster fresh_system = example_cluster"
    by (simp add: fresh_system_def)
  have "sys_step example_deployment fresh_system s1"
    unfolding s1_def using reconciled [of _ example_deployment _ fresh_system, unfolded c, OF cl' example_gateway_named(1-3)] .
  with fresh_system_reached have r1: "sys_reach example_deployment s1"
    by (rule moved)
  have "sys_step example_deployment s1 (s1\<lparr>gs_Mounted := Inr b\<rparr>)"
    using p(1) by (intro mounted) (simp add: s1_def)
  with r1 have r2: "sys_reach example_deployment (s1\<lparr>gs_Mounted := Inr b\<rparr>)"
    by (rule moved)
  let ?s = "s1\<lparr>gs_Mounted := Inr b, gs_Source := src, gs_Files := fs, gs_Dynamic := dyn\<rparr>"
  have "sys_step example_deployment (s1\<lparr>gs_Mounted := Inr b\<rparr>) ?s"
    using polled [of example_deployment "s1\<lparr>gs_Mounted := Inr b\<rparr>" good_io src fs dyn] p(2) by (simp add: s1_def)
  with r2 have r: "sys_reach example_deployment ?s"
    by (rule moved)
  have "sys_inv example_deployment ?s"
    by (rule sys_inv_reach [OF r example_gateway_named(4)])
  then have "in_step ((src, fs), dyn)" "dy_cfg dyn = dp_proxy_cfg (dp_Flags fresh_dp) None"
    by (simp_all add: sys_inv_def s1_def fresh_system_def fresh_dp_def example_dp_def)
  with p(3) show thesis
    by (cases "dy_current dyn")
      (auto simp: dynamic_Routes_def in_step_def dynamic_ok_def s1_def fresh_system_def dp_proxy_cfg_def intro!: that [OF r])
qed

lemma proxy_New_tenant: "proxy_New cfg = Inr p \<Longrightarrow> px_TenantFrom (pr_cfg p) = px_TenantFrom cfg"
  by (auto simp: proxy_New_def split: if_split_asm sum.split_asm)

lemma fresh_minted: "\<exists>tok c. fresh_mint ''100.64.0.1:1'' ''app.ns'' [] = Inr (tok, c)"
proof -
  have "\<not> blank ''app.ns''"
    by code_simp
  from minted_for_caller [OF this, of gw_signer "time_Unix 1700000000"] show ?thesis
    using caller_identified [of "dp_source (dp_Flags example_dp)"]
    by (simp add: mint_at_def dp_world_def dp_source_def fresh_dp_def example_dp_def source_Current_eq) blast
qed

theorem gateway_requests_follow_routes_witness:
  "\<exists>s calls out. sys_reach example_deployment s
     \<and> dynamic_serve id (gs_Dynamic s) fresh_mint (\<lambda>_. None) True fresh_mint gateway_req = (calls, Forwarded ''http://app.ns.svc:80'' out)
     \<and> (\<exists>w \<in> set (gs_Worlds s). \<exists>c. world_routes id toy_url w gateway_req ''http://app.ns.svc:80'' c)"
proof -
  obtain s p where s: "sys_reach example_deployment s" "gs_Plane s = fresh_dp" "dy_current (gs_Dynamic s) = Some p"
      "pr_router p = [translated ''ns/a#0.0'']"
      "proxy_New ((dp_proxy_cfg (dp_Flags fresh_dp) None)\<lparr>px_Router := Some (pr_router p)\<rparr>) = Inr p"
    using example_system .
  have cfg: "\<not> px_Gate (pr_cfg p)" "px_TenantFrom (pr_cfg p) = None"
    using proxy_New_gate [OF s(5)] proxy_New_tenant [OF s(5)] by (simp_all add: dp_proxy_cfg_def)
  have "router_Match id [translated ''ns/a#0.0''] q = Some (translated ''ns/a#0.0'')"
    if "hr_Host q = ''app.ts.net''" "hr_Path q = ''/api''" for q
  proof -
    have "request_host id q = ''app.ts.net''" "ToLower id ''app.ts.net'' = ''app.ts.net''" "TrimSuffix ''/api'' ''/'' = ''/api''"
      using that by (simp_all add: request_host_def) code_simp+
    with that show ?thesis
      by (simp add: router_Match_def score_key_def route_matches_def translated_def)
  qed
  then have m: "router_Match id (pr_router p) (strip_request p gateway_req) = Some (translated ''ns/a#0.0'')"
    by (simp add: s(4) strip_request_def gateway_req_def)
  obtain u where u: "rt_Upstream (translated ''ns/a#0.0'') = Some u"
      "\<And>tok c req. forward p tok c (translated ''ns/a#0.0'') req
         = ([CallForward u], Forwarded u (inject (pr_cfg p) tok c (translated ''ns/a#0.0'') req))"
    by (rule forward_ok [OF s(5) m]) metis
  obtain tok c where "fresh_mint ''100.64.0.1:1'' ''app.ns'' [] = Inr (tok, c)"
    using fresh_minted by blast
  moreover have "request_tenant (pr_cfg p) (translated ''ns/a#0.0'') q = []" "rt_Audience (translated ''ns/a#0.0'') = ''app.ns''"
      "u = ''http://app.ns.svc:80''" "hr_RemoteAddr (strip_request p gateway_req) = ''100.64.0.1:1''" for q
    using u(1) cfg by (simp_all add: request_tenant_def translated_def strip_request_def gateway_req_def example_req_def)
  ultimately obtain calls out where serve: "dynamic_serve id (gs_Dynamic s) fresh_mint (\<lambda>_. None) True fresh_mint gateway_req
      = (calls, Forwarded ''http://app.ns.svc:80'' out)"
    using m u(2) cfg by (simp add: dynamic_serve_def s(3) serve_def Let_def)
  have "dynamic_serve (dl_ul example_deployment) (gs_Dynamic s)
      (mint_at (dl_cr example_deployment) (\<lambda>_. None) (dp_Signer (gs_Plane s))
        (dp_world example_caps example_whois (gs_Plane s) (dp_Keys fresh_dp) (time_Unix 1700000000) (Some (replicate 16 CHR 0x01)) 0))
      (\<lambda>_. None) True
      (mint_at (dl_cr example_deployment) (\<lambda>_. None) (dp_Signer (gs_Plane s))
        (dp_world example_caps example_whois (gs_Plane s) (dp_Keys fresh_dp) (time_Unix 1700000000) (Some (replicate 16 CHR 0x01)) 0))
      gateway_req = (calls, Forwarded ''http://app.ns.svc:80'' out)"
    using serve by (simp add: example_deployment_sel s(2))
  from gateway_requests_follow_routes [OF s(1) example_gateway_named(4) this] serve s(1) show ?thesis
    unfolding example_deployment_sel by blast
qed

end
