(* ===== verification/Spec2Isabelle.thy ===== *)
theory Spec2Isabelle
  imports K8sStore Remote Gate Delivery Reconcile Echo Controller Loadtarget GatewaySystem
begin

text \<open>
  A verification development for the Go module \<open>tsjwt\<close>: services behind a tailnet learn who
  calls them from a signed token.  A proxy on the tailnet asks the tailnet's daemon who is at the
  other end of a connection, resolves that identity to tenants and roles, mints a short-lived ES256
  token for one tenant and one audience, and forwards the request with the token in a header it has
  first taken away from the caller.  The backend's verifier fetches the proxy's public keys and
  checks the token.  A Kubernetes controller does the same for the Gateway API: it translates
  HTTPRoutes into a route table, provisions a data plane for each Gateway, and the data plane reads
  the table and runs the proxy.

  \<^bold>\<open>How the parts meet.\<close>  \<open>signer.Mint\<close> asks an identity source (package \<open>tsnetid\<close>), a tenant
  resolver (package \<open>tsjwt\<close>) and a key source (package \<open>keys\<close>).  \<open>proxy.Proxy\<close> picks a route, waits at
  a gate where one is configured, calls \<open>Mint\<close> and hands the request to the reverse proxy of the
  route's upstream.  \<open>verifier.Verify\<close> asks a key source for the key of the token's id (a local set
  or \<open>verifier.Remote\<close>) and a replay guard.  Replicas share their public keys through
  \<open>keys.Published\<close> over \<open>k8sstore\<close>.  \<open>gateway.Translate\<close>, \<open>routetable.Render\<close>, the ConfigMap,
  \<open>routetable.FileSource\<close> and \<open>proxy.Dynamic\<close> carry the routes from the API server to the proxy that
  serves them.  The commands read flags, check them and wire these parts together.

  \<^bold>\<open>The theories\<close>, each with the source it models (paths are under \<open>src/\<close>).  A Go struct is a record
  with one field per Go field, prefixed to keep names apart; a method is a definition with the
  method's name; a Go string is a list of bytes.

  \<^item> \<open>Prelude\<close>: errors (the sentinel of \<open>identity.go\<close> and the other packages that an error wraps,
    and its text), package \<open>strings\<close>, decimal printing, lists.  \<open>GoTime\<close>: \<open>time.Time\<close> and
    \<open>time.Duration\<close> at 64 bits, with their saturation and wrap-around, as a linear order.
    \<open>Utf8\<close>, \<open>Json\<close>, \<open>Decode\<close>, \<open>Base64\<close>, \<open>Http\<close>, \<open>Flags\<close>: what the sources use of \<open>unicode/utf8\<close>,
    \<open>encoding/json\<close>, \<open>encoding/base64\<close>, \<open>math/big\<close>, \<open>net/http\<close>, \<open>flag\<close> and \<open>time.ParseDuration\<close>.
  \<^item> \<open>Tenancy\<close> (\<open>identity.go\<close>, \<open>tenant.go\<close>), \<open>Policy\<close> (\<open>policy.go\<close>), \<open>Claims\<close> (\<open>claims.go\<close>,
    \<open>context.go\<close>): identities, tenants, grants and the resolvers; the policy file; the payload of
    a token and the header that carries it.
  \<^item> \<open>Jwt\<close> (\<open>jwt/jwt.go\<close>, \<open>jwt/curve.go\<close>), \<open>Keys\<close> (\<open>keys/keys.go\<close>), \<open>Published\<close>
    (\<open>keys/shared.go\<close>), \<open>K8sStore\<close> (\<open>k8sstore/k8sstore.go\<close>): signing; the rotating key set; the set
    that replicas publish together; the ConfigMap it is kept in.
  \<^item> \<open>Signer\<close> (\<open>signer/signer.go\<close>), \<open>Verifier\<close> (\<open>verifier/verifier.go\<close>), \<open>Remote\<close>
    (\<open>verifier/remote.go\<close>): minting, checking, fetching keys.
  \<^item> \<open>Router\<close>, \<open>Gate\<close>, \<open>Proxy\<close>, \<open>ReverseProxy\<close>, \<open>Dynamic\<close> (\<open>proxy/router.go\<close>, \<open>wait.go\<close>, \<open>proxy.go\<close> with
    \<open>errors.go\<close>, \<open>dynamic.go\<close>): the route table, the gate, the handler up to the request it hands to
    the reverse proxy of the upstream, what that one makes of the request, the replacement of the table.
  \<^item> \<open>RouteFile\<close>, \<open>FileSource\<close> (\<open>routetable/routefile.go\<close>, \<open>filesource.go\<close>): the rendered table and
    its reader.
  \<^item> \<open>GatewayRoutes\<close>, \<open>Watcher\<close>, \<open>Provision\<close>, \<open>Reconcile\<close> (\<open>gateway/routes.go\<close>, \<open>watcher.go\<close>,
    \<open>provision.go\<close>, \<open>reconcile.go\<close>): the translation, the poller, the provisioned objects, the
    controller over a store of Kubernetes objects.
  \<^item> \<open>Tsnet\<close>, \<open>AuthKey\<close> (\<open>tsnetid/tsnetid.go\<close>, \<open>authkey.go\<close>): the caller's identity; the auth key and
    its expiry.
  \<^item> \<open>Daemon\<close> (what the next two share), \<open>Tsjwtd\<close> (\<open>tsnetid/cmd/tsjwtd/main.go\<close>), \<open>Dataplane\<close>
    (\<open>gateway/cmd/tsjwt-dataplane/main.go\<close>), \<open>Echo\<close> (\<open>cmd/tsjwt-echo/main.go\<close>), \<open>Controller\<close>
    (\<open>gateway/cmd/tsjwt-controller/main.go\<close>), \<open>Loadtarget\<close> (\<open>internal/loadtarget/main.go\<close>): the
    commands, from flags to what their listeners answer.
  \<^item> \<open>Delivery\<close>: a request through proxy, reverse proxy and verifier to the backend's handler.  \<open>GatewaySystem\<close>: a
    Gateway as deployed, from the API server to the forwarded request.
\<close>

text \<open>
  \<^bold>\<open>State and steps.\<close>  Code under a mutex is one step on an explicit state: \<open>keyset\<close>, \<open>published\<close>,
  \<open>remote\<close>, the memory replay guard (a map from token ids to expiries), \<open>gate\<close>, \<open>source\<close>, \<open>watcher\<close>,
  \<open>dynamic\<close>, \<open>cluster\<close>.  Interleavings are explicit: \<open>gstep\<close> is the step relation of the gate under
  any number of requests and probes; \<open>Publish\<close> lets the other replicas change the store between its
  load and its save; \<open>key_run\<close> runs a daemon's rotations and merges in any order; \<open>sys_step\<close> has the
  controller, everybody else's edits of the cluster, the kubelet that mounts the route file, the
  polls of the data plane and its restarts move in any order, any of their calls failing.  It assumes
  of its surroundings that nobody but the controller writes the Gateway's ConfigMap (it may be
  deleted), that the objects are ones the API server admits (\<open>admitted\<close>), and that \<open>url.Parse\<close> reads
  back the URL of a Service whose name and namespace are DNS labels (\<open>url_stable\<close>).  \<open>admitted\<close> asks for
  what the API server and the Gateway API's own validation check: DNS labels for namespaces and Services,
  DNS subdomains (dots included) for HTTPRoutes, hostnames in ASCII with at most a leading wildcard, a
  leading slash in prefix paths (regular expressions are free), text in UTF-8 and 64-bit generations.
  The worlds in its state are history, for the proofs only.  A \<open>cluster\<close> keeps objects as they were
  written, and a log of every write issued, so that a write of an equal object and no write differ.
  Errors are values: \<open>'a result\<close> is an error or a value, and each branch of the code that fails is a branch here.

  \<^bold>\<open>Interfaces.\<close>  Each Go interface with a contract is a locale, interpreted on the model of every
  implementation: \<open>tenant_resolver\<close> (the static, group and policy resolvers), \<open>signing_keys\<close> (the key
  set, the published keys, the key source of the daemons), \<open>verification_keys\<close> (local and remote
  keys), \<open>replay_guard\<close> (the memory guard), \<open>entry_store\<close> (the ConfigMap store), \<open>minting\<close> (the signer
  as the proxy sees it), \<open>polled_table\<close> (the watcher and the file source).

  \<^bold>\<open>What the lemmas show.\<close>  \<^emph>\<open>Isolation\<close>: a token names one tenant of the caller's grant with that
  tenant's roles, an accepted token was signed by the key of its id for this issuer and audience, and
  each of the two daemons forwards a request only with a token minted for the peer that \<open>WhoIs\<close>
  named.  \<^emph>\<open>Stripping\<close>: what is handed to the reverse proxy in the assertion header and the claim
  headers does not depend on what the caller sent there.  \<^emph>\<open>Liveness\<close>: what is minted is accepted until it expires,
  across key rotations and between replicas, and reaches the handler behind the verifier of its
  audience and no other; the one way a caller can break this is to name the assertion header in a
  \<open>Connection\<close> header, which has the reverse proxy drop it.  \<^emph>\<open>Keys\<close>: rotation overlap, thumbprints as ids, no lost updates in the shared
  store, at most five attempts.  \<^emph>\<open>Gate\<close>: exact counts, limits, and no lost wake-up.  \<^emph>\<open>Routes\<close>: the
  router's choice, the confinement of a route to Services of its namespace and audiences it may
  name, independence of listing order, the round trip from the controller's ConfigMap to the data
  plane's table, and both together over any run of the Gateway: every forwarded request goes where
  an HTTPRoute the controller has seen sends it, and what is reconciled is served (all but an edit
  of claim headers alone, which \<open>keep_table\<close> passes over).  \<^emph>\<open>Controller\<close>: a second reconcile writes
  nothing but the Gateway's status, ownership, honest status, and which changes of the cluster are
  noticed.  \<^emph>\<open>Formats\<close>: JSON,
  base64url, claims, tokens and route tables read back as what was written.  Lemmas that show
  a surprising behaviour of the code (among them \<open>replay_within_leeway_happens\<close>,
  \<open>connection_header_removes_assertion\<close>, \<open>claim_header_edit_ignored\<close>, \<open>extra_claim_becomes_roles\<close>)
  stand at the end of the theory they concern.

  \<^bold>\<open>Parameters.\<close>  Code that is not in the repository is an argument: ECDSA and SHA-256 (\<open>crypto\<close>, with
  the hypothesis \<open>crypto_ok\<close>), the Kubernetes API server (\<open>srv\<close> with \<open>api_contract\<close>, and \<open>api\<close> for the
  controller's client), the tailnet's \<open>WhoIs\<close> and capability decoding (\<open>whois\<close>, \<open>unm\<close>), HTTP clients,
  \<open>url.Parse\<close>, \<open>strings.ToLower\<close> outside ASCII, \<open>float64\<close> conversions, RFC 3339 times, randomness and
  the clock.  The witnesses instantiate them with concrete functions.

  \<^bold>\<open>Fuel and bounds.\<close>  The JSON parser recurses on fuel; \<open>parse_fuel\<close> shows that twice the length of the
  input plus two is enough, which is what the callers give.  \<open>TrimSpace\<close> takes the length of its input.
  \<open>publish_loop\<close> counts down the five attempts of the code.  Every other loop is structural on
  the list the code ranges over.  Durations, instants, the splay and the parsed
  flags are computed at 64 bits; lemmas that need a clock within 73 billion years of year 1 say so
  with \<open>sane_time\<close>.

  \<^bold>\<open>Not modelled.\<close>  The life of the processes: accepting connections, signals, the shutdown itself
  and logging (the servers are modelled as what they listen on, serve and bound).  The caches, queues
  and leader election of the controller's manager, which is \<open>controller-runtime\<close>: the model has what
  the manager is set up with and which requests the watches make.  What
  the transport does with the request that \<open>httputil.ReverseProxy\<close> sends, apart from its settings (the
  header fields of \<open>sent\<close> are taken to arrive as they are), the response on its way back, and the
  upstream's own errors.  Concurrent calls of \<open>RemoteKeys.Key\<close> between its critical sections: each
  call is one step.  Defaults that an API server fills into the objects it stores.  The TCP dial
  of the readiness probe, beyond its address.  Patterns of \<open>http.ServeMux\<close> other than the ones the
  commands register.  The monotonic clock reading.  The text of library errors.  The tests.
\<close>

end
